(* ===== verification/Prelude.thy ===== *)
theory Prelude imports Complex_Main begin

text \<open>
  Shared vocabulary of the development: Python strings, ordered dictionaries, results of
  fallible code, and the generic facts about them that the component theories use.

  A Python \<open>str\<close> is a \<open>string\<close>, that is a list of characters; the strings the
  modelled code inspects (identifiers, device labels, state names) are ASCII, so case
  conversion is the ASCII one. A Python \<open>float\<close> is a \<open>real\<close>, an \<open>int\<close> an \<open>int\<close>.
  Clock readings (\<open>time.monotonic()\<close>, \<open>datetime.now\<close>) are arguments of the operations.
\<close>

named_theorems py_str "facts about the Python string operations"

section \<open>Results of fallible code\<close>

text \<open>\<open>Inl\<close> carries what is raised, \<open>Inr\<close> what is returned.\<close>

type_synonym ('e, 'a) result = "'e + 'a"

definition is_ok :: "('e, 'a) result \<Rightarrow> bool" where
  "is_ok r = (case r of Inl _ \<Rightarrow> False | Inr _ \<Rightarrow> True)"

lemma is_ok_simps [simp]: "is_ok (Inr a)" "\<not> is_ok (Inl e)"
  by (simp_all add: is_ok_def)

lemma is_ok_iff: "is_ok r \<longleftrightarrow> (\<exists>a. r = Inr a)"
  by (cases r) simp_all

section \<open>Python strings\<close>

text \<open>The characters below 256 for which \<open>str.isspace\<close> holds.\<close>

definition py_space :: "char \<Rightarrow> bool" where
  "py_space c =
     (let n = of_char c :: nat
      in (9 \<le> n \<and> n \<le> 13) \<or> (28 \<le> n \<and> n \<le> 32) \<or> n = 133 \<or> n = 160)"

definition py_lstrip :: "string \<Rightarrow> string" where
  "py_lstrip s = dropWhile py_space s"

definition py_strip :: "string \<Rightarrow> string" where
  "py_strip s = rev (dropWhile py_space (rev (py_lstrip s)))"

definition py_upper_char :: "char \<Rightarrow> char" where
  "py_upper_char c =
     (let n = of_char c :: nat in if 97 \<le> n \<and> n \<le> 122 then char_of (n - 32) else c)"

definition py_upper :: "string \<Rightarrow> string" where
  "py_upper s = map py_upper_char s"

definition py_lower_char :: "char \<Rightarrow> char" where
  "py_lower_char c =
     (let n = of_char c :: nat in if 65 \<le> n \<and> n \<le> 90 then char_of (n + 32) else c)"

definition py_lower :: "string \<Rightarrow> string" where
  "py_lower s = map py_lower_char s"

fun py_startswith :: "string \<Rightarrow> string \<Rightarrow> bool" where
  "py_startswith s [] = True"
| "py_startswith [] (p # ps) = False"
| "py_startswith (c # cs) (p # ps) = (c = p \<and> py_startswith cs ps)"

text \<open>\<open>s.split(',')\<close>: always at least one part, empty parts kept.\<close>

fun py_split_comma :: "string \<Rightarrow> string list" where
  "py_split_comma [] = [[]]"
| "py_split_comma (c # cs) =
     (if c = CHR '','' then [] # py_split_comma cs
      else (case py_split_comma cs of [] \<Rightarrow> [[c]] | p # ps \<Rightarrow> (c # p) # ps))"

lemma py_strip_Nil [simp]: "py_strip [] = []"
  by (simp add: py_strip_def py_lstrip_def)

lemma py_upper_char_idem [simp, py_str]: "py_upper_char (py_upper_char c) = py_upper_char c"
proof (cases "97 \<le> (of_char c :: nat) \<and> (of_char c :: nat) \<le> 122")
  case True
  then have small: "(of_char c :: nat) - 32 < 97" by linarith
  with True have "(of_char (py_upper_char c) :: nat) = of_char c - 32"
    by (simp add: py_upper_char_def Let_def)
  with small show ?thesis
    by (simp add: py_upper_char_def [of "py_upper_char c"] Let_def)
next
  case False
  then have "py_upper_char c = c" by (auto simp add: py_upper_char_def Let_def)
  then show ?thesis by simp
qed

lemma py_upper_idem [simp, py_str]: "py_upper (py_upper s) = py_upper s"
  by (simp add: py_upper_def)

lemma py_split_comma_nonempty [simp]: "py_split_comma s \<noteq> []"
  by (induction s) (auto split: list.splits)

lemma dropWhile_rev_dropWhile:
  "dropWhile p (rev (dropWhile p (rev (dropWhile p s)))) = rev (dropWhile p (rev (dropWhile p s)))"
proof (cases "dropWhile p s")
  case (Cons c cs)
  then have "\<not> p c" by (metis hd_dropWhile list.distinct(1) list.sel(1))
  then have "dropWhile p (rev cs @ [c]) = dropWhile p (rev cs) @ [c]"
    by (auto simp: dropWhile_append)
  with Cons \<open>\<not> p c\<close> show ?thesis by simp
next
  case Nil
  then show ?thesis by (simp only: rev.simps dropWhile.simps)
qed

lemma py_strip_idem [simp, py_str]: "py_strip (py_strip s) = py_strip s"
proof -
  have "dropWhile py_space (py_strip s) = py_strip s"
    unfolding py_strip_def py_lstrip_def by (rule dropWhile_rev_dropWhile)
  then have "py_strip (py_strip s) = rev (dropWhile py_space (rev (py_strip s)))"
    by (simp add: py_strip_def py_lstrip_def)
  also have "\<dots> = py_strip s"
    by (simp add: py_strip_def)
  finally show ?thesis .
qed

section \<open>Ordered dictionaries\<close>

text \<open>
  A Python dictionary whose iteration order matters: an association list in insertion
  order. Storing under a present key keeps its position, a new key goes to the end.
\<close>

fun dict_set :: "'k \<Rightarrow> 'v \<Rightarrow> ('k \<times> 'v) list \<Rightarrow> ('k \<times> 'v) list" where
  "dict_set k v [] = [(k, v)]"
| "dict_set k v ((k', v') # d) =
     (if k' = k then (k, v) # d else (k', v') # dict_set k v d)"

lemma map_of_dict_set [simp]: "map_of (dict_set k v d) = (map_of d)(k \<mapsto> v)"
  by (induction k v d rule: dict_set.induct) (auto simp: fun_eq_iff)

lemma keys_dict_set:
  "map fst (dict_set k v d) = (if k \<in> fst ` set d then map fst d else map fst d @ [k])"
  by (induction k v d rule: dict_set.induct) auto

lemma keys_dict_set_present [simp]:
  "k \<in> fst ` set d \<Longrightarrow> map fst (dict_set k v d) = map fst d"
  by (simp add: keys_dict_set)

lemma distinct_dict_set [intro]:
  "distinct (map fst d) \<Longrightarrow> distinct (map fst (dict_set k v d))"
  by (auto simp: keys_dict_set)

lemma map_of_SomeD_key: "map_of d k = Some v \<Longrightarrow> k \<in> fst ` set d"
  by (metis map_of_eq_None_iff option.distinct(1))

end
