(* ===== verification/PlcStates.thy ===== *)
theory PlcStates imports Prelude begin

text \<open>
  The LED and system-state enums of \<open>plc_core/states.py\<close>, the state-to-LED table, and the
  log-only \<open>PLCClient\<close> of \<open>plc_core/client.py\<close>. The locale \<open>plc_state_client\<close> is the
  interface that module promises to its callers: only \<open>set_state\<close> and \<open>get_status\<close>.
\<close>

section \<open>Enums and the LED table\<close>

datatype led_color = GREEN | YELLOW | RED | WHITE

datatype led_mode = SOLID | PULSE | FLASH

datatype system_state = IDLE | LISTENING | INFERRING | MOVING | ERROR | E_STOP | WATCHDOG

text \<open>Iteration over the enum class runs in declaration order.\<close>

instantiation system_state :: enum
begin
definition enum_system_state :: "system_state list" where
  "enum_system_state = [IDLE, LISTENING, INFERRING, MOVING, ERROR, E_STOP, WATCHDOG]"
definition enum_all_system_state :: "(system_state \<Rightarrow> bool) \<Rightarrow> bool" where
  "enum_all_system_state P = list_all P [IDLE, LISTENING, INFERRING, MOVING, ERROR, E_STOP, WATCHDOG]"
definition enum_ex_system_state :: "(system_state \<Rightarrow> bool) \<Rightarrow> bool" where
  "enum_ex_system_state P = list_ex P [IDLE, LISTENING, INFERRING, MOVING, ERROR, E_STOP, WATCHDOG]"
instance
proof
  show univ: "(UNIV :: system_state set) = set enum_class.enum"
    by (auto simp: enum_system_state_def) (metis system_state.exhaust)
  show "distinct (enum_class.enum :: system_state list)"
    by (simp add: enum_system_state_def)
  show "enum_class.enum_all P \<longleftrightarrow> Ball UNIV P" for P :: "system_state \<Rightarrow> bool"
    by (simp add: univ enum_all_system_state_def enum_system_state_def)
  show "enum_class.enum_ex P \<longleftrightarrow> Bex UNIV P" for P :: "system_state \<Rightarrow> bool"
    by (simp add: univ enum_ex_system_state_def enum_system_state_def)
qed
end

fun color_value :: "led_color \<Rightarrow> string" where
  "color_value GREEN = ''green''"
| "color_value YELLOW = ''yellow''"
| "color_value RED = ''red''"
| "color_value WHITE = ''white''"

fun mode_value :: "led_mode \<Rightarrow> string" where
  "mode_value SOLID = ''solid''"
| "mode_value PULSE = ''pulse''"
| "mode_value FLASH = ''flash''"

fun state_value :: "system_state \<Rightarrow> string" where
  "state_value IDLE = ''idle''"
| "state_value LISTENING = ''listening''"
| "state_value INFERRING = ''inferring''"
| "state_value MOVING = ''moving''"
| "state_value ERROR = ''error''"
| "state_value E_STOP = ''e_stop''"
| "state_value WATCHDOG = ''watchdog''"

text \<open>\<open>SystemState(s)\<close>: the member with that value, \<open>ValueError\<close> (here \<open>None\<close>) if none.\<close>

definition parse_state :: "string \<Rightarrow> system_state option" where
  "parse_state s = find (\<lambda>st. state_value st = s) enum_class.enum"

fun STATE_LED_MAP :: "system_state \<Rightarrow> led_color \<times> led_mode" where
  "STATE_LED_MAP IDLE = (GREEN, SOLID)"
| "STATE_LED_MAP LISTENING = (YELLOW, PULSE)"
| "STATE_LED_MAP INFERRING = (GREEN, FLASH)"
| "STATE_LED_MAP MOVING = (RED, PULSE)"
| "STATE_LED_MAP ERROR = (RED, FLASH)"
| "STATE_LED_MAP E_STOP = (RED, SOLID)"
| "STATE_LED_MAP WATCHDOG = (WHITE, FLASH)"

lemma state_value_inject [simp]: "state_value a = state_value b \<longleftrightarrow> a = b"
  by (cases a; cases b) simp_all

lemma parse_state_value [simp]: "parse_state (state_value st) = Some st"
  by (cases st) (simp_all add: parse_state_def enum_system_state_def)

lemma parse_state_SomeD: "parse_state s = Some st \<Longrightarrow> s = state_value st"
  by (auto simp: parse_state_def find_Some_iff)

lemma parse_state_NoneD: "parse_state s = None \<Longrightarrow> s \<noteq> state_value st"
  by auto

lemma parse_state_Some_iff: "parse_state s = Some st \<longleftrightarrow> s = state_value st"
  by (auto dest: parse_state_SomeD)

lemma STATE_LED_MAP_inject: "STATE_LED_MAP a = STATE_LED_MAP b \<longleftrightarrow> a = b"
  by (cases a; cases b) simp_all

section \<open>Status snapshots\<close>

record plc_status =
  led_color :: led_color
  led_mode :: led_mode
  system_state :: system_state

definition status_of :: "system_state \<Rightarrow> plc_status" where
  "status_of st =
     \<lparr>led_color = fst (STATE_LED_MAP st), led_mode = snd (STATE_LED_MAP st), system_state = st\<rparr>"

lemma status_of_simps [simp]:
  "system_state (status_of st) = st"
  "led_color (status_of st) = fst (STATE_LED_MAP st)"
  "led_mode (status_of st) = snd (STATE_LED_MAP st)"
  by (simp_all add: status_of_def)

lemma status_of_inject [simp]: "status_of a = status_of b \<longleftrightarrow> a = b"
  by (auto simp: status_of_def)

section \<open>The client interface and the mock client\<close>

locale plc_state_client =
  fixes set_st :: "system_state \<Rightarrow> 'c \<Rightarrow> plc_status \<times> 'c"
    and get_st :: "'c \<Rightarrow> plc_status"
  assumes set_returns_snapshot: "fst (set_st st c) = get_st (snd (set_st st c))"
    and set_then_get: "get_st (snd (set_st st c)) = status_of st"
begin

definition set_many :: "system_state list \<Rightarrow> 'c \<Rightarrow> 'c" where
  "set_many sts c = foldl (\<lambda>c st. snd (set_st st c)) c sts"

lemma last_set_wins: "sts \<noteq> [] \<Longrightarrow> get_st (set_many sts c) = status_of (last sts)"
  by (cases sts rule: rev_cases) (simp_all add: set_many_def set_then_get)

lemma snapshot_identifies_state:
  "fst (set_st a c) = fst (set_st b c') \<Longrightarrow> a = b"
  by (simp add: set_returns_snapshot set_then_get)

end

record mock_client =
  mk_port :: string
  mk_baudrate :: int
  mk_connected :: bool
  mk_current_state :: system_state

definition mock_init :: "string \<Rightarrow> int \<Rightarrow> mock_client" where
  "mock_init port baudrate =
     \<lparr>mk_port = port, mk_baudrate = baudrate, mk_connected = False, mk_current_state = IDLE\<rparr>"

definition mock_connect :: "mock_client \<Rightarrow> bool \<times> mock_client" where
  "mock_connect c = (True, c\<lparr>mk_connected := True\<rparr>)"

definition mock_disconnect :: "mock_client \<Rightarrow> mock_client" where
  "mock_disconnect c = c\<lparr>mk_connected := False\<rparr>"

definition mock_is_connected :: "mock_client \<Rightarrow> bool" where
  "mock_is_connected c = mk_connected c"

definition mock_get_status :: "mock_client \<Rightarrow> plc_status" where
  "mock_get_status c =
     (let (color, mode) = STATE_LED_MAP (mk_current_state c)
      in \<lparr>led_color = color, led_mode = mode, system_state = mk_current_state c\<rparr>)"

text \<open>\<open>set_led\<close> only logs and returns \<open>True\<close>; its result is not used by \<open>set_state\<close>.\<close>

definition mock_set_led :: "led_color \<Rightarrow> led_mode \<Rightarrow> mock_client \<Rightarrow> bool \<times> mock_client" where
  "mock_set_led color mode c = (True, c)"

definition mock_set_state :: "system_state \<Rightarrow> mock_client \<Rightarrow> plc_status \<times> mock_client" where
  "mock_set_state st c =
     (let (color, mode) = STATE_LED_MAP st;
          c1 = c\<lparr>mk_current_state := st\<rparr>;
          (_, c2) = mock_set_led color mode c1
      in (mock_get_status c2, c2))"

definition mock_set_error :: "mock_client \<Rightarrow> plc_status \<times> mock_client" where
  "mock_set_error = mock_set_state ERROR"

definition mock_set_estop :: "mock_client \<Rightarrow> plc_status \<times> mock_client" where
  "mock_set_estop = mock_set_state E_STOP"

lemma mock_get_status_eq: "mock_get_status c = status_of (mk_current_state c)"
  by (simp add: mock_get_status_def status_of_def split: prod.splits)

lemma mock_set_state_eq:
  "mock_set_state st c = (status_of st, c\<lparr>mk_current_state := st\<rparr>)"
  by (simp add: mock_set_state_def mock_set_led_def mock_get_status_eq split: prod.splits)

interpretation mock: plc_state_client mock_set_state mock_get_status
  by unfold_locales (simp_all add: mock_set_state_eq mock_get_status_eq)

end
