(* ===== verification/PlcConfig.thy ===== *)
theory PlcConfig imports PlcStates begin

text \<open>
  \<open>plc_core/config.py\<close>: the frozen \<open>ModbusPLCConfig\<close>, its \<open>__post_init__\<close> validation in the
  order of the source, the label lookups, and the parsers for the flat ROS parameters.
  Each \<open>raise PLCConfigError(...)\<close> is a constructor of \<open>plc_config_error\<close>.
\<close>

section \<open>Data\<close>

datatype plc_config_error =
    StartArraysLength
  | NoStartCoil
  | PulseNotPositive
  | ResetNotM
  | WatchdogNotM
  | WatchdogAddressRequired
  | WatchdogLabelRequired
  | EstopAddressRequired
  | EstopLabelRequired
  | StartLabelNotM string
  | UnknownOutputLabel system_state string
  | UnknownStartLabel string
  | UnsupportedState string
  | StateSpecsLength
  | UnsupportedMLabel string
  | BadHexLabel string

text \<open>Keys and values that \<open>system_state_outputs\<close> may hold before it is normalized.\<close>

datatype state_key = KState system_state | KStr string

datatype label_spec = LStr string | LSeq "string list"

type_synonym raw_outputs = "(state_key \<times> label_spec) list"

record modbus_config =
  port :: string
  baudrate :: int
  parity :: string
  stopbits :: int
  bytesize :: int
  device_id :: int
  start_coil_labels :: "string list"
  start_coil_addresses :: "int list"
  start_coil_outputs :: "string list"
  reset_coil_label :: string
  reset_coil_address :: int
  read_register_label :: string
  read_register_address :: int
  write_register_label :: string
  write_register_address :: int
  pulse_duration_s :: real
  watchdog_coil_label :: "string option"
  watchdog_coil_address :: "int option"
  estop_input_label :: "string option"
  estop_input_address :: "int option"
  system_state_outputs :: "system_state \<Rightarrow> string list"

text \<open>An optional label counts as set when it is neither \<open>None\<close> nor empty.\<close>

definition label_set :: "string option \<Rightarrow> bool" where
  "label_set l = (case l of None \<Rightarrow> False | Some s \<Rightarrow> s \<noteq> [])"

definition is_m_label :: "string \<Rightarrow> bool" where
  "is_m_label l = py_startswith (py_upper l) ''M''"

section \<open>Normalizing the output mapping\<close>

definition empty_system_state_outputs :: "system_state \<Rightarrow> string list" where
  "empty_system_state_outputs = (\<lambda>_. [])"

definition split_labels :: "string \<Rightarrow> string list" where
  "split_labels s =
     map (\<lambda>l. py_upper (py_strip l)) (filter (\<lambda>l. py_strip l \<noteq> []) (py_split_comma s))"

fun key_state :: "state_key \<Rightarrow> (plc_config_error, system_state) result" where
  "key_state (KState st) = Inr st"
| "key_state (KStr s) =
     (case parse_state s of None \<Rightarrow> Inl (UnsupportedState s) | Some st \<Rightarrow> Inr st)"

fun spec_labels :: "label_spec \<Rightarrow> string list" where
  "spec_labels (LStr s) = split_labels s"
| "spec_labels (LSeq ls) = map (\<lambda>l. py_upper (py_strip l)) ls"

fun normalize_outputs ::
  "raw_outputs \<Rightarrow> (system_state \<Rightarrow> string list) \<Rightarrow>
   (plc_config_error, system_state \<Rightarrow> string list) result" where
  "normalize_outputs [] acc = Inr acc"
| "normalize_outputs ((k, v) # rest) acc =
     (case key_state k of
        Inl e \<Rightarrow> Inl e
      | Inr st \<Rightarrow> normalize_outputs rest (acc(st := spec_labels v)))"

definition normalize_system_state_outputs ::
  "raw_outputs \<Rightarrow> (plc_config_error, system_state \<Rightarrow> string list) result" where
  "normalize_system_state_outputs outputs = normalize_outputs outputs empty_system_state_outputs"

text \<open>The first (state, label), in iteration order, that names no configured start coil.\<close>

definition unknown_output ::
  "string set \<Rightarrow> (system_state \<Rightarrow> string list) \<Rightarrow> (system_state \<times> string) option" where
  "unknown_output configured outs =
     find (\<lambda>(st, l). py_upper l \<notin> configured)
       (concat (map (\<lambda>st. map (Pair st) (outs st)) enum_class.enum))"

section \<open>Validation\<close>

text \<open>
  \<open>__post_init__\<close>: the checks in source order. The argument \<open>raw\<close> is the mapping the
  constructor was given; the result holds the normalized one.
\<close>

definition post_init ::
  "modbus_config \<Rightarrow> raw_outputs \<Rightarrow> (plc_config_error, modbus_config) result" where
  "post_init c raw =
     (if \<not> (length (start_coil_labels c) = length (start_coil_addresses c)
            \<and> length (start_coil_addresses c) = length (start_coil_outputs c))
      then Inl StartArraysLength
      else if start_coil_labels c = [] then Inl NoStartCoil
      else if pulse_duration_s c \<le> 0 then Inl PulseNotPositive
      else if \<not> is_m_label (reset_coil_label c) then Inl ResetNotM
      else if label_set (watchdog_coil_label c)
              \<and> \<not> is_m_label (the (watchdog_coil_label c)) then Inl WatchdogNotM
      else if label_set (watchdog_coil_label c) \<and> watchdog_coil_address c = None
      then Inl WatchdogAddressRequired
      else if watchdog_coil_address c \<noteq> None \<and> \<not> label_set (watchdog_coil_label c)
      then Inl WatchdogLabelRequired
      else if label_set (estop_input_label c) \<and> estop_input_address c = None
      then Inl EstopAddressRequired
      else if estop_input_address c \<noteq> None \<and> \<not> label_set (estop_input_label c)
      then Inl EstopLabelRequired
      else (case find (\<lambda>l. \<not> is_m_label l) (start_coil_labels c) of
          Some l \<Rightarrow> Inl (StartLabelNotM l)
        | None \<Rightarrow>
            (case normalize_system_state_outputs raw of
               Inl e \<Rightarrow> Inl e
             | Inr outs \<Rightarrow>
                 (case unknown_output (py_upper ` set (start_coil_labels c)) outs of
                    Some (st, l) \<Rightarrow> Inl (UnknownOutputLabel st l)
                  | None \<Rightarrow> Inr (c\<lparr>system_state_outputs := outs\<rparr>)))))"

section \<open>Lookups\<close>

text \<open>
  The three \<open>first_*\<close> properties read index 0, which \<open>__post_init__\<close> has made present;
  on an empty tuple Python raises \<open>IndexError\<close>, here \<open>None\<close>.
\<close>

definition first_of :: "'a list \<Rightarrow> 'a option" where
  "first_of xs = (case xs of [] \<Rightarrow> None | x # _ \<Rightarrow> Some x)"

definition first_start_coil_address :: "modbus_config \<Rightarrow> int option" where
  "first_start_coil_address c = first_of (start_coil_addresses c)"

definition first_start_coil_label :: "modbus_config \<Rightarrow> string option" where
  "first_start_coil_label c = first_of (start_coil_labels c)"

definition first_start_output_label :: "modbus_config \<Rightarrow> string option" where
  "first_start_output_label c = first_of (start_coil_outputs c)"

definition start_coils_are_contiguous :: "modbus_config \<Rightarrow> bool" where
  "start_coils_are_contiguous c =
     list_all (\<lambda>(a, b). b = a + 1)
       (zip (start_coil_addresses c) (tl (start_coil_addresses c)))"

definition coil_address_for_label ::
  "modbus_config \<Rightarrow> string \<Rightarrow> (plc_config_error, int) result" where
  "coil_address_for_label c label =
     (case find (\<lambda>(l, a). py_upper l = py_upper label)
             (zip (start_coil_labels c) (start_coil_addresses c)) of
        Some (l, a) \<Rightarrow> Inr a
      | None \<Rightarrow> Inl (UnknownStartLabel label))"

definition output_labels_for_state :: "modbus_config \<Rightarrow> system_state \<Rightarrow> string list" where
  "output_labels_for_state c st = system_state_outputs c st"

definition coil_display_label :: "string \<Rightarrow> string \<Rightarrow> string" where
  "coil_display_label coil_label output_label = coil_label @ '' ('' @ output_label @ '')''"

section \<open>Parsing the flat ROS parameters\<close>

fun parse_specs ::
  "(string \<times> string) list \<Rightarrow> (system_state \<times> string list) list \<Rightarrow>
   (plc_config_error, (system_state \<times> string list) list) result" where
  "parse_specs [] acc = Inr acc"
| "parse_specs ((raw_state, raw_labels) # rest) acc =
     (case parse_state raw_state of
        None \<Rightarrow> Inl (UnsupportedState raw_state)
      | Some st \<Rightarrow>
          (let spec = py_strip raw_labels
           in if py_lower spec \<in> {'''', ''-'', ''none''}
              then parse_specs rest (dict_set st [] acc)
              else parse_specs rest (dict_set st (split_labels spec) acc)))"

definition parse_system_state_outputs ::
  "string list \<Rightarrow> string list \<Rightarrow>
   (plc_config_error, (system_state \<times> string list) list) result" where
  "parse_system_state_outputs state_names specs =
     (if length state_names \<noteq> length specs then Inl StateSpecsLength
      else parse_specs (zip state_names specs) [])"

text \<open>The parsed dictionary, as the constructor receives it.\<close>

definition raw_of_parsed :: "(system_state \<times> string list) list \<Rightarrow> raw_outputs" where
  "raw_of_parsed d = map (\<lambda>(st, ls). (KState st, LSeq ls)) d"

section \<open>Topic suffix of an M label\<close>

definition hex_val :: "char \<Rightarrow> nat option" where
  "hex_val c =
     (let n = of_char c :: nat
      in if 48 \<le> n \<and> n \<le> 57 then Some (n - 48)
         else if 65 \<le> n \<and> n \<le> 70 then Some (n - 55)
         else if 97 \<le> n \<and> n \<le> 102 then Some (n - 87)
         else None)"

text \<open>Digits with single underscores between them, as \<open>int(_, 16)\<close> accepts them.\<close>

fun hex_digits :: "nat \<Rightarrow> bool \<Rightarrow> string \<Rightarrow> nat option" where
  "hex_digits acc prev [] = (if prev then Some acc else None)"
| "hex_digits acc prev (c # cs) =
     (if c = CHR ''_'' then (if prev then hex_digits acc False cs else None)
      else (case hex_val c of
              None \<Rightarrow> None
            | Some v \<Rightarrow> hex_digits (16 * acc + v) True cs))"

fun hex_unsigned :: "string \<Rightarrow> nat option" where
  "hex_unsigned (z # x # rest) =
     (if z = CHR ''0'' \<and> (x = CHR ''x'' \<or> x = CHR ''X'')
      then (case rest of
              [] \<Rightarrow> None
            | c # cs \<Rightarrow> hex_digits 0 False (if c = CHR ''_'' then cs else rest))
      else hex_digits 0 False (z # x # rest))"
| "hex_unsigned s = hex_digits 0 False s"

definition py_int16 :: "string \<Rightarrow> int option" where
  "py_int16 s =
     (case py_strip s of
        [] \<Rightarrow> None
      | c # cs \<Rightarrow>
          (if c = CHR ''-'' then map_option (\<lambda>n. - int n) (hex_unsigned cs)
           else if c = CHR ''+'' then map_option int (hex_unsigned cs)
           else map_option int (hex_unsigned (c # cs))))"

fun decimal :: "nat \<Rightarrow> string" where
  "decimal n =
     (if n < 10 then [char_of (48 + n)] else decimal (n div 10) @ [char_of (48 + n mod 10)])"

declare decimal.simps [simp del]

definition py_str_int :: "int \<Rightarrow> string" where
  "py_str_int i = (if i < 0 then ''-'' @ decimal (nat (- i)) else decimal (nat i))"

definition m_topic_suffix :: "string \<Rightarrow> (plc_config_error, string) result" where
  "m_topic_suffix label =
     (let normalized = py_upper label
      in if \<not> py_startswith normalized ''M'' then Inl (UnsupportedMLabel label)
         else (case py_int16 (tl normalized) of
                 None \<Rightarrow> Inl (BadHexLabel label)
               | Some i \<Rightarrow> Inr (py_str_int i)))"

section \<open>Lemmas\<close>

lemma find_Some_memD: "find P xs = Some x \<Longrightarrow> x \<in> set xs \<and> P x"
  by (auto simp: find_Some_iff)

lemma find_None_memD: "find P xs = None \<Longrightarrow> x \<in> set xs \<Longrightarrow> \<not> P x"
  by (simp add: find_None_iff)

lemma unknown_output_NoneD:
  "unknown_output configured outs = None \<Longrightarrow> l \<in> set (outs st) \<Longrightarrow> py_upper l \<in> configured"
  by (auto simp: unknown_output_def find_None_iff enum_UNIV)

lemma coil_address_in_start:
  "coil_address_for_label c l = Inr a \<Longrightarrow> a \<in> set (start_coil_addresses c)"
  by (auto simp: coil_address_for_label_def split: option.splits
           dest!: find_Some_memD dest: set_zip_rightD)

lemma coil_address_resolves:
  assumes "length (start_coil_labels c) = length (start_coil_addresses c)"
    and "py_upper l \<in> py_upper ` set (start_coil_labels c)"
  obtains a where "coil_address_for_label c l = Inr a"
proof -
  from assms obtain i where i: "i < length (start_coil_labels c)"
      "py_upper l = py_upper (start_coil_labels c ! i)"
    by (auto simp: in_set_conv_nth)
  with assms(1) have "(start_coil_labels c ! i, start_coil_addresses c ! i)
      \<in> set (zip (start_coil_labels c) (start_coil_addresses c))"
    by (auto simp: in_set_zip)
  with i that show thesis
    by (cases "coil_address_for_label c l")
      (auto simp: coil_address_for_label_def split: option.splits dest!: find_None_memD)
qed

text \<open>What a configuration that passed \<open>__post_init__\<close> guarantees.\<close>

definition config_ok :: "modbus_config \<Rightarrow> bool" where
  "config_ok c \<longleftrightarrow>
     length (start_coil_labels c) = length (start_coil_addresses c)
     \<and> length (start_coil_addresses c) = length (start_coil_outputs c)
     \<and> start_coil_labels c \<noteq> [] \<and> 0 < pulse_duration_s c
     \<and> list_all is_m_label (reset_coil_label c # start_coil_labels c)
     \<and> (label_set (watchdog_coil_label c) \<longleftrightarrow> watchdog_coil_address c \<noteq> None)
     \<and> (label_set (estop_input_label c) \<longleftrightarrow> estop_input_address c \<noteq> None)
     \<and> (\<forall>st. \<forall>l\<in>set (system_state_outputs c st).
          py_upper l \<in> py_upper ` set (start_coil_labels c))"

lemma post_init_ok: "post_init c raw = Inr c' \<Longrightarrow> config_ok c'"
  by (auto simp: post_init_def config_ok_def find_None_iff list_all_iff
           dest: unknown_output_NoneD split: if_splits option.splits sum.splits)

lemma config_ok_resolves:
  assumes "config_ok c" and "l \<in> set (output_labels_for_state c st)"
  obtains a where "coil_address_for_label c l = Inr a"
  using assms coil_address_resolves [of c l thesis]
  by (auto simp: config_ok_def output_labels_for_state_def)

lemma post_init_frame:
  "post_init c raw = Inr c' \<Longrightarrow> \<exists>outs. c' = c\<lparr>system_state_outputs := outs\<rparr>"
  by (auto simp: post_init_def split: if_splits option.splits sum.splits)

end
