(* ===== verification/Effects.thy ===== *)
theory Effects imports Prelude begin

text \<open>
  Stateful Python code that may raise: a function from the state to a result (\<open>Inl\<close> the
  exception, \<open>Inr\<close> the value) and the new state. The combinators follow Python's control
  flow: statements in sequence, \<open>for\<close>, and \<open>try ... except\<close>, where a raise keeps the state
  changes made before it. The locale \<open>step_order\<close> lifts a reflexive and transitive
  relation between states (a state only grows, a flag is never cleared, an invariant is
  kept) from the primitive operations to every operation composed of them.
\<close>

type_synonym ('s, 'e, 'a) op = "'s \<Rightarrow> ('e, 'a) result \<times> 's"

definition ret_op :: "'a \<Rightarrow> ('s, 'e, 'a) op" where
  "ret_op a s = (Inr a, s)"

definition fail_op :: "'e \<Rightarrow> ('s, 'e, 'a) op" where
  "fail_op e s = (Inl e, s)"

definition modify_op :: "('s \<Rightarrow> 's) \<Rightarrow> ('s, 'e, unit) op" where
  "modify_op f s = (Inr (), f s)"

definition gets_op :: "('s \<Rightarrow> 'a) \<Rightarrow> ('s, 'e, 'a) op" where
  "gets_op f s = (Inr (f s), s)"

definition bind_op :: "('s, 'e, 'a) op \<Rightarrow> ('a \<Rightarrow> ('s, 'e, 'b) op) \<Rightarrow> ('s, 'e, 'b) op" where
  "bind_op m f s = (case m s of (Inl e, s') \<Rightarrow> (Inl e, s') | (Inr a, s') \<Rightarrow> f a s')"

definition seq_op :: "('s, 'e, 'a) op \<Rightarrow> ('s, 'e, 'b) op \<Rightarrow> ('s, 'e, 'b) op" where
  "seq_op m k = bind_op m (\<lambda>_. k)"

definition catch_op :: "('s, 'e, 'a) op \<Rightarrow> ('e \<Rightarrow> ('s, 'f, 'a) op) \<Rightarrow> ('s, 'f, 'a) op" where
  "catch_op m h s = (case m s of (Inl e, s') \<Rightarrow> h e s' | (Inr a, s') \<Rightarrow> (Inr a, s'))"

primrec for_op :: "('a \<Rightarrow> ('s, 'e, 'b) op) \<Rightarrow> 'a list \<Rightarrow> ('s, 'e, unit) op" where
  "for_op f [] = ret_op ()"
| "for_op f (x # xs) = seq_op (f x) (for_op f xs)"

text \<open>A loop that leaves the function with \<open>False\<close> at the first element that yields \<open>False\<close>.\<close>

primrec all_op :: "('a \<Rightarrow> ('s, 'e, bool) op) \<Rightarrow> 'a list \<Rightarrow> ('s, 'e, bool) op" where
  "all_op f [] = ret_op True"
| "all_op f (x # xs) = bind_op (f x) (\<lambda>ok. if ok then all_op f xs else ret_op False)"

text \<open>An operation on a component of the state, with its exceptions renamed.\<close>

definition lift_op ::
  "('s \<Rightarrow> 't) \<Rightarrow> ('t \<Rightarrow> 's \<Rightarrow> 's) \<Rightarrow> ('t, 'e, 'a) op \<Rightarrow> ('s, 'e, 'a) op" where
  "lift_op get put m s = (case m (get s) of (r, t) \<Rightarrow> (r, put t s))"

lemmas op_defs =
  ret_op_def fail_op_def modify_op_def gets_op_def bind_op_def seq_op_def catch_op_def lift_op_def

lemma op_simps [simp]:
  "ret_op a s = (Inr a, s)"
  "fail_op e s = (Inl e, s)"
  "modify_op f s = (Inr (), f s)"
  "gets_op g s = (Inr (g s), s)"
  by (simp_all add: op_defs)

lemma bind_op_Inr: "m s = (Inr a, s') \<Longrightarrow> bind_op m f s = f a s'"
  by (simp add: bind_op_def)

lemma bind_op_Inl: "m s = (Inl e, s') \<Longrightarrow> bind_op m f s = (Inl e, s')"
  by (simp add: bind_op_def)

lemma seq_op_Inr: "m s = (Inr a, s') \<Longrightarrow> seq_op m k s = k s'"
  by (simp add: seq_op_def bind_op_Inr)

lemma seq_op_Inl: "m s = (Inl e, s') \<Longrightarrow> seq_op m k s = (Inl e, s')"
  by (simp add: seq_op_def bind_op_Inl)

lemma bind_op_okD:
  "bind_op m f s = (Inr b, s') \<Longrightarrow> \<exists>a t. m s = (Inr a, t) \<and> f a t = (Inr b, s')"
  by (auto simp: bind_op_def split: prod.splits sum.splits)

lemma seq_op_okD:
  "seq_op m k s = (Inr b, s') \<Longrightarrow> \<exists>a t. m s = (Inr a, t) \<and> k t = (Inr b, s')"
  unfolding seq_op_def by (drule bind_op_okD) simp

lemma bind_op_cases:
  obtains (err) e s' where "m s = (Inl e, s')" "bind_op m f s = (Inl e, s')"
  | (ok) a s' where "m s = (Inr a, s')" "bind_op m f s = f a s'"
  by (cases "m s"; cases "fst (m s)") (auto simp: bind_op_def)

section \<open>Relations kept by every operation\<close>

locale step_order =
  fixes R :: "'s \<Rightarrow> 's \<Rightarrow> bool"
  assumes refl: "R s s"
    and trans: "R s t \<Longrightarrow> R t u \<Longrightarrow> R s u"
begin

definition stays :: "('s, 'e, 'a) op \<Rightarrow> bool" where
  "stays m \<longleftrightarrow> (\<forall>s. R s (snd (m s)))"

lemma staysD: "stays m \<Longrightarrow> R s (snd (m s))"
  by (simp add: stays_def)

lemma staysD': "stays m \<Longrightarrow> m s = (r, s') \<Longrightarrow> R s s'"
  by (metis snd_conv stays_def)

lemma staysI: "(\<And>s. R s (snd (m s))) \<Longrightarrow> stays m"
  by (simp add: stays_def)

lemma stays_ret: "stays (ret_op a)"
  by (simp add: stays_def refl)

lemma stays_fail: "stays (fail_op e)"
  by (simp add: stays_def refl)

lemma stays_gets: "stays (gets_op f)"
  by (simp add: stays_def refl)

lemma stays_modify: "(\<And>s. R s (f s)) \<Longrightarrow> stays (modify_op f)"
  by (simp add: stays_def)

lemma stays_bind: "stays m \<Longrightarrow> (\<And>a. stays (f a)) \<Longrightarrow> stays (bind_op m f)"
proof (rule staysI)
  fix s
  assume m: "stays m" and f: "\<And>a. stays (f a)"
  obtain r t where eq: "m s = (r, t)" by (cases "m s")
  have "R s t" using m eq by (rule staysD')
  then show "R s (snd (bind_op m f s))"
    by (cases r) (auto simp: bind_op_def eq intro: trans staysD [OF f])
qed

lemma stays_seq: "stays m \<Longrightarrow> stays k \<Longrightarrow> stays (seq_op m k)"
  by (simp add: seq_op_def stays_bind)

lemma stays_catch: "stays m \<Longrightarrow> (\<And>e. stays (h e)) \<Longrightarrow> stays (catch_op m h)"
proof (rule staysI)
  fix s
  assume m: "stays m" and h: "\<And>e. stays (h e)"
  obtain r t where eq: "m s = (r, t)" by (cases "m s")
  have "R s t" using m eq by (rule staysD')
  then show "R s (snd (catch_op m h s))"
    by (cases r) (auto simp: catch_op_def eq intro: trans staysD [OF h])
qed

lemma stays_for: "(\<And>x. stays (f x)) \<Longrightarrow> stays (for_op f xs)"
  by (induction xs) (auto intro: stays_ret stays_seq)

lemma stays_all: "(\<And>x. stays (f x)) \<Longrightarrow> stays (all_op f xs)"
  by (induction xs) (auto intro!: stays_ret stays_bind)

lemma stays_bind_post:
  assumes m: "stays m" and f: "\<And>s a t. m s = (Inr a, t) \<Longrightarrow> stays (f a)"
  shows "stays (bind_op m f)"
proof (rule staysI)
  fix s
  obtain r t where eq: "m s = (r, t)" by (cases "m s")
  have "R s t" using m eq by (rule staysD')
  moreover have "R t (snd (f a t))" if "r = Inr a" for a
    using f [of s a t] eq that by (intro staysD) simp
  ultimately show "R s (snd (bind_op m f s))"
    by (cases r) (auto simp: bind_op_def eq intro: trans)
qed

lemma stays_all_set: "(\<And>x. x \<in> set xs \<Longrightarrow> stays (f x)) \<Longrightarrow> stays (all_op f xs)"
  by (induction xs) (auto intro!: stays_ret stays_bind)

lemma stays_if: "stays m \<Longrightarrow> stays k \<Longrightarrow> stays (if b then m else k)"
  by simp

lemma stays_option:
  "stays m \<Longrightarrow> (\<And>a. stays (f a)) \<Longrightarrow> stays (case x of None \<Rightarrow> m | Some a \<Rightarrow> f a)"
  by (cases x) simp_all

lemma stays_sum:
  "(\<And>e. stays (f e)) \<Longrightarrow> (\<And>a. stays (g a)) \<Longrightarrow> stays (case x of Inl e \<Rightarrow> f e | Inr a \<Rightarrow> g a)"
  by (cases x) simp_all

lemmas stays_rules =
  stays_ret stays_fail stays_gets stays_bind stays_seq stays_catch stays_for
  stays_all stays_if stays_option stays_sum

end

text \<open>The two shapes of relation the components use.\<close>

definition keeps :: "('s \<Rightarrow> bool) \<Rightarrow> 's \<Rightarrow> 's \<Rightarrow> bool" where
  "keeps I s s' \<longleftrightarrow> (I s \<longrightarrow> I s')"

definition extends_by :: "('s \<Rightarrow> 'a list) \<Rightarrow> ('a \<Rightarrow> bool) \<Rightarrow> 's \<Rightarrow> 's \<Rightarrow> bool" where
  "extends_by tr P s s' \<longleftrightarrow> (\<exists>ext. tr s' = tr s @ ext \<and> list_all P ext)"

interpretation keeps: step_order "keeps I" for I :: "'s \<Rightarrow> bool"
  by unfold_locales (auto simp: keeps_def)

interpretation grows: step_order "extends_by tr P"
  for tr :: "'s \<Rightarrow> 'a list" and P :: "'a \<Rightarrow> bool"
proof
  show "extends_by tr P s s" for s
    by (simp add: extends_by_def)
  show "extends_by tr P s u" if "extends_by tr P s t" "extends_by tr P t u" for s t u
    using that by (force simp: extends_by_def)
qed

lemma extends_by_mono:
  "extends_by tr P s s' \<Longrightarrow> (\<And>x. P x \<Longrightarrow> Q x) \<Longrightarrow> extends_by tr Q s s'"
  by (auto simp: extends_by_def list_all_iff)

section \<open>Invariants of runs that do not raise\<close>

text \<open>From a state with \<open>I\<close>, the operation returns normally, in a state with \<open>I\<close>.\<close>

definition runs :: "('s \<Rightarrow> bool) \<Rightarrow> ('s, 'e, 'a) op \<Rightarrow> 's \<Rightarrow> bool" where
  "runs I m s \<longleftrightarrow> (I s \<longrightarrow> is_ok (fst (m s)) \<and> I (snd (m s)))"

lemma runsI: "(I s \<Longrightarrow> \<exists>a t. m s = (Inr a, t) \<and> I t) \<Longrightarrow> runs I m s"
  by (auto simp: runs_def)

lemma runsD: "runs I m s \<Longrightarrow> I s \<Longrightarrow> \<exists>a t. m s = (Inr a, t) \<and> I t"
  by (cases "m s") (auto simp: runs_def is_ok_iff)

lemma runs_eqD: "runs I m s \<Longrightarrow> I s \<Longrightarrow> m s = (r, t) \<Longrightarrow> is_ok r \<and> I t"
  by (auto simp: runs_def)

lemma runs_ret [intro]: "runs I (ret_op a) s"
  by (simp add: runs_def)

lemma runs_modify [intro]: "(I s \<Longrightarrow> I (f s)) \<Longrightarrow> runs I (modify_op f) s"
  by (simp add: runs_def)

lemma runs_gets [intro]: "runs I (gets_op g) s"
  by (simp add: runs_def)

lemma runs_bind:
  assumes m: "runs I m s" and f: "\<And>a t. I s \<Longrightarrow> m s = (Inr a, t) \<Longrightarrow> I t \<Longrightarrow> runs I (f a) t"
  shows "runs I (bind_op m f) s"
proof (cases "I s")
  case True
  with m obtain a t where t: "m s = (Inr a, t)" "I t" by (blast dest: runsD)
  moreover have "runs I (f a) t" using True t by (rule f)
  ultimately show ?thesis by (simp add: runs_def bind_op_Inr)
qed (simp add: runs_def)

lemma runs_seq:
  "runs I m s \<Longrightarrow> (\<And>t. I s \<Longrightarrow> I t \<Longrightarrow> runs I k t) \<Longrightarrow> runs I (seq_op m k) s"
  unfolding seq_op_def by (rule runs_bind)

lemma runs_bind_gets:
  "(I s \<Longrightarrow> runs I (f (g s)) s) \<Longrightarrow> runs I (bind_op (gets_op g) f) s"
  by (auto simp: runs_def bind_op_def)

lemma runs_for:
  assumes "\<And>x t. x \<in> set xs \<Longrightarrow> I t \<Longrightarrow> runs I (f x) t"
  shows "runs I (for_op f xs) s"
  using assms
proof (induction xs arbitrary: s)
  case Nil
  show ?case by (simp add: runs_def)
next
  case (Cons y ys)
  have "runs I (f y) t" for t
    using Cons.prems [of y t] by (cases "I t") (simp_all add: runs_def)
  moreover have "runs I (for_op f ys) t" for t
    using Cons.prems by (intro Cons.IH) simp
  ultimately show ?case by (auto intro!: runs_seq)
qed

lemma runs_all:
  assumes "\<And>x t. x \<in> set xs \<Longrightarrow> I t \<Longrightarrow> runs I (f x) t"
  shows "runs I (all_op f xs) s"
  using assms
proof (induction xs arbitrary: s)
  case Nil
  show ?case by (simp add: runs_def)
next
  case (Cons y ys)
  have "runs I (f y) t" for t
    using Cons.prems [of y t] by (cases "I t") (simp_all add: runs_def)
  moreover have "runs I (all_op f ys) t" for t
    using Cons.prems by (intro Cons.IH) simp
  ultimately show ?case by (auto intro!: runs_bind)
qed

lemma runs_catch: "runs I m s \<Longrightarrow> runs I (catch_op m h) s"
  by (rule runsI) (auto simp: catch_op_def dest: runsD)

lemmas runs_rules = runs_ret runs_modify runs_gets runs_bind_gets runs_seq runs_bind

end
