(* ===== verification/PlcModbus.thy ===== *)
theory PlcModbus imports PlcConfig Effects begin

text \<open>
  \<open>plc_core/modbus_client.py\<close>: the Modbus RTU client. pymodbus and the PLC behind it are the
  parameter \<open>modbus_bus\<close>: the answer to a request, and whether the link is up, are arbitrary
  functions of everything sent before. The client keeps that history in \<open>mc_wire\<close>, so what
  it puts on the wire, and in which order, is the observable effect of each operation.
\<close>

section \<open>Requests, replies and the client\<close>

text \<open>
  \<open>Sleep\<close> records \<open>time.sleep\<close>; \<open>Wake\<close> marks the start of a callback of the ROS node, so
  that the link may change between callbacks.
\<close>

datatype request =
    Connect
  | Close
  | ReadHolding int
  | ReadDiscrete int
  | ReadCoils int
  | WriteReg int int
  | WriteCoil int bool
  | WriteCoils int "bool list"
  | Sleep real
  | Wake

text \<open>
  \<open>Raised\<close> is a \<open>ModbusException\<close> or \<open>OSError\<close>, \<open>ErrorResponse\<close> a response whose
  \<open>isError()\<close> holds, and \<open>Response r b\<close> one with \<open>registers[0] = r\<close> and \<open>bits[0] = b\<close>.
\<close>

datatype reply = Raised string | ErrorResponse | Response int bool

record modbus_bus =
  connect_of :: "request list \<Rightarrow> (string, bool) result"
  reply_of :: "request list \<Rightarrow> request \<Rightarrow> reply"
  link_up :: "request list \<Rightarrow> bool"

text \<open>\<open>PLCError req x\<close> is the \<open>PLCError\<close> of a failed request, \<open>x\<close> the text of its cause.\<close>

datatype plc_error =
    PLCError request "string option"
  | WatchdogNotConfigured
  | EstopNotConfigured
  | ConfigError plc_config_error
  | IndexErr

text \<open>The exceptions an \<open>except PLCError\<close> clause catches.\<close>

fun is_PLCError :: "plc_error \<Rightarrow> bool" where
  "is_PLCError (PLCError _ _) = True"
| "is_PLCError WatchdogNotConfigured = True"
| "is_PLCError EstopNotConfigured = True"
| "is_PLCError (ConfigError _) = False"
| "is_PLCError IndexErr = False"

record plc_client =
  mc_config :: modbus_config
  mc_current_state :: system_state
  mc_wire :: "request list"

type_synonym 'a plc_op = "(plc_client, plc_error, 'a) op"

definition client_init :: "modbus_config \<Rightarrow> plc_client" where
  "client_init cfg = \<lparr>mc_config = cfg, mc_current_state = IDLE, mc_wire = []\<rparr>"

definition put_wire :: "request \<Rightarrow> plc_client \<Rightarrow> plc_client" where
  "put_wire req c = c\<lparr>mc_wire := mc_wire c @ [req]\<rparr>"

text \<open>One request with its two failure paths: the \<open>except\<close> clause and \<open>_raise_if_error\<close>.\<close>

definition call :: "modbus_bus \<Rightarrow> request \<Rightarrow> (int \<times> bool) plc_op" where
  "call bus req c =
     (case reply_of bus (mc_wire c) req of
        Raised x \<Rightarrow> (Inl (PLCError req (Some x)), put_wire req c)
      | ErrorResponse \<Rightarrow> (Inl (PLCError req None), put_wire req c)
      | Response r b \<Rightarrow> (Inr (r, b), put_wire req c))"

definition connected :: "modbus_bus \<Rightarrow> plc_client \<Rightarrow> bool" where
  "connected bus c = link_up bus (mc_wire c)"

definition connect :: "modbus_bus \<Rightarrow> bool plc_op" where
  "connect bus c =
     (case connect_of bus (mc_wire c) of
        Inl x \<Rightarrow> (Inl (PLCError Connect (Some x)), put_wire Connect c)
      | Inr b \<Rightarrow> (Inr b, put_wire Connect c))"

definition close :: "plc_client \<Rightarrow> plc_client" where
  "close c = put_wire Close c"

section \<open>Register and coil operations\<close>

definition read_register :: "modbus_bus \<Rightarrow> int \<Rightarrow> int plc_op" where
  "read_register bus address = bind_op (call bus (ReadHolding address)) (\<lambda>(r, _). ret_op r)"

definition read_discrete_input :: "modbus_bus \<Rightarrow> int \<Rightarrow> bool plc_op" where
  "read_discrete_input bus address = bind_op (call bus (ReadDiscrete address)) (\<lambda>(_, b). ret_op b)"

definition write_register :: "modbus_bus \<Rightarrow> int \<Rightarrow> int \<Rightarrow> unit plc_op" where
  "write_register bus address v = seq_op (call bus (WriteReg address v)) (ret_op ())"

definition write_coil :: "modbus_bus \<Rightarrow> int \<Rightarrow> bool \<Rightarrow> unit plc_op" where
  "write_coil bus address v = seq_op (call bus (WriteCoil address v)) (ret_op ())"

definition read_coil :: "modbus_bus \<Rightarrow> int \<Rightarrow> bool plc_op" where
  "read_coil bus address = bind_op (call bus (ReadCoils address)) (\<lambda>(_, b). ret_op b)"

definition sleep_op :: "real \<Rightarrow> unit plc_op" where
  "sleep_op d = modify_op (put_wire (Sleep d))"

definition duration_of :: "real option \<Rightarrow> plc_client \<Rightarrow> real" where
  "duration_of d c = (case d of None \<Rightarrow> pulse_duration_s (mc_config c) | Some x \<Rightarrow> x)"

definition pulse_coil :: "modbus_bus \<Rightarrow> int \<Rightarrow> real option \<Rightarrow> unit plc_op" where
  "pulse_coil bus address d =
     bind_op (gets_op (duration_of d)) (\<lambda>duration.
     seq_op (write_coil bus address True)
    (seq_op (sleep_op duration)
            (write_coil bus address False)))"

definition write_start_coils :: "modbus_bus \<Rightarrow> bool \<Rightarrow> unit plc_op" where
  "write_start_coils bus v =
     bind_op (gets_op mc_config) (\<lambda>cfg.
     if \<not> start_coils_are_contiguous cfg
     then for_op (\<lambda>a. write_coil bus a v) (start_coil_addresses cfg)
     else (case first_of (start_coil_addresses cfg) of
             None \<Rightarrow> fail_op IndexErr
           | Some a \<Rightarrow>
               seq_op (call bus (WriteCoils a (replicate (length (start_coil_addresses cfg)) v)))
                      (ret_op ())))"

definition pulse_start_coils :: "modbus_bus \<Rightarrow> real option \<Rightarrow> unit plc_op" where
  "pulse_start_coils bus d =
     bind_op (gets_op (duration_of d)) (\<lambda>duration.
     seq_op (write_start_coils bus True)
    (seq_op (sleep_op duration)
            (write_start_coils bus False)))"

definition reset_outputs :: "modbus_bus \<Rightarrow> real option \<Rightarrow> unit plc_op" where
  "reset_outputs bus d =
     bind_op (gets_op (\<lambda>c. reset_coil_address (mc_config c))) (\<lambda>a. pulse_coil bus a d)"

definition read_watchdog :: "modbus_bus \<Rightarrow> bool plc_op" where
  "read_watchdog bus =
     bind_op (gets_op (\<lambda>c. watchdog_coil_address (mc_config c))) (\<lambda>a.
     case a of None \<Rightarrow> fail_op WatchdogNotConfigured | Some a \<Rightarrow> read_coil bus a)"

definition heartbeat :: "modbus_bus \<Rightarrow> bool plc_op" where
  "heartbeat bus = read_watchdog bus"

definition read_estop :: "modbus_bus \<Rightarrow> bool plc_op" where
  "read_estop bus =
     bind_op (gets_op (\<lambda>c. estop_input_address (mc_config c))) (\<lambda>a.
     case a of None \<Rightarrow> fail_op EstopNotConfigured | Some a \<Rightarrow> read_discrete_input bus a)"

section \<open>System states\<close>

definition get_status :: "plc_client \<Rightarrow> plc_status" where
  "get_status c =
     (let (color, mode) = STATE_LED_MAP (mc_current_state c)
      in \<lparr>led_color = color, led_mode = mode, system_state = mc_current_state c\<rparr>)"

definition label_address :: "string \<Rightarrow> int plc_op" where
  "label_address label c =
     (case coil_address_for_label (mc_config c) label of
        Inl e \<Rightarrow> (Inl (ConfigError e), c)
      | Inr a \<Rightarrow> (Inr a, c))"

definition apply_outputs_op :: "modbus_bus \<Rightarrow> system_state \<Rightarrow> bool \<Rightarrow> unit plc_op" where
  "apply_outputs_op bus st reset_before_apply =
     bind_op (gets_op (\<lambda>c. output_labels_for_state (mc_config c) st)) (\<lambda>labels.
     seq_op (if reset_before_apply then reset_outputs bus None else ret_op ())
       (for_op (\<lambda>l. bind_op (label_address l) (\<lambda>a. pulse_coil bus a None)) labels))"

definition set_system_state ::
  "modbus_bus \<Rightarrow> system_state \<Rightarrow> bool \<Rightarrow> bool \<Rightarrow> plc_status plc_op" where
  "set_system_state bus st apply_outputs reset_before_apply =
     seq_op (if apply_outputs then apply_outputs_op bus st reset_before_apply else ret_op ())
    (seq_op (modify_op (\<lambda>c. c\<lparr>mc_current_state := st\<rparr>))
            (gets_op get_status))"

definition set_error :: "modbus_bus \<Rightarrow> bool \<Rightarrow> plc_status plc_op" where
  "set_error bus apply_outputs = set_system_state bus ERROR apply_outputs True"

definition set_estop :: "modbus_bus \<Rightarrow> bool \<Rightarrow> plc_status plc_op" where
  "set_estop bus apply_outputs = set_system_state bus E_STOP apply_outputs False"

lemma get_status_eq: "get_status c = status_of (mc_current_state c)"
  by (simp add: get_status_def status_of_def split: prod.splits)

lemma set_system_state_no_outputs:
  "set_system_state bus st False r c = (Inr (status_of st), c\<lparr>mc_current_state := st\<rparr>)"
  by (simp add: set_system_state_def seq_op_def bind_op_def get_status_eq)

text \<open>Setting a state without outputs gives the interface of the mock client.\<close>

definition set_snapshot :: "modbus_bus \<Rightarrow> system_state \<Rightarrow> plc_client \<Rightarrow> plc_status \<times> plc_client" where
  "set_snapshot bus st c =
     (case set_system_state bus st False True c of
        (Inr s, c') \<Rightarrow> (s, c') | (Inl _, c') \<Rightarrow> (get_status c', c'))"

interpretation modbus: plc_state_client "set_snapshot bus" get_status for bus
  by unfold_locales (simp_all add: set_snapshot_def set_system_state_no_outputs get_status_eq)

section \<open>Plans: what an operation puts on the wire\<close>

text \<open>
  \<open>follows m p\<close>: the only effect of \<open>m\<close> is to send an initial part of \<open>p\<close>, all of it when
  it returns normally.
\<close>

definition sent :: "request list \<Rightarrow> plc_client \<Rightarrow> plc_client" where
  "sent ext c = c\<lparr>mc_wire := mc_wire c @ ext\<rparr>"

definition follows :: "'a plc_op \<Rightarrow> request list \<Rightarrow> plc_client \<Rightarrow> bool" where
  "follows m p c \<longleftrightarrow>
     (\<exists>n. snd (m c) = sent (take n p) c \<and> (is_ok (fst (m c)) \<longrightarrow> length p \<le> n))"

lemma sent_simps [simp]:
  "sent [] c = c" "sent ys (sent xs c) = sent (xs @ ys) c"
  "mc_config (sent xs c) = mc_config c" "mc_current_state (sent xs c) = mc_current_state c"
  "mc_wire (sent xs c) = mc_wire c @ xs"
  by (simp_all add: sent_def)

lemma put_wire_sent: "put_wire req c = sent [req] c"
  by (simp add: put_wire_def sent_def)

lemma followsI_pure: "snd (m c) = c \<Longrightarrow> follows m [] c"
  by (simp add: follows_def)

lemma followsI_one: "snd (m c) = sent [x] c \<Longrightarrow> follows m [x] c"
  unfolding follows_def by (rule exI [of _ 1]) simp

lemma follows_okD: "follows m p c \<Longrightarrow> m c = (Inr a, c') \<Longrightarrow> c' = sent p c"
  by (auto simp: follows_def)

lemma follows_prefixD: "follows m p c \<Longrightarrow> m c = (r, c') \<Longrightarrow> \<exists>n. c' = sent (take n p) c"
  by (auto simp: follows_def)

lemma follows_bind:
  assumes m: "follows m p c" and f: "\<And>a. m c = (Inr a, sent p c) \<Longrightarrow> follows (f a) q (sent p c)"
  shows "follows (bind_op m f) (p @ q) c"
proof (cases rule: bind_op_cases [of m c f])
  case (err e s')
  with m obtain n where n: "s' = sent (take n p) c" by (auto simp: follows_def)
  have "take n p = take (min n (length p)) (p @ q)" by (simp add: min_def)
  with n err show ?thesis
    unfolding follows_def by (intro exI [of _ "min n (length p)"]) simp
next
  case (ok a s')
  with m have s': "s' = sent p c" by (auto dest: follows_okD)
  with ok f obtain k where k: "snd (f a (sent p c)) = sent (take k q) (sent p c)"
      "is_ok (fst (f a (sent p c))) \<longrightarrow> length q \<le> k"
    unfolding follows_def by blast
  with ok s' show ?thesis
    unfolding follows_def by (intro exI [of _ "length p + k"]) simp
qed

lemma follows_seq:
  "follows m p c \<Longrightarrow> follows k q (sent p c) \<Longrightarrow> follows (seq_op m k) (p @ q) c"
  unfolding seq_op_def by (rule follows_bind)

lemma follows_gets:
  "follows (f (g c)) p c \<Longrightarrow> follows (bind_op (gets_op g) f) p c"
  by (simp add: follows_def bind_op_def)

lemma call_snd [simp]: "snd (call bus req c) = sent [req] c"
  by (simp add: call_def put_wire_sent split: reply.splits)

lemma write_coil_snd [simp]: "snd (write_coil bus a v c) = sent [WriteCoil a v] c"
  by (cases rule: bind_op_cases [of "call bus (WriteCoil a v)" c "\<lambda>_. ret_op ()"])
    (auto simp: write_coil_def seq_op_def dest: arg_cong [where f = snd])

lemma follows_write_coil: "follows (write_coil bus a v) [WriteCoil a v] c"
  by (rule followsI_one) simp

definition pulse_plan :: "real \<Rightarrow> int \<Rightarrow> request list" where
  "pulse_plan d a = [WriteCoil a True, Sleep d, WriteCoil a False]"

lemma follows_pulse_coil:
  "follows (pulse_coil bus a d) (pulse_plan (duration_of d c) a) c"
proof -
  have "follows (pulse_coil bus a d)
      ([WriteCoil a True] @ ([Sleep (duration_of d c)] @ [WriteCoil a False])) c"
    unfolding pulse_coil_def
    by (intro follows_gets follows_seq follows_write_coil)
      (simp add: followsI_one sleep_op_def put_wire_sent)
  then show ?thesis by (simp add: pulse_plan_def)
qed

lemma follows_for:
  assumes "\<And>x c'. x \<in> set xs \<Longrightarrow> mc_config c' = mc_config c \<Longrightarrow> follows (f x) (p x) c'"
  shows "follows (for_op f xs) (concat (map p xs)) c"
  using assms
proof (induction xs arbitrary: c)
  case Nil
  show ?case by (simp add: followsI_pure)
next
  case (Cons x xs)
  have "follows (f x) (p x) c" using Cons.prems by simp
  moreover have "follows (for_op f xs) (concat (map p xs)) (sent (p x) c)"
    using Cons.prems by (intro Cons.IH) simp
  ultimately show ?case
    by (simp add: follows_seq)
qed

definition address_or_zero :: "modbus_config \<Rightarrow> string \<Rightarrow> int" where
  "address_or_zero cfg l = (case coil_address_for_label cfg l of Inl _ \<Rightarrow> 0 | Inr a \<Rightarrow> a)"

text \<open>The planned wire traffic of applying a state.\<close>

definition state_plan :: "modbus_config \<Rightarrow> system_state \<Rightarrow> bool \<Rightarrow> request list" where
  "state_plan cfg st reset_before_apply =
     (if reset_before_apply then pulse_plan (pulse_duration_s cfg) (reset_coil_address cfg) else [])
     @ concat (map (\<lambda>l. pulse_plan (pulse_duration_s cfg) (address_or_zero cfg l))
                (output_labels_for_state cfg st))"

lemma duration_None [simp]: "duration_of None c = pulse_duration_s (mc_config c)"
  by (simp add: duration_of_def)

lemma follows_label_pulse:
  assumes "config_ok (mc_config c)" and "l \<in> set (output_labels_for_state (mc_config c) st)"
  shows "follows (bind_op (label_address l) (\<lambda>a. pulse_coil bus a None))
           (pulse_plan (pulse_duration_s (mc_config c)) (address_or_zero (mc_config c) l)) c"
proof -
  obtain a where a: "coil_address_for_label (mc_config c) l = Inr a"
    using assms by (rule config_ok_resolves)
  then have "label_address l c = (Inr a, c)" by (simp add: label_address_def)
  then have "bind_op (label_address l) (\<lambda>a. pulse_coil bus a None) c = pulse_coil bus a None c"
    by (simp add: bind_op_Inr)
  with a follows_pulse_coil [of bus a None c] show ?thesis
    by (simp add: follows_def address_or_zero_def)
qed

lemma follows_apply_outputs:
  assumes "config_ok (mc_config c)"
  shows "follows (apply_outputs_op bus st r) (state_plan (mc_config c) st r) c"
proof -
  have reset: "follows (if r then reset_outputs bus None else ret_op ())
      (if r then pulse_plan (pulse_duration_s (mc_config c)) (reset_coil_address (mc_config c))
       else []) c"
    using follows_pulse_coil [of bus "reset_coil_address (mc_config c)" None c]
    by (auto simp: reset_outputs_def intro: follows_gets followsI_pure)
  show ?thesis
    unfolding apply_outputs_op_def state_plan_def
    using assms by (intro follows_gets follows_seq [OF reset] follows_for)
      (metis follows_label_pulse sent_simps(3))
qed

lemma set_system_state_ok_iff:
  "is_ok (fst (set_system_state bus st ap r c)) \<longleftrightarrow> \<not> ap \<or> is_ok (fst (apply_outputs_op bus st r c))"
  by (cases "apply_outputs_op bus st r c"; cases "fst (apply_outputs_op bus st r c)")
    (auto simp: set_system_state_def seq_op_def bind_op_def)

section \<open>The coils as the wire left them\<close>

text \<open>The value last written to each coil, \<open>None\<close> where nothing was written.\<close>

fun coil_image :: "request list \<Rightarrow> (int \<rightharpoonup> bool) \<Rightarrow> (int \<rightharpoonup> bool)" where
  "coil_image [] m = m"
| "coil_image (WriteCoil a v # rs) m = coil_image rs (m(a \<mapsto> v))"
| "coil_image (WriteCoils a vs # rs) m =
     coil_image rs (m ++ map_of (zip (map (\<lambda>i. a + int i) [0..<length vs]) vs))"
| "coil_image (_ # rs) m = coil_image rs m"

lemma coil_image_append: "coil_image (xs @ ys) m = coil_image ys (coil_image xs m)"
  by (induction xs m rule: coil_image.induct) (simp_all del: fun_upd_apply)

lemma coil_image_pulse: "coil_image (pulse_plan d a) m = m(a \<mapsto> False)"
  by (simp add: pulse_plan_def)

lemma coil_image_pulses:
  "coil_image (concat (map (\<lambda>x. pulse_plan d (f x)) xs)) m b =
     (if b \<in> f ` set xs then Some False else m b)"
  by (induction xs arbitrary: m) (auto simp: coil_image_append coil_image_pulse)

end
