(* ===== verification/PlcNode.thy ===== *)
theory PlcNode imports PlcModbus begin

text \<open>
  The ROS node \<open>ros2_ws/src/plc/plc/plc_node.py\<close>: parameters and their validation, connection
  retry, the two latches, the delayed pulse timers, and every timer and subscription callback.
  rclpy spins the node on one thread, so a callback is one step; the publishers, the database
  rows the node tries to insert and the timers it creates are fields of the state. An exception
  no \<open>except\<close> clause catches leaves the callback as \<open>Inl\<close> and ends \<open>rclpy.spin\<close>.
\<close>

section \<open>Parameters\<close>

record node_params =
  np_port :: string
  np_baudrate :: int
  np_parity :: string
  np_stopbits :: int
  np_bytesize :: int
  np_device_id :: int
  np_start_coil_labels :: "string list"
  np_start_coil_addresses :: "int list"
  np_start_coil_outputs :: "string list"
  np_reset_coil_label :: string
  np_reset_coil_address :: int
  np_read_register_label :: string
  np_read_register_address :: int
  np_write_register_label :: string
  np_write_register_address :: int
  np_watchdog_coil_label :: string
  np_watchdog_coil_address :: int
  np_estop_input_label :: string
  np_estop_input_address :: int
  np_system_state_names :: "string list"
  np_system_state_output_labels :: "string list"
  np_read_period_s :: real
  np_connect_retry_count :: int
  np_connect_retry_backoff_s :: real
  np_pulse_duration_s :: real
  np_enable_watchdog :: bool
  np_watchdog_period_s :: real
  np_watchdog_timeout_s :: real
  np_enable_estop_poll :: bool
  np_estop_poll_period_s :: real
  np_db_path :: string

record node_config =
  modbus :: modbus_config
  read_period_s :: real
  connect_retry_count :: int
  connect_retry_backoff_s :: real
  enable_watchdog :: bool
  watchdog_period_s :: real
  watchdog_timeout_s :: real
  enable_estop_poll :: bool
  estop_poll_period_s :: real
  db_path :: string

datatype load_error =
    StartLengths
  | WatchdogNeedsAddress
  | WatchdogPeriodTooLong
  | WatchdogTimeoutTooLong
  | TimeoutNotGreater
  | EstopPollNeedsAddress
  | BadModbus plc_config_error

definition default_params :: node_params where
  "default_params =
     \<lparr>np_port = ''/dev/ttyUSB0'', np_baudrate = 115200, np_parity = ''N'', np_stopbits = 1,
      np_bytesize = 8, np_device_id = 1,
      np_start_coil_labels = [''M0000'', ''M0001'', ''M0002'', ''M0003'', ''M0004'', ''M0005''],
      np_start_coil_addresses = [0, 1, 2, 3, 4, 5],
      np_start_coil_outputs = [''P0040'', ''P0041'', ''P0042'', ''P0043'', ''P0043'', ''P0044''],
      np_reset_coil_label = ''M0100'', np_reset_coil_address = 256,
      np_read_register_label = ''P020'', np_read_register_address = 0,
      np_write_register_label = ''P000'', np_write_register_address = 0,
      np_watchdog_coil_label = ''M0050'', np_watchdog_coil_address = 80,
      np_estop_input_label = '''', np_estop_input_address = -1,
      np_system_state_names =
        [''idle'', ''listening'', ''inferring'', ''moving'', ''e_stop'', ''error'', ''watchdog''],
      np_system_state_output_labels =
        [''M0000'', ''M0001'', ''M0001'', ''M0002'', ''M0003'', ''M0004'', ''M0005''],
      np_read_period_s = 1, np_connect_retry_count = 3, np_connect_retry_backoff_s = 1/2,
      np_pulse_duration_s = 2/10, np_enable_watchdog = True, np_watchdog_period_s = 1/10,
      np_watchdog_timeout_s = 1/2, np_enable_estop_poll = False,
      np_estop_poll_period_s = 1/10, np_db_path = ''robot_arm.db''\<rparr>"

text \<open>\<open>label or None\<close>, and the sentinel \<open>-1\<close> for an address that is not set.\<close>

definition label_or_none :: "string \<Rightarrow> string option" where
  "label_or_none s = (if s = [] then None else Some s)"

definition address_or_none :: "int \<Rightarrow> int option" where
  "address_or_none a = (if 0 \<le> a then Some a else None)"

definition params_modbus :: "node_params \<Rightarrow> modbus_config" where
  "params_modbus p =
     \<lparr>port = np_port p, baudrate = np_baudrate p, parity = np_parity p,
      stopbits = np_stopbits p, bytesize = np_bytesize p, device_id = np_device_id p,
      start_coil_labels = np_start_coil_labels p,
      start_coil_addresses = np_start_coil_addresses p,
      start_coil_outputs = np_start_coil_outputs p,
      reset_coil_label = np_reset_coil_label p, reset_coil_address = np_reset_coil_address p,
      read_register_label = np_read_register_label p,
      read_register_address = np_read_register_address p,
      write_register_label = np_write_register_label p,
      write_register_address = np_write_register_address p,
      pulse_duration_s = np_pulse_duration_s p,
      watchdog_coil_label = label_or_none (np_watchdog_coil_label p),
      watchdog_coil_address = address_or_none (np_watchdog_coil_address p),
      estop_input_label = label_or_none (np_estop_input_label p),
      estop_input_address = address_or_none (np_estop_input_address p),
      system_state_outputs = empty_system_state_outputs\<rparr>"

definition load_config :: "node_params \<Rightarrow> (load_error, node_config) result" where
  "load_config p =
     (if \<not> (length (np_start_coil_labels p) = length (np_start_coil_addresses p)
            \<and> length (np_start_coil_addresses p) = length (np_start_coil_outputs p))
      then Inl StartLengths
      else (case parse_system_state_outputs (np_system_state_names p)
                   (np_system_state_output_labels p) of
          Inl e \<Rightarrow> Inl (BadModbus e)
        | Inr d \<Rightarrow>
      (case post_init (params_modbus p) (raw_of_parsed d) of
          Inl e \<Rightarrow> Inl (BadModbus e)
        | Inr cfg \<Rightarrow>
            if np_enable_watchdog p \<and> watchdog_coil_address cfg = None
            then Inl WatchdogNeedsAddress
            else if np_enable_watchdog p \<and> np_watchdog_period_s p > 1/10
            then Inl WatchdogPeriodTooLong
            else if np_enable_watchdog p \<and> np_watchdog_timeout_s p > 5/10
            then Inl WatchdogTimeoutTooLong
            else if np_enable_watchdog p \<and> np_watchdog_timeout_s p \<le> np_watchdog_period_s p
            then Inl TimeoutNotGreater
            else if np_enable_estop_poll p \<and> estop_input_address cfg = None
            then Inl EstopPollNeedsAddress
            else Inr
              \<lparr>modbus = cfg, read_period_s = np_read_period_s p,
               connect_retry_count = np_connect_retry_count p,
               connect_retry_backoff_s = np_connect_retry_backoff_s p,
               enable_watchdog = np_enable_watchdog p,
               watchdog_period_s = np_watchdog_period_s p,
               watchdog_timeout_s = np_watchdog_timeout_s p,
               enable_estop_poll = np_enable_estop_poll p,
               estop_poll_period_s = np_estop_poll_period_s p,
               db_path = np_db_path p\<rparr>)))"

section \<open>State\<close>

text \<open>What the node publishes on \<open>/plc/status\<close>, \<open>/plc/e_stop\<close> and \<open>/plc_word_read\<close>.\<close>

datatype publication = Status plc_status | Estop bool | WordRead int

text \<open>The closures \<open>_schedule_once\<close> registers.\<close>

datatype pending =
    ReleaseCoil int string "system_state option"
  | ApplyAfterReset "string list"
  | ReleaseAll

text \<open>A row of \<open>_record_plc_error\<close>: the fixed columns and the cause in the notes.\<close>

record event_row =
  er_event_type :: string
  er_track :: "string option"
  er_severity :: string
  er_notes :: "string \<times> plc_error option"

record plc_node =
  pn_config :: node_config
  pn_plc :: plc_client
  pn_estop_latched :: bool
  pn_watchdog_latched :: bool
  pn_watchdog_last_value :: "bool option"
  pn_same_sample_count :: nat
  pn_pulse_timers :: "(real \<times> pending) list"
  pn_published :: "publication list"
  pn_db_exists :: bool
  pn_db_inserts :: "event_row list"

type_synonym 'a node_op = "(plc_node, plc_error, 'a) op"

abbreviation cfg_of :: "plc_node \<Rightarrow> modbus_config" where
  "cfg_of n \<equiv> modbus (pn_config n)"

definition on_plc :: "'a plc_op \<Rightarrow> 'a node_op" where
  "on_plc m = lift_op pn_plc (\<lambda>c n. n\<lparr>pn_plc := c\<rparr>) m"

text \<open>\<open>try: m except PLCError as exc: h exc\<close>.\<close>

definition catch_plc :: "'a node_op \<Rightarrow> (plc_error \<Rightarrow> 'a node_op) \<Rightarrow> 'a node_op" where
  "catch_plc m h = catch_op m (\<lambda>e. if is_PLCError e then h e else fail_op e)"

section \<open>Publishing and recording\<close>

definition publish :: "publication \<Rightarrow> plc_node \<Rightarrow> plc_node" where
  "publish p n = n\<lparr>pn_published := pn_published n @ [p]\<rparr>"

definition publish_estop :: "bool \<Rightarrow> unit node_op" where
  "publish_estop b = modify_op (publish (Estop b))"

definition publish_status :: "plc_status \<Rightarrow> unit node_op" where
  "publish_status s = modify_op (publish (Status s))"

definition record_plc_error :: "string \<Rightarrow> plc_error option \<Rightarrow> unit node_op" where
  "record_plc_error prefix exc =
     modify_op (\<lambda>n.
       if \<not> pn_db_exists n then n
       else n\<lparr>pn_db_inserts := pn_db_inserts n @
              [\<lparr>er_event_type = ''plc_error'', er_track = None, er_severity = ''error'',
                er_notes = (prefix, exc)\<rparr>]\<rparr>)"

definition fault_state :: "plc_node \<Rightarrow> system_state" where
  "fault_state n =
     (if pn_estop_latched n then E_STOP else if pn_watchdog_latched n then WATCHDOG else ERROR)"

definition publish_fault_state :: "modbus_bus \<Rightarrow> unit node_op" where
  "publish_fault_state bus =
     bind_op (gets_op fault_state) (\<lambda>st.
     bind_op (on_plc (set_system_state bus st False True)) publish_status)"

definition ensure_connected :: "modbus_bus \<Rightarrow> bool node_op" where
  "ensure_connected bus = gets_op (\<lambda>n. connected bus (pn_plc n))"

section \<open>Coil writes and pulse timers\<close>

definition py_max :: "real \<Rightarrow> real \<Rightarrow> real" where
  "py_max a b = (if b > a then b else a)"

definition schedule_once :: "real \<Rightarrow> pending \<Rightarrow> unit node_op" where
  "schedule_once delay_s p =
     modify_op (\<lambda>n. n\<lparr>pn_pulse_timers := pn_pulse_timers n @ [(py_max delay_s (1/1000), p)]\<rparr>)"

definition write_coil_raw :: "modbus_bus \<Rightarrow> int \<Rightarrow> bool \<Rightarrow> string \<Rightarrow> bool node_op" where
  "write_coil_raw bus address v label =
     bind_op (ensure_connected bus) (\<lambda>up.
     if \<not> up then ret_op False
     else catch_plc
       (seq_op (on_plc (write_coil bus address v)) (ret_op True))
       (\<lambda>exc.
          seq_op (record_plc_error (label @ '' control failed'') (Some exc))
         (seq_op (publish_fault_state bus)
                 (ret_op False))))"

definition node_label_address :: "string \<Rightarrow> int node_op" where
  "node_label_address label n =
     (case coil_address_for_label (cfg_of n) label of
        Inl e \<Rightarrow> (Inl (ConfigError e), n)
      | Inr a \<Rightarrow> (Inr a, n))"

definition write_label_coil :: "modbus_bus \<Rightarrow> string \<Rightarrow> bool \<Rightarrow> bool node_op" where
  "write_label_coil bus label v =
     bind_op (node_label_address label) (\<lambda>a. write_coil_raw bus a v label)"

definition schedule_coil_release :: "int \<Rightarrow> string \<Rightarrow> system_state option \<Rightarrow> unit node_op" where
  "schedule_coil_release address label release_state =
     bind_op (gets_op (\<lambda>n. pulse_duration_s (cfg_of n))) (\<lambda>d.
     schedule_once d (ReleaseCoil address label release_state))"

definition pulse_label_for_state :: "modbus_bus \<Rightarrow> string \<Rightarrow> unit node_op" where
  "pulse_label_for_state bus label =
     bind_op (node_label_address label) (\<lambda>a.
     bind_op (write_coil_raw bus a True label) (\<lambda>ok.
     if \<not> ok then ret_op () else schedule_coil_release a label None))"

section \<open>Semantic states\<close>

definition apply_system_state_outputs :: "modbus_bus \<Rightarrow> system_state \<Rightarrow> bool \<Rightarrow> bool node_op" where
  "apply_system_state_outputs bus st reset_before_apply =
     bind_op (gets_op (\<lambda>n. output_labels_for_state (cfg_of n) st)) (\<lambda>labels.
     if st = E_STOP then all_op (\<lambda>l. write_label_coil bus l True) labels
     else if reset_before_apply then
       bind_op (gets_op cfg_of) (\<lambda>c.
       bind_op (write_coil_raw bus (reset_coil_address c) True (reset_coil_label c)) (\<lambda>ok.
       if \<not> ok then ret_op False
       else seq_op (schedule_once (pulse_duration_s c) (ApplyAfterReset labels))
                   (ret_op True)))
     else seq_op (for_op (pulse_label_for_state bus) labels) (ret_op True))"

definition set_and_publish :: "modbus_bus \<Rightarrow> system_state \<Rightarrow> bool \<Rightarrow> bool \<Rightarrow> unit node_op" where
  "set_and_publish bus st apply_outputs reset_before_apply =
     bind_op
       (catch_plc
         (bind_op (if apply_outputs then apply_system_state_outputs bus st reset_before_apply
                   else ret_op True) (\<lambda>ok.
          if \<not> ok
          then bind_op (gets_op fault_state) (\<lambda>f. on_plc (set_system_state bus f False True))
          else on_plc (set_system_state bus st False True)))
         (\<lambda>exc.
            seq_op (record_plc_error ''semantic state apply failed'' (Some exc))
           (bind_op (gets_op fault_state) (\<lambda>f. on_plc (set_system_state bus f False True)))))
       publish_status"

definition outputs_allowed :: "modbus_bus \<Rightarrow> bool node_op" where
  "outputs_allowed bus =
     bind_op (gets_op (\<lambda>n. (pn_estop_latched n, pn_watchdog_latched n))) (\<lambda>(estop, watchdog).
     if \<not> estop then
       (if \<not> watchdog then ret_op True
        else seq_op (set_and_publish bus WATCHDOG False True) (ret_op False))
     else seq_op (publish_estop True)
         (seq_op (set_and_publish bus E_STOP False True)
                 (ret_op False)))"

section \<open>Connecting\<close>

text \<open>The attempts \<open>attempt, ..., connect_retry_count\<close> of \<open>_connect_with_retry\<close>.\<close>

fun connect_attempts :: "modbus_bus \<Rightarrow> nat \<Rightarrow> nat \<Rightarrow> bool node_op" where
  "connect_attempts bus attempt 0 =
     bind_op (gets_op cfg_of) (\<lambda>c.
     seq_op (record_plc_error (''connect failed on '' @ port c) None)
    (seq_op (set_and_publish bus ERROR False True)
            (ret_op False)))"
| "connect_attempts bus attempt (Suc left) =
     bind_op
       (catch_plc
         (bind_op (on_plc (connect bus)) (\<lambda>up.
          if up then seq_op (set_and_publish bus IDLE True True) (ret_op True)
          else ret_op False))
         (\<lambda>exc. seq_op (record_plc_error ''connect failed'' (Some exc)) (ret_op False)))
       (\<lambda>done.
          if done then ret_op True
          else seq_op
            (if left = 0 then ret_op ()
             else bind_op (gets_op pn_config) (\<lambda>c.
                  on_plc (sleep_op (connect_retry_backoff_s c * real attempt))))
            (connect_attempts bus (Suc attempt) left))"

definition connect_with_retry :: "modbus_bus \<Rightarrow> bool node_op" where
  "connect_with_retry bus =
     bind_op (gets_op (\<lambda>n. nat (connect_retry_count (pn_config n)))) (connect_attempts bus 1)"

definition reconnect_timer_callback :: "modbus_bus \<Rightarrow> unit node_op" where
  "reconnect_timer_callback bus =
     bind_op (gets_op (\<lambda>n. connected bus (pn_plc n) \<or> pn_estop_latched n \<or> pn_watchdog_latched n))
       (\<lambda>skip.
     if skip then ret_op ()
     else catch_plc
       (bind_op (on_plc (connect bus)) (\<lambda>up.
        if up then set_and_publish bus IDLE True True else ret_op ()))
       (\<lambda>exc. record_plc_error ''reconnect failed'' (Some exc)))"

section \<open>Timer callbacks\<close>

definition read_timer_callback :: "modbus_bus \<Rightarrow> unit node_op" where
  "read_timer_callback bus =
     bind_op (ensure_connected bus) (\<lambda>up.
     if \<not> up then ret_op ()
     else bind_op (gets_op (\<lambda>n. read_register_address (cfg_of n))) (\<lambda>a.
     bind_op
       (catch_plc
         (bind_op (on_plc (read_register bus a)) (\<lambda>v. ret_op (Some v)))
         (\<lambda>exc.
            seq_op (record_plc_error ''word read failed'' (Some exc))
           (seq_op (publish_fault_state bus)
                   (ret_op None))))
       (\<lambda>r. case r of
              None \<Rightarrow> ret_op ()
            | Some v \<Rightarrow>
                seq_op (modify_op (publish (WordRead v)))
               (bind_op (gets_op (\<lambda>n. get_status (pn_plc n))) publish_status))))"

definition latch_watchdog :: "modbus_bus \<Rightarrow> unit node_op" where
  "latch_watchdog bus =
     seq_op (modify_op (\<lambda>n. n\<lparr>pn_watchdog_latched := True\<rparr>)) (publish_fault_state bus)"

text \<open>The sample bookkeeping after a successful heartbeat read.\<close>

definition watchdog_sample :: "modbus_bus \<Rightarrow> bool \<Rightarrow> unit node_op" where
  "watchdog_sample bus current_value =
     bind_op (gets_op pn_watchdog_last_value) (\<lambda>last.
     if last = None \<or> last \<noteq> Some current_value then
       modify_op (\<lambda>n. n\<lparr>pn_watchdog_last_value := Some current_value, pn_same_sample_count := 0\<rparr>)
     else
       seq_op (modify_op (\<lambda>n. n\<lparr>pn_same_sample_count := pn_same_sample_count n + 1\<rparr>))
      (bind_op (gets_op (\<lambda>n. real (pn_same_sample_count n) * watchdog_period_s (pn_config n)
                              \<ge> watchdog_timeout_s (pn_config n))) (\<lambda>stalled.
       if stalled then latch_watchdog bus else ret_op ())))"

definition watchdog_timer_callback :: "modbus_bus \<Rightarrow> unit node_op" where
  "watchdog_timer_callback bus =
     bind_op (gets_op (\<lambda>n. (pn_estop_latched n, pn_watchdog_latched n))) (\<lambda>(estop, watchdog).
     if estop then publish_fault_state bus
     else if watchdog then ret_op ()
     else bind_op (ensure_connected bus) (\<lambda>up.
     if \<not> up then latch_watchdog bus
     else bind_op
       (catch_plc
         (bind_op (on_plc (read_watchdog bus)) (\<lambda>v. ret_op (Some v)))
         (\<lambda>exc.
            seq_op (record_plc_error ''watchdog heartbeat failed'' (Some exc))
           (seq_op (latch_watchdog bus)
                   (ret_op None))))
       (\<lambda>r. case r of None \<Rightarrow> ret_op () | Some v \<Rightarrow> watchdog_sample bus v)))"

definition estop_poll_timer_callback :: "modbus_bus \<Rightarrow> unit node_op" where
  "estop_poll_timer_callback bus =
     bind_op (gets_op pn_estop_latched) (\<lambda>estop.
     if estop then seq_op (publish_estop True) (set_and_publish bus E_STOP False True)
     else bind_op (ensure_connected bus) (\<lambda>up.
     if \<not> up then ret_op ()
     else bind_op
       (catch_plc
         (on_plc (read_estop bus))
         (\<lambda>exc.
            seq_op (record_plc_error ''E-stop input read failed'' (Some exc))
           (seq_op (publish_fault_state bus)
                   (ret_op False))))
       (\<lambda>pressed.
          if pressed then
            seq_op (modify_op (\<lambda>n. n\<lparr>pn_estop_latched := True\<rparr>))
           (seq_op (publish_estop True)
                   (set_and_publish bus E_STOP True False))
          else ret_op ())))"

section \<open>Subscription callbacks\<close>

definition write_m_coil :: "modbus_bus \<Rightarrow> int \<Rightarrow> bool \<Rightarrow> string \<Rightarrow> bool node_op" where
  "write_m_coil bus address v label =
     bind_op (outputs_allowed bus) (\<lambda>allowed.
     if \<not> allowed then ret_op False
     else bind_op (ensure_connected bus) (\<lambda>up.
     if \<not> up then ret_op False
     else bind_op
       (catch_plc
         (seq_op (on_plc (write_coil bus address v)) (ret_op True))
         (\<lambda>exc.
            seq_op (record_plc_error (label @ '' control failed'') (Some exc))
           (seq_op (publish_fault_state bus)
                   (ret_op False))))
       (\<lambda>ok.
          if \<not> ok then ret_op False
          else seq_op (set_and_publish bus (if v then MOVING else IDLE) False True)
                      (ret_op True))))"

definition pulse_m_coil :: "modbus_bus \<Rightarrow> int \<Rightarrow> string \<Rightarrow> unit node_op" where
  "pulse_m_coil bus address label =
     bind_op (write_m_coil bus address True label) (\<lambda>ok.
     if \<not> ok then ret_op () else schedule_coil_release address label (Some IDLE))"

definition m_bit_callback :: "modbus_bus \<Rightarrow> bool \<Rightarrow> int \<Rightarrow> string \<Rightarrow> unit node_op" where
  "m_bit_callback bus pressed address label =
     (if pressed then pulse_m_coil bus address label
      else seq_op (write_m_coil bus address False label) (ret_op ()))"

definition bit_control_callback :: "modbus_bus \<Rightarrow> bool \<Rightarrow> unit node_op" where
  "bit_control_callback bus pressed =
     bind_op (gets_op cfg_of) (\<lambda>c.
     case (first_start_coil_address c, first_start_coil_label c, first_start_output_label c) of
       (Some a, Some l, Some out) \<Rightarrow> m_bit_callback bus pressed a (coil_display_label l out)
     | _ \<Rightarrow> fail_op IndexErr)"

definition write_m_all :: "modbus_bus \<Rightarrow> bool \<Rightarrow> bool \<Rightarrow> bool node_op" where
  "write_m_all bus v bypass_latch =
     bind_op (if \<not> bypass_latch then outputs_allowed bus else ret_op True) (\<lambda>allowed.
     if \<not> allowed then ret_op False
     else bind_op (ensure_connected bus) (\<lambda>up.
     if \<not> up then ret_op False
     else bind_op
       (catch_plc
         (seq_op (on_plc (write_start_coils bus v)) (ret_op True))
         (\<lambda>exc.
            seq_op (record_plc_error ''M coil batch control failed'' (Some exc))
           (seq_op (publish_fault_state bus)
                   (ret_op False))))
       (\<lambda>ok.
          if \<not> ok then ret_op False
          else seq_op (set_and_publish bus (if v then MOVING else IDLE) False True)
                      (ret_op True))))"

definition m_all_callback :: "modbus_bus \<Rightarrow> bool \<Rightarrow> unit node_op" where
  "m_all_callback bus pressed =
     (if \<not> pressed then seq_op (write_m_all bus False False) (ret_op ())
      else bind_op (write_m_all bus True False) (\<lambda>ok.
           if ok then bind_op (gets_op (\<lambda>n. pulse_duration_s (cfg_of n)))
                        (\<lambda>d. schedule_once d ReleaseAll)
           else ret_op ()))"

definition reset_callback :: "modbus_bus \<Rightarrow> bool \<Rightarrow> unit node_op" where
  "reset_callback bus pressed =
     bind_op (gets_op cfg_of) (\<lambda>c.
     m_bit_callback bus pressed (reset_coil_address c) (reset_coil_label c))"

definition system_state_callback :: "modbus_bus \<Rightarrow> string \<Rightarrow> unit node_op" where
  "system_state_callback bus data =
     (case parse_state (py_strip data) of
        None \<Rightarrow> set_and_publish bus ERROR False True
      | Some st \<Rightarrow>
          if st = E_STOP then
            seq_op (modify_op (\<lambda>n. n\<lparr>pn_estop_latched := True\<rparr>))
           (seq_op (publish_estop True)
           (bind_op (gets_op (\<lambda>n. connected bus (pn_plc n))) (\<lambda>up.
                    set_and_publish bus E_STOP up False)))
          else bind_op (gets_op pn_estop_latched) (\<lambda>estop.
            if estop then publish_fault_state bus
            else if st = WATCHDOG then
              seq_op (modify_op (\<lambda>n. n\<lparr>pn_watchdog_latched := True\<rparr>))
             (bind_op (gets_op (\<lambda>n. connected bus (pn_plc n))) (\<lambda>up.
                      set_and_publish bus WATCHDOG up False))
            else bind_op (outputs_allowed bus) (\<lambda>allowed.
              if \<not> allowed then ret_op ()
              else bind_op (ensure_connected bus) (\<lambda>up.
              if \<not> up then ret_op ()
              else set_and_publish bus st True True))))"

definition word_control_callback :: "modbus_bus \<Rightarrow> int \<Rightarrow> unit node_op" where
  "word_control_callback bus target_value =
     bind_op (outputs_allowed bus) (\<lambda>allowed.
     if \<not> allowed then ret_op ()
     else bind_op (ensure_connected bus) (\<lambda>up.
     if \<not> up then ret_op ()
     else bind_op (gets_op (\<lambda>n. write_register_address (cfg_of n))) (\<lambda>a.
     bind_op
       (catch_plc
         (seq_op (on_plc (write_register bus a target_value)) (ret_op True))
         (\<lambda>exc.
            seq_op (record_plc_error ''word write failed'' (Some exc))
           (seq_op (publish_fault_state bus)
                   (ret_op False))))
       (\<lambda>ok.
          if \<not> ok then ret_op () else set_and_publish bus MOVING False True))))"

section \<open>Pending timers\<close>

fun run_pending :: "modbus_bus \<Rightarrow> pending \<Rightarrow> unit node_op" where
  "run_pending bus (ReleaseCoil address label release_state) =
     seq_op (write_coil_raw bus address False label)
    (bind_op (gets_op pn_estop_latched) (\<lambda>estop.
     case release_state of
       None \<Rightarrow> ret_op ()
     | Some st \<Rightarrow> if \<not> estop then set_and_publish bus st False True else ret_op ()))"
| "run_pending bus (ApplyAfterReset labels) =
     bind_op (gets_op cfg_of) (\<lambda>c.
     seq_op (write_coil_raw bus (reset_coil_address c) False (reset_coil_label c))
            (for_op (pulse_label_for_state bus) labels))"
| "run_pending bus ReleaseAll = seq_op (write_m_all bus False True) (ret_op ())"

text \<open>
  \<open>run_once\<close>: the callback, and then, also after an exception, the timer is cancelled and
  removed. New timers are appended, so the fired one keeps its index.
\<close>

definition drop_timer :: "nat \<Rightarrow> plc_node \<Rightarrow> plc_node" where
  "drop_timer i n =
     n\<lparr>pn_pulse_timers := take i (pn_pulse_timers n) @ drop (Suc i) (pn_pulse_timers n)\<rparr>"

definition fire_timer :: "modbus_bus \<Rightarrow> nat \<Rightarrow> unit node_op" where
  "fire_timer bus i n =
     (if i < length (pn_pulse_timers n) then
        (case run_pending bus (snd (pn_pulse_timers n ! i)) n of (r, n') \<Rightarrow> (r, drop_timer i n'))
      else (Inr (), n))"

section \<open>The node\<close>

datatype node_event =
    ReadTick
  | ReconnectTick
  | WatchdogTick
  | EstopTick
  | TimerFires nat
  | BitMsg bool
  | MBitMsg nat bool
  | MAllMsg bool
  | ResetMsg bool
  | SystemStateMsg string
  | WordMsg int

definition m_bit_message :: "modbus_bus \<Rightarrow> nat \<Rightarrow> bool \<Rightarrow> unit node_op" where
  "m_bit_message bus i pressed =
     bind_op (gets_op cfg_of) (\<lambda>c.
     case drop i (zip (start_coil_labels c)
                   (zip (start_coil_addresses c) (start_coil_outputs c))) of
       [] \<Rightarrow> ret_op ()
     | (l, a, out) # _ \<Rightarrow> m_bit_callback bus pressed a (coil_display_label l out))"

fun handle :: "modbus_bus \<Rightarrow> node_event \<Rightarrow> unit node_op" where
  "handle bus ReadTick = read_timer_callback bus"
| "handle bus ReconnectTick = reconnect_timer_callback bus"
| "handle bus WatchdogTick =
     bind_op (gets_op (\<lambda>n. enable_watchdog (pn_config n))) (\<lambda>on.
     if on then watchdog_timer_callback bus else ret_op ())"
| "handle bus EstopTick =
     bind_op (gets_op (\<lambda>n. enable_estop_poll (pn_config n))) (\<lambda>on.
     if on then estop_poll_timer_callback bus else ret_op ())"
| "handle bus (TimerFires i) = fire_timer bus i"
| "handle bus (BitMsg b) = bit_control_callback bus b"
| "handle bus (MBitMsg i b) = m_bit_message bus i b"
| "handle bus (MAllMsg b) = m_all_callback bus b"
| "handle bus (ResetMsg b) = reset_callback bus b"
| "handle bus (SystemStateMsg s) = system_state_callback bus s"
| "handle bus (WordMsg v) = word_control_callback bus v"

text \<open>One callback, and a run of the executor; an uncaught exception ends \<open>spin\<close>.\<close>

definition step :: "modbus_bus \<Rightarrow> node_event \<Rightarrow> unit node_op" where
  "step bus ev = seq_op (on_plc (modify_op (put_wire Wake))) (handle bus ev)"

definition run_events :: "modbus_bus \<Rightarrow> node_event list \<Rightarrow> unit node_op" where
  "run_events bus evs = for_op (step bus) evs"

definition fresh_node :: "node_config \<Rightarrow> bool \<Rightarrow> plc_node" where
  "fresh_node cfg db_exists =
     \<lparr>pn_config = cfg, pn_plc = client_init (modbus cfg), pn_estop_latched = False,
      pn_watchdog_latched = False, pn_watchdog_last_value = None, pn_same_sample_count = 0,
      pn_pulse_timers = [], pn_published = [], pn_db_exists = db_exists, pn_db_inserts = []\<rparr>"

text \<open>
  \<open>__init__\<close>: the first \<open>/plc/e_stop\<close> message, the topic name of every M coil (a label that
  is no hex number ends the start-up), and the connection.
\<close>

definition node_init :: "modbus_bus \<Rightarrow> node_config \<Rightarrow> bool \<Rightarrow> bool node_op" where
  "node_init bus cfg db_exists n =
     (case find (\<lambda>l. \<not> is_ok (m_topic_suffix l)) (start_coil_labels (modbus cfg)) of
        Some l \<Rightarrow>
          (Inl (ConfigError (BadHexLabel l)), publish (Estop False) (fresh_node cfg db_exists))
      | None \<Rightarrow> connect_with_retry bus (publish (Estop False) (fresh_node cfg db_exists)))"

section \<open>Operations without failure\<close>

text \<open>The node after storing a state in the client and publishing its snapshot.\<close>

definition show_state :: "system_state \<Rightarrow> plc_node \<Rightarrow> plc_node" where
  "show_state st n =
     publish (Status (status_of st)) (n\<lparr>pn_plc := (pn_plc n)\<lparr>mc_current_state := st\<rparr>\<rparr>)"

definition node_sends :: "request \<Rightarrow> plc_node \<Rightarrow> plc_node" where
  "node_sends req n = n\<lparr>pn_plc := put_wire req (pn_plc n)\<rparr>"

definition recorded :: "string \<Rightarrow> plc_error option \<Rightarrow> plc_node \<Rightarrow> plc_node" where
  "recorded prefix exc n = snd (record_plc_error prefix exc n)"

lemma record_plc_error_eq: "record_plc_error prefix exc n = (Inr (), recorded prefix exc n)"
  by (simp add: record_plc_error_def recorded_def)

lemma publish_fields [simp]:
  "pn_config (publish p n) = pn_config n" "pn_plc (publish p n) = pn_plc n"
  "pn_estop_latched (publish p n) = pn_estop_latched n"
  "pn_watchdog_latched (publish p n) = pn_watchdog_latched n"
  "pn_watchdog_last_value (publish p n) = pn_watchdog_last_value n"
  "pn_same_sample_count (publish p n) = pn_same_sample_count n"
  "pn_pulse_timers (publish p n) = pn_pulse_timers n"
  "pn_published (publish p n) = pn_published n @ [p]"
  "pn_db_exists (publish p n) = pn_db_exists n" "pn_db_inserts (publish p n) = pn_db_inserts n"
  by (simp_all add: publish_def)

lemma show_state_fields [simp]:
  "pn_config (show_state st n) = pn_config n"
  "mc_config (pn_plc (show_state st n)) = mc_config (pn_plc n)"
  "mc_wire (pn_plc (show_state st n)) = mc_wire (pn_plc n)"
  "mc_current_state (pn_plc (show_state st n)) = st"
  "pn_estop_latched (show_state st n) = pn_estop_latched n"
  "pn_watchdog_latched (show_state st n) = pn_watchdog_latched n"
  "pn_watchdog_last_value (show_state st n) = pn_watchdog_last_value n"
  "pn_same_sample_count (show_state st n) = pn_same_sample_count n"
  "pn_pulse_timers (show_state st n) = pn_pulse_timers n"
  "pn_published (show_state st n) = pn_published n @ [Status (status_of st)]"
  "pn_db_exists (show_state st n) = pn_db_exists n"
  "pn_db_inserts (show_state st n) = pn_db_inserts n"
  by (simp_all add: show_state_def)

lemma node_sends_fields [simp]:
  "pn_config (node_sends q n) = pn_config n"
  "mc_config (pn_plc (node_sends q n)) = mc_config (pn_plc n)"
  "mc_wire (pn_plc (node_sends q n)) = mc_wire (pn_plc n) @ [q]"
  "mc_current_state (pn_plc (node_sends q n)) = mc_current_state (pn_plc n)"
  "pn_estop_latched (node_sends q n) = pn_estop_latched n"
  "pn_watchdog_latched (node_sends q n) = pn_watchdog_latched n"
  "pn_watchdog_last_value (node_sends q n) = pn_watchdog_last_value n"
  "pn_same_sample_count (node_sends q n) = pn_same_sample_count n"
  "pn_pulse_timers (node_sends q n) = pn_pulse_timers n"
  "pn_published (node_sends q n) = pn_published n"
  "pn_db_exists (node_sends q n) = pn_db_exists n"
  "pn_db_inserts (node_sends q n) = pn_db_inserts n"
  by (simp_all add: node_sends_def put_wire_def)

lemma recorded_fields [simp]:
  "pn_config (recorded m x n) = pn_config n" "pn_plc (recorded m x n) = pn_plc n"
  "pn_estop_latched (recorded m x n) = pn_estop_latched n"
  "pn_watchdog_latched (recorded m x n) = pn_watchdog_latched n"
  "pn_watchdog_last_value (recorded m x n) = pn_watchdog_last_value n"
  "pn_same_sample_count (recorded m x n) = pn_same_sample_count n"
  "pn_pulse_timers (recorded m x n) = pn_pulse_timers n"
  "pn_published (recorded m x n) = pn_published n"
  "pn_db_exists (recorded m x n) = pn_db_exists n"
  by (simp_all add: recorded_def record_plc_error_def)

lemma fault_state_frame [simp]:
  "fault_state (node_sends q n) = fault_state n" "fault_state (recorded m x n) = fault_state n"
  "fault_state (publish p n) = fault_state n" "fault_state (show_state st n) = fault_state n"
  by (simp_all add: fault_state_def)

lemma publish_fault_state_eq:
  "publish_fault_state bus n = (Inr (), show_state (fault_state n) n)"
  by (simp add: publish_fault_state_def publish_status_def on_plc_def lift_op_def bind_op_def
      set_system_state_no_outputs show_state_def)

lemma set_and_publish_no_outputs:
  "set_and_publish bus st False r n = (Inr (), show_state st n)"
  by (simp add: set_and_publish_def catch_plc_def catch_op_def publish_status_def on_plc_def
      lift_op_def bind_op_def set_system_state_no_outputs show_state_def)

lemma outputs_allowed_eq:
  "outputs_allowed bus n =
     (if pn_estop_latched n then (Inr False, show_state E_STOP (publish (Estop True) n))
      else if pn_watchdog_latched n then (Inr False, show_state WATCHDOG n)
      else (Inr True, n))"
  by (simp add: outputs_allowed_def bind_op_def seq_op_def set_and_publish_no_outputs
      publish_estop_def)

text \<open>How the bus answers the next request of the node.\<close>

definition next_reply :: "modbus_bus \<Rightarrow> request \<Rightarrow> plc_node \<Rightarrow> reply" where
  "next_reply bus q n = reply_of bus (mc_wire (pn_plc n)) q"

fun reply_error :: "request \<Rightarrow> reply \<Rightarrow> plc_error" where
  "reply_error q (Raised x) = PLCError q (Some x)"
| "reply_error q _ = PLCError q None"

fun reply_ok :: "reply \<Rightarrow> bool" where
  "reply_ok (Response r b) = True"
| "reply_ok _ = False"

lemma is_PLCError_reply [simp]: "is_PLCError (reply_error q r)"
  by (cases r) simp_all

lemma on_plc_write_coil:
  "on_plc (write_coil bus a v) n =
     (if reply_ok (next_reply bus (WriteCoil a v) n) then Inr ()
      else Inl (reply_error (WriteCoil a v) (next_reply bus (WriteCoil a v) n)),
      node_sends (WriteCoil a v) n)"
  by (simp add: on_plc_def lift_op_def write_coil_def seq_op_def bind_op_def call_def next_reply_def
      node_sends_def split: reply.splits)

lemma on_plc_write_register:
  "on_plc (write_register bus a v) n =
     (if reply_ok (next_reply bus (WriteReg a v) n) then Inr ()
      else Inl (reply_error (WriteReg a v) (next_reply bus (WriteReg a v) n)),
      node_sends (WriteReg a v) n)"
  by (simp add: on_plc_def lift_op_def write_register_def seq_op_def bind_op_def call_def
      next_reply_def node_sends_def split: reply.splits)

text \<open>The common tail of every failed request: record it, publish the fault state.\<close>

definition faulted :: "string \<Rightarrow> plc_error \<Rightarrow> plc_node \<Rightarrow> plc_node" where
  "faulted prefix exc n = show_state (fault_state n) (recorded prefix (Some exc) n)"

lemma faulted_fields [simp]:
  "pn_config (faulted m x n) = pn_config n"
  "mc_config (pn_plc (faulted m x n)) = mc_config (pn_plc n)"
  "mc_wire (pn_plc (faulted m x n)) = mc_wire (pn_plc n)"
  "mc_current_state (pn_plc (faulted m x n)) = fault_state n"
  "pn_estop_latched (faulted m x n) = pn_estop_latched n"
  "pn_watchdog_latched (faulted m x n) = pn_watchdog_latched n"
  "pn_pulse_timers (faulted m x n) = pn_pulse_timers n"
  "pn_published (faulted m x n) = pn_published n @ [Status (status_of (fault_state n))]"
  by (simp_all add: faulted_def)

lemma write_coil_raw_eq:
  "write_coil_raw bus a v l n =
     (let q = WriteCoil a v; r = next_reply bus q n in
      if \<not> connected bus (pn_plc n) then (Inr False, n)
      else if reply_ok r then (Inr True, node_sends q n)
      else (Inr False, faulted (l @ '' control failed'') (reply_error q r) (node_sends q n)))"
  by (simp add: write_coil_raw_def ensure_connected_def catch_plc_def catch_op_def bind_op_def
      seq_op_def on_plc_write_coil record_plc_error_eq publish_fault_state_eq faulted_def Let_def)

lemma write_m_coil_eq:
  "write_m_coil bus a v l n =
     (let q = WriteCoil a v; r = next_reply bus q n in
      if pn_estop_latched n \<or> pn_watchdog_latched n then outputs_allowed bus n
      else if \<not> connected bus (pn_plc n) then (Inr False, n)
      else if reply_ok r then (Inr True, show_state (if v then MOVING else IDLE) (node_sends q n))
      else (Inr False, faulted (l @ '' control failed'') (reply_error q r) (node_sends q n)))"
  by (simp add: write_m_coil_def ensure_connected_def catch_plc_def catch_op_def bind_op_def
      seq_op_def on_plc_write_coil record_plc_error_eq publish_fault_state_eq faulted_def Let_def
      outputs_allowed_eq set_and_publish_no_outputs)

section \<open>The node invariant\<close>

definition resolvable :: "modbus_config \<Rightarrow> string \<Rightarrow> bool" where
  "resolvable c l \<longleftrightarrow> is_ok (coil_address_for_label c l)"

fun timer_ok :: "modbus_config \<Rightarrow> pending \<Rightarrow> bool" where
  "timer_ok c (ApplyAfterReset ls) = list_all (resolvable c) ls"
| "timer_ok c _ = True"

fun publication_ok :: "publication \<Rightarrow> bool" where
  "publication_ok (Status s) = (s = status_of (plc_status.system_state s))"
| "publication_ok _ = True"

definition node_ok :: "plc_node \<Rightarrow> bool" where
  "node_ok n \<longleftrightarrow>
     config_ok (cfg_of n) \<and> mc_config (pn_plc n) = cfg_of n
     \<and> list_all (\<lambda>t. timer_ok (cfg_of n) (snd t)) (pn_pulse_timers n)
     \<and> list_all publication_ok (pn_published n)
     \<and> list_all (\<lambda>r. er_event_type r = ''plc_error'') (pn_db_inserts n)"

text \<open>The invariant, with a fixed configuration and lower bounds for the two latches.\<close>

definition node_inv :: "node_config \<Rightarrow> bool \<Rightarrow> bool \<Rightarrow> plc_node \<Rightarrow> bool" where
  "node_inv cfg e w n \<longleftrightarrow>
     node_ok n \<and> pn_config n = cfg \<and> (e \<longrightarrow> pn_estop_latched n) \<and> (w \<longrightarrow> pn_watchdog_latched n)"

named_theorems node_runs "operations that keep the node invariant and do not raise"

lemma config_ok_resolvable:
  "config_ok c \<Longrightarrow> list_all (resolvable c) (output_labels_for_state c st)"
  by (auto simp: list_all_iff resolvable_def is_ok_iff elim: config_ok_resolves)

lemma node_inv_steps [simp]:
  "node_inv cfg e w (show_state st n) = node_inv cfg e w n"
  "node_inv cfg e w (publish (Estop b) n) = node_inv cfg e w n"
  "node_inv cfg e w (publish (WordRead v) n) = node_inv cfg e w n"
  "node_inv cfg e w (node_sends q n) = node_inv cfg e w n"
  "node_inv cfg e w (publish (Status (status_of st)) n) = node_inv cfg e w n"
  by (auto simp: node_inv_def node_ok_def)

lemma node_inv_recorded [simp]:
  "node_inv cfg e w (recorded m x n) = node_inv cfg e w n"
  by (auto simp: node_inv_def node_ok_def recorded_def record_plc_error_def)

lemma node_inv_faulted [simp]:
  "node_inv cfg e w (faulted m x n) = node_inv cfg e w n"
  by (simp add: faulted_def)

lemma node_inv_flags [simp]:
  "node_inv cfg e w n \<Longrightarrow> node_inv cfg e w (n\<lparr>pn_estop_latched := True\<rparr>)"
  "node_inv cfg e w n \<Longrightarrow> node_inv cfg e w (n\<lparr>pn_watchdog_latched := True\<rparr>)"
  "node_inv cfg e w (n\<lparr>pn_watchdog_last_value := v\<rparr>) = node_inv cfg e w n"
  "node_inv cfg e w (n\<lparr>pn_same_sample_count := k\<rparr>) = node_inv cfg e w n"
  by (auto simp: node_inv_def node_ok_def)

lemma node_inv_cfg: "node_inv cfg e w n \<Longrightarrow> cfg_of n = modbus cfg \<and> config_ok (modbus cfg)"
  by (auto simp: node_inv_def node_ok_def)

lemma runs_show [node_runs]: "runs (node_inv cfg e w) (publish_fault_state bus) n"
  by (simp add: runs_def publish_fault_state_eq)

lemma runs_publish_estop [node_runs]: "runs (node_inv cfg e w) (publish_estop b) n"
  by (simp add: runs_def publish_estop_def)

lemma runs_record [node_runs]: "runs (node_inv cfg e w) (record_plc_error m x) n"
  by (simp add: runs_def record_plc_error_eq)

lemma runs_connected [node_runs]: "runs (node_inv cfg e w) (ensure_connected bus) n"
  by (simp add: runs_def ensure_connected_def)

lemma runs_allowed [node_runs]: "runs (node_inv cfg e w) (outputs_allowed bus) n"
  by (simp add: runs_def outputs_allowed_eq)

lemma runs_schedule [node_runs]:
  "timer_ok (modbus cfg) p \<Longrightarrow> runs (node_inv cfg e w) (schedule_once d p) n"
  by (auto simp: runs_def schedule_once_def node_inv_def node_ok_def)

lemma runs_write_coil_raw [node_runs]: "runs (node_inv cfg e w) (write_coil_raw bus a v l) n"
  by (simp add: runs_def write_coil_raw_eq Let_def)

lemma runs_write_m_coil [node_runs]: "runs (node_inv cfg e w) (write_m_coil bus a v l) n"
  by (simp add: runs_def write_m_coil_eq outputs_allowed_eq Let_def)

lemma runs_label_address [node_runs]:
  "resolvable (modbus cfg) l \<Longrightarrow> runs (node_inv cfg e w) (node_label_address l) n"
  using node_inv_cfg [of cfg e w n]
  by (auto simp: runs_def node_label_address_def resolvable_def is_ok_iff)

lemma runs_set_silent [node_runs]: "runs (node_inv cfg e w) (set_and_publish bus st False r) n"
  by (simp add: runs_def set_and_publish_no_outputs)

lemma runs_release [node_runs]:
  "runs (node_inv cfg e w) (schedule_coil_release a l r) n"
  by (auto simp: schedule_coil_release_def intro!: runs_bind node_runs)

lemma runs_write_label [node_runs]:
  "resolvable (modbus cfg) l \<Longrightarrow> runs (node_inv cfg e w) (write_label_coil bus l v) n"
  by (auto simp: write_label_coil_def intro!: runs_bind node_runs)

lemma runs_pulse_label [node_runs]:
  "resolvable (modbus cfg) l \<Longrightarrow> runs (node_inv cfg e w) (pulse_label_for_state bus l) n"
  by (auto simp: pulse_label_for_state_def intro!: runs_bind node_runs)

lemma runs_apply_outputs [node_runs]:
  "runs (node_inv cfg e w) (apply_system_state_outputs bus st r) n"
proof (cases "node_inv cfg e w n")
  case True
  then have c: "cfg_of n = modbus cfg" "config_ok (modbus cfg)" by (auto dest: node_inv_cfg)
  have labels: "\<forall>l\<in>set (output_labels_for_state (modbus cfg) st). resolvable (modbus cfg) l"
    using config_ok_resolvable [OF c(2)] by (simp add: list_all_iff)
  show ?thesis
    unfolding apply_system_state_outputs_def
    using labels config_ok_resolvable [OF c(2), of st]
    by (auto simp: c(1) intro!: runs_bind_gets runs_seq runs_bind [of _ "write_coil_raw _ _ _ _"]
        runs_all runs_for runs_ret node_runs)
qed (simp add: runs_def)

lemma runs_on_set [node_runs]:
  "runs (node_inv cfg e w) (on_plc (set_system_state bus st False r)) n"
  by (auto simp: runs_def on_plc_def lift_op_def set_system_state_no_outputs node_inv_def
      node_ok_def)

lemma runs_set_and_publish [node_runs]: "runs (node_inv cfg e w) (set_and_publish bus st ap r) n"
proof -
  let ?body = "bind_op (if ap then apply_system_state_outputs bus st r else ret_op True) (\<lambda>ok.
      if \<not> ok then bind_op (gets_op fault_state) (\<lambda>f. on_plc (set_system_state bus f False True))
      else on_plc (set_system_state bus st False True))"
  have out: "\<exists>s. a = status_of s" if "?body t = (Inr a, u)" for a t u
    using that by (auto simp: on_plc_def lift_op_def set_system_state_no_outputs bind_op_def
        split: prod.splits sum.splits if_splits)
  have body: "runs (node_inv cfg e w) ?body n"
    by (auto intro!: runs_bind runs_ret node_runs)
  have "runs (node_inv cfg e w) (bind_op (catch_plc ?body h) publish_status) n" for h
    unfolding catch_plc_def
  proof (rule runs_bind [OF runs_catch [OF body]])
    fix a t
    assume "node_inv cfg e w n"
      and "catch_op ?body (\<lambda>e. if is_PLCError e then h e else fail_op e) n = (Inr a, t)"
    with body have "?body n = (Inr a, t)"
      by (cases "?body n") (auto simp: catch_op_def runs_def split: sum.splits)
    then obtain s where "a = status_of s" using out by blast
    then show "runs (node_inv cfg e w) (publish_status a) t"
      by (simp add: publish_status_def runs_def)
  qed
  then show ?thesis unfolding set_and_publish_def .
qed

lemma runs_catch_plc: "runs I m n \<Longrightarrow> runs I (catch_plc m h) n"
  unfolding catch_plc_def by (rule runs_catch)

text \<open>A request that raises a \<open>PLCError\<close> is caught; the handler then has to keep the invariant.\<close>

lemma runs_catch_plc_wire:
  assumes m: "\<And>r t. m n = (r, t) \<Longrightarrow> I n \<Longrightarrow> I t \<and> (case r of Inl x \<Rightarrow> is_PLCError x | Inr _ \<Rightarrow> True)"
    and h: "\<And>x t. I t \<Longrightarrow> runs I (h x) t"
  shows "runs I (catch_plc m h) n"
proof (rule runsI)
  assume I: "I n"
  obtain r t where eq: "m n = (r, t)" by (cases "m n")
  show "\<exists>a u. catch_plc m h n = (Inr a, u) \<and> I u"
  proof (cases r)
    case (Inl x)
    then have "I t" "is_PLCError x" using m [OF eq I] by simp_all
    then show ?thesis
      using h [of t x] eq Inl by (auto simp: catch_plc_def catch_op_def dest: runsD)
  next
    case (Inr a)
    then show ?thesis using m [OF eq I] eq by (simp add: catch_plc_def catch_op_def)
  qed
qed

lemma on_plc_cases:
  "on_plc m n = (fst (m (pn_plc n)), n\<lparr>pn_plc := snd (m (pn_plc n))\<rparr>)"
  by (simp add: on_plc_def lift_op_def split: prod.splits)

lemma node_inv_plc:
  "mc_config c = mc_config (pn_plc n) \<Longrightarrow>
   node_inv cfg e w (n\<lparr>pn_plc := c\<rparr>) = node_inv cfg e w n"
  by (auto simp: node_inv_def node_ok_def)

text \<open>Client operations that fail, if at all, with a \<open>PLCError\<close>, and keep the configuration.\<close>

definition plc_safe :: "'a plc_op \<Rightarrow> plc_client \<Rightarrow> bool" where
  "plc_safe m c \<longleftrightarrow>
     mc_config (snd (m c)) = mc_config c
     \<and> (case fst (m c) of Inl x \<Rightarrow> is_PLCError x | Inr _ \<Rightarrow> True)"

lemma plc_safe_call: "plc_safe (call bus q) c"
  by (simp add: plc_safe_def call_def put_wire_def split: reply.splits)

lemma plc_safe_connect: "plc_safe (connect bus) c"
  by (simp add: plc_safe_def connect_def put_wire_def split: sum.splits)

lemma plc_safe_ret: "plc_safe (ret_op a) c"
  by (simp add: plc_safe_def)

lemma plc_safe_bind:
  "plc_safe m c \<Longrightarrow> (\<And>a t. m c = (Inr a, t) \<Longrightarrow> plc_safe (f a) t) \<Longrightarrow> plc_safe (bind_op m f) c"
  by (cases rule: bind_op_cases [of m c f]) (auto simp: plc_safe_def)

lemma plc_safe_seq: "plc_safe m c \<Longrightarrow> (\<And>t. plc_safe k t) \<Longrightarrow> plc_safe (seq_op m k) c"
  unfolding seq_op_def by (rule plc_safe_bind)

lemma plc_safe_gets: "plc_safe (f (g c)) c \<Longrightarrow> plc_safe (bind_op (gets_op g) f) c"
  by (simp add: plc_safe_def bind_op_def)

lemma plc_safe_for: "(\<And>x t. plc_safe (f x) t) \<Longrightarrow> plc_safe (for_op f xs) c"
  by (induction xs arbitrary: c) (simp_all add: plc_safe_ret plc_safe_seq)

lemma plc_safe_reads:
  "plc_safe (read_register bus a) c" "plc_safe (write_register bus a v) c"
  "plc_safe (write_coil bus a b) c" "plc_safe (read_coil bus a) c"
  "plc_safe (read_discrete_input bus a) c"
  by (auto simp: read_register_def write_register_def write_coil_def read_coil_def
      read_discrete_input_def intro!: plc_safe_bind plc_safe_seq plc_safe_call plc_safe_ret)

lemma plc_safe_watchdog: "plc_safe (read_watchdog bus) c" "plc_safe (read_estop bus) c"
  by (auto simp: read_watchdog_def read_estop_def plc_safe_def [of "fail_op _"]
      intro!: plc_safe_gets plc_safe_reads split: option.splits)

lemma plc_safe_start:
  assumes "config_ok (mc_config c)"
  shows "plc_safe (write_start_coils bus v) c"
proof -
  obtain a as where "start_coil_addresses (mc_config c) = a # as"
    using assms by (cases "start_coil_addresses (mc_config c)") (auto simp: config_ok_def)
  then show ?thesis
    by (auto simp: write_start_coils_def first_of_def
        intro!: plc_safe_gets plc_safe_for plc_safe_seq plc_safe_reads plc_safe_call plc_safe_ret)
qed

lemma runs_catch_on_plc:
  assumes m: "node_inv cfg e w n \<Longrightarrow> plc_safe m (pn_plc n)"
    and f: "\<And>a t. node_inv cfg e w t \<Longrightarrow> runs (node_inv cfg e w) (f a) t"
    and h: "\<And>x t. node_inv cfg e w t \<Longrightarrow> runs (node_inv cfg e w) (h x) t"
  shows "runs (node_inv cfg e w) (catch_plc (bind_op (on_plc m) f) h) n"
proof (rule runs_catch_plc_wire)
  fix r t
  assume eq: "bind_op (on_plc m) f n = (r, t)" and I: "node_inv cfg e w n"
  let ?t = "n\<lparr>pn_plc := snd (m (pn_plc n))\<rparr>"
  have inv: "node_inv cfg e w ?t"
    using m I by (simp add: plc_safe_def node_inv_plc)
  show "node_inv cfg e w t \<and> (case r of Inl x \<Rightarrow> is_PLCError x | Inr _ \<Rightarrow> True)"
  proof (cases "fst (m (pn_plc n))")
    case (Inl x)
    then show ?thesis using eq inv m I by (auto simp: bind_op_def on_plc_cases plc_safe_def)
  next
    case (Inr a)
    then have "f a ?t = (r, t)" using eq by (simp add: bind_op_def on_plc_cases)
    then show ?thesis using runs_eqD [OF f [OF inv, of a] inv] by (auto simp: is_ok_iff)
  qed
qed (rule h)

lemma runs_catch_on_plc_seq:
  assumes "node_inv cfg e w n \<Longrightarrow> plc_safe m (pn_plc n)"
    and "\<And>t. node_inv cfg e w t \<Longrightarrow> runs (node_inv cfg e w) k t"
    and "\<And>x t. node_inv cfg e w t \<Longrightarrow> runs (node_inv cfg e w) (h x) t"
  shows "runs (node_inv cfg e w) (catch_plc (seq_op (on_plc m) k) h) n"
  unfolding seq_op_def by (rule runs_catch_on_plc) (use assms in auto)

lemma runs_catch_on_plc_only:
  assumes "node_inv cfg e w n \<Longrightarrow> plc_safe m (pn_plc n)"
    and "\<And>x t. node_inv cfg e w t \<Longrightarrow> runs (node_inv cfg e w) (h x) t"
  shows "runs (node_inv cfg e w) (catch_plc (on_plc m) h) n"
proof -
  have "bind_op (on_plc m) ret_op = on_plc m"
    by (rule ext) (simp add: bind_op_def split: prod.splits sum.splits)
  then show ?thesis
    using runs_catch_on_plc [of cfg e w n m ret_op h] assms by auto
qed

lemma runs_flags [node_runs]:
  "runs (node_inv cfg e w) (modify_op (\<lambda>n. n\<lparr>pn_estop_latched := True\<rparr>)) n"
  "runs (node_inv cfg e w) (modify_op (\<lambda>n. n\<lparr>pn_watchdog_latched := True\<rparr>)) n"
  "runs (node_inv cfg e w) (modify_op (publish (WordRead v))) n"
  by (simp_all add: runs_def)

lemma runs_status [node_runs]:
  "runs (node_inv cfg e w) (bind_op (gets_op (\<lambda>n. get_status (pn_plc n))) publish_status) n"
  by (simp add: runs_def bind_op_def publish_status_def get_status_eq)

lemmas node_intros = runs_catch_on_plc runs_catch_on_plc_seq runs_catch_on_plc_only
  runs_bind_gets runs_seq runs_ret plc_safe_connect plc_safe_reads plc_safe_watchdog

section \<open>Every callback keeps the invariant\<close>

lemma runs_read_timer [node_runs]: "runs (node_inv cfg e w) (read_timer_callback bus) n"
  unfolding read_timer_callback_def
  by (rule runs_bind) (auto split: option.splits
      intro!: runs_bind [of _ "catch_plc _ _"] node_intros runs_flags node_runs)

lemma runs_reconnect [node_runs]: "runs (node_inv cfg e w) (reconnect_timer_callback bus) n"
  unfolding reconnect_timer_callback_def by (auto intro!: node_intros node_runs)

lemma runs_latch_watchdog [node_runs]: "runs (node_inv cfg e w) (latch_watchdog bus) n"
  by (auto simp: latch_watchdog_def intro!: node_intros node_runs)

lemma runs_watchdog_sample [node_runs]: "runs (node_inv cfg e w) (watchdog_sample bus v) n"
proof -
  have "node_inv cfg e w (t\<lparr>pn_watchdog_last_value := x, pn_same_sample_count := k\<rparr>)"
    if "node_inv cfg e w t" for t x k
    using that by (auto simp: node_inv_def node_ok_def)
  then show ?thesis
    by (auto simp: watchdog_sample_def intro!: node_intros runs_modify node_runs)
qed

lemma runs_watchdog_timer [node_runs]: "runs (node_inv cfg e w) (watchdog_timer_callback bus) n"
  unfolding watchdog_timer_callback_def
  by (rule runs_bind_gets)
    (auto split: option.splits intro!: runs_bind [of _ "ensure_connected bus"]
      runs_bind [of _ "catch_plc _ _"] node_intros node_runs)

lemma runs_estop_poll [node_runs]: "runs (node_inv cfg e w) (estop_poll_timer_callback bus) n"
  unfolding estop_poll_timer_callback_def
  by (rule runs_bind_gets)
    (auto intro!: runs_bind [of _ "ensure_connected bus"]
      runs_bind [of _ "catch_plc _ _"] node_intros node_runs)

lemma runs_pulse_m_coil [node_runs]: "runs (node_inv cfg e w) (pulse_m_coil bus a l) n"
  by (auto simp: pulse_m_coil_def intro!: runs_bind node_runs)

lemma runs_m_bit [node_runs]: "runs (node_inv cfg e w) (m_bit_callback bus b a l) n"
  by (auto simp: m_bit_callback_def intro!: node_intros node_runs)

lemma runs_bit_control [node_runs]: "runs (node_inv cfg e w) (bit_control_callback bus b) n"
  unfolding bit_control_callback_def
proof (rule runs_bind_gets)
  assume "node_inv cfg e w n"
  then have "config_ok (cfg_of n)" by (auto dest: node_inv_cfg)
  then have "first_start_coil_address (cfg_of n) \<noteq> None" "first_start_coil_label (cfg_of n) \<noteq> None"
      "first_start_output_label (cfg_of n) \<noteq> None"
    by (auto simp: config_ok_def first_start_coil_address_def first_start_coil_label_def
        first_start_output_label_def first_of_def split: list.splits)
  then show "runs (node_inv cfg e w)
      (case (first_start_coil_address (cfg_of n), first_start_coil_label (cfg_of n),
             first_start_output_label (cfg_of n)) of
         (Some a, Some l, Some out) \<Rightarrow> m_bit_callback bus b a (coil_display_label l out)
       | _ \<Rightarrow> fail_op IndexErr) n"
    by (auto intro!: node_runs)
qed

lemma runs_write_m_all [node_runs]: "runs (node_inv cfg e w) (write_m_all bus v b) n"
proof -
  have "plc_safe (write_start_coils bus v) (pn_plc t)" if "node_inv cfg e w t" for t
    using that by (auto intro!: plc_safe_start simp: node_inv_def node_ok_def)
  then show ?thesis
    unfolding write_m_all_def
    by (auto intro!: runs_bind [of _ "ensure_connected bus"] runs_bind [of _ "outputs_allowed bus"]
        runs_bind [of _ "ret_op _"] runs_bind [of _ "catch_plc _ _"] node_intros node_runs)
qed

lemma runs_m_all [node_runs]: "runs (node_inv cfg e w) (m_all_callback bus b) n"
  unfolding m_all_callback_def
  by (auto intro!: runs_bind [of _ "write_m_all _ _ _"] node_intros node_runs)

lemma runs_reset [node_runs]: "runs (node_inv cfg e w) (reset_callback bus b) n"
  unfolding reset_callback_def by (auto intro!: node_intros node_runs)

lemma runs_system_state [node_runs]: "runs (node_inv cfg e w) (system_state_callback bus s) n"
  unfolding system_state_callback_def
  by (auto split: option.splits intro!: runs_bind [of _ "ensure_connected bus"]
      runs_bind [of _ "outputs_allowed bus"] node_intros node_runs)

lemma runs_word_control [node_runs]: "runs (node_inv cfg e w) (word_control_callback bus v) n"
  unfolding word_control_callback_def
  by (auto intro!: runs_bind [of _ "ensure_connected bus"]
      runs_bind [of _ "outputs_allowed bus"] runs_bind [of _ "catch_plc _ _"] node_intros node_runs)

lemma runs_pending:
  assumes "timer_ok (modbus cfg) p"
  shows "runs (node_inv cfg e w) (run_pending bus p) n"
  using assms
proof (cases p)
  case (ReleaseCoil a l r)
  then show ?thesis by (cases r) (auto intro!: node_intros node_runs)
next
  case (ApplyAfterReset ls)
  with assms have "\<forall>l\<in>set ls. resolvable (modbus cfg) l" by (simp add: list_all_iff)
  with ApplyAfterReset show ?thesis by (auto intro!: node_intros runs_for node_runs)
next
  case ReleaseAll
  then show ?thesis by (auto intro!: node_intros node_runs)
qed

lemma node_inv_drop_timer:
  "node_inv cfg e w n \<Longrightarrow> node_inv cfg e w (drop_timer i n)"
  by (auto simp: node_inv_def node_ok_def drop_timer_def list_all_iff
      dest: in_set_takeD in_set_dropD)

lemma runs_fire_timer [node_runs]: "runs (node_inv cfg e w) (fire_timer bus i) n"
proof (cases "node_inv cfg e w n \<and> i < length (pn_pulse_timers n)")
  case True
  then have "timer_ok (modbus cfg) (snd (pn_pulse_timers n ! i))"
    by (auto simp: node_inv_def node_ok_def list_all_length)
  then have "runs (node_inv cfg e w) (run_pending bus (snd (pn_pulse_timers n ! i))) n"
    by (rule runs_pending)
  with True show ?thesis
    by (auto simp: fire_timer_def runs_def node_inv_drop_timer split: prod.splits)
qed (auto simp: runs_def fire_timer_def)

lemma runs_m_bit_message [node_runs]: "runs (node_inv cfg e w) (m_bit_message bus i b) n"
  unfolding m_bit_message_def
  by (auto split: list.splits intro!: node_intros node_runs)

lemma runs_handle: "runs (node_inv cfg e w) (handle bus ev) n"
  by (cases ev) (auto intro!: node_intros node_runs)

lemma on_plc_wake: "on_plc (modify_op (put_wire Wake)) n = (Inr (), node_sends Wake n)"
  by (simp add: on_plc_def lift_op_def node_sends_def)

lemma step_eq: "step bus ev n = handle bus ev (node_sends Wake n)"
  by (simp add: step_def seq_op_def bind_op_def on_plc_wake)

lemma runs_step: "runs (node_inv cfg e w) (step bus ev) n"
  using runs_handle [of cfg e w bus ev "node_sends Wake n"] by (simp add: runs_def step_eq)

lemma runs_events: "runs (node_inv cfg e w) (run_events bus evs) n"
  unfolding run_events_def by (rule runs_for) (rule runs_step)

lemma runs_attempts: "runs (node_inv cfg e w) (connect_attempts bus k left) n"
proof (induction left arbitrary: k n)
  case 0
  then show ?case by (auto intro!: node_intros node_runs)
next
  case (Suc left)
  have "runs (node_inv cfg e w) (on_plc (sleep_op d)) t" for d t
    by (simp add: runs_def on_plc_cases sleep_op_def node_inv_plc put_wire_def)
  then show ?case
    by (auto intro!: runs_bind [of _ "catch_plc _ _"] node_intros node_runs Suc.IH)
qed

lemma node_inv_fresh:
  "config_ok (modbus cfg) \<Longrightarrow> node_inv cfg False False (fresh_node cfg d)"
  by (simp add: node_inv_def node_ok_def fresh_node_def client_init_def)

lemma runs_connect_retry: "runs (node_inv cfg e w) (connect_with_retry bus) n"
  unfolding connect_with_retry_def by (intro runs_bind_gets runs_attempts)

text \<open>A configuration the node accepts satisfies the invariant's precondition.\<close>

lemma load_config_ok: "load_config p = Inr cfg \<Longrightarrow> config_ok (modbus cfg)"
  by (auto simp: load_config_def Let_def split: if_splits sum.splits intro: post_init_ok)

end
