(* ===== verification/PlcSafety.thy ===== *)
theory PlcSafety imports PlcNode begin

text \<open>
  Safety of the PLC node: what the two latches forbid, when the watchdog trips, how often the
  node tries to connect, and the concrete runs in which a latch does not hold what it promises.
\<close>

section \<open>Concrete configurations and buses\<close>

definition default_modbus :: modbus_config where
  "default_modbus =
     (params_modbus default_params)\<lparr>system_state_outputs := (\<lambda>st. case st of
        IDLE \<Rightarrow> [''M0000''] | LISTENING \<Rightarrow> [''M0001''] | INFERRING \<Rightarrow> [''M0001'']
      | MOVING \<Rightarrow> [''M0002''] | E_STOP \<Rightarrow> [''M0003''] | ERROR \<Rightarrow> [''M0004'']
      | WATCHDOG \<Rightarrow> [''M0005''])\<rparr>"

definition default_config :: node_config where
  "default_config =
     \<lparr>modbus = default_modbus, read_period_s = 1, connect_retry_count = 3,
      connect_retry_backoff_s = 1/2, enable_watchdog = True, watchdog_period_s = 1/10,
      watchdog_timeout_s = 1/2, enable_estop_poll = False, estop_poll_period_s = 1/10,
      db_path = ''robot_arm.db''\<rparr>"

text \<open>A bus whose every request succeeds, and one that is never reachable.\<close>

definition good_bus :: modbus_bus where
  "good_bus = \<lparr>connect_of = (\<lambda>_. Inr True), reply_of = (\<lambda>_ _. Response 0 False), link_up = (\<lambda>_. True)\<rparr>"

definition dead_bus :: modbus_bus where
  "dead_bus = \<lparr>connect_of = (\<lambda>_. Inr False), reply_of = (\<lambda>_ _. ErrorResponse), link_up = (\<lambda>_. False)\<rparr>"

definition default_outputs :: "(system_state \<times> string list) list" where
  "default_outputs =
     [(IDLE, [''M0000'']), (LISTENING, [''M0001'']), (INFERRING, [''M0001'']),
      (MOVING, [''M0002'']), (E_STOP, [''M0003'']), (ERROR, [''M0004'']), (WATCHDOG, [''M0005''])]"

lemma parse_default:
  "parse_system_state_outputs (np_system_state_names default_params)
     (np_system_state_output_labels default_params) = Inr default_outputs"
  by code_simp

lemma normalize_default:
  "normalize_system_state_outputs (raw_of_parsed default_outputs) =
     Inr (system_state_outputs default_modbus)"
proof -
  have labels: "map (\<lambda>l. py_upper (py_strip l)) ls = ls" if "ls \<in> snd ` set default_outputs" for ls
  proof -
    have "list_all (\<lambda>ls. map (\<lambda>l. py_upper (py_strip l)) ls = ls) (map snd default_outputs)"
      by code_simp
    with that show ?thesis by (auto simp: list_all_iff)
  qed
  then show ?thesis
    by (auto simp: normalize_system_state_outputs_def raw_of_parsed_def default_outputs_def
        default_modbus_def fun_eq_iff empty_system_state_outputs_def split: system_state.splits)
qed

lemma post_init_default:
  "post_init (params_modbus default_params) (raw_of_parsed default_outputs) = Inr default_modbus"
proof -
  have "is_ok (post_init (params_modbus default_params) (raw_of_parsed default_outputs))"
    by code_simp
  then have "post_init (params_modbus default_params) (raw_of_parsed default_outputs) =
      Inr ((params_modbus default_params)\<lparr>system_state_outputs := system_state_outputs default_modbus\<rparr>)"
    by (auto simp: post_init_def normalize_default Let_def is_ok_def
        split: if_splits option.splits)
  then show ?thesis by (simp add: default_modbus_def)
qed

lemma load_default_eq: "load_config default_params = Inr default_config"
  unfolding load_config_def parse_default
  by (simp add: post_init_default)
    (simp add: default_params_def default_config_def default_modbus_def params_modbus_def
      address_or_none_def)

lemma default_config_ok: "config_ok (modbus default_config)"
  by (rule load_config_ok [OF load_default_eq])

definition default_node :: plc_node where
  "default_node = fresh_node default_config True"

lemma node_ok_fresh: "config_ok (modbus cfg) \<Longrightarrow> node_ok (fresh_node cfg d)"
  using node_inv_fresh [of cfg d] by (simp add: node_inv_def)

lemma default_node_ok: "node_ok default_node"
  unfolding default_node_def by (rule node_ok_fresh [OF default_config_ok])

lemma default_suffixes:
  "find (\<lambda>l. \<not> is_ok (m_topic_suffix l)) (start_coil_labels (modbus default_config)) = None"
  by code_simp

section \<open>The node never dies, and latches stay set\<close>



section \<open>The client's semantic states\<close>

lemma plc_safe_pulse: "plc_safe (pulse_coil bus a d) c"
  by (auto simp: pulse_coil_def sleep_op_def plc_safe_def [of "modify_op _"] put_wire_def
      intro!: plc_safe_gets plc_safe_seq plc_safe_reads)

lemma plc_safe_apply_outputs:
  assumes "config_ok (mc_config c)"
  shows "plc_safe (apply_outputs_op bus st r) c"
proof -
  have loop: "plc_safe (for_op (\<lambda>l. bind_op (label_address l) (\<lambda>a. pulse_coil bus a None)) ls) t"
    if "\<forall>l\<in>set ls. resolvable (mc_config t) l" for ls t
    using that
  proof (induction ls arbitrary: t)
    case (Cons l ls)
    then obtain a where a: "coil_address_for_label (mc_config t) l = Inr a"
      by (auto simp: resolvable_def is_ok_iff)
    have first: "bind_op (label_address l) (\<lambda>a. pulse_coil bus a None) t = pulse_coil bus a None t"
      by (simp add: bind_op_def label_address_def a)
    have "plc_safe (bind_op (label_address l) (\<lambda>a. pulse_coil bus a None)) t"
      using plc_safe_pulse [of bus a None t] by (simp add: plc_safe_def first)
    moreover have "mc_config u = mc_config t" if "pulse_coil bus a None t = (x, u)" for x u
      using plc_safe_pulse [of bus a None t] that by (simp add: plc_safe_def)
    ultimately show ?case
      using Cons by (auto simp: seq_op_def first intro!: plc_safe_bind)
  qed (simp add: plc_safe_ret)
  have labels: "\<forall>l\<in>set (output_labels_for_state (mc_config c) st). resolvable (mc_config c) l"
    using config_ok_resolvable [OF assms] by (simp add: list_all_iff)
  have reset: "plc_safe (if r then reset_outputs bus None else ret_op ()) c"
    by (auto simp: reset_outputs_def intro!: plc_safe_gets plc_safe_pulse plc_safe_ret)
  then have "mc_config t = mc_config c"
    if "(if r then reset_outputs bus None else ret_op ()) c = (x, t)" for x t
    using that by (simp add: plc_safe_def)
  then show ?thesis
    unfolding apply_outputs_op_def seq_op_def
    using labels by (intro plc_safe_gets plc_safe_bind [OF reset] loop) auto
qed

lemma coil_image_state_plan:
  "coil_image (state_plan cfg st r) m a =
     (if r \<and> a = reset_coil_address cfg
         \<or> a \<in> address_or_zero cfg ` set (output_labels_for_state cfg st)
      then Some False else m a)"
  by (auto simp: state_plan_def coil_image_append coil_image_pulse coil_image_pulses)

text \<open>
  \<open>set_system_state\<close> with outputs sends an initial part of its plan (the reset pulse if
  asked for, then one pulse per configured output, in order). If it returns, the whole plan
  was sent, every pulsed coil was left off and the snapshot is the new state's; if it raises,
  it raises a \<open>PLCError\<close> and the state it reports is still the old one.
\<close>
theorem set_system_state_plan:
  assumes "config_ok (mc_config c)" and "set_system_state bus st True r c = (res, c')"
  shows "(\<exists>k. mc_wire c' = mc_wire c @ take k (state_plan (mc_config c) st r))
    \<and> (case res of
         Inr s \<Rightarrow> s = status_of st \<and> mc_current_state c' = st
           \<and> mc_wire c' = mc_wire c @ state_plan (mc_config c) st r
           \<and> (\<forall>a. coil_image (mc_wire c') Map.empty a =
                (if r \<and> a = reset_coil_address (mc_config c)
                    \<or> a \<in> address_or_zero (mc_config c)
                           ` set (output_labels_for_state (mc_config c) st)
                 then Some False else coil_image (mc_wire c) Map.empty a))
       | Inl e \<Rightarrow> is_PLCError e \<and> mc_current_state c' = mc_current_state c)"
proof -
  obtain r' t where t: "apply_outputs_op bus st r c = (r', t)" by (cases "apply_outputs_op bus st r c")
  obtain k where k: "t = sent (take k (state_plan (mc_config c) st r)) c"
      "is_ok r' \<Longrightarrow> length (state_plan (mc_config c) st r) \<le> k"
    using follows_apply_outputs [OF assms(1), of bus st r] t by (auto simp: follows_def)
  have safe: "case r' of Inl x \<Rightarrow> is_PLCError x | Inr _ \<Rightarrow> True"
    using plc_safe_apply_outputs [OF assms(1), of bus st r] t by (simp add: plc_safe_def)
  show ?thesis
  proof (cases r')
    case (Inl x)
    then show ?thesis using assms(2) t k safe
      by (auto simp: set_system_state_def seq_op_def bind_op_def)
  next
    case (Inr u)
    then have "res = Inr (status_of st)"
        "c' = (sent (state_plan (mc_config c) st r) c)\<lparr>mc_current_state := st\<rparr>"
      using assms(2) t k
      by (auto simp: set_system_state_def seq_op_def bind_op_def get_status_eq)
    moreover have "\<exists>k. xs = take k xs" for xs :: "request list"
      by (rule exI [of _ "length xs"]) simp
    ultimately show ?thesis
      by (auto simp: coil_image_append coil_image_state_plan)
  qed
qed

theorem set_system_state_plan_witness:
  "\<exists>k. mc_wire (snd (set_system_state dead_bus MOVING True True (client_init default_modbus)))
     = take k (state_plan default_modbus MOVING True)"
proof -
  have "config_ok (mc_config (client_init default_modbus))"
    using default_config_ok by (simp add: client_init_def default_config_def)
  from set_system_state_plan [OF this, of dead_bus MOVING True
      "fst (set_system_state dead_bus MOVING True True (client_init default_modbus))"
      "snd (set_system_state dead_bus MOVING True True (client_init default_modbus))"]
  show ?thesis by (simp add: client_init_def)
qed

section \<open>Commands while a latch is set\<close>

fun is_write :: "request \<Rightarrow> bool" where
  "is_write (WriteReg _ _) = True"
| "is_write (WriteCoil _ _) = True"
| "is_write (WriteCoils _ _) = True"
| "is_write _ = False"

definition writes :: "plc_node \<Rightarrow> request list" where
  "writes n = filter is_write (mc_wire (pn_plc n))"

text \<open>The operator's commands; \<open>e_stop\<close> and \<open>watchdog\<close> are fault reports, not commands.\<close>

fun is_command :: "node_event \<Rightarrow> bool" where
  "is_command (BitMsg _) = True"
| "is_command (MBitMsg _ _) = True"
| "is_command (MAllMsg _) = True"
| "is_command (ResetMsg _) = True"
| "is_command (WordMsg _) = True"
| "is_command (SystemStateMsg s) = (parse_state (py_strip s) \<notin> {Some E_STOP, Some WATCHDOG})"
| "is_command _ = False"

lemma writes_simps [simp]:
  "writes (show_state st n) = writes n" "writes (publish p n) = writes n"
  "writes (recorded m x n) = writes n" "writes (faulted m y n) = writes n"
  "writes (node_sends q n) = writes n @ (if is_write q then [q] else [])"
  by (simp_all add: writes_def)

lemma refused_m_bit:
  assumes "pn_estop_latched n \<or> pn_watchdog_latched n"
  shows "writes (snd (m_bit_callback bus b a l n)) = writes n
    \<and> pn_pulse_timers (snd (m_bit_callback bus b a l n)) = pn_pulse_timers n"
  using assms
  by (auto simp: m_bit_callback_def pulse_m_coil_def bind_op_def seq_op_def write_m_coil_eq
      outputs_allowed_eq Let_def)

lemma refused_handle:
  assumes "pn_estop_latched n \<or> pn_watchdog_latched n" and "is_command ev"
  shows "writes (snd (handle bus ev n)) = writes n
    \<and> pn_pulse_timers (snd (handle bus ev n)) = pn_pulse_timers n"
proof (cases ev)
  case (BitMsg b)
  then show ?thesis
    using refused_m_bit [OF assms(1)]
    by (auto simp: bit_control_callback_def bind_op_def split: option.splits)
next
  case (MBitMsg i b)
  then show ?thesis
    using refused_m_bit [OF assms(1)]
    by (auto simp: m_bit_message_def bind_op_def split: list.splits)
next
  case (MAllMsg b)
  then show ?thesis
    using assms
    by (auto simp: m_all_callback_def write_m_all_def bind_op_def seq_op_def outputs_allowed_eq)
next
  case (ResetMsg b)
  then show ?thesis
    using refused_m_bit [OF assms(1)] by (auto simp: reset_callback_def bind_op_def)
next
  case (SystemStateMsg s)
  then show ?thesis
    using assms
    by (auto simp: system_state_callback_def bind_op_def outputs_allowed_eq
        set_and_publish_no_outputs publish_fault_state_eq split: option.splits)
next
  case (WordMsg v)
  then show ?thesis
    using assms by (auto simp: word_control_callback_def bind_op_def outputs_allowed_eq)
qed (use assms in simp_all)

text \<open>
  C2: While the E-stop or the watchdog latch is set, no operator command (bit, M coil, all
  coils, reset, word, or a semantic state) puts a write on the Modbus wire, and none leaves a
  delayed write behind in the pulse timers.
\<close>
theorem latched_commands_write_nothing:
  assumes "pn_estop_latched n \<or> pn_watchdog_latched n" and "is_command ev"
    and "step bus ev n = (r, n')"
  shows "writes n' = writes n \<and> pn_pulse_timers n' = pn_pulse_timers n"
  using refused_handle [of "node_sends Wake n" ev bus] assms by (simp add: step_eq)

theorem latched_commands_write_nothing_witness:
  "writes (snd (step good_bus (MAllMsg True) (default_node\<lparr>pn_estop_latched := True\<rparr>))) = []"
proof -
  let ?n = "default_node\<lparr>pn_estop_latched := True\<rparr>"
  have "writes (snd (step good_bus (MAllMsg True) ?n)) = writes ?n"
    by (rule latched_commands_write_nothing [THEN conjunct1, of ?n "MAllMsg True" good_bus
        "fst (step good_bus (MAllMsg True) ?n)"]) simp_all
  also have "writes ?n = []" by (simp add: writes_def default_node_def fresh_node_def client_init_def)
  finally show ?thesis .
qed

section \<open>What is published while the E-stop latch is set\<close>

fun shows_estop :: "publication \<Rightarrow> bool" where
  "shows_estop (Status s) = (s = status_of E_STOP)"
| "shows_estop (Estop b) = b"
| "shows_estop (WordRead _) = True"

text \<open>Stopped, with everything published since \<open>old\<close> saying so.\<close>

definition stopped_since :: "publication list \<Rightarrow> plc_node \<Rightarrow> bool" where
  "stopped_since old n \<longleftrightarrow>
     pn_estop_latched n \<and> mc_current_state (pn_plc n) = E_STOP
     \<and> (\<exists>ext. pn_published n = old @ ext \<and> list_all shows_estop ext)"

abbreviation stays_stopped :: "publication list \<Rightarrow> 'a node_op \<Rightarrow> bool" where
  "stays_stopped old \<equiv> keeps.stays (stopped_since old)"

lemma stopped_steps [simp]:
  "stopped_since old n \<Longrightarrow> stopped_since old (show_state E_STOP n)"
  "stopped_since old n \<Longrightarrow> stopped_since old (publish (Estop True) n)"
  "stopped_since old n \<Longrightarrow> stopped_since old (publish (WordRead v) n)"
  "stopped_since old n \<Longrightarrow> stopped_since old (publish (Status (status_of E_STOP)) n)"
  "stopped_since old (node_sends q n) = stopped_since old n"
  "stopped_since old (recorded m x n) = stopped_since old n"
  "stopped_since old n \<Longrightarrow> stopped_since old (faulted m y n)"
  by (auto simp: stopped_since_def faulted_def fault_state_def)

lemma stopped_facts:
  "stopped_since old n \<Longrightarrow> pn_estop_latched n"
  "stopped_since old n \<Longrightarrow> fault_state n = E_STOP"
  "stopped_since old n \<Longrightarrow> get_status (pn_plc n) = status_of E_STOP"
  by (auto simp: stopped_since_def fault_state_def get_status_eq)

lemma stoppedI:
  "(\<And>n. stopped_since old n \<Longrightarrow> stopped_since old (snd (m n))) \<Longrightarrow> stays_stopped old m"
  by (simp add: keeps.stays_def keeps_def)

lemma stoppedD: "stays_stopped old m \<Longrightarrow> stopped_since old n \<Longrightarrow> stopped_since old (snd (m n))"
  by (simp add: keeps.stays_def keeps_def)

lemma stopped_write_raw: "stays_stopped old (write_coil_raw bus a v l)"
  by (rule stoppedI) (simp add: write_coil_raw_eq Let_def)

lemma stopped_schedule: "stays_stopped old (schedule_once d p)"
  by (rule stoppedI) (simp add: schedule_once_def stopped_since_def)

lemma stopped_label: "stays_stopped old (node_label_address l)"
  by (rule stoppedI) (simp add: node_label_address_def split: sum.splits)

lemma stopped_pulse_label: "stays_stopped old (pulse_label_for_state bus l)"
  unfolding pulse_label_for_state_def schedule_coil_release_def
  by (intro keeps.stays_rules stopped_label stopped_write_raw stopped_schedule)

lemma stopped_write_label: "stays_stopped old (write_label_coil bus l v)"
  unfolding write_label_coil_def by (intro keeps.stays_rules stopped_label stopped_write_raw)

lemma stopped_set_publish_silent: "stays_stopped old (set_and_publish bus E_STOP False r)"
  by (rule stoppedI) (simp add: set_and_publish_no_outputs)

text \<open>Both ways \<open>set_and_publish\<close> ends publish \<open>E_STOP\<close>.\<close>

lemma set_state_op_eq:
  "on_plc (set_system_state bus st False r) n =
     (Inr (status_of st), n\<lparr>pn_plc := (pn_plc n)\<lparr>mc_current_state := st\<rparr>\<rparr>)"
  by (simp add: on_plc_def lift_op_def set_system_state_no_outputs)

lemma stopped_set_state:
  "stopped_since old n \<Longrightarrow>
   publish (Status (status_of E_STOP)) (n\<lparr>pn_plc := (pn_plc n)\<lparr>mc_current_state := E_STOP\<rparr>\<rparr>)
     = show_state E_STOP n"
  by (simp add: show_state_def)

lemma set_fault_op_eq:
  "bind_op (gets_op fault_state) (\<lambda>f. on_plc (set_system_state bus f False True)) n =
     on_plc (set_system_state bus (fault_state n) False True) n"
  by (simp add: bind_op_def)

abbreviation outputs_step :: "modbus_bus \<Rightarrow> system_state \<Rightarrow> bool \<Rightarrow> bool \<Rightarrow> bool node_op" where
  "outputs_step bus st up r \<equiv> (if up then apply_system_state_outputs bus st r else ret_op True)"

lemma set_and_publish_returns:
  assumes "outputs_step bus st up r n = (Inr ok, t)"
  shows "set_and_publish bus st up r n = (Inr (), show_state (if ok then st else fault_state t) t)"
  unfolding set_and_publish_def catch_plc_def
  using assms
  by (cases ok) (simp_all add: bind_op_def catch_op_def set_state_op_eq publish_status_def
      show_state_def del: ret_op_def)

lemma set_and_publish_raises:
  assumes "outputs_step bus st up r n = (Inl x, t)"
  shows "set_and_publish bus st up r n =
    (if is_PLCError x
     then (Inr (), show_state (fault_state t)
             (recorded ''semantic state apply failed'' (Some x) t))
     else (Inl x, t))"
  unfolding set_and_publish_def catch_plc_def
  using assms
  by (simp add: bind_op_def seq_op_def catch_op_def set_state_op_eq publish_status_def
      record_plc_error_eq show_state_def)

lemma stopped_set_publish: "stays_stopped old (set_and_publish bus E_STOP up False)"
proof (rule stoppedI)
  fix n
  assume n: "stopped_since old n"
  have "stays_stopped old (if up then apply_system_state_outputs bus E_STOP False else ret_op True)"
    unfolding apply_system_state_outputs_def
    by (auto intro!: keeps.stays_rules stopped_write_label)
  note kept = stoppedD [OF this n]
  obtain res t where t: "outputs_step bus E_STOP up False n = (res, t)"
    by (cases "outputs_step bus E_STOP up False n")
  with kept have "stopped_since old t" by simp
  with t show "stopped_since old (snd (set_and_publish bus E_STOP up False n))"
    by (cases res) (simp_all add: set_and_publish_returns set_and_publish_raises stopped_facts)
qed

lemma stopped_m_bit: "stays_stopped old (m_bit_callback bus b a l)"
  by (rule stoppedI) (auto simp: m_bit_callback_def pulse_m_coil_def bind_op_def seq_op_def
      write_m_coil_eq outputs_allowed_eq stopped_facts)

lemma stopped_on_plc:
  "(\<And>c. mc_current_state (snd (m c)) = mc_current_state c) \<Longrightarrow> stays_stopped old (on_plc m)"
  by (rule stoppedI) (simp add: on_plc_cases stopped_since_def)

lemma call_current_state [simp]: "mc_current_state (snd (call bus q c)) = mc_current_state c"
  by (simp add: call_def put_wire_def split: reply.splits)

lemma read_current_state [simp]:
  "mc_current_state (snd (read_register bus a c)) = mc_current_state c"
  "mc_current_state (snd (read_discrete_input bus a c)) = mc_current_state c"
  "mc_current_state (snd (read_coil bus a c)) = mc_current_state c"
  "mc_current_state (snd (write_coil bus a v c)) = mc_current_state c"
  by (simp_all add: read_register_def read_discrete_input_def read_coil_def write_coil_def
      seq_op_def bind_op_def call_def put_wire_def split: reply.splits)

lemma stopped_fault: "stays_stopped old (publish_fault_state bus)"
  by (rule stoppedI) (simp add: publish_fault_state_eq stopped_facts)

lemma stopped_record: "stays_stopped old (record_plc_error m x)"
  by (rule stoppedI) (simp add: record_plc_error_eq)

lemma stopped_status:
  "stays_stopped old (bind_op (gets_op (\<lambda>n. get_status (pn_plc n))) publish_status)"
  by (rule stoppedI) (simp add: bind_op_def publish_status_def stopped_facts)

lemma stopped_word: "stays_stopped old (modify_op (publish (WordRead v)))"
  by (rule keeps.stays_modify) (simp add: keeps_def)

lemma stopped_connected: "stays_stopped old (ensure_connected bus)"
  unfolding ensure_connected_def by (rule keeps.stays_gets)

lemma stopped_read_timer: "stays_stopped old (read_timer_callback bus)"
  unfolding read_timer_callback_def catch_plc_def
  by (intro keeps.stays_rules stopped_connected stopped_on_plc stopped_fault stopped_record
      stopped_status stopped_word read_current_state)

lemma stopped_handle:
  assumes n: "stopped_since old n"
    and ev: "\<And>s. ev = SystemStateMsg s \<Longrightarrow> parse_state (py_strip s) \<noteq> None"
    and timer: "\<And>i. ev = TimerFires i \<Longrightarrow> i < length (pn_pulse_timers n) \<Longrightarrow>
                  snd (pn_pulse_timers n ! i) \<noteq> ReleaseAll"
  shows "stopped_since old (snd (handle bus ev n))"
proof (cases ev)
  case ReadTick
  then show ?thesis using n stoppedD [OF stopped_read_timer] by simp
next
  case ReconnectTick
  then show ?thesis using n by (simp add: reconnect_timer_callback_def bind_op_def stopped_facts)
next
  case WatchdogTick
  then show ?thesis using n
    by (simp add: watchdog_timer_callback_def bind_op_def stopped_facts publish_fault_state_eq)
next
  case EstopTick
  then show ?thesis using n
    by (simp add: estop_poll_timer_callback_def bind_op_def seq_op_def stopped_facts
        publish_estop_def set_and_publish_no_outputs)
next
  case (TimerFires i)
  have run: "stopped_since old (snd (run_pending bus p n))" if "p \<noteq> ReleaseAll" for p
  proof (cases p)
    case (ReleaseCoil a l r)
    then show ?thesis using n
      by (cases r) (auto simp: seq_op_def bind_op_def write_coil_raw_eq Let_def stopped_facts)
  next
    case (ApplyAfterReset ls)
    have "stays_stopped old (run_pending bus p)"
      unfolding ApplyAfterReset run_pending.simps
      by (intro keeps.stays_rules stopped_write_raw stopped_pulse_label)
    then show ?thesis using n by (rule stoppedD)
  qed (use that in simp)
  have "stopped_since old (drop_timer i t) = stopped_since old t" for t
    by (simp add: drop_timer_def stopped_since_def)
  with TimerFires run n timer show ?thesis
    by (auto simp: fire_timer_def split: prod.splits) (metis snd_conv)
next
  case (BitMsg b)
  then show ?thesis using n stoppedD [OF stopped_m_bit]
    by (auto simp: bit_control_callback_def bind_op_def split: option.splits)
next
  case (MBitMsg i b)
  then show ?thesis using n stoppedD [OF stopped_m_bit]
    by (auto simp: m_bit_message_def bind_op_def split: list.splits)
next
  case (MAllMsg b)
  then show ?thesis using n
    by (auto simp: m_all_callback_def write_m_all_def bind_op_def seq_op_def outputs_allowed_eq
        stopped_facts)
next
  case (ResetMsg b)
  then show ?thesis using n stoppedD [OF stopped_m_bit]
    by (auto simp: reset_callback_def bind_op_def)
next
  case (WordMsg v)
  then show ?thesis using n
    by (auto simp: word_control_callback_def bind_op_def outputs_allowed_eq stopped_facts)
next
  case (SystemStateMsg s)
  then obtain st where st: "parse_state (py_strip s) = Some st" using ev by auto
  have "stopped_since old (n\<lparr>pn_estop_latched := True\<rparr>)" using n by (simp add: stopped_since_def)
  then show ?thesis using n SystemStateMsg st stoppedD [OF stopped_set_publish]
    by (auto simp: system_state_callback_def bind_op_def seq_op_def publish_estop_def
        publish_fault_state_eq stopped_facts)
qed

text \<open>
  Once the E-stop latch is set and the client shows \<open>E_STOP\<close>, every status, E-stop and word
  message published in a callback says stopped and the state stays \<open>E_STOP\<close>, whatever the bus
  does, except for a semantic-state message that names no state and for the delayed release of
  the all-coils pulse (the two callbacks the findings describe).
\<close>
theorem estop_stays_published:
  assumes "pn_estop_latched n" and "mc_current_state (pn_plc n) = E_STOP"
    and "\<And>s. ev = SystemStateMsg s \<Longrightarrow> parse_state (py_strip s) \<noteq> None"
    and "\<And>i. ev = TimerFires i \<Longrightarrow> i < length (pn_pulse_timers n) \<Longrightarrow>
           snd (pn_pulse_timers n ! i) \<noteq> ReleaseAll"
    and "step bus ev n = (r, n')"
  shows "pn_estop_latched n' \<and> mc_current_state (pn_plc n') = E_STOP
    \<and> (\<exists>ext. pn_published n' = pn_published n @ ext \<and> list_all shows_estop ext)"
proof -
  have "stopped_since (pn_published n) (node_sends Wake n)"
    using assms(1,2) by (simp add: stopped_since_def)
  from stopped_handle [OF this, of ev bus] assms(3-5) show ?thesis
    by (simp add: step_eq stopped_since_def)
qed

theorem estop_stays_published_witness:
  "\<exists>ext. pn_published (snd (step dead_bus (SystemStateMsg ''idle'') (show_state E_STOP
        (default_node\<lparr>pn_estop_latched := True\<rparr>)))) = [Status (status_of E_STOP)] @ ext
     \<and> list_all shows_estop ext"
proof -
  let ?n = "show_state E_STOP (default_node\<lparr>pn_estop_latched := True\<rparr>)"
  have idle: "parse_state (py_strip ''idle'') = Some IDLE" by code_simp
  have "pn_published ?n = [Status (status_of E_STOP)]"
    by (simp add: default_node_def fresh_node_def)
  then show ?thesis
    using estop_stays_published [of ?n "SystemStateMsg ''idle''" dead_bus
        "fst (step dead_bus (SystemStateMsg ''idle'') ?n)" "snd (step dead_bus (SystemStateMsg ''idle'') ?n)"]
      idle
    by simp
qed

section \<open>The watchdog\<close>

text \<open>
  A heartbeat \<open>hb\<close>: the \<open>k\<close>-th coil read of the node answers \<open>hb k\<close>. \<open>stall hb k\<close> is how
  many samples before the \<open>k\<close>-th one already had its value.
\<close>

definition coil_reads :: "request list \<Rightarrow> nat" where
  "coil_reads w = length (filter (\<lambda>q. case q of ReadCoils _ \<Rightarrow> True | _ \<Rightarrow> False) w)"

definition heartbeat_bus :: "(nat \<Rightarrow> bool) \<Rightarrow> modbus_bus" where
  "heartbeat_bus hb =
     \<lparr>connect_of = (\<lambda>_. Inr True), reply_of = (\<lambda>w _. Response 0 (hb (coil_reads w))),
      link_up = (\<lambda>_. True)\<rparr>"

fun stall :: "(nat \<Rightarrow> bool) \<Rightarrow> nat \<Rightarrow> nat" where
  "stall hb 0 = 0"
| "stall hb (Suc k) = (if hb (Suc k) = hb k then Suc (stall hb k) else 0)"

definition stalled :: "node_config \<Rightarrow> nat \<Rightarrow> bool" where
  "stalled cfg k \<longleftrightarrow> watchdog_timeout_s cfg \<le> real k * watchdog_period_s cfg"

text \<open>The watchdog after \<open>k\<close> samples without a stall.\<close>

definition watching :: "(nat \<Rightarrow> bool) \<Rightarrow> node_config \<Rightarrow> nat \<Rightarrow> plc_node \<Rightarrow> bool" where
  "watching hb cfg k n \<longleftrightarrow>
     pn_config n = cfg \<and> mc_config (pn_plc n) = modbus cfg
     \<and> \<not> pn_estop_latched n \<and> \<not> pn_watchdog_latched n
     \<and> coil_reads (mc_wire (pn_plc n)) = k
     \<and> (case k of
          0 \<Rightarrow> pn_watchdog_last_value n = None
        | Suc j \<Rightarrow> pn_watchdog_last_value n = Some (hb j) \<and> pn_same_sample_count n = stall hb j)"

lemma watchdog_tick:
  assumes "watching hb cfg k n" and "enable_watchdog cfg"
    and "watchdog_coil_address (modbus cfg) = Some a" and "0 < watchdog_timeout_s cfg"
  shows "if stalled cfg (stall hb k)
    then pn_watchdog_latched (snd (step (heartbeat_bus hb) WatchdogTick n))
      \<and> \<not> pn_estop_latched (snd (step (heartbeat_bus hb) WatchdogTick n))
      \<and> fst (step (heartbeat_bus hb) WatchdogTick n) = Inr ()
      \<and> mc_current_state (pn_plc (snd (step (heartbeat_bus hb) WatchdogTick n))) = WATCHDOG
    else fst (step (heartbeat_bus hb) WatchdogTick n) = Inr ()
      \<and> watching hb cfg (Suc k) (snd (step (heartbeat_bus hb) WatchdogTick n))"
proof -
  let ?n = "node_sends Wake n" and ?bus = "heartbeat_bus hb"
  have reads: "coil_reads (w @ [Wake]) = coil_reads w"
      "coil_reads (w @ [Wake, ReadCoils a]) = Suc (coil_reads w)" for w
    by (simp_all add: coil_reads_def)
  have read: "on_plc (read_watchdog ?bus) ?n = (Inr (hb k), node_sends (ReadCoils a) ?n)"
    using assms(1,3)
    by (simp add: on_plc_cases read_watchdog_def bind_op_def read_coil_def call_def
        heartbeat_bus_def watching_def node_sends_def put_wire_def reads)
  have up: "connected ?bus c" for c by (simp add: connected_def heartbeat_bus_def)
  have "step ?bus WatchdogTick n = watchdog_sample ?bus (hb k) (node_sends (ReadCoils a) ?n)"
    using assms(1,2)
    by (simp add: step_eq bind_op_def [of "gets_op _"] watchdog_timer_callback_def watching_def
        ensure_connected_def up)
      (simp add: catch_plc_def catch_op_def bind_op_def read)
  then show ?thesis
    using assms(1,4)
    by (cases k) (auto simp: watching_def watchdog_sample_def bind_op_def seq_op_def stalled_def
        latch_watchdog_def publish_fault_state_eq fault_state_def reads)
qed

lemma watchdog_latched_tick:
  "pn_watchdog_latched n \<Longrightarrow> \<not> pn_estop_latched n \<Longrightarrow>
   step bus WatchdogTick n = (Inr (), node_sends Wake n)"
  by (cases "enable_watchdog (pn_config n)")
    (simp_all add: step_eq bind_op_def watchdog_timer_callback_def)

lemma watchdog_ticks_latched:
  "pn_watchdog_latched n \<Longrightarrow> \<not> pn_estop_latched n \<Longrightarrow>
   pn_watchdog_latched (snd (run_events bus (replicate k WatchdogTick) n))"
  by (induction k arbitrary: n)
    (simp_all add: run_events_def seq_op_def bind_op_def watchdog_latched_tick)

lemma watchdog_ticks:
  assumes "enable_watchdog cfg" and "watchdog_coil_address (modbus cfg) = Some a"
    and "0 < watchdog_timeout_s cfg" and "watching hb cfg j n"
  shows "pn_watchdog_latched (snd (run_events (heartbeat_bus hb) (replicate k WatchdogTick) n))
    \<longleftrightarrow> (\<exists>i<k. stalled cfg (stall hb (j + i)))"
  using assms(4)
proof (induction k arbitrary: j n)
  case 0
  then show ?case by (simp add: run_events_def watching_def)
next
  case (Suc k)
  let ?bus = "heartbeat_bus hb" and ?m = "snd (step (heartbeat_bus hb) WatchdogTick n)"
  note tick = watchdog_tick [OF Suc.prems assms(1-3)]
  have ok: "fst (step ?bus WatchdogTick n) = Inr ()" using tick by (auto split: if_splits)
  have run: "snd (run_events ?bus (WatchdogTick # replicate k WatchdogTick) n) =
      snd (run_events ?bus (replicate k WatchdogTick) ?m)"
    using ok by (cases "step ?bus WatchdogTick n") (simp add: run_events_def seq_op_def bind_op_def)
  have shift: "(\<exists>i<Suc k. P (j + i)) \<longleftrightarrow> P j \<or> (\<exists>i<k. P (Suc j + i))" for P
    by (auto simp: less_Suc_eq_0_disj)
  note shift = shift [of "\<lambda>i. stalled cfg (stall hb i)"]
  show ?case
  proof (cases "stalled cfg (stall hb j)")
    case True
    then show ?thesis using tick by (simp add: run shift watchdog_ticks_latched del: stall.simps)
  next
    case False
    then show ?thesis using tick Suc.IH [of "Suc j" ?m] by (simp add: run shift del: stall.simps)
  qed
qed


lemma default_watchdog [simp]:
  "enable_watchdog default_config" "watchdog_period_s default_config = 1/10"
  "watchdog_timeout_s default_config = 1/2"
  by (simp_all add: default_config_def)


section \<open>Connecting\<close>

definition connects :: "plc_node \<Rightarrow> nat" where
  "connects n = length (filter (\<lambda>q. q = Connect) (mc_wire (pn_plc n)))"

abbreviation no_connect :: "'a node_op \<Rightarrow> bool" where
  "no_connect \<equiv> grows.stays TYPE(request) (\<lambda>n. mc_wire (pn_plc n)) (\<lambda>q. q \<noteq> Connect)"

lemma no_connectI:
  "(\<And>n. \<exists>ext. mc_wire (pn_plc (snd (m n))) = mc_wire (pn_plc n) @ ext \<and> Connect \<notin> set ext) \<Longrightarrow>
   no_connect m"
  by (fastforce simp: grows.stays_def extends_by_def list_all_iff)

lemma no_connect_count:
  assumes "no_connect m"
  shows "connects (snd (m n)) = connects n"
proof -
  from assms obtain ext where "mc_wire (pn_plc (snd (m n))) = mc_wire (pn_plc n) @ ext"
      "list_all (\<lambda>q. q \<noteq> Connect) ext"
    by (auto simp: grows.stays_def extends_by_def)
  then show ?thesis
    by (simp add: connects_def list_all_iff filter_empty_conv)
qed

lemma no_connect_write_raw: "no_connect (write_coil_raw bus a v l)"
  by (rule no_connectI) (simp add: write_coil_raw_eq Let_def)

lemma no_connect_schedule: "no_connect (schedule_once d p)"
  by (rule no_connectI) (simp add: schedule_once_def)

lemma no_connect_record: "no_connect (record_plc_error m x)"
  by (rule no_connectI) (simp add: record_plc_error_eq)

lemma no_connect_set_state:
  "no_connect (on_plc (set_system_state bus st False r))" "no_connect (publish_status s)"
  by (rule no_connectI; simp add: set_state_op_eq publish_status_def)+

lemma no_connect_idle: "no_connect (set_and_publish bus IDLE up True)"
proof -
  have "no_connect (apply_system_state_outputs bus IDLE True)"
    unfolding apply_system_state_outputs_def
    by (auto intro!: grows.stays_rules no_connect_write_raw no_connect_schedule)
  then show ?thesis
    unfolding set_and_publish_def catch_plc_def
    by (intro grows.stays_rules no_connect_set_state no_connect_record)
qed

lemma on_plc_connect:
  "on_plc (connect bus) n =
     ((case connect_of bus (mc_wire (pn_plc n)) of
         Inl x \<Rightarrow> Inl (PLCError Connect (Some x)) | Inr b \<Rightarrow> Inr b), node_sends Connect n)"
  by (simp add: on_plc_cases connect_def node_sends_def split: sum.splits)

lemma connect_attempts_bound:
  assumes "connect_attempts bus k left n = (r, n')"
  shows "connects n' \<le> connects n + left
    \<and> (r = Inr False \<longrightarrow> connects n' = connects n + left \<and> mc_current_state (pn_plc n') = ERROR
         \<and> last (pn_published n') = Status (status_of ERROR))"
  using assms
proof (induction left arbitrary: k n)
  case 0
  then show ?case
    by (auto simp: bind_op_def seq_op_def record_plc_error_eq set_and_publish_no_outputs
        connects_def)
next
  case (Suc left)
  define body where "body = catch_plc
      (bind_op (on_plc (connect bus)) (\<lambda>up.
         if up then seq_op (set_and_publish bus IDLE True True) (ret_op True) else ret_op False))
      (\<lambda>exc. seq_op (record_plc_error ''connect failed'' (Some exc)) (ret_op False))"
  define rest where "rest = (\<lambda>done. if done then ret_op True else seq_op
      (if left = 0 then ret_op ()
       else bind_op (gets_op pn_config) (\<lambda>c. on_plc (sleep_op (connect_retry_backoff_s c * real k))))
      (connect_attempts bus (Suc k) left))"
  have run: "bind_op body rest n = (r, n')"
    using Suc.prems by (simp add: body_def rest_def)
  define tail where "tail = (if \<exists>u. connect_of bus (mc_wire (pn_plc n)) = Inr u \<and> u
      then seq_op (set_and_publish bus IDLE True True) (ret_op True) else ret_op False)"
  have count: "connects (snd (body n)) = Suc (connects n)"
  proof -
    have nc: "no_connect (seq_op (set_and_publish bus IDLE True True) (ret_op True))"
        "no_connect (seq_op (record_plc_error ''connect failed'' (Some x)) (ret_op False))" for x
      by (intro grows.stays_rules no_connect_idle no_connect_record)+
    have "no_connect (catch_plc (if u then seq_op (set_and_publish bus IDLE True True) (ret_op True)
         else ret_op False)
         (\<lambda>exc. seq_op (record_plc_error ''connect failed'' (Some exc)) (ret_op False)))" for u
      unfolding catch_plc_def by (intro grows.stays_rules nc)
    note counts = this [THEN no_connect_count, of _ "node_sends Connect n"]
    have "connects (node_sends Connect n) = Suc (connects n)"
      by (simp add: connects_def)
    then show ?thesis
      using counts nc(2) [THEN no_connect_count, of _ "node_sends Connect n"]
      unfolding body_def
      by (cases "connect_of bus (mc_wire (pn_plc n))")
        (simp_all add: catch_plc_def catch_op_def bind_op_def on_plc_connect)
  qed
  have sleep: "on_plc (sleep_op d) t = (Inr (), node_sends (Sleep d) t)"
      "connects (node_sends (Sleep d) t) = connects t" for d t
    by (simp_all add: on_plc_cases sleep_op_def connects_def node_sends_def put_wire_def)
  show ?case
  proof (cases rule: bind_op_cases [of body n rest])
    case (err x t)
    then show ?thesis using run count by auto
  next
    case (ok fin t)
    show ?thesis
    proof (cases fin)
      case True
      then show ?thesis using ok run count by (auto simp: rest_def)
    next
      case False
      define u where "u = (if left = 0 then t
        else snd (on_plc (sleep_op (connect_retry_backoff_s (pn_config t) * real k)) t))"
      have "connect_attempts bus (Suc k) left u = (r, n')"
        using ok run False
        by (auto simp: rest_def u_def seq_op_def bind_op_def sleep split: if_splits)
      moreover have "connects u = Suc (connects n)"
        using ok count sleep by (simp add: u_def)
      ultimately show ?thesis using Suc.IH by fastforce
    qed
  qed
qed

text \<open>
  Start-up makes at most \<open>connect_retry_count\<close> connection attempts. It reports failure only
  after all of them were made, and then the last published status is \<open>ERROR\<close>.
\<close>
theorem connect_retry_bounded:
  assumes "node_init bus cfg d m = (r, n)"
  shows "connects n \<le> nat (connect_retry_count cfg)
    \<and> (r = Inr False \<longrightarrow> connects n = nat (connect_retry_count cfg)
         \<and> mc_current_state (pn_plc n) = ERROR \<and> last (pn_published n) = Status (status_of ERROR))"
proof -
  have start: "connects (publish (Estop False) (fresh_node cfg d)) = 0"
    by (simp add: connects_def fresh_node_def client_init_def)
  show ?thesis
    using assms connect_attempts_bound [of bus 1 "nat (connect_retry_count cfg)"
        "publish (Estop False) (fresh_node cfg d)" r n]
    by (auto simp: node_init_def connect_with_retry_def bind_op_def start fresh_node_def
        split: option.splits)
      (auto simp: connects_def client_init_def)
qed

theorem connect_retry_bounded_witness:
  "connects (snd (node_init dead_bus default_config True default_node)) \<le> 3"
  using connect_retry_bounded [of dead_bus default_config True default_node
      "fst (node_init dead_bus default_config True default_node)"
      "snd (node_init dead_bus default_config True default_node)"]
  by (simp add: default_config_def)

section \<open>The E-stop input and the push-button pulse\<close>

text \<open>A bus on which the link is up and every request is answered.\<close>

definition responsive :: "modbus_bus \<Rightarrow> bool" where
  "responsive bus \<longleftrightarrow> (\<forall>w. link_up bus w) \<and> (\<forall>w q. reply_ok (reply_of bus w q))"

lemma responsive_write_raw:
  "responsive bus \<Longrightarrow> write_coil_raw bus a v l n = (Inr True, node_sends (WriteCoil a v) n)"
  by (simp add: write_coil_raw_eq Let_def responsive_def connected_def next_reply_def)

definition node_sends_all :: "request list \<Rightarrow> plc_node \<Rightarrow> plc_node" where
  "node_sends_all qs n = fold node_sends qs n"

lemma node_sends_all_fields [simp]:
  "pn_config (node_sends_all qs n) = pn_config n"
  "pn_estop_latched (node_sends_all qs n) = pn_estop_latched n"
  "pn_published (node_sends_all qs n) = pn_published n"
  "mc_wire (pn_plc (node_sends_all qs n)) = mc_wire (pn_plc n) @ qs"
  by (induction qs arbitrary: n) (simp_all add: node_sends_all_def)

lemma responsive_write_label:
  "responsive bus \<Longrightarrow> resolvable (cfg_of n) l \<Longrightarrow> write_label_coil bus l v n =
     (Inr True, node_sends (WriteCoil (address_or_zero (cfg_of n) l) v) n)"
  by (auto simp: resolvable_def is_ok_iff write_label_coil_def bind_op_def node_label_address_def
      address_or_zero_def responsive_write_raw)

lemma responsive_write_labels:
  assumes "responsive bus" and "list_all (resolvable (cfg_of n)) ls"
  shows "all_op (\<lambda>l. write_label_coil bus l True) ls n =
    (Inr True, node_sends_all (map (\<lambda>l. WriteCoil (address_or_zero (cfg_of n) l) True) ls) n)"
  using assms(2)
proof (induction ls arbitrary: n)
  case (Cons l ls)
  then show ?case
    using responsive_write_label [OF assms(1), of n l True]
    by (simp add: bind_op_def node_sends_all_def)
qed (simp add: node_sends_all_def)

lemma on_plc_read_estop:
  "estop_input_address (mc_config (pn_plc n)) = Some a \<Longrightarrow>
   next_reply bus (ReadDiscrete a) n = Response v b \<Longrightarrow>
   on_plc (read_estop bus) n = (Inr b, node_sends (ReadDiscrete a) n)"
  by (simp add: on_plc_cases read_estop_def bind_op_def read_discrete_input_def call_def
      next_reply_def node_sends_def)

text \<open>
  C5: A pressed E-stop input read by the poll latches the E-stop, publishes it on
  \<open>/plc/e_stop\<close> and the \<open>E_STOP\<close> LED status, and with an answering bus switches on exactly the
  outputs configured for \<open>E_STOP\<close>, with no reset pulse in front of them.
\<close>
theorem estop_poll_stops:
  assumes "node_ok n" and "enable_estop_poll (pn_config n)" and "\<not> pn_estop_latched n"
    and "estop_input_address (cfg_of n) = Some a" and "responsive bus"
    and "next_reply bus (ReadDiscrete a) (node_sends Wake n) = Response v True"
    and "step bus EstopTick n = (r, n')"
  shows "r = Inr () \<and> pn_estop_latched n' \<and> mc_current_state (pn_plc n') = E_STOP
    \<and> pn_published n' = pn_published n @ [Estop True, Status (status_of E_STOP)]
    \<and> writes n' = writes n @ map (\<lambda>l. WriteCoil (address_or_zero (cfg_of n) l) True)
                               (output_labels_for_state (cfg_of n) E_STOP)"
proof -
  let ?labels = "output_labels_for_state (cfg_of n) E_STOP"
  let ?qs = "map (\<lambda>l. WriteCoil (address_or_zero (cfg_of n) l) True) ?labels"
  let ?read = "node_sends (ReadDiscrete a) (node_sends Wake n)"
  let ?latched = "publish (Estop True) (?read\<lparr>pn_estop_latched := True\<rparr>)"
  have cfg: "mc_config (pn_plc n) = cfg_of n" "list_all (resolvable (cfg_of n)) ?labels"
    using assms(1) by (simp_all add: node_ok_def config_ok_resolvable)
  have up: "connected bus c" for c using assms(5) by (simp add: responsive_def connected_def)
  have read: "on_plc (read_estop bus) (node_sends Wake n) = (Inr True, ?read)"
    using assms(4,6) cfg by (simp add: on_plc_read_estop)
  have out: "outputs_step bus E_STOP True False ?latched = (Inr True, node_sends_all ?qs ?latched)"
    using responsive_write_labels [OF assms(5), of ?latched ?labels] cfg(2)
    by (simp add: apply_system_state_outputs_def bind_op_def)
  have "step bus EstopTick n = set_and_publish bus E_STOP True False ?latched"
    using assms(2,3) up read
    by (simp add: step_eq bind_op_def [of "gets_op _"] estop_poll_timer_callback_def
        ensure_connected_def)
      (simp add: catch_plc_def catch_op_def bind_op_def seq_op_def publish_estop_def)
  with assms(7) have "n' = show_state E_STOP (node_sends_all ?qs ?latched)" "r = Inr ()"
    by (simp_all add: set_and_publish_returns [OF out])
  then show ?thesis by (simp add: writes_def filter_True)
qed

definition pressed_bus :: modbus_bus where
  "pressed_bus = \<lparr>connect_of = (\<lambda>_. Inr True), reply_of = (\<lambda>_ _. Response 0 True), link_up = (\<lambda>_. True)\<rparr>"

definition polling_node :: plc_node where
  "polling_node = fresh_node (default_config
     \<lparr>modbus := default_modbus\<lparr>estop_input_label := Some ''P001'', estop_input_address := Some 1\<rparr>,
      enable_estop_poll := True\<rparr>) True"

theorem estop_poll_stops_witness:
  "writes (snd (step pressed_bus EstopTick polling_node)) = [WriteCoil 3 True]"
proof -
  have "config_ok (cfg_of polling_node)"
    using default_config_ok
    by (auto simp: polling_node_def fresh_node_def default_config_def config_ok_def label_set_def)
  then have ok: "node_ok polling_node"
    unfolding polling_node_def by (intro node_ok_fresh) (simp add: fresh_node_def)
  have labels: "map (\<lambda>l. WriteCoil (address_or_zero (cfg_of polling_node) l) True)
      (output_labels_for_state (cfg_of polling_node) E_STOP) = [WriteCoil 3 True]"
    by code_simp
  have "writes polling_node = []" by code_simp
  then show ?thesis
    using estop_poll_stops [OF ok, of 1 pressed_bus 0
        "fst (step pressed_bus EstopTick polling_node)" "snd (step pressed_bus EstopTick polling_node)"]
      labels
    by (simp add: polling_node_def fresh_node_def default_config_def responsive_def pressed_bus_def
        next_reply_def)
qed

lemma fire_last_timer:
  "pn_pulse_timers n = ts @ [(d, p)] \<Longrightarrow> run_pending bus p n = (r, n') \<Longrightarrow>
   fire_timer bus (length ts) n = (r, drop_timer (length ts) n')"
  by (simp add: fire_timer_def)

text \<open>
  Pressing the button topic of the \<open>i\<close>-th M coil on an unlatched node with an answering bus
  is a pulse: once its timer has fired the coil was written on and then off and nothing else
  was written, the published states were \<open>MOVING\<close> and then \<open>IDLE\<close>, and no timer is left over.
\<close>
theorem m_bit_pulse:
  assumes "responsive bus" and "\<not> pn_estop_latched n" and "\<not> pn_watchdog_latched n"
    and "config_ok (cfg_of n)" and "i < length (start_coil_labels (cfg_of n))"
    and "step bus (MBitMsg i True) n = (r, n1)"
    and "step bus (TimerFires (length (pn_pulse_timers n))) n1 = (r', n2)"
  shows "r = Inr () \<and> r' = Inr ()
    \<and> writes n2 = writes n @ [WriteCoil (start_coil_addresses (cfg_of n) ! i) True,
                              WriteCoil (start_coil_addresses (cfg_of n) ! i) False]
    \<and> pn_published n2 = pn_published n @ [Status (status_of MOVING), Status (status_of IDLE)]
    \<and> pn_pulse_timers n2 = pn_pulse_timers n"
proof -
  let ?c = "cfg_of n" and ?a = "start_coil_addresses (cfg_of n) ! i"
  let ?l = "coil_display_label (start_coil_labels (cfg_of n) ! i) (start_coil_outputs (cfg_of n) ! i)"
  let ?w = "show_state MOVING (node_sends (WriteCoil ?a True) (node_sends Wake n))"
  let ?t = "(py_max (pulse_duration_s ?c) (1/1000), ReleaseCoil ?a ?l (Some IDLE))"
  let ?n1 = "?w\<lparr>pn_pulse_timers := pn_pulse_timers n @ [?t]\<rparr>"
  let ?m = "node_sends Wake ?n1"
  let ?u = "show_state IDLE (node_sends (WriteCoil ?a False) ?m)"
  have len: "i < length (zip (start_coil_labels ?c) (zip (start_coil_addresses ?c) (start_coil_outputs ?c)))"
    using assms(4,5) by (auto simp: config_ok_def)
  have "drop i (zip (start_coil_labels ?c) (zip (start_coil_addresses ?c) (start_coil_outputs ?c)))
      = (start_coil_labels ?c ! i, ?a, start_coil_outputs ?c ! i)
        # drop (Suc i) (zip (start_coil_labels ?c) (zip (start_coil_addresses ?c) (start_coil_outputs ?c)))"
    using Cons_nth_drop_Suc [OF len, symmetric] len by simp
  then have "step bus (MBitMsg i True) n = pulse_m_coil bus ?a ?l (node_sends Wake n)"
    by (simp add: step_eq m_bit_message_def bind_op_def m_bit_callback_def)
  also have "\<dots> = (Inr (), ?n1)"
    using assms(1-3)
    by (simp add: pulse_m_coil_def bind_op_def write_m_coil_eq responsive_def connected_def
        next_reply_def schedule_coil_release_def schedule_once_def)
  finally have n1: "r = Inr ()" "n1 = ?n1" using assms(6) by simp_all
  have "run_pending bus (ReleaseCoil ?a ?l (Some IDLE)) ?m = (Inr (), ?u)"
    using assms(2) by (simp add: seq_op_def bind_op_def responsive_write_raw [OF assms(1)]
        set_and_publish_no_outputs)
  then have "step bus (TimerFires (length (pn_pulse_timers n))) n1 =
      (Inr (), drop_timer (length (pn_pulse_timers n)) ?u)"
    using fire_last_timer [of ?m "pn_pulse_timers n"] by (simp add: n1 step_eq)
  then have n2: "r' = Inr ()" "n2 = drop_timer (length (pn_pulse_timers n)) ?u"
    using assms(7) by simp_all
  show ?thesis
    by (simp add: n1 n2 drop_timer_def writes_def)
qed

theorem m_bit_pulse_witness:
  "writes (snd (step good_bus (TimerFires 0) (snd (step good_bus (MBitMsg 2 True) default_node))))
     = [WriteCoil 2 True, WriteCoil 2 False]"
proof -
  have facts: "\<not> pn_estop_latched default_node" "\<not> pn_watchdog_latched default_node"
      "2 < length (start_coil_labels (cfg_of default_node))"
      "start_coil_addresses (cfg_of default_node) ! 2 = 2" "writes default_node = []"
      "length (pn_pulse_timers default_node) = 0"
    by code_simp+
  have "config_ok (cfg_of default_node)" using default_node_ok by (simp add: node_ok_def)
  with facts show ?thesis
    using m_bit_pulse [of good_bus default_node 2
        "fst (step good_bus (MBitMsg 2 True) default_node)"
        "snd (step good_bus (MBitMsg 2 True) default_node)"
        "fst (step good_bus (TimerFires 0) (snd (step good_bus (MBitMsg 2 True) default_node)))"
        "snd (step good_bus (TimerFires 0) (snd (step good_bus (MBitMsg 2 True) default_node)))"]
    by (simp add: responsive_def good_bus_def)
qed

section \<open>Delayed effects that ignore a latch\<close>

definition after_events :: "node_event list \<Rightarrow> plc_node" where
  "after_events evs = snd (run_events good_bus evs default_node)"

text \<open>
  A semantic state applied just before an E-stop still switches its output on afterwards: the
  delayed second half of the reset sequence writes without looking at the latch.
\<close>
theorem pulse_after_estop:
  "pn_estop_latched (after_events [SystemStateMsg ''moving'', SystemStateMsg ''e_stop''])
   \<and> writes (after_events [SystemStateMsg ''moving'', SystemStateMsg ''e_stop'', TimerFires 0])
     = writes (after_events [SystemStateMsg ''moving'', SystemStateMsg ''e_stop''])
       @ [WriteCoil 256 False, WriteCoil 2 True]"
  by code_simp

text \<open>
  Three callbacks overwrite the published fault while its latch is set: the delayed
  all-coils release publishes \<open>IDLE\<close> over an E-stop, a message naming no state publishes
  \<open>ERROR\<close> over an E-stop, and a coil release publishes \<open>IDLE\<close> over a watchdog fault.
\<close>
theorem latched_fault_overwritten:
  "pn_estop_latched (after_events [MAllMsg True, SystemStateMsg ''e_stop'', TimerFires 0])
   \<and> mc_current_state (pn_plc (after_events [MAllMsg True, SystemStateMsg ''e_stop'', TimerFires 0])) = IDLE
   \<and> pn_estop_latched (after_events [SystemStateMsg ''e_stop'', SystemStateMsg ''paused''])
   \<and> mc_current_state (pn_plc (after_events [SystemStateMsg ''e_stop'', SystemStateMsg ''paused''])) = ERROR
   \<and> pn_watchdog_latched (after_events [MBitMsg 0 True, SystemStateMsg ''watchdog'', TimerFires 0])
   \<and> mc_current_state (pn_plc (after_events [MBitMsg 0 True, SystemStateMsg ''watchdog'', TimerFires 0])) = IDLE"
  by (intro conjI; code_simp)

end
