(* ===== verification/ToolboxMotion.thy ===== *)
theory ToolboxMotion imports Prelude begin

text \<open>
  \<open>unit_actions/toolbox_motion.py\<close>: steps, the measured constants, and the builders of every
  motion sequence, each step in the order of the source. The last sections give the sequences a
  meaning: an abstract arm whose gripper holds the drawer handle or the tool while it moves.
\<close>

section \<open>Steps\<close>

datatype step_kind =
    MOVE_L_ABS | MOVE_L_REL | MOVE_J_ABS | MOVE_J_REL | GRIP | WAIT
  | VISUAL_SERVO_XZ | MOVE_L_TOP_XY | VISUAL_SERVO_XY | MOVE_L_TOOL_XYZ | MOVE_L_SLOT_XY
  | WAIT_VISION_TOP_XY | WAIT_VISION_RETURN_XY | MOVE_L_SLOT_XYZ | MOVE_L_STAGING_XYZ
  | WAIT_HAND_POSE | MOVE_L_HAND_RZ_APPROACH | MOVE_L_HAND_PLACE
  | MOVE_L_HAND_RZ_APPROACH_HANDLE | MOVE_L_HAND_PLACE_HANDLE

datatype marker = Pick | Place

record motion_step =
  kind :: step_kind
  pose :: "real list option"
  vel :: "real option"
  acc :: "real option"
  pulse :: "int option"
  sec :: "real option"
  marker :: "marker option"

datatype motion_error = BadMarker string | BadLayer int | NoWaypoint string

fun parse_marker :: "string \<Rightarrow> marker option" where
  "parse_marker s = (if s = ''pick'' then Some Pick else if s = ''place'' then Some Place else None)"

definition bare_step :: "step_kind \<Rightarrow> motion_step" where
  "bare_step k =
     \<lparr>kind = k, pose = None, vel = None, acc = None, pulse = None, sec = None, marker = None\<rparr>"

definition marked :: "motion_step \<Rightarrow> string \<Rightarrow> (motion_error, motion_step) result" where
  "marked s m =
     (case parse_marker m of None \<Rightarrow> Inl (BadMarker m) | Some k \<Rightarrow> Inr (s\<lparr>marker := Some k\<rparr>))"

section \<open>Constants\<close>

definition VEL_L :: real where
  "VEL_L = 50.0"

definition ACC_L :: real where
  "ACC_L = 200.0"

definition VEL_R :: real where
  "VEL_R = 15.3"

definition ACC_R :: real where
  "ACC_R = 61.2"

definition VEL_J :: real where
  "VEL_J = 12.0"

definition ACC_J :: real where
  "ACC_J = 20.0"

definition PULSE_RELEASE :: int where
  "PULSE_RELEASE = 450"

definition PULSE_GRIP_BOX :: int where
  "PULSE_GRIP_BOX = 600"

definition PULSE_GRIP_TOOL :: int where
  "PULSE_GRIP_TOOL = 650"

definition JOINT_HOME_DEG :: "real list" where
  "JOINT_HOME_DEG = [0.0, 0.0, 90.0, 0.0, 90.0, 0.0]"

definition LAYER0_SETUP_J :: "real list" where
  "LAYER0_SETUP_J = [-19.53, 53.85, 110.47, 71.14, 95.19, -75.18]"

definition LAYER0_CLOSE_SETUP_J :: "real list" where
  "LAYER0_CLOSE_SETUP_J = [-23.33, 56.66, 107.63, 67.45, 96.16, -75.52]"

definition LAYER0_APPROACH :: "real list" where
  "LAYER0_APPROACH = [378.88, 433.02, 65.45, 90.0, 90.0, 90.0]"

definition LAYER0_OPEN :: "real list" where
  "LAYER0_OPEN = [378.88, 243.86, 65.46, 90.0, 90.0, 90.0]"

definition LAYER0_SILENCE :: "real list" where
  "LAYER0_SILENCE = [378.88, 243.86, 56.43, 90.0, 90.0, 90.0]"

definition LAYER0_INNER :: "real list" where
  "LAYER0_INNER = [378.88, 169.1, 50.45, 90.0, 90.0, 90.0]"

definition LAYER0_OPENDOWN :: "real list" where
  "LAYER0_OPENDOWN = [378.88, 243.86, 55.45, 90.0, 90.0, 90.0]"

definition LAYER0_CLOSE_END :: "real list" where
  "LAYER0_CLOSE_END = LAYER0_INNER"

definition LAYER0_V2_APPROACH :: "real list" where
  "LAYER0_V2_APPROACH = [369.0, 433.02, 65.45, 90.0, 90.0, 90.0]"

definition LAYER0_V2_OPEN :: "real list" where
  "LAYER0_V2_OPEN = [369.0, 213.86, 65.46, 90.0, 90.0, 90.0]"

definition LAYER0_V2_SILENCE :: "real list" where
  "LAYER0_V2_SILENCE = [369.0, 213.86, 56.43, 90.0, 90.0, 90.0]"

definition LAYER0_V2_INNER :: "real list" where
  "LAYER0_V2_INNER = [369.0, 169.1, 50.45, 90.0, 90.0, 90.0]"

definition LAYER0_V2_OPENDOWN :: "real list" where
  "LAYER0_V2_OPENDOWN = [369.0, 213.86, 55.45, 90.0, 90.0, 90.0]"

definition LAYER0_V2_CLOSE_END :: "real list" where
  "LAYER0_V2_CLOSE_END = LAYER0_V2_INNER"

definition LAYER1_SETUP_J :: "real list" where
  "LAYER1_SETUP_J = [-6.14, 44.85, 116.43, 84.19, 91.97, -71.38]"

definition LAYER1_CLOSE_SETUP_J :: "real list" where
  "LAYER1_CLOSE_SETUP_J = [-23.64, 48.6, 110.08, 67.82, 98.38, -70.33]"

definition LAYER1_APPROACH :: "real list" where
  "LAYER1_APPROACH = [380.57, 427.51, 115.68, 90.0, 90.0, 90.0]"

definition LAYER1_OPEN :: "real list" where
  "LAYER1_OPEN = [380.56, 237.79, 115.69, 90.0, 90.0, 90.0]"

definition LAYER1_SILENCE :: "real list" where
  "LAYER1_SILENCE = [380.56, 237.79, 106.7, 90.0, 90.0, 90.0]"

definition LAYER1_INNER :: "real list" where
  "LAYER1_INNER = [380.56, 165.94, 103.69, 90.0, 90.0, 90.0]"

definition LAYER1_OPENDOWN :: "real list" where
  "LAYER1_OPENDOWN = [380.56, 237.79, 103.69, 90.0, 90.0, 90.0]"

definition LAYER1_CLOSE_END :: "real list" where
  "LAYER1_CLOSE_END = [380.61, 291.56, 115.7, 89.99, 89.99, 90.0]"

definition LAYER1_V2_APPROACH :: "real list" where
  "LAYER1_V2_APPROACH = [369.0, 427.51, 115.68, 90.0, 90.0, 90.0]"

definition LAYER1_V2_OPEN :: "real list" where
  "LAYER1_V2_OPEN = [369.0, 213.86, 115.69, 90.0, 90.0, 90.0]"

definition LAYER1_V2_SILENCE :: "real list" where
  "LAYER1_V2_SILENCE = [369.0, 213.86, 106.7, 90.0, 90.0, 90.0]"

definition LAYER1_V2_INNER :: "real list" where
  "LAYER1_V2_INNER = [369.0, 165.94, 103.69, 90.0, 90.0, 90.0]"

definition LAYER1_V2_OPENDOWN :: "real list" where
  "LAYER1_V2_OPENDOWN = [369.0, 213.86, 103.69, 90.0, 90.0, 90.0]"

definition LAYER1_V2_CLOSE_END :: "real list" where
  "LAYER1_V2_CLOSE_END = [369.0, 291.56, 115.7, 89.99, 89.99, 90.0]"

definition SOCKET_APPROACH_XY :: "real list" where
  "SOCKET_APPROACH_XY = [269.98, 362.81, 234.0, 180.0, 180.0, 90.0]"

definition SOCKET_APPROACH_Z :: "real list" where
  "SOCKET_APPROACH_Z = [269.98, 362.8, 122.8, 180.0, 180.0, 90.0]"

definition SOCKET_BOTTOM_XY :: "real list" where
  "SOCKET_BOTTOM_XY = [550.0, -142.0, 235.73, 180.0, 180.0, 90.0]"

definition SOCKET_BOTTOM :: "real list" where
  "SOCKET_BOTTOM = [550.0, -142.0, -0.12, 180.0, 180.0, 90.0]"

definition SOCKET_CATCH_HOME_L :: "real list" where
  "SOCKET_CATCH_HOME_L = [373.0, 0.0, 245.0, 3.13, -180.0, 3.13]"

definition LAYER_WP :: "(int \<times> (string \<times> real list) list) list" where
  "LAYER_WP =
     [(0,
       [(''setup_j'', LAYER0_SETUP_J),
        (''close_setup_j'', LAYER0_CLOSE_SETUP_J),
        (''approach'', LAYER0_APPROACH),
        (''open'', LAYER0_OPEN),
        (''silence'', LAYER0_SILENCE),
        (''inner'', LAYER0_INNER),
        (''opendown'', LAYER0_OPENDOWN),
        (''close_end'', LAYER0_CLOSE_END)]),
      (1,
       [(''setup_j'', LAYER1_SETUP_J),
        (''close_setup_j'', LAYER1_CLOSE_SETUP_J),
        (''approach'', LAYER1_APPROACH),
        (''open'', LAYER1_OPEN),
        (''silence'', LAYER1_SILENCE),
        (''inner'', LAYER1_INNER),
        (''opendown'', LAYER1_OPENDOWN),
        (''close_end'', LAYER1_CLOSE_END)])]"

definition LAYER_WP_V2 :: "(int \<times> (string \<times> real list) list) list" where
  "LAYER_WP_V2 =
     [(0,
       [(''setup_j'', LAYER0_SETUP_J),
        (''close_setup_j'', LAYER0_CLOSE_SETUP_J),
        (''approach'', LAYER0_V2_APPROACH),
        (''open'', LAYER0_V2_OPEN),
        (''silence'', LAYER0_V2_SILENCE),
        (''inner'', LAYER0_V2_INNER),
        (''opendown'', LAYER0_V2_OPENDOWN),
        (''close_end'', LAYER0_V2_CLOSE_END)]),
      (1,
       [(''setup_j'', LAYER1_SETUP_J),
        (''close_setup_j'', LAYER1_CLOSE_SETUP_J),
        (''approach'', LAYER1_V2_APPROACH),
        (''open'', LAYER1_V2_OPEN),
        (''silence'', LAYER1_V2_SILENCE),
        (''inner'', LAYER1_V2_INNER),
        (''opendown'', LAYER1_V2_OPENDOWN),
        (''close_end'', LAYER1_V2_CLOSE_END)])]"

definition VISION_FETCH_SCAN_J_DEG :: "real list" where
  "VISION_FETCH_SCAN_J_DEG = [-30.1, 15.5, 74.7, 20.9, 101.2, -27.8]"

definition VISION_RETURN_SCAN_J_DEG :: "real list" where
  "VISION_RETURN_SCAN_J_DEG = [-24.6, 32.49, 50.78, 22.42, 105.63, -19.92]"

section \<open>Step factories\<close>

definition ml_abs :: "real list \<Rightarrow> motion_step" where
  "ml_abs pos = (bare_step MOVE_L_ABS)\<lparr>pose := Some pos, vel := Some VEL_L, acc := Some ACC_L\<rparr>"

definition ml_rel :: "real list \<Rightarrow> motion_step" where
  "ml_rel pos = (bare_step MOVE_L_REL)\<lparr>pose := Some pos, vel := Some VEL_L, acc := Some ACC_L\<rparr>"

definition mj_abs :: "real list \<Rightarrow> motion_step" where
  "mj_abs joints = (bare_step MOVE_J_ABS)\<lparr>pose := Some joints, vel := Some VEL_J, acc := Some ACC_J\<rparr>"

definition grip :: "int \<Rightarrow> motion_step" where
  "grip p = (bare_step GRIP)\<lparr>pulse := Some p\<rparr>"

definition wait_step :: "real \<Rightarrow> motion_step" where
  "wait_step s = (bare_step WAIT)\<lparr>sec := Some s\<rparr>"

definition GRIP_RELEASE :: motion_step where
  "GRIP_RELEASE = grip PULSE_RELEASE"

definition GRIP_BOX :: motion_step where
  "GRIP_BOX = grip PULSE_GRIP_BOX"

definition GRIP_TOOL :: motion_step where
  "GRIP_TOOL = grip PULSE_GRIP_TOOL"

definition JOINT_HOME :: motion_step where
  "JOINT_HOME = mj_abs JOINT_HOME_DEG"

text \<open>The steps a builder marks, with the marker strings of the source already checked.\<close>

definition picks :: "motion_step \<Rightarrow> motion_step" where
  "picks s = s\<lparr>marker := Some Pick\<rparr>"

definition places :: "motion_step \<Rightarrow> motion_step" where
  "places s = s\<lparr>marker := Some Place\<rparr>"

lemma marked_picks: "marked s ''pick'' = Inr (picks s)" "marked s ''place'' = Inr (places s)"
  by (simp_all add: marked_def picks_def places_def)

section \<open>Sequences\<close>

definition home_seq :: "motion_step list" where
  "home_seq = [GRIP_RELEASE, JOINT_HOME]"

definition way_point ::
  "(int \<times> (string \<times> real list) list) list \<Rightarrow> int \<Rightarrow> string \<Rightarrow> (motion_error, real list) result" where
  "way_point table layer key =
     (case map_of table layer of
        None \<Rightarrow> Inl (BadLayer layer)
      | Some wps \<Rightarrow> (case map_of wps key of None \<Rightarrow> Inl (NoWaypoint key) | Some p \<Rightarrow> Inr p))"

definition wp :: "int \<Rightarrow> string \<Rightarrow> (motion_error, real list) result" where
  "wp layer key = way_point LAYER_WP layer key"

definition wp_v2 :: "int \<Rightarrow> string \<Rightarrow> (motion_error, real list) result" where
  "wp_v2 layer key = way_point LAYER_WP_V2 layer key"

text \<open>A list display whose elements may raise, evaluated from left to right.\<close>

fun all_results :: "('e, 'a) result list \<Rightarrow> ('e, 'a list) result" where
  "all_results [] = Inr []"
| "all_results (r # rs) =
     (case r of
        Inl e \<Rightarrow> Inl e
      | Inr a \<Rightarrow> (case all_results rs of Inl e \<Rightarrow> Inl e | Inr as \<Rightarrow> Inr (a # as)))"

definition step_at :: "(real list \<Rightarrow> motion_step) \<Rightarrow> (motion_error, real list) result \<Rightarrow>
    (motion_error, motion_step) result" where
  "step_at f p = map_sum id f p"

definition or_default :: "real list option \<Rightarrow> (motion_error, real list) result \<Rightarrow>
    (motion_error, real list) result" where
  "or_default tool_pose p = (case tool_pose of None \<Rightarrow> p | Some q \<Rightarrow> Inr q)"

definition drawer_open_seq :: "int \<Rightarrow> real list option \<Rightarrow> (motion_error, motion_step list) result" where
  "drawer_open_seq layer tool_pose =
     (case or_default tool_pose (wp layer ''inner'') of
        Inl e \<Rightarrow> Inl e
      | Inr goal \<Rightarrow> all_results
       [Inr GRIP_RELEASE,
        step_at mj_abs (wp layer ''setup_j''),
        step_at ml_abs (wp layer ''approach''),
        Inr GRIP_BOX,
        step_at ml_abs (wp layer ''open''),
        step_at ml_abs (wp layer ''silence''),
        Inr GRIP_RELEASE,
        Inr (ml_abs goal),
        Inr JOINT_HOME])"

definition vision_drawer_open_seq :: "int \<Rightarrow> (motion_error, motion_step list) result" where
  "vision_drawer_open_seq layer =
     all_results
       [Inr GRIP_RELEASE,
        step_at mj_abs (wp layer ''setup_j''),
        step_at ml_abs (wp layer ''approach''),
        Inr (bare_step VISUAL_SERVO_XZ),
        Inr GRIP_BOX,
        step_at ml_abs (wp layer ''open''),
        step_at ml_abs (wp layer ''silence''),
        Inr GRIP_RELEASE,
        step_at ml_abs (wp layer ''inner''),
        Inr JOINT_HOME]"

definition drawer_close_seq :: "int \<Rightarrow> real list option \<Rightarrow> (motion_error, motion_step list) result" where
  "drawer_close_seq layer tool_pose =
     (case or_default tool_pose (wp layer ''close_end'') of
        Inl e \<Rightarrow> Inl e
      | Inr goal \<Rightarrow> all_results
       [Inr GRIP_RELEASE,
        step_at mj_abs (wp layer ''close_setup_j''),
        step_at ml_abs (wp layer ''opendown''),
        Inr GRIP_BOX,
        step_at ml_abs (wp layer ''open''),
        step_at ml_abs (wp layer ''approach''),
        Inr GRIP_RELEASE,
        Inr (ml_abs goal),
        Inr JOINT_HOME])"

definition drawer_open_seq_v2 :: "int \<Rightarrow> (motion_error, motion_step list) result" where
  "drawer_open_seq_v2 layer =
     all_results
       [Inr GRIP_RELEASE,
        step_at mj_abs (wp_v2 layer ''setup_j''),
        step_at ml_abs (wp_v2 layer ''approach''),
        Inr GRIP_BOX,
        step_at ml_abs (wp_v2 layer ''open''),
        step_at ml_abs (wp_v2 layer ''silence''),
        Inr GRIP_RELEASE,
        step_at ml_abs (wp_v2 layer ''inner''),
        Inr JOINT_HOME]"

definition drawer_close_seq_v2 :: "int \<Rightarrow> (motion_error, motion_step list) result" where
  "drawer_close_seq_v2 layer =
     all_results
       [Inr GRIP_RELEASE,
        step_at mj_abs (wp_v2 layer ''close_setup_j''),
        step_at ml_abs (wp_v2 layer ''opendown''),
        Inr GRIP_BOX,
        step_at ml_abs (wp_v2 layer ''open''),
        step_at ml_abs (wp_v2 layer ''approach''),
        Inr GRIP_RELEASE,
        step_at ml_abs (wp_v2 layer ''close_end''),
        Inr JOINT_HOME]"

definition vision_drawer_close_seq :: "int \<Rightarrow> (motion_error, motion_step list) result" where
  "vision_drawer_close_seq layer =
     all_results
       [Inr GRIP_RELEASE,
        step_at mj_abs (wp layer ''close_setup_j''),
        step_at ml_abs (wp layer ''opendown''),
        Inr (bare_step VISUAL_SERVO_XZ),
        Inr GRIP_BOX,
        step_at ml_abs (wp layer ''open''),
        step_at ml_abs (wp layer ''approach''),
        Inr GRIP_RELEASE,
        step_at ml_abs (wp layer ''close_end''),
        Inr JOINT_HOME]"

definition approach_tool_seq :: "int \<Rightarrow> real list option \<Rightarrow> (motion_error, motion_step list) result" where
  "approach_tool_seq layer tool_pose =
     (case or_default tool_pose (wp layer ''inner'') of
        Inl e \<Rightarrow> Inl e
      | Inr goal \<Rightarrow> all_results [step_at mj_abs (wp layer ''setup_j''), Inr (ml_abs goal)])"

definition fetch_from_drawer_seq :: "int \<Rightarrow> real list option \<Rightarrow> (motion_error, motion_step list) result" where
  "fetch_from_drawer_seq layer tool_pose = drawer_open_seq layer tool_pose"

definition return_to_drawer_seq :: "int \<Rightarrow> real list option \<Rightarrow> (motion_error, motion_step list) result" where
  "return_to_drawer_seq layer tool_pose = drawer_close_seq layer tool_pose"

definition socket_fetch_seq :: "motion_step list" where
  "socket_fetch_seq =
     [JOINT_HOME,
      GRIP_RELEASE,
      ml_abs SOCKET_APPROACH_XY,
      ml_abs SOCKET_APPROACH_Z,
      GRIP_TOOL,
      ml_abs SOCKET_APPROACH_XY,
      ml_abs SOCKET_BOTTOM_XY,
      ml_abs SOCKET_BOTTOM,
      GRIP_RELEASE,
      ml_abs SOCKET_BOTTOM_XY,
      ml_abs SOCKET_CATCH_HOME_L]"

definition vision_fetch_seq :: "motion_step list" where
  "vision_fetch_seq =
     [JOINT_HOME,
      grip 0,
      mj_abs VISION_FETCH_SCAN_J_DEG,
      bare_step WAIT_VISION_TOP_XY,
      GRIP_RELEASE,
      bare_step MOVE_L_TOP_XY,
      bare_step MOVE_L_TOOL_XYZ,
      GRIP_TOOL,
      bare_step MOVE_L_TOP_XY,
      ml_abs SOCKET_BOTTOM_XY,
      ml_abs SOCKET_BOTTOM,
      GRIP_RELEASE,
      ml_abs SOCKET_BOTTOM_XY,
      JOINT_HOME]"

definition handover_fetch_seq :: "motion_step list" where
  "handover_fetch_seq =
     [bare_step WAIT_HAND_POSE,
      JOINT_HOME,
      grip 0,
      mj_abs VISION_FETCH_SCAN_J_DEG,
      bare_step WAIT_VISION_TOP_XY,
      GRIP_RELEASE,
      bare_step MOVE_L_TOP_XY,
      picks (bare_step MOVE_L_TOOL_XYZ),
      GRIP_TOOL,
      bare_step MOVE_L_TOP_XY,
      bare_step MOVE_L_HAND_RZ_APPROACH,
      bare_step MOVE_L_HAND_PLACE,
      places (grip 450),
      JOINT_HOME]"

definition handover_fetch_handle_first_seq :: "motion_step list" where
  "handover_fetch_handle_first_seq =
     [bare_step WAIT_HAND_POSE,
      JOINT_HOME,
      grip 0,
      mj_abs VISION_FETCH_SCAN_J_DEG,
      bare_step WAIT_VISION_TOP_XY,
      GRIP_RELEASE,
      bare_step MOVE_L_TOP_XY,
      picks (bare_step MOVE_L_TOOL_XYZ),
      GRIP_TOOL,
      bare_step MOVE_L_TOP_XY,
      bare_step MOVE_L_HAND_RZ_APPROACH_HANDLE,
      bare_step MOVE_L_HAND_PLACE_HANDLE,
      places (grip 450),
      JOINT_HOME]"

definition handover_place_only_seq :: "bool \<Rightarrow> motion_step list" where
  "handover_place_only_seq handle_first =
     [bare_step WAIT_HAND_POSE,
      bare_step (if handle_first then MOVE_L_HAND_RZ_APPROACH_HANDLE else MOVE_L_HAND_RZ_APPROACH),
      bare_step (if handle_first then MOVE_L_HAND_PLACE_HANDLE else MOVE_L_HAND_PLACE),
      places (grip 450)]"

definition socket_return_seq :: "motion_step list" where
  "socket_return_seq =
     [JOINT_HOME,
      GRIP_RELEASE,
      ml_abs SOCKET_BOTTOM_XY,
      ml_abs SOCKET_BOTTOM,
      GRIP_TOOL,
      ml_abs SOCKET_BOTTOM_XY,
      ml_abs SOCKET_APPROACH_XY,
      ml_abs SOCKET_APPROACH_Z,
      GRIP_RELEASE,
      ml_abs SOCKET_APPROACH_XY,
      JOINT_HOME]"

definition vision_return_seq :: "motion_step list" where
  "vision_return_seq =
     [JOINT_HOME,
      grip 0,
      mj_abs VISION_RETURN_SCAN_J_DEG,
      bare_step WAIT_VISION_RETURN_XY,
      GRIP_RELEASE,
      bare_step MOVE_L_TOP_XY,
      bare_step MOVE_L_STAGING_XYZ,
      GRIP_TOOL,
      bare_step MOVE_L_TOP_XY,
      bare_step MOVE_L_SLOT_XY,
      bare_step MOVE_L_SLOT_XYZ,
      GRIP_RELEASE,
      bare_step MOVE_L_SLOT_XY,
      JOINT_HOME]"

definition full_socket_fetch_seq :: "(motion_error, motion_step list) result" where
  "full_socket_fetch_seq =
     (case drawer_open_seq 1 None of Inl e \<Rightarrow> Inl e | Inr opening \<Rightarrow>
     (case drawer_close_seq 1 None of Inl e \<Rightarrow> Inl e | Inr closing \<Rightarrow>
      Inr (opening @
         [JOINT_HOME,
          ml_abs SOCKET_APPROACH_XY,
          ml_abs SOCKET_APPROACH_Z,
          picks GRIP_TOOL,
          ml_abs SOCKET_APPROACH_XY,
          ml_abs SOCKET_BOTTOM_XY,
          ml_abs SOCKET_BOTTOM,
          places GRIP_RELEASE,
          ml_abs SOCKET_BOTTOM_XY,
          ml_abs SOCKET_CATCH_HOME_L,
          JOINT_HOME]
         @ closing @ [JOINT_HOME])))"

definition full_socket_return_seq :: "(motion_error, motion_step list) result" where
  "full_socket_return_seq =
     (case drawer_open_seq 1 None of Inl e \<Rightarrow> Inl e | Inr opening \<Rightarrow>
     (case drawer_close_seq 1 None of Inl e \<Rightarrow> Inl e | Inr closing \<Rightarrow>
      Inr (opening @
         [JOINT_HOME,
          ml_abs SOCKET_CATCH_HOME_L,
          ml_abs SOCKET_BOTTOM_XY,
          ml_abs SOCKET_BOTTOM,
          picks GRIP_TOOL,
          ml_abs SOCKET_BOTTOM_XY,
          ml_abs SOCKET_APPROACH_XY,
          ml_abs SOCKET_APPROACH_Z,
          places GRIP_RELEASE,
          ml_abs SOCKET_APPROACH_XY,
          JOINT_HOME]
         @ closing @ [JOINT_HOME])))"

section \<open>What the sequences do to the drawer\<close>

text \<open>
  An abstract arm: the pose of the last linear move (unknown after a joint move), the gripper
  stroke, and how far the drawer has travelled along y while its handle was gripped. Visual
  servoing corrects x and z only.
\<close>

record arm =
  am_pose :: "real list option"
  am_pulse :: int
  am_drawer :: real
  am_home :: bool

definition y_of :: "real list \<Rightarrow> real" where
  "y_of p = p ! 1"

definition arm_step :: "motion_step \<Rightarrow> arm \<Rightarrow> arm" where
  "arm_step s a =
     (case kind s of
        MOVE_L_ABS \<Rightarrow>
          a\<lparr>am_pose := pose s, am_home := False,
            am_drawer := (case (am_pose a, pose s) of
               (Some p, Some q) \<Rightarrow>
                 if am_pulse a = PULSE_GRIP_BOX then am_drawer a + (y_of q - y_of p) else am_drawer a
             | _ \<Rightarrow> am_drawer a)\<rparr>
      | MOVE_J_ABS \<Rightarrow> a\<lparr>am_pose := None, am_home := (pose s = Some JOINT_HOME_DEG)\<rparr>
      | GRIP \<Rightarrow> a\<lparr>am_pulse := (case pulse s of None \<Rightarrow> am_pulse a | Some p \<Rightarrow> p)\<rparr>
      | _ \<Rightarrow> a)"

definition run_arm :: "motion_step list \<Rightarrow> arm \<Rightarrow> arm" where
  "run_arm steps a = fold arm_step steps a"

lemma run_arm_simps [simp]:
  "run_arm [] a = a" "run_arm (s # ss) a = run_arm ss (arm_step s a)"
  "run_arm (xs @ ys) a = run_arm ys (run_arm xs a)"
  by (simp_all add: run_arm_def)

text \<open>The layers of a waypoint table, and the six drawer builders with their layer as argument.\<close>

definition opener :: "nat \<Rightarrow> int \<Rightarrow> (motion_error, motion_step list) result" where
  "opener v layer =
     (if v = 0 then drawer_open_seq layer None
      else if v = 1 then vision_drawer_open_seq layer else drawer_open_seq_v2 layer)"

definition closer :: "nat \<Rightarrow> int \<Rightarrow> (motion_error, motion_step list) result" where
  "closer v layer =
     (if v = 0 then drawer_close_seq layer None
      else if v = 1 then vision_drawer_close_seq layer else drawer_close_seq_v2 layer)"

lemmas drawer_defs =
  opener_def closer_def drawer_open_seq_def drawer_close_seq_def vision_drawer_open_seq_def
  vision_drawer_close_seq_def drawer_open_seq_v2_def drawer_close_seq_v2_def

lemma wp_bad_layer:
  assumes "layer \<notin> {0, 1}"
  shows "wp layer key = Inl (BadLayer layer)" "wp_v2 layer key = Inl (BadLayer layer)"
  using assms by (simp_all add: wp_def wp_v2_def way_point_def LAYER_WP_def LAYER_WP_V2_def)

lemma bad_layer:
  assumes "layer \<notin> {0, 1}"
  shows "opener v layer = Inl (BadLayer layer)" "closer v layer = Inl (BadLayer layer)"
  using wp_bad_layer [OF assms] by (simp_all add: drawer_defs or_default_def step_at_def)

text \<open>The two layers have every waypoint, so a builder fails on nothing but the layer.\<close>

lemma opener_closer_total:
  "list_all (\<lambda>v. list_all (\<lambda>layer. is_ok (opener v layer) \<and> is_ok (closer v layer)) [0, 1]) [0, 1, 2]"
  by code_simp

text \<open>Where the arm starts does not matter: every drawer sequence starts with release and joint move.\<close>

definition arm_at_home :: arm where
  "arm_at_home = \<lparr>am_pose = None, am_pulse = 0, am_drawer = 0, am_home = True\<rparr>"

definition travel :: "motion_step list \<Rightarrow> real" where
  "travel steps = am_drawer (run_arm steps arm_at_home)"

lemma shift_run:
  "run_arm steps (a\<lparr>am_drawer := am_drawer a + x\<rparr>) =
     (run_arm steps a)\<lparr>am_drawer := am_drawer (run_arm steps a) + x\<rparr>"
proof (induction steps arbitrary: a)
  case (Cons s ss)
  have "arm_step s (a\<lparr>am_drawer := am_drawer a + x\<rparr>) =
      (arm_step s a)\<lparr>am_drawer := am_drawer (arm_step s a) + x\<rparr>"
    by (cases "kind s"; cases "am_pose a"; cases "pose s"; cases "pulse s") (simp_all add: arm_step_def)
  then show ?case using Cons.IH by simp
qed simp

text \<open>A sequence that begins with a stroke and a joint move forgets the arm's previous pose.\<close>


definition starts_fresh :: "motion_step list \<Rightarrow> bool" where
  "starts_fresh steps \<longleftrightarrow>
     (case steps of
        g # j # _ \<Rightarrow> kind g = GRIP \<and> pulse g = Some PULSE_RELEASE \<and> kind j = MOVE_J_ABS
      | _ \<Rightarrow> False)"

lemma run_fresh:
  assumes "starts_fresh steps"
  shows "am_drawer (run_arm steps a) = am_drawer a + travel steps
    \<and> am_pulse (run_arm steps a) = am_pulse (run_arm steps arm_at_home)
    \<and> am_home (run_arm steps a) = am_home (run_arm steps arm_at_home)"
proof -
  obtain g j rest where steps: "steps = g # j # rest" "kind g = GRIP" "pulse g = Some PULSE_RELEASE"
      "kind j = MOVE_J_ABS"
    using assms by (auto simp: starts_fresh_def split: list.splits)
  let ?m = "arm_step j (arm_step g arm_at_home)"
  have "arm_step j (arm_step g a) = ?m\<lparr>am_drawer := am_drawer ?m + am_drawer a\<rparr>"
    using steps by (simp add: arm_step_def arm_at_home_def)
  then have "run_arm steps a = (run_arm rest ?m)\<lparr>am_drawer := am_drawer (run_arm rest ?m) + am_drawer a\<rparr>"
    by (simp add: steps(1) shift_run)
  then show ?thesis by (simp add: travel_def steps(1))
qed

definition good_pair :: "nat \<Rightarrow> int \<Rightarrow> bool" where
  "good_pair v layer =
     (let x = projr (opener v layer); c = projr (closer v layer);
          ao = run_arm x arm_at_home; ac = run_arm c arm_at_home
      in starts_fresh x \<and> starts_fresh c \<and> travel x < 0 \<and> travel x + travel c = 0
         \<and> am_home ao \<and> am_home ac \<and> am_pulse ao = PULSE_RELEASE \<and> am_pulse ac = PULSE_RELEASE)"

lemma good_pairs:
  "list_all (\<lambda>v. list_all (good_pair v) [0, 1]) [0, 1, 2]"
  by code_simp

text \<open>
  For every drawer the builders know (both layers, with the plain, the visual and the second
  waypoint tables), opening pulls the drawer and closing pushes it back by exactly the same
  distance, wherever the arm was before; afterwards the gripper is released and the arm home.
\<close>
theorem drawer_open_close:
  assumes "v < 3" and "opener v layer = Inr steps" and "closer v layer = Inr steps'"
  shows "am_drawer (run_arm steps a) < am_drawer a
    \<and> am_drawer (run_arm steps' (run_arm steps a)) = am_drawer a
    \<and> am_home (run_arm steps a) \<and> am_pulse (run_arm steps a) = PULSE_RELEASE
    \<and> am_home (run_arm steps' a) \<and> am_pulse (run_arm steps' a) = PULSE_RELEASE"
proof -
  have layer: "layer \<in> {0, 1}" using assms(2) bad_layer(1) [of layer v] by force
  have "v \<in> {0, 1, 2}" using assms(1) by auto
  with layer have "good_pair v layer" using good_pairs by auto
  then have fresh: "starts_fresh steps" "starts_fresh steps'"
      and t: "travel steps < 0" "travel steps + travel steps' = 0"
      and ends: "am_home (run_arm steps arm_at_home)" "am_home (run_arm steps' arm_at_home)"
        "am_pulse (run_arm steps arm_at_home) = PULSE_RELEASE"
        "am_pulse (run_arm steps' arm_at_home) = PULSE_RELEASE"
    using assms(2,3) by (simp_all add: good_pair_def Let_def)
  show ?thesis
    using run_fresh [OF fresh(1)] run_fresh [OF fresh(2)] t ends by simp
qed

theorem drawer_open_close_witness:
  "am_drawer (run_arm (projr (closer 0 1)) (run_arm (projr (opener 0 1)) arm_at_home)) = 0"
proof -
  have "is_ok (opener 0 1)" "is_ok (closer 0 1)" using opener_closer_total by simp_all
  then have "opener 0 1 = Inr (projr (opener 0 1))" "closer 0 1 = Inr (projr (closer 0 1))"
    by (auto simp: is_ok_iff)
  from drawer_open_close [OF _ this, of arm_at_home] show ?thesis by (simp add: arm_at_home_def)
qed

text \<open>
  Every drawer builder, with or without a tool pose, succeeds exactly for the layers 0 and 1
  and raises the layer error for any other.
\<close>
theorem drawer_layers:
  "(is_ok (drawer_open_seq layer tool_pose) \<longleftrightarrow> layer \<in> {0, 1})
   \<and> (is_ok (drawer_close_seq layer tool_pose) \<longleftrightarrow> layer \<in> {0, 1})
   \<and> (is_ok (opener v layer) \<longleftrightarrow> layer \<in> {0, 1}) \<and> (is_ok (closer v layer) \<longleftrightarrow> layer \<in> {0, 1})
   \<and> (layer \<in> {0, 1} \<or> drawer_open_seq layer tool_pose = Inl (BadLayer layer)
        \<and> drawer_close_seq layer tool_pose = Inl (BadLayer layer)
        \<and> opener v layer = Inl (BadLayer layer) \<and> closer v layer = Inl (BadLayer layer))"
proof (cases "layer \<in> {0, 1}")
  case True
  have total: "list_all (\<lambda>layer. is_ok (drawer_open_seq layer None)
      \<and> is_ok (drawer_close_seq layer None) \<and> is_ok (drawer_open_seq layer (Some []))
      \<and> is_ok (drawer_close_seq layer (Some [])) \<and> is_ok (vision_drawer_open_seq layer)
      \<and> is_ok (vision_drawer_close_seq layer) \<and> is_ok (drawer_open_seq_v2 layer)
      \<and> is_ok (drawer_close_seq_v2 layer)) [0, 1]"
    by code_simp
  have "is_ok (drawer_open_seq layer (Some p)) = is_ok (drawer_open_seq layer (Some []))"
      "is_ok (drawer_close_seq layer (Some p)) = is_ok (drawer_close_seq layer (Some []))" for p
    by (simp_all add: drawer_open_seq_def drawer_close_seq_def or_default_def is_ok_def
        split: sum.splits)
  with True total show ?thesis
    by (cases tool_pose) (auto simp: opener_def closer_def)
next
  case False
  then show ?thesis
    using bad_layer [OF False] wp_bad_layer [OF False]
    by (cases tool_pose) (auto simp: drawer_open_seq_def drawer_close_seq_def or_default_def step_at_def)
qed

section \<open>Carrying a tool\<close>

text \<open>The gripper holds a tool from a stroke of at least \<open>PULSE_GRIP_TOOL\<close> to the next stroke.\<close>

definition holds_after :: "bool \<Rightarrow> motion_step \<Rightarrow> bool" where
  "holds_after h s =
     (if kind s = GRIP then (case pulse s of None \<Rightarrow> h | Some p \<Rightarrow> p \<ge> PULSE_GRIP_TOOL) else h)"

fun holding_trace :: "bool \<Rightarrow> motion_step list \<Rightarrow> (motion_step \<times> bool \<times> bool) list" where
  "holding_trace h [] = []"
| "holding_trace h (s # ss) = (s, h, holds_after h s) # holding_trace (holds_after h s) ss"

text \<open>The sequences that pick a tool up and put it down.\<close>

definition tool_sequences :: "motion_step list list" where
  "tool_sequences =
     [socket_fetch_seq, vision_fetch_seq, handover_fetch_seq, handover_fetch_handle_first_seq,
      socket_return_seq, vision_return_seq, projr full_socket_fetch_seq,
      projr full_socket_return_seq]"

text \<open>
  One grasp, one release, nothing but linear moves in between, and hands empty at the end.
\<close>
definition carries_once :: "motion_step list \<Rightarrow> bool" where
  "carries_once seq =
     (let tr = holding_trace False seq in
      length (filter (\<lambda>(s, h, h'). \<not> h \<and> h') tr) = 1
      \<and> length (filter (\<lambda>(s, h, h'). h \<and> \<not> h') tr) = 1
      \<and> list_all (\<lambda>(s, h, h'). \<not> (h \<and> kind s \<in> {MOVE_J_ABS, MOVE_J_REL})) tr
      \<and> (case rev tr of [] \<Rightarrow> False | (s, h, h') # _ \<Rightarrow> \<not> h'))"

fun linear_pairs :: "motion_step list \<Rightarrow> (real list \<times> real list) list" where
  "linear_pairs (s # t # ss) =
     (case (kind s, pose s, kind t, pose t) of
        (MOVE_L_ABS, Some p, MOVE_L_ABS, Some q) \<Rightarrow> (p, q) # linear_pairs (t # ss)
      | (MOVE_L_ABS, Some p, GRIP, _) \<Rightarrow>
          (case ss of
             u # us \<Rightarrow>
               (case (kind u, pose u) of
                  (MOVE_L_ABS, Some q) \<Rightarrow> (p, q) # linear_pairs (t # ss) | _ \<Rightarrow> linear_pairs (t # ss))
           | [] \<Rightarrow> [])
      | _ \<Rightarrow> linear_pairs (t # ss))"
| "linear_pairs _ = []"

text \<open>A move that changes height by more than 5 cm is vertical, to a hundredth of a millimetre.\<close>

definition vertical_when_high :: "real list \<times> real list \<Rightarrow> bool" where
  "vertical_when_high pq =
     (let (p, q) = pq in
      \<bar>p ! 2 - q ! 2\<bar> \<le> 50 \<or> \<bar>p ! 0 - q ! 0\<bar> \<le> 1/100 \<and> \<bar>p ! 1 - q ! 1\<bar> \<le> 1/100
        \<and> drop 3 p = drop 3 q)"

text \<open>
  In every sequence that moves a tool, the tool is grasped once and released once, the arm
  makes only linear moves while it holds it, and it ends with the gripper empty; and in those
  with fixed coordinates every descent to and ascent from a grasp or a release is vertical and
  keeps the orientation, above the slot as above the staging area.
\<close>
theorem tool_sequences_carry:
  "list_all carries_once tool_sequences
   \<and> list_all (\<lambda>seq. list_all vertical_when_high (linear_pairs seq))
       [socket_fetch_seq, socket_return_seq, projr full_socket_fetch_seq, projr full_socket_return_seq]"
  by (intro conjI; code_simp)

section \<open>Markers\<close>

definition markers :: "motion_step list \<Rightarrow> marker list" where
  "markers seq = concat (map (\<lambda>s. case marker s of None \<Rightarrow> [] | Some m \<Rightarrow> [m]) seq)"

text \<open>Each marker with whether the gripper holds the tool once the marked step is done.\<close>

definition marked_holding :: "motion_step list \<Rightarrow> (marker \<times> bool) list" where
  "marked_holding seq =
     concat (map (\<lambda>(s, h, h'). case marker s of None \<Rightarrow> [] | Some m \<Rightarrow> [(m, h')]) (holding_trace False seq))"

text \<open>
  The socket sequences report \<open>pick\<close> when the tool is in the gripper and \<open>place\<close> when it has
  left it. The hand-over sequences report \<open>pick\<close> while the gripper is still open, one step before
  the grasp. The vision sequences and the bare socket sequences report neither.
\<close>
theorem marker_times:
  "marked_holding (projr full_socket_fetch_seq) = [(Pick, True), (Place, False)]
   \<and> marked_holding (projr full_socket_return_seq) = [(Pick, True), (Place, False)]
   \<and> marked_holding handover_fetch_seq = [(Pick, False), (Place, False)]
   \<and> marked_holding handover_fetch_handle_first_seq = [(Pick, False), (Place, False)]
   \<and> list_all (\<lambda>seq. markers seq = [])
       [socket_fetch_seq, socket_return_seq, vision_fetch_seq, vision_return_seq, home_seq]"
  by (intro conjI; code_simp)

end
