(* ===== verification/Servo.thy ===== *)
theory Servo imports Prelude begin

text \<open>
  \<open>unit_actions/visual_servoing.py\<close>: the two visual-servoing controllers. Each is a state
  machine driven by \<open>tick\<close>: it waits for a number of valid frames in a row, then commands a
  clamped proportional velocity in a plane until the error is within the threshold. One call of
  \<open>tick\<close> reads the E-stop event, the clock, and at most once each the target pose and the pose
  of the end effector; these readings are the argument \<open>servo_in\<close>. The locale \<open>servo\<close> is what
  the callers of a controller rely on; its lemmas (limits, alignment, deadline, convergence)
  are proved once and hold for both controllers by interpretation. Units are millimetres and
  millimetres per second. Reading the configuration file is left out.
\<close>

section \<open>Data\<close>

text \<open>\<open>ToolPose\<close>: position in millimetres and yaw in degrees, in the robot base frame.\<close>

record tool_pose =
  tp_x :: real
  tp_y :: real
  tp_z :: real
  tp_rz :: real
  tp_valid :: bool

record handle_pose =
  hp_x :: real
  hp_z :: real
  hp_valid :: bool

record velocity_command =
  vc_x :: real
  vc_y :: real
  vc_z :: real
  vc_stop :: bool

record servo_config =
  sc_kp :: real
  sc_xz_thr :: real
  sc_xy_thr :: real
  sc_stable_frames :: int
  sc_vel_limit :: real
  sc_timeout :: real

text \<open>The defaults of \<open>ServoConfig\<close>.\<close>

definition default_servo_config :: servo_config where
  "default_servo_config = \<lparr>sc_kp = 1, sc_xz_thr = 3, sc_xy_thr = 3, sc_stable_frames = 3,
     sc_vel_limit = 20, sc_timeout = 15\<rparr>"

text \<open>
  \<open>load_from_yaml\<close>: the keys of one section of the file, and the choice of the section
  (\<open>raw.get(section, raw)\<close>; the empty name is the whole file).
\<close>

record servo_keys =
  yk_kp :: "real option"
  yk_xz_align_thr_mm :: "real option"
  yk_xy_align_thr_mm :: "real option"
  yk_stable_frames :: "int option"
  yk_vel_limit_mm_s :: "real option"
  yk_timeout_sec :: "real option"

record servo_yaml =
  sy_root :: servo_keys
  sy_sections :: "(string \<times> servo_keys) list"

definition servo_keys_of :: "servo_yaml \<Rightarrow> string \<Rightarrow> servo_keys" where
  "servo_keys_of raw sect =
     (if sect = [] then sy_root raw
      else case map_of (sy_sections raw) sect of None \<Rightarrow> sy_root raw | Some d \<Rightarrow> d)"

definition key_or :: "'a option \<Rightarrow> 'a \<Rightarrow> 'a" where
  "key_or v d = (case v of None \<Rightarrow> d | Some x \<Rightarrow> x)"

definition load_servo_config :: "servo_yaml \<Rightarrow> string \<Rightarrow> servo_config" where
  "load_servo_config raw sect =
     (let d = servo_keys_of raw sect; c = default_servo_config in
      \<lparr>sc_kp = key_or (yk_kp d) (sc_kp c),
       sc_xz_thr = key_or (yk_xz_align_thr_mm d) (sc_xz_thr c),
       sc_xy_thr = key_or (yk_xy_align_thr_mm d) (sc_xy_thr c),
       sc_stable_frames = key_or (yk_stable_frames d) (sc_stable_frames c),
       sc_vel_limit = key_or (yk_vel_limit_mm_s d) (sc_vel_limit c),
       sc_timeout = key_or (yk_timeout_sec d) (sc_timeout c)\<rparr>)"

datatype servo_state = DETECT | ALIGN_XZ | ALIGN_XY | DONE | ERROR

record servo_ctl =
  sv_state :: servo_state
  sv_stable :: int
  sv_start :: real

record 'p servo_in =
  si_estop :: bool
  si_now :: real
  si_target :: 'p
  si_ee :: "real \<times> real \<times> real"

definition velocity :: "real \<Rightarrow> real \<Rightarrow> real \<Rightarrow> velocity_command" where
  "velocity x y z = \<lparr>vc_x = x, vc_y = y, vc_z = z, vc_stop = False\<rparr>"

definition stop_command :: velocity_command where
  "stop_command = \<lparr>vc_x = 0, vc_y = 0, vc_z = 0, vc_stop = True\<rparr>"

section \<open>Operations\<close>

definition servo_clamp :: "real \<Rightarrow> real \<Rightarrow> real" where
  "servo_clamp v limit = max (- limit) (min limit v)"

definition norm2 :: "real \<Rightarrow> real \<Rightarrow> real" where
  "norm2 a b = sqrt (a * a + b * b)"

text \<open>The constructors: both start in \<open>DETECT\<close> and note the time.\<close>

definition handle_servo_init :: "real \<Rightarrow> servo_ctl" where
  "handle_servo_init now = \<lparr>sv_state = DETECT, sv_stable = 0, sv_start = now\<rparr>"

definition tool_servo_init :: "real \<Rightarrow> servo_ctl" where
  "tool_servo_init now = \<lparr>sv_state = DETECT, sv_stable = 0, sv_start = now\<rparr>"

definition handle_is_terminal :: "servo_ctl \<Rightarrow> bool" where
  "handle_is_terminal c \<longleftrightarrow> sv_state c = DONE \<or> sv_state c = ERROR"

definition tool_is_terminal :: "servo_ctl \<Rightarrow> bool" where
  "tool_is_terminal c \<longleftrightarrow> sv_state c = DONE \<or> sv_state c = ERROR"

definition handle_to_error :: "servo_ctl \<Rightarrow> servo_ctl \<times> velocity_command" where
  "handle_to_error c = (c\<lparr>sv_state := ERROR\<rparr>, stop_command)"

definition tool_to_error :: "servo_ctl \<Rightarrow> servo_ctl \<times> velocity_command" where
  "tool_to_error c = (c\<lparr>sv_state := ERROR\<rparr>, stop_command)"

definition handle_tick_detect ::
  "servo_config \<Rightarrow> handle_pose servo_in \<Rightarrow> servo_ctl \<Rightarrow> servo_ctl \<times> velocity_command" where
  "handle_tick_detect cfg i c =
     (let c1 = c\<lparr>sv_stable := if hp_valid (si_target i) then sv_stable c + 1 else 0\<rparr>
      in if sv_stable c1 \<ge> sc_stable_frames cfg
         then (c1\<lparr>sv_state := ALIGN_XZ\<rparr>, stop_command)
         else (c1, stop_command))"

definition handle_tick_align ::
  "servo_config \<Rightarrow> handle_pose servo_in \<Rightarrow> servo_ctl \<Rightarrow> servo_ctl \<times> velocity_command" where
  "handle_tick_align cfg i c =
     (if \<not> hp_valid (si_target i) then (c\<lparr>sv_state := DETECT, sv_stable := 0\<rparr>, stop_command)
      else case si_ee i of (ee_x, _, ee_z) \<Rightarrow>
        let err_x = hp_x (si_target i) - ee_x; err_z = hp_z (si_target i) - ee_z
        in if norm2 err_x err_z \<le> sc_xz_thr cfg then (c\<lparr>sv_state := DONE\<rparr>, stop_command)
           else (c, velocity (servo_clamp (sc_kp cfg * err_x) (sc_vel_limit cfg)) 0
                             (servo_clamp (sc_kp cfg * err_z) (sc_vel_limit cfg))))"

definition handle_tick ::
  "servo_config \<Rightarrow> handle_pose servo_in \<Rightarrow> servo_ctl \<Rightarrow> servo_ctl \<times> velocity_command" where
  "handle_tick cfg i c =
     (if si_estop i then handle_to_error c
      else if si_now i - sv_start c > sc_timeout cfg then handle_to_error c
      else if sv_state c = DETECT then handle_tick_detect cfg i c
      else if sv_state c = ALIGN_XZ then handle_tick_align cfg i c
      else (c, stop_command))"

definition tool_tick_detect ::
  "servo_config \<Rightarrow> tool_pose servo_in \<Rightarrow> servo_ctl \<Rightarrow> servo_ctl \<times> velocity_command" where
  "tool_tick_detect cfg i c =
     (let c1 = c\<lparr>sv_stable := if tp_valid (si_target i) then sv_stable c + 1 else 0\<rparr>
      in if sv_stable c1 \<ge> sc_stable_frames cfg
         then (c1\<lparr>sv_state := ALIGN_XY\<rparr>, stop_command)
         else (c1, stop_command))"

definition tool_tick_align ::
  "servo_config \<Rightarrow> tool_pose servo_in \<Rightarrow> servo_ctl \<Rightarrow> servo_ctl \<times> velocity_command" where
  "tool_tick_align cfg i c =
     (if \<not> tp_valid (si_target i) then (c\<lparr>sv_state := DETECT, sv_stable := 0\<rparr>, stop_command)
      else case si_ee i of (ee_x, ee_y, _) \<Rightarrow>
        let err_x = tp_x (si_target i) - ee_x; err_y = tp_y (si_target i) - ee_y
        in if norm2 err_x err_y \<le> sc_xy_thr cfg then (c\<lparr>sv_state := DONE\<rparr>, stop_command)
           else (c, velocity (servo_clamp (sc_kp cfg * err_x) (sc_vel_limit cfg))
                             (servo_clamp (sc_kp cfg * err_y) (sc_vel_limit cfg)) 0))"

definition tool_tick ::
  "servo_config \<Rightarrow> tool_pose servo_in \<Rightarrow> servo_ctl \<Rightarrow> servo_ctl \<times> velocity_command" where
  "tool_tick cfg i c =
     (if si_estop i then tool_to_error c
      else if si_now i - sv_start c > sc_timeout cfg then tool_to_error c
      else if sv_state c = DETECT then tool_tick_detect cfg i c
      else if sv_state c = ALIGN_XY then tool_tick_align cfg i c
      else (c, stop_command))"

text \<open>
  The loop of the callers, as the class documentation gives it: tick and send the velocity while
  the controller is not terminal. The readings of the successive ticks are a list; a run whose
  readings end before a terminal state is a prefix of a run.
\<close>

fun servo_run ::
  "('i \<Rightarrow> servo_ctl \<Rightarrow> servo_ctl \<times> velocity_command) \<Rightarrow> (servo_ctl \<Rightarrow> bool) \<Rightarrow> 'i list \<Rightarrow> servo_ctl
   \<Rightarrow> servo_ctl \<times> velocity_command list" where
  "servo_run tick fin [] c = (c, [])"
| "servo_run tick fin (i # is) c =
     (if fin c then (c, [])
      else case tick i c of (c', v) \<Rightarrow>
        (case servo_run tick fin is c' of (c'', vs) \<Rightarrow> (c'', v # vs)))"

text \<open>The pose \<open>ee\<close> after moving with velocity \<open>v\<close> for \<open>dt\<close> seconds.\<close>

fun moved :: "real \<Rightarrow> velocity_command \<Rightarrow> real \<times> real \<times> real \<Rightarrow> real \<times> real \<times> real" where
  "moved dt v (x, y, z) = (x + dt * vc_x v, y + dt * vc_y v, z + dt * vc_z v)"

text \<open>
  Readings in which the robot does what it is told: the target stands still, and from one tick to
  the next the end effector moves with the commanded velocity for \<open>dt\<close> seconds.
\<close>

fun obeyed ::
  "real \<Rightarrow> ('p servo_in \<Rightarrow> servo_ctl \<Rightarrow> servo_ctl \<times> velocity_command) \<Rightarrow> 'p servo_in list \<Rightarrow>
   servo_ctl \<Rightarrow> bool" where
  "obeyed dt tick (i # j # is) c =
     (si_target j = si_target i \<and> si_ee j = moved dt (snd (tick i c)) (si_ee i)
      \<and> obeyed dt tick (j # is) (fst (tick i c)))"
| "obeyed dt tick is c = True"

definition within_limit :: "real \<Rightarrow> velocity_command \<Rightarrow> bool" where
  "within_limit l v \<longleftrightarrow> \<bar>vc_x v\<bar> \<le> l \<and> \<bar>vc_y v\<bar> \<le> l \<and> \<bar>vc_z v\<bar> \<le> l"

section \<open>The proportional law\<close>

lemma two_readings:
  assumes "1 < length xs"
  obtains i j js where "xs = i # j # js"
proof -
  from assms obtain i ys where "xs = i # ys" "ys \<noteq> []" by (cases xs) auto
  then show thesis using that by (cases ys) auto
qed

lemma servo_clamp_le: "0 \<le> l \<Longrightarrow> \<bar>servo_clamp v l\<bar> \<le> l"
  by (auto simp: servo_clamp_def min_def max_def)

lemma norm2_le_sum: "norm2 a b \<le> \<bar>a\<bar> + \<bar>b\<bar>"
  using sqrt_sum_squares_le_sum_abs [of a b] by (simp add: norm2_def power2_eq_square)

lemma clamp_step:
  assumes "0 < k" "0 < dt" "k * dt \<le> 1" "0 < l"
  shows "\<bar>e - dt * servo_clamp (k * e) l\<bar> = \<bar>e\<bar> - dt * min (k * \<bar>e\<bar>) l"
proof -
  have le: "dt * min (k * \<bar>e\<bar>) l \<le> \<bar>e\<bar>"
  proof -
    have "dt * min (k * \<bar>e\<bar>) l \<le> dt * (k * \<bar>e\<bar>)" using assms(2) by simp
    also have "\<dots> = (k * dt) * \<bar>e\<bar>" by simp
    also have "\<dots> \<le> 1 * \<bar>e\<bar>" by (rule mult_right_mono [OF assms(3)]) simp
    finally show ?thesis by simp
  qed
  show ?thesis
  proof (cases "0 \<le> e")
    case True
    then have "0 \<le> k * e" using assms(1) by simp
    then have "servo_clamp (k * e) l = min (k * e) l"
      using assms(4) by (auto simp: servo_clamp_def min_def max_def)
    with True le show ?thesis by (simp add: min.commute)
  next
    case False
    then have "k * e < 0" using assms(1) by (simp add: mult_pos_neg)
    then have "servo_clamp (k * e) l = - min (k * \<bar>e\<bar>) l"
      using assms(4) False by (simp add: servo_clamp_def min_def max_def)
    with False le show ?thesis by simp
  qed
qed

lemma align_progress:
  assumes "0 < k" "0 < dt" "k * dt \<le> 1" "0 < l" "thr < norm2 a b" "0 \<le> thr"
  shows "\<bar>a - dt * servo_clamp (k * a) l\<bar> + \<bar>b - dt * servo_clamp (k * b) l\<bar>
          \<le> \<bar>a\<bar> + \<bar>b\<bar> - dt * min (k * (thr / 2)) l"
proof -
  have nn: "0 \<le> dt * min (k * \<bar>x\<bar>) l" for x using assms by simp
  have big: "dt * min (k * (thr / 2)) l \<le> dt * min (k * \<bar>x\<bar>) l" if "thr / 2 \<le> \<bar>x\<bar>" for x
    using assms that by (simp add: min.coboundedI1 min.coboundedI2 mult_left_mono)
  have "thr / 2 \<le> \<bar>a\<bar> \<or> thr / 2 \<le> \<bar>b\<bar>"
    using norm2_le_sum [of a b] assms(5) by linarith
  then have "dt * min (k * (thr / 2)) l \<le> dt * min (k * \<bar>a\<bar>) l + dt * min (k * \<bar>b\<bar>) l"
    using big [of a] big [of b] nn [of a] nn [of b] by linarith
  then show ?thesis by (simp add: clamp_step [OF assms(1-4)])
qed

section \<open>What a controller promises\<close>

locale servo =
  fixes tick :: "servo_config \<Rightarrow> 'p servo_in \<Rightarrow> servo_ctl \<Rightarrow> servo_ctl \<times> velocity_command"
    and fin :: "servo_ctl \<Rightarrow> bool"
    and align :: servo_state
    and valid :: "'p servo_in \<Rightarrow> bool"
    and err :: "'p servo_in \<Rightarrow> real \<times> real"
    and thr :: "servo_config \<Rightarrow> real"
    and drive :: "real \<Rightarrow> real \<Rightarrow> velocity_command"
    and off :: "velocity_command \<Rightarrow> real"
  assumes align_new: "align \<noteq> DETECT" "align \<noteq> DONE" "align \<noteq> ERROR"
    and fin_iff: "fin c \<longleftrightarrow> sv_state c = DONE \<or> sv_state c = ERROR"
    and drive_laws: "vc_stop (drive a b) = False" "off (drive a b) = 0" "off stop_command = 0"
      "within_limit l (drive a b) \<longleftrightarrow> \<bar>a\<bar> \<le> l \<and> \<bar>b\<bar> \<le> l"
    and err_moved: "si_target j = si_target i \<Longrightarrow> si_ee j = moved dt (drive a b) (si_ee i) \<Longrightarrow>
      err j = (fst (err i) - dt * a, snd (err i) - dt * b)"
    and err_still: "si_target j = si_target i \<Longrightarrow> si_ee j = moved dt stop_command (si_ee i) \<Longrightarrow>
      err j = err i"
    and tick_frozen: "si_estop i \<or> sc_timeout cfg < si_now i - sv_start c \<Longrightarrow>
      tick cfg i c = (c\<lparr>sv_state := ERROR\<rparr>, stop_command)"
    and tick_detect: "\<not> si_estop i \<Longrightarrow> si_now i - sv_start c \<le> sc_timeout cfg \<Longrightarrow>
      sv_state c = DETECT \<Longrightarrow> tick cfg i c =
        (let n = (if valid i then sv_stable c + 1 else 0)
         in (c\<lparr>sv_stable := n, sv_state := if sc_stable_frames cfg \<le> n then align else DETECT\<rparr>,
             stop_command))"
    and tick_align: "\<not> si_estop i \<Longrightarrow> si_now i - sv_start c \<le> sc_timeout cfg \<Longrightarrow>
      sv_state c = align \<Longrightarrow> tick cfg i c =
        (if \<not> valid i then (c\<lparr>sv_state := DETECT, sv_stable := 0\<rparr>, stop_command)
         else if norm2 (fst (err i)) (snd (err i)) \<le> thr cfg
           then (c\<lparr>sv_state := DONE\<rparr>, stop_command)
         else (c, drive (servo_clamp (sc_kp cfg * fst (err i)) (sc_vel_limit cfg))
                        (servo_clamp (sc_kp cfg * snd (err i)) (sc_vel_limit cfg))))"
begin

abbreviation live :: "servo_config \<Rightarrow> 'p servo_in \<Rightarrow> servo_ctl \<Rightarrow> bool" where
  "live cfg i c \<equiv> \<not> si_estop i \<and> si_now i - sv_start c \<le> sc_timeout cfg"

abbreviation run where "run cfg \<equiv> servo_run (tick cfg) fin"

definition working :: "servo_ctl \<Rightarrow> bool" where
  "working c \<longleftrightarrow> sv_state c \<in> {DETECT, align, DONE, ERROR}"

lemma working_cases:
  assumes "working c" "\<not> fin c"
  obtains "sv_state c = DETECT" | "sv_state c = align"
  using assms by (auto simp: working_def fin_iff)

lemma tick_next:
  assumes "working c" "\<not> fin c"
  obtains st n where "fst (tick cfg i c) = c\<lparr>sv_state := st, sv_stable := n\<rparr>"
    "st \<in> {DETECT, align, DONE, ERROR}"
proof (cases "live cfg i c")
  case False
  then have "fst (tick cfg i c) = c\<lparr>sv_state := ERROR, sv_stable := sv_stable c\<rparr>"
    using tick_frozen [of i cfg c] by (auto simp: not_le)
  then show ?thesis using that by blast
next
  case True
  from assms show ?thesis
  proof (cases rule: working_cases)
    case 1
    with True show ?thesis
      by (intro that [of "sv_stable (fst (tick cfg i c))" "sv_state (fst (tick cfg i c))"])
        (auto simp: tick_detect Let_def)
  next
    case 2
    with True show ?thesis
      by (intro that [of "sv_stable (fst (tick cfg i c))" "sv_state (fst (tick cfg i c))"])
        (auto simp: tick_align)
  qed
qed

lemma tick_keeps:
  assumes "working c" "\<not> fin c"
  shows "working (fst (tick cfg i c))" "sv_start (fst (tick cfg i c)) = sv_start c"
proof -
  obtain st n where e: "fst (tick cfg i c) = c\<lparr>sv_state := st, sv_stable := n\<rparr>"
    and st: "st \<in> {DETECT, align, DONE, ERROR}"
    by (rule tick_next [OF assms])
  show "working (fst (tick cfg i c))" using st unfolding e working_def by simp
  show "sv_start (fst (tick cfg i c)) = sv_start c" unfolding e by simp
qed

lemma stop_flag [simp]: "vc_stop stop_command"
  by (simp add: stop_command_def)

lemma stop_within: "0 \<le> l \<Longrightarrow> within_limit l stop_command"
  by (simp add: within_limit_def stop_command_def)

lemma tick_command:
  assumes "working c" "\<not> fin c" "0 \<le> sc_vel_limit cfg"
  shows "within_limit (sc_vel_limit cfg) (snd (tick cfg i c)) \<and> off (snd (tick cfg i c)) = 0
    \<and> (\<not> vc_stop (snd (tick cfg i c)) \<longrightarrow>
         live cfg i c \<and> valid i \<and> thr cfg < norm2 (fst (err i)) (snd (err i)))
    \<and> (vc_stop (snd (tick cfg i c)) \<longrightarrow> snd (tick cfg i c) = stop_command)"
proof (cases "live cfg i c")
  case False
  then show ?thesis using assms(3) by (auto simp: tick_frozen not_le stop_within drive_laws)
next
  case True
  from assms(1,2) show ?thesis
  proof (cases rule: working_cases)
    case 1
    with True assms(3) show ?thesis
      by (simp add: tick_detect Let_def stop_within drive_laws)
  next
    case 2
    with True assms(3) show ?thesis
      by (simp add: tick_align stop_within drive_laws servo_clamp_le)
  qed
qed

lemma run_commands:
  assumes "working c" "0 \<le> sc_vel_limit cfg" "k < length (snd (run cfg is c))"
  shows "k < length is \<and> within_limit (sc_vel_limit cfg) (snd (run cfg is c) ! k)
    \<and> off (snd (run cfg is c) ! k) = 0
    \<and> (vc_stop (snd (run cfg is c) ! k) \<longrightarrow> snd (run cfg is c) ! k = stop_command)
    \<and> (\<not> vc_stop (snd (run cfg is c) ! k) \<longrightarrow>
         live cfg (is ! k) c \<and> valid (is ! k) \<and> thr cfg < norm2 (fst (err (is ! k))) (snd (err (is ! k))))"
  using assms(1,3)
proof (induction "is" arbitrary: c k)
  case (Cons i "is")
  show ?case
  proof (cases "fin c")
    case False
    note t = tick_keeps [OF Cons.prems(1) False, of cfg i]
    show ?thesis
    proof (cases k)
      case 0
      then show ?thesis using False tick_command [OF Cons.prems(1) False assms(2), of i]
        by (auto simp: split_beta)
    next
      case (Suc n)
      then show ?thesis using False Cons.prems(2) Cons.IH [OF t(1), of n] t(2)
        by (simp add: split_beta)
    qed
  next
    case True
    then show ?thesis using Cons.prems(2) by simp
  qed
qed simp

lemma run_start: "working c \<Longrightarrow> sv_start (fst (run cfg is c)) = sv_start c \<and> working (fst (run cfg is c))"
  by (induction "is" arbitrary: c) (auto simp: split_beta tick_keeps)

text \<open>A reading with the E-stop set, or after the deadline, ends the loop.\<close>

lemma run_ends:
  assumes "working c" "\<not> (\<forall>i\<in>set is. live cfg i c)"
  shows "fin (fst (run cfg is c))"
  using assms
proof (induction "is" arbitrary: c)
  case (Cons i "is")
  show ?case
  proof (cases "fin c")
    case False
    note t = tick_keeps [OF Cons.prems(1) False, of cfg i]
    show ?thesis
    proof (cases "live cfg i c")
      case True
      then show ?thesis using False Cons.prems(2) Cons.IH [OF t(1)] t(2) by (auto simp: split_beta)
    next
      case no: False
      then have e: "tick cfg i c = (c\<lparr>sv_state := ERROR\<rparr>, stop_command)"
        by (auto intro!: tick_frozen)
      have "fin (c\<lparr>sv_state := ERROR\<rparr>)" by (simp add: fin_iff)
      then have "servo_run (tick cfg) fin is (c\<lparr>sv_state := ERROR\<rparr>) = (c\<lparr>sv_state := ERROR\<rparr>, [])"
        by (cases "is") auto
      then show ?thesis using False e \<open>fin (c\<lparr>sv_state := ERROR\<rparr>)\<close> by simp
    qed
  qed simp
qed simp

end

text \<open>
  Alignment: \<open>streak\<close> is the number of valid frames at the end of a history. A controller that
  aligns has seen enough of them in a row, one that is done also a frame within the threshold.
\<close>

context servo begin

definition streak :: "'p servo_in list \<Rightarrow> nat" where
  "streak hs = length (takeWhile valid (rev hs))"

lemma streak_snoc [simp]: "streak (hs @ [i]) = (if valid i then Suc (streak hs) else 0)"
  by (simp add: streak_def)

lemma streak_nth:
  assumes "n \<le> streak hs"
  shows "n \<le> length hs \<and> (\<forall>j. length hs - n \<le> j \<and> j < length hs \<longrightarrow> valid (hs ! j))"
  using assms
proof (induction hs arbitrary: n rule: rev_induct)
  case (snoc i hs)
  show ?case
  proof (cases n)
    case (Suc m)
    with snoc.prems have "valid i" "m \<le> streak hs" by (auto split: if_splits)
    with snoc.IH [of m] Suc show ?thesis by (auto simp: nth_append less_Suc_eq)
  qed auto
qed (simp add: streak_def)

definition tracked :: "servo_config \<Rightarrow> servo_ctl \<Rightarrow> 'p servo_in list \<Rightarrow> bool" where
  "tracked cfg c hs \<longleftrightarrow> (sv_state c = DETECT \<longrightarrow> sv_stable c \<le> int (streak hs))
     \<and> (sv_state c = align \<longrightarrow> hs \<noteq> [] \<and> sc_stable_frames cfg \<le> int (streak hs))"

definition in_threshold :: "servo_config \<Rightarrow> 'p servo_in \<Rightarrow> bool" where
  "in_threshold cfg i \<longleftrightarrow> valid i \<and> norm2 (fst (err i)) (snd (err i)) \<le> thr cfg"

lemma tick_tracked:
  assumes "working c" "\<not> fin c" "tracked cfg c hs"
  shows "tracked cfg (fst (tick cfg i c)) (hs @ [i])
    \<and> (sv_state (fst (tick cfg i c)) = DONE \<longrightarrow>
         live cfg i c \<and> in_threshold cfg i \<and> hs \<noteq> [] \<and> sc_stable_frames cfg \<le> int (streak hs))"
proof (cases "live cfg i c")
  case False
  then show ?thesis using align_new by (auto simp: tick_frozen not_le tracked_def)
next
  case True
  from assms(1,2) show ?thesis
  proof (cases rule: working_cases)
    case 1
    with True assms(3) align_new show ?thesis
      by (auto simp: tick_detect Let_def tracked_def split: if_splits)
  next
    case 2
    with True assms(3) align_new show ?thesis
      by (simp add: tick_align tracked_def in_threshold_def)
  qed
qed

lemma run_done:
  assumes "working c" "\<not> fin c" "tracked cfg c hs" "sv_state (fst (run cfg is c)) = DONE"
  shows "\<exists>ms i rest. is = ms @ i # rest \<and> length (snd (run cfg is c)) = Suc (length ms)
    \<and> live cfg i c \<and> in_threshold cfg i \<and> hs @ ms \<noteq> []
    \<and> sc_stable_frames cfg \<le> int (streak (hs @ ms))"
  using assms
proof (induction "is" arbitrary: c hs)
  case Nil
  then show ?case by (simp add: fin_iff)
next
  case (Cons i "is")
  let ?c = "fst (tick cfg i c)"
  note t = tick_tracked [OF Cons.prems(1-3), of i]
  note k = tick_keeps [OF Cons.prems(1,2), of cfg i]
  have r: "fst (run cfg (i # is) c) = fst (run cfg is ?c)"
    "length (snd (run cfg (i # is) c)) = Suc (length (snd (run cfg is ?c)))"
    using Cons.prems(2) by (simp_all add: split_beta)
  show ?case
  proof (cases "fin ?c")
    case True
    then have "run cfg is ?c = (?c, [])" by (cases "is") auto
    with r Cons.prems(4) have "sv_state ?c = DONE" "length (snd (run cfg (i # is) c)) = Suc 0"
      by simp_all
    with t show ?thesis by (intro exI [of _ "[]"]) auto
  next
    case False
    from Cons.IH [OF k(1) False, of "hs @ [i]"] t Cons.prems(4) r obtain ms j rest where
      "is = ms @ j # rest" "length (snd (run cfg is ?c)) = Suc (length ms)" "live cfg j ?c"
      "in_threshold cfg j" "sc_stable_frames cfg \<le> int (streak (hs @ i # ms))"
      by auto
    then show ?thesis using k(2) r by (intro exI [of _ "i # ms"]) auto
  qed
qed

text \<open>From a fresh controller: the frame that ended the run, and the frames before it.\<close>

lemma done_after_alignment:
  assumes "sv_state c = DETECT" "sv_stable c = 0" "sv_state (fst (run cfg is c)) = DONE"
  shows "\<exists>k. Suc k = length (snd (run cfg is c)) \<and> k < length is \<and> 0 < k
    \<and> nat (sc_stable_frames cfg) \<le> k
    \<and> (\<forall>j. k - nat (sc_stable_frames cfg) \<le> j \<and> j \<le> k \<longrightarrow> valid (is ! j))
    \<and> norm2 (fst (err (is ! k))) (snd (err (is ! k))) \<le> thr cfg \<and> live cfg (is ! k) c"
proof -
  have "tracked cfg c []" "working c" "\<not> fin c"
    using assms(1,2) align_new by (simp_all add: tracked_def working_def fin_iff)
  from run_done [OF this(2,3,1) assms(3)] obtain ms i rest where
    r: "is = ms @ i # rest" "length (snd (run cfg is c)) = Suc (length ms)" "live cfg i c"
      "in_threshold cfg i" "ms \<noteq> []" "sc_stable_frames cfg \<le> int (streak ms)"
    by auto
  then have "nat (sc_stable_frames cfg) \<le> streak ms" by simp
  from streak_nth [OF this] r show ?thesis
    by (intro exI [of _ "length ms"]) (auto simp: in_threshold_def nth_append le_less)
qed

text \<open>
  Convergence: while the robot obeys the commands and the target stays visible, the sum of the
  two errors falls by at least \<open>dt * min (kp * thr / 2) limit\<close> with every tick of \<open>ALIGN\<close>.
\<close>

definition gains_ok :: "servo_config \<Rightarrow> real \<Rightarrow> bool" where
  "gains_ok cfg dt \<longleftrightarrow> 0 < sc_kp cfg \<and> 0 < dt \<and> sc_kp cfg * dt \<le> 1 \<and> 0 < sc_vel_limit cfg \<and> 0 < thr cfg"

definition decrement :: "servo_config \<Rightarrow> real \<Rightarrow> real" where
  "decrement cfg dt = dt * min (sc_kp cfg * (thr cfg / 2)) (sc_vel_limit cfg)"

definition total_err :: "'p servo_in \<Rightarrow> real" where
  "total_err i = \<bar>fst (err i)\<bar> + \<bar>snd (err i)\<bar>"

lemma run_Cons:
  "\<not> fin c \<Longrightarrow> fst (run cfg (i # is) c) = fst (run cfg is (fst (tick cfg i c)))"
  by (simp add: split_beta)

lemma align_converges:
  assumes "gains_ok cfg dt" "sv_state c = align" "\<forall>i\<in>set is. live cfg i c \<and> valid i"
    "obeyed dt (tick cfg) is c" "is \<noteq> []" "total_err (hd is) \<le> real n * decrement cfg dt"
    "n < length is"
  shows "sv_state (fst (run cfg is c)) = DONE"
  using assms(2-)
proof (induction n arbitrary: "is")
  case 0
  then obtain i js where i: "is = i # js" by (cases "is") auto
  then have "norm2 (fst (err i)) (snd (err i)) \<le> thr cfg"
    using 0 assms(1) norm2_le_sum [of "fst (err i)" "snd (err i)"]
    by (auto simp: total_err_def gains_ok_def)
  then have e: "tick cfg i c = (c\<lparr>sv_state := DONE\<rparr>, stop_command)"
    using 0 i by (simp add: tick_align)
  have "fin (c\<lparr>sv_state := DONE\<rparr>)" "\<not> fin c" using 0 align_new by (simp_all add: fin_iff)
  then show ?case using i e by (cases js) simp_all
next
  case (Suc n)
  obtain i j js where i: "is = i # j # js" by (rule two_readings [of "is"]) (use Suc.prems(6) in linarith)
  have nf: "\<not> fin c" using Suc.prems align_new by (simp add: fin_iff)
  show ?case
  proof (cases "norm2 (fst (err i)) (snd (err i)) \<le> thr cfg")
    case True
    then have e: "tick cfg i c = (c\<lparr>sv_state := DONE\<rparr>, stop_command)"
      using Suc.prems i by (simp add: tick_align)
    have "fin (c\<lparr>sv_state := DONE\<rparr>)" by (simp add: fin_iff)
    then show ?thesis using i e nf by simp
  next
    case False
    let ?a = "servo_clamp (sc_kp cfg * fst (err i)) (sc_vel_limit cfg)"
    let ?b = "servo_clamp (sc_kp cfg * snd (err i)) (sc_vel_limit cfg)"
    have e: "tick cfg i c = (c, drive ?a ?b)"
      using False Suc.prems i by (simp add: tick_align)
    have "err j = (fst (err i) - dt * ?a, snd (err i) - dt * ?b)"
      using Suc.prems(3) i e by (intro err_moved) simp_all
    moreover have "\<bar>fst (err i) - dt * ?a\<bar> + \<bar>snd (err i) - dt * ?b\<bar>
        \<le> \<bar>fst (err i)\<bar> + \<bar>snd (err i)\<bar> - dt * min (sc_kp cfg * (thr cfg / 2)) (sc_vel_limit cfg)"
      by (rule align_progress) (use assms(1) False in \<open>simp_all only: gains_ok_def not_le less_imp_le\<close>)
    ultimately have "total_err j \<le> total_err i - decrement cfg dt"
      by (simp only: total_err_def decrement_def fst_conv snd_conv)
    then have "total_err (hd (j # js)) \<le> real n * decrement cfg dt"
      using Suc.prems(5) i by (simp add: algebra_simps)
    then have "sv_state (fst (run cfg (j # js) c)) = DONE"
      using Suc.prems i e by (intro Suc.IH) simp_all
    then show ?thesis using i e nf by (simp add: split_beta)
  qed
qed

lemma detect_converges:
  assumes "gains_ok cfg dt" "sv_state c = DETECT" "\<forall>i\<in>set is. live cfg i c \<and> valid i"
    "obeyed dt (tick cfg) is c" "is \<noteq> []" "total_err (hd is) \<le> real n * decrement cfg dt"
    "sc_stable_frames cfg \<le> sv_stable c + int k" "Suc (k + n) < length is"
  shows "sv_state (fst (run cfg is c)) = DONE"
  using assms(2-)
proof (induction k arbitrary: "is" c)
  case 0
  obtain i j js where i: "is = i # j # js" by (rule two_readings [of "is"]) (use 0(7) in linarith)
  have nf: "\<not> fin c" using 0 by (simp add: fin_iff)
  let ?c = "c\<lparr>sv_stable := sv_stable c + 1, sv_state := align\<rparr>"
  have e: "tick cfg i c = (?c, stop_command)" using 0 i by (simp add: tick_detect)
  have same: "err j = err i" using 0 i e by (intro err_still) simp_all
  have "sv_state (fst (run cfg (j # js) ?c)) = DONE"
    using 0 i e same by (intro align_converges [OF assms(1), where n = n]) (simp_all add: total_err_def)
  then show ?case unfolding i run_Cons [OF nf] e fst_conv .
next
  case (Suc k)
  obtain i j js where i: "is = i # j # js" by (rule two_readings [of "is"]) (use Suc.prems(7) in linarith)
  have nf: "\<not> fin c" using Suc.prems by (simp add: fin_iff)
  let ?st = "if sc_stable_frames cfg \<le> sv_stable c + 1 then align else DETECT"
  let ?c = "c\<lparr>sv_stable := sv_stable c + 1, sv_state := ?st\<rparr>"
  have e: "tick cfg i c = (?c, stop_command)" using Suc.prems i by (simp add: tick_detect Let_def)
  have ob: "obeyed dt (tick cfg) (j # js) ?c" "si_target j = si_target i"
    "si_ee j = moved dt stop_command (si_ee i)"
    using Suc.prems(3) unfolding i obeyed.simps(1) e by simp_all
  have all: "\<forall>i\<in>set (j # js). live cfg i ?c \<and> valid i" using Suc.prems(2) unfolding i by simp
  have tot: "total_err (hd (j # js)) \<le> real n * decrement cfg dt"
    using Suc.prems(5) err_still [OF ob(2,3)] unfolding i by (simp add: total_err_def)
  have "sv_state (fst (run cfg (j # js) ?c)) = DONE"
  proof (cases "sc_stable_frames cfg \<le> sv_stable c + 1")
    case True
    show ?thesis
      by (rule align_converges [OF assms(1) _ all ob(1) _ tot]) (use True Suc.prems(7) i in simp_all)
  next
    case False
    show ?thesis
      by (rule Suc.IH [OF _ all ob(1) _ tot]) (use False Suc.prems(6,7) i in simp_all)
  qed
  then show ?case unfolding i run_Cons [OF nf] e fst_conv .
qed

end

section \<open>The two controllers\<close>

fun handle_err :: "handle_pose servo_in \<Rightarrow> real \<times> real" where
  "handle_err i = (hp_x (si_target i) - fst (si_ee i), hp_z (si_target i) - snd (snd (si_ee i)))"

fun tool_err :: "tool_pose servo_in \<Rightarrow> real \<times> real" where
  "tool_err i = (tp_x (si_target i) - fst (si_ee i), tp_y (si_target i) - fst (snd (si_ee i)))"

interpretation handle_servo: servo handle_tick handle_is_terminal ALIGN_XZ
  "\<lambda>i. hp_valid (si_target i)" handle_err sc_xz_thr "\<lambda>a b. velocity a 0 b" vc_y
proof
  fix i j :: "handle_pose servo_in" and dt a b
  assume "si_target j = si_target i"
  then show "si_ee j = moved dt (velocity a 0 b) (si_ee i) \<Longrightarrow>
      handle_err j = (fst (handle_err i) - dt * a, snd (handle_err i) - dt * b)"
    and "si_ee j = moved dt stop_command (si_ee i) \<Longrightarrow> handle_err j = handle_err i"
    by (cases "si_ee i"; simp add: velocity_def stop_command_def)+
qed (auto simp: handle_is_terminal_def velocity_def stop_command_def within_limit_def handle_tick_def
    handle_to_error_def handle_tick_detect_def handle_tick_align_def Let_def split_beta)

interpretation tool_servo: servo tool_tick tool_is_terminal ALIGN_XY
  "\<lambda>i. tp_valid (si_target i)" tool_err sc_xy_thr "\<lambda>a b. velocity a b 0" vc_z
proof
  fix i j :: "tool_pose servo_in" and dt a b
  assume "si_target j = si_target i"
  then show "si_ee j = moved dt (velocity a b 0) (si_ee i) \<Longrightarrow>
      tool_err j = (fst (tool_err i) - dt * a, snd (tool_err i) - dt * b)"
    and "si_ee j = moved dt stop_command (si_ee i) \<Longrightarrow> tool_err j = tool_err i"
    by (cases "si_ee i"; simp add: velocity_def stop_command_def)+
qed (auto simp: tool_is_terminal_def velocity_def stop_command_def within_limit_def tool_tick_def
    tool_to_error_def tool_tick_detect_def tool_tick_align_def Let_def split_beta)

text \<open>The loops of the callers, from a controller made at time \<open>now\<close>.\<close>

definition handle_run ::
  "servo_config \<Rightarrow> real \<Rightarrow> handle_pose servo_in list \<Rightarrow> servo_ctl \<times> velocity_command list" where
  "handle_run cfg now is = servo_run (handle_tick cfg) handle_is_terminal is (handle_servo_init now)"

definition tool_run ::
  "servo_config \<Rightarrow> real \<Rightarrow> tool_pose servo_in list \<Rightarrow> servo_ctl \<times> velocity_command list" where
  "tool_run cfg now is = servo_run (tool_tick cfg) tool_is_terminal is (tool_servo_init now)"

lemma init_facts [simp]:
  "sv_state (handle_servo_init now) = DETECT" "sv_stable (handle_servo_init now) = 0"
  "sv_start (handle_servo_init now) = now" "handle_servo.working (handle_servo_init now)"
  "sv_state (tool_servo_init now) = DETECT" "sv_stable (tool_servo_init now) = 0"
  "sv_start (tool_servo_init now) = now" "tool_servo.working (tool_servo_init now)"
  by (simp_all add: handle_servo_init_def tool_servo_init_def handle_servo.working_def
      tool_servo.working_def)

text \<open>
  C26: A visual-servoing loop never commands more than the configured velocity along any axis and
  never along the axis it must keep (y for a handle, z for a tool); it commands a movement only on
  a tick at which the E-stop is clear, the deadline has not passed, the target is visible and
  still farther away than the threshold; every other command is the stop command.
\<close>

theorem servo_commands_bounded:
  assumes "0 \<le> sc_vel_limit cfg"
  shows "(\<forall>k < length (snd (handle_run cfg now hs)). let v = snd (handle_run cfg now hs) ! k; i = hs ! k in
        within_limit (sc_vel_limit cfg) v \<and> vc_y v = 0
        \<and> (if vc_stop v then v = stop_command
           else \<not> si_estop i \<and> si_now i - now \<le> sc_timeout cfg \<and> hp_valid (si_target i)
             \<and> sc_xz_thr cfg < norm2 (fst (handle_err i)) (snd (handle_err i))))
    \<and> (\<forall>k < length (snd (tool_run cfg now ts)). let v = snd (tool_run cfg now ts) ! k; i = ts ! k in
        within_limit (sc_vel_limit cfg) v \<and> vc_z v = 0
        \<and> (if vc_stop v then v = stop_command
           else \<not> si_estop i \<and> si_now i - now \<le> sc_timeout cfg \<and> tp_valid (si_target i)
             \<and> sc_xy_thr cfg < norm2 (fst (tool_err i)) (snd (tool_err i))))"
proof (intro conjI allI impI)
  fix k assume "k < length (snd (handle_run cfg now hs))"
  from handle_servo.run_commands [OF _ assms this [unfolded handle_run_def]]
  show "let v = snd (handle_run cfg now hs) ! k; i = hs ! k in
        within_limit (sc_vel_limit cfg) v \<and> vc_y v = 0
        \<and> (if vc_stop v then v = stop_command
           else \<not> si_estop i \<and> si_now i - now \<le> sc_timeout cfg \<and> hp_valid (si_target i)
             \<and> sc_xz_thr cfg < norm2 (fst (handle_err i)) (snd (handle_err i)))"
    by (simp add: Let_def handle_run_def)
next
  fix k assume "k < length (snd (tool_run cfg now ts))"
  from tool_servo.run_commands [OF _ assms this [unfolded tool_run_def]]
  show "let v = snd (tool_run cfg now ts) ! k; i = ts ! k in
        within_limit (sc_vel_limit cfg) v \<and> vc_z v = 0
        \<and> (if vc_stop v then v = stop_command
           else \<not> si_estop i \<and> si_now i - now \<le> sc_timeout cfg \<and> tp_valid (si_target i)
             \<and> sc_xy_thr cfg < norm2 (fst (tool_err i)) (snd (tool_err i)))"
    by (simp add: Let_def tool_run_def)
qed

text \<open>
  A loop that ends in \<open>DONE\<close> ended on a frame whose target was visible and within the
  threshold, read with the E-stop clear and before the deadline, and the configured number of
  frames before it were all valid.
\<close>

theorem servo_done_is_aligned:
  assumes "sv_state (fst (tool_run cfg now is)) = DONE"
  shows "\<exists>k. Suc k = length (snd (tool_run cfg now is)) \<and> k < length is \<and> 0 < k
    \<and> nat (sc_stable_frames cfg) \<le> k
    \<and> (\<forall>j. k - nat (sc_stable_frames cfg) \<le> j \<and> j \<le> k \<longrightarrow> tp_valid (si_target (is ! j)))
    \<and> norm2 (fst (tool_err (is ! k))) (snd (tool_err (is ! k))) \<le> sc_xy_thr cfg
    \<and> \<not> si_estop (is ! k) \<and> si_now (is ! k) - now \<le> sc_timeout cfg"
  using tool_servo.done_after_alignment [of "tool_servo_init now" cfg "is"] assms
  by (simp add: tool_run_def)

text \<open>
  The loop ends: it is terminal as soon as one of its readings has the E-stop set or is later
  than the deadline, whatever the camera and the robot do.
\<close>

theorem servo_ends:
  assumes "\<exists>i\<in>set hs. si_estop i \<or> sc_timeout cfg < si_now i - now"
    and "\<exists>i\<in>set ts. si_estop i \<or> sc_timeout cfg < si_now i - now"
  shows "handle_is_terminal (fst (handle_run cfg now hs))
    \<and> tool_is_terminal (fst (tool_run cfg now ts))"
  using handle_servo.run_ends [of "handle_servo_init now" hs cfg]
    tool_servo.run_ends [of "tool_servo_init now" ts cfg] assms
  by (simp add: handle_run_def tool_run_def) (meson not_le)

text \<open>
  C27: The loop reaches the tool. If the target stays visible and still, the E-stop clear, the
  robot moves with the commanded velocity for \<open>dt\<close> seconds between ticks, and the gain is not too
  large for \<open>dt\<close>, then each tick of the alignment takes at least \<open>dt * min (kp * thr / 2) limit\<close>
  off the sum of the two errors, so the loop is \<open>DONE\<close> within the stable frames plus that many
  ticks, provided they fit before the deadline.
\<close>

theorem servo_converges:
  assumes "0 < sc_kp cfg" "0 < dt" "sc_kp cfg * dt \<le> 1" "0 < sc_vel_limit cfg" "0 < sc_xy_thr cfg"
    and "\<forall>i\<in>set (i0 # is). \<not> si_estop i \<and> si_now i - now \<le> sc_timeout cfg \<and> tp_valid (si_target i)"
    and "obeyed dt (tool_tick cfg) (i0 # is) (tool_servo_init now)"
    and "\<bar>fst (tool_err i0)\<bar> + \<bar>snd (tool_err i0)\<bar>
      \<le> real n * (dt * min (sc_kp cfg * (sc_xy_thr cfg / 2)) (sc_vel_limit cfg))"
    and "nat (sc_stable_frames cfg) + n < length is"
  shows "sv_state (fst (tool_run cfg now (i0 # is))) = DONE"
  unfolding tool_run_def
  by (rule tool_servo.detect_converges [where dt = dt and n = n and k = "nat (sc_stable_frames cfg)"])
    (use assms in \<open>simp_all add: tool_servo.gains_ok_def tool_servo.decrement_def tool_servo.total_err_def\<close>)

section \<open>Witnesses\<close>

definition seen_tool :: "bool \<Rightarrow> real \<Rightarrow> real \<Rightarrow> real \<Rightarrow> tool_pose servo_in" where
  "seen_tool estop now x ee = \<lparr>si_estop = estop, si_now = now,
     si_target = \<lparr>tp_x = x, tp_y = 0, tp_z = 0, tp_rz = 0, tp_valid = True\<rparr>, si_ee = (ee, 0, 0)\<rparr>"

definition seen_handle :: "bool \<Rightarrow> real \<Rightarrow> real \<Rightarrow> real \<Rightarrow> handle_pose servo_in" where
  "seen_handle estop now x ee = \<lparr>si_estop = estop, si_now = now,
     si_target = \<lparr>hp_x = x, hp_z = 0, hp_valid = True\<rparr>, si_ee = (ee, 0, 0)\<rparr>"

definition quick_config :: servo_config where
  "quick_config = default_servo_config\<lparr>sc_kp := 10, sc_stable_frames := 1\<rparr>"

lemma norm2_0 [simp]: "norm2 a 0 = \<bar>a\<bar>"
  by (simp add: norm2_def)

lemmas tool_eval = tool_run_def tool_servo_init_def tool_is_terminal_def tool_tick_def
  tool_tick_detect_def tool_tick_align_def tool_to_error_def seen_tool_def quick_config_def
  default_servo_config_def servo_clamp_def velocity_def stop_command_def

lemmas handle_eval = handle_run_def handle_servo_init_def handle_is_terminal_def handle_tick_def
  handle_tick_detect_def handle_tick_align_def handle_to_error_def seen_handle_def quick_config_def
  default_servo_config_def servo_clamp_def velocity_def stop_command_def

lemma servo_commands_bounded_witness:
  "snd (handle_run quick_config 0 [seen_handle False 0 5 0, seen_handle False 1 5 0])
     = [stop_command, velocity 20 0 0]
   \<and> snd (tool_run quick_config 0 [seen_tool False 0 (- 5) 0, seen_tool False 1 (- 5) 0])
     = [stop_command, velocity (- 20) 0 0]
   \<and> within_limit 20 (velocity 20 0 0) \<and> within_limit 20 (velocity (- 20) 0 0)"
proof -
  let ?hs = "[seen_handle False 0 5 0, seen_handle False 1 5 0]"
  let ?ts = "[seen_tool False 0 (- 5) 0, seen_tool False 1 (- 5) 0]"
  have h: "snd (handle_run quick_config 0 ?hs) = [stop_command, velocity 20 0 0]"
    by (simp add: handle_eval)
  have t: "snd (tool_run quick_config 0 ?ts) = [stop_command, velocity (- 20) 0 0]"
    by (simp add: tool_eval)
  have l: "sc_vel_limit quick_config = 20" by (simp add: quick_config_def default_servo_config_def)
  from servo_commands_bounded [of quick_config 0 ?hs ?ts]
  show ?thesis unfolding h t l by (simp add: Let_def numeral_2_eq_2 less_Suc_eq all_conj_distrib)
qed

lemma servo_done_is_aligned_witness:
  "\<exists>k. Suc k = length (snd (tool_run quick_config 0 [seen_tool False 0 2 0, seen_tool False 1 2 0]))
     \<and> norm2 (fst (tool_err ([seen_tool False 0 2 0, seen_tool False 1 2 0] ! k)))
             (snd (tool_err ([seen_tool False 0 2 0, seen_tool False 1 2 0] ! k))) \<le> 3"
proof -
  let ?ts = "[seen_tool False 0 2 0, seen_tool False 1 2 0]"
  have t: "sv_state (fst (tool_run quick_config 0 ?ts)) = DONE" by (simp add: tool_eval)
  have l: "sc_xy_thr quick_config = 3" by (simp add: quick_config_def default_servo_config_def)
  from servo_done_is_aligned [OF t] show ?thesis unfolding l by blast
qed

lemma servo_ends_witness:
  "sv_state (fst (handle_run quick_config 0 [seen_handle False 0 5 0, seen_handle True 1 5 0])) = ERROR
   \<and> handle_is_terminal (fst (handle_run quick_config 0 [seen_handle False 0 5 0, seen_handle True 1 5 0]))
   \<and> tool_is_terminal (fst (tool_run quick_config 0 [seen_tool False 0 5 0, seen_tool False 16 5 0]))"
  using servo_ends [of "[seen_handle False 0 5 0, seen_handle True 1 5 0]" quick_config 0
      "[seen_tool False 0 5 0, seen_tool False 16 5 0]"]
  by (simp add: seen_handle_def seen_tool_def quick_config_def default_servo_config_def)
    (simp add: handle_eval)

lemma servo_converges_witness:
  "sv_state (fst (tool_run quick_config 0 (seen_tool False 0 4 0 #
     [seen_tool False 0 4 0, seen_tool False 1 4 2, seen_tool False 1 4 2, seen_tool False 1 4 2,
      seen_tool False 1 4 2]))) = DONE"
proof (rule servo_converges [where dt = "1 / 10" and n = 3])
  show "obeyed (1 / 10) (tool_tick quick_config) (seen_tool False 0 4 0 #
     [seen_tool False 0 4 0, seen_tool False 1 4 2, seen_tool False 1 4 2, seen_tool False 1 4 2,
      seen_tool False 1 4 2]) (tool_servo_init 0)"
    by (simp add: tool_eval)
qed (simp_all add: tool_eval)

end
