(* ===== verification/ToolActionServer.thy ===== *)
theory ToolActionServer imports Effects ToolboxMotion Servo begin

text \<open>
  \<open>ros2_ws/src/motion/motion/tool_action_server.py\<close>: the action server that runs the motion
  sequences. The executor is multi-threaded: while a handler runs, the E-stop services, cancel
  requests, subscriptions and other goals are served by other threads. The model makes this
  explicit: the handler is one operation, and at every point where it reads shared flags, sleeps
  or waits for a reply, the events that have arrived are delivered (\<open>observe\<close>). The environment
  \<open>tas_env\<close> chooses them, the replies of the robot and the gripper, the readiness of the optional
  services, and how long a sleep overshoots. Every message published and every request sent is
  appended to \<open>ts_outs\<close>, in order.

  The rotation library is outside the source: \<open>en_yaw\<close> and \<open>en_rot\<close> are the yaw of
  \<open>Rotation.as_euler\<close> and the entries of \<open>Rotation.as_matrix\<close>, or the exception of
  \<open>Rotation.from_quat\<close>. Messages shown to the operator are constructors of \<open>tas_msg\<close>.
\<close>

section \<open>Messages\<close>

type_synonym quat = "real \<times> real \<times> real \<times> real"

text \<open>\<open>PoseStamped\<close>: position in metres and orientation \<open>(x, y, z, w)\<close>.\<close>

record pose_msg =
  pm_x :: real
  pm_y :: real
  pm_z :: real
  pm_quat :: quat

record move_line_req =
  lr_pos :: "real list"
  lr_vel :: "real list"
  lr_acc :: "real list"
  lr_time :: real
  lr_radius :: real
  lr_ref :: int
  lr_mode :: int
  lr_blend_type :: int
  lr_sync_type :: int

record move_joint_req =
  jr_pos :: "real list"
  jr_vel :: real
  jr_acc :: real
  jr_time :: real
  jr_radius :: real
  jr_mode :: int
  jr_blend_type :: int
  jr_sync_type :: int

record gripper_req =
  gr_position :: int
  gr_current :: int
  gr_timeout_sec :: real

datatype tas_msg = Busy | Latched | Finished string | Failed string | Cancelled | Exc string | ResetDone

datatype tas_out =
    RobotMoving bool
  | PlcState string
  | Feedback nat string real
  | GoalSucceed nat
  | GoalAbort nat
  | GoalCanceled nat
  | GoalRejected nat
  | TriggerAnswer bool tas_msg
  | MoveLineReq move_line_req
  | MoveJointReq move_joint_req
  | GripReq gripper_req
  | MoveStopReq
  | CreateTcpReq
  | SetTcpReq
  | LogEventReq string string string string

record action_result =
  ar_success :: bool
  ar_message :: tas_msg

text \<open>What other threads do while a handler runs.\<close>

datatype tas_event =
    EvEstop
  | EvEstopReset
  | EvCancel nat
  | EvGoal nat
  | EvTrigger
  | EvToolPose pose_msg
  | EvHandPose pose_msg
  | EvHandReady bool
  | EvJointStates "real list"

text \<open>
  The fate of a request: the call raises; it is sent and no reply comes in time; the future
  raises; or it yields a result, \<open>None\<close> or a success flag with a message.
\<close>

datatype reply = CallRaises string | NoReply | ResultRaises string | Replied "(bool \<times> string) option"

datatype service = CreateTcp | SetTcp | MoveStop | LogEvent

datatype readiness = Ready | NotReady | ReadyRaises string

section \<open>Configuration\<close>

record tool_entry =
  te_tool_id :: "string option"
  te_handover_type :: "string option"
  te_length :: "real option"
  te_grasp_z_mm :: "real option"

record vision_motion_cfg =
  vm_tool_approach_z_mm :: "real option"
  vm_tool_approach_ori :: "real list option"
  vm_limit_x :: "real list option"
  vm_limit_y :: "real list option"
  vm_limit_z :: "real list option"

record tas_cfg =
  tc_handover :: "(string \<times> real) list"
  tc_tools :: "tool_entry list"
  tc_approach_z :: real
  tc_approach_ori :: "real list"
  tc_x :: "real \<times> real"
  tc_y :: "real \<times> real"
  tc_z :: "real \<times> real"
  tc_grasp_z :: "(string \<times> real) list"

text \<open>\<open>float((lim.get(axis) or default)[0])\<close> and \<open>[1]\<close>; an empty list is falsy.\<close>

definition axis_limits :: "real list option \<Rightarrow> real \<times> real \<Rightarrow> (string, real \<times> real) result" where
  "axis_limits v d =
     (case v of
        Some [lo] \<Rightarrow> Inl ''list index out of range''
      | Some (lo # hi # _) \<Rightarrow> Inr (lo, hi)
      | _ \<Rightarrow> Inr d)"

text \<open>
  The dictionary of the tools that have \<open>grasp_z_mm\<close>; among entries with one \<open>tool_id\<close> the last wins.
\<close>

fun grasp_z_entries :: "tool_entry list \<Rightarrow> (string, (string \<times> real) list) result" where
  "grasp_z_entries [] = Inr []"
| "grasp_z_entries (t # ts) =
     (case te_grasp_z_mm t of
        None \<Rightarrow> grasp_z_entries ts
      | Some z \<Rightarrow>
          (case te_tool_id t of
             None \<Rightarrow> Inl ''tool_id''
           | Some i \<Rightarrow> map_sum id (\<lambda>d. (if i \<in> fst ` set d then d else (i, z) # d)) (grasp_z_entries ts)))"

definition load_cfg ::
  "(string \<times> real) list \<Rightarrow> tool_entry list \<Rightarrow> vision_motion_cfg \<Rightarrow> (string, tas_cfg) result" where
  "load_cfg h tools vm =
     (case axis_limits (vm_limit_x vm) (50.0, 800.0) of Inl e \<Rightarrow> Inl e | Inr x \<Rightarrow>
     (case axis_limits (vm_limit_y vm) (-600.0, 600.0) of Inl e \<Rightarrow> Inl e | Inr y \<Rightarrow>
     (case axis_limits (vm_limit_z vm) (-31.0, 700.0) of Inl e \<Rightarrow> Inl e | Inr z \<Rightarrow>
     (case grasp_z_entries tools of Inl e \<Rightarrow> Inl e | Inr d \<Rightarrow>
      Inr \<lparr>tc_handover = h, tc_tools = tools,
           tc_approach_z = (case vm_tool_approach_z_mm vm of None \<Rightarrow> 234.0 | Some v \<Rightarrow> v),
           tc_approach_ori = (case vm_tool_approach_ori vm of None \<Rightarrow> [180.0, 180.0, 90.0] | Some v \<Rightarrow> v),
           tc_x = x, tc_y = y, tc_z = z, tc_grasp_z = d\<rparr>))))"

definition h_get :: "tas_cfg \<Rightarrow> string \<Rightarrow> real \<Rightarrow> real" where
  "h_get c key d = (case map_of (tc_handover c) key of None \<Rightarrow> d | Some v \<Rightarrow> v)"

section \<open>State and environment\<close>

record tas =
  ts_estop :: bool
  ts_busy :: bool
  ts_hand :: "pose_msg option"
  ts_hand_ready :: bool
  ts_tool_id :: string
  ts_approach :: "real list option"
  ts_goal :: "nat option"
  ts_joint_vel :: "real list"
  ts_gripper :: tool_pose
  ts_grip_taken :: bool
  ts_cancels :: "nat list"
  ts_outs :: "tas_out list"
  ts_now :: real
  ts_tick :: nat

record tas_env =
  en_cfg :: tas_cfg
  en_events :: "nat \<Rightarrow> tas_event list"
  en_reply :: "nat \<Rightarrow> reply"
  en_ready :: "nat \<Rightarrow> service \<Rightarrow> readiness"
  en_lag :: "nat \<Rightarrow> real"
  en_yaw :: "quat \<Rightarrow> (string, real) result"
  en_rot :: "quat \<Rightarrow> (string, nat \<Rightarrow> nat \<Rightarrow> real) result"

type_synonym 'a tas_op = "(tas, string, 'a) op"

definition no_tool_pose :: tool_pose where
  "no_tool_pose = \<lparr>tp_x = 0, tp_y = 0, tp_z = 0, tp_rz = 0, tp_valid = False\<rparr>"

definition tas_init :: "real \<Rightarrow> tas" where
  "tas_init t =
     \<lparr>ts_estop = False, ts_busy = False, ts_hand = None, ts_hand_ready = False, ts_tool_id = [],
      ts_approach = None, ts_goal = None, ts_joint_vel = [], ts_gripper = no_tool_pose,
      ts_grip_taken = False, ts_cancels = [], ts_outs = [RobotMoving False], ts_now = t, ts_tick = 0\<rparr>"

text \<open>The constructor waits for the three services it cannot do without.\<close>

definition tas_start ::
  "(string \<times> bool) list \<Rightarrow> (string \<times> real) list \<Rightarrow> tool_entry list \<Rightarrow> vision_motion_cfg \<Rightarrow> real \<Rightarrow>
   (string, tas_cfg \<times> tas) result" where
  "tas_start services h tools vm t =
     (case List.find (\<lambda>sv. \<not> snd sv) services of
        Some sv \<Rightarrow> Inl (fst sv)
      | None \<Rightarrow> map_sum id (\<lambda>c. (c, tas_init t)) (load_cfg h tools vm))"

definition emit :: "tas_out \<Rightarrow> unit tas_op" where
  "emit x = modify_op (\<lambda>s. s\<lparr>ts_outs := ts_outs s @ [x]\<rparr>)"

definition publish_status :: "bool \<Rightarrow> unit tas_op" where
  "publish_status is_moving = emit (RobotMoving is_moving)"

definition set_plc :: "string \<Rightarrow> unit tas_op" where
  "set_plc state = emit (PlcState state)"

definition service_ready :: "tas_env \<Rightarrow> service \<Rightarrow> bool tas_op" where
  "service_ready env sv =
     bind_op (gets_op (\<lambda>s. en_ready env (ts_tick s) sv)) (\<lambda>r.
     case r of Ready \<Rightarrow> ret_op True | NotReady \<Rightarrow> ret_op False | ReadyRaises e \<Rightarrow> fail_op e)"

definition log_event_async :: "tas_env \<Rightarrow> string \<Rightarrow> string \<Rightarrow> unit tas_op" where
  "log_event_async env event_type nts =
     catch_op
       (bind_op (service_ready env LogEvent) (\<lambda>up.
        if \<not> up then ret_op () else emit (LogEventReq [] event_type ''A'' nts)))
       (\<lambda>exc. ret_op ())"

section \<open>What other threads do\<close>

definition on_estop :: "tas_env \<Rightarrow> action_result tas_op" where
  "on_estop env =
     seq_op (modify_op (\<lambda>s. s\<lparr>ts_estop := True\<rparr>))
    (seq_op (publish_status False)
    (seq_op (set_plc ''e_stop'')
    (seq_op
       (catch_op
         (bind_op (service_ready env MoveStop) (\<lambda>up. if up then emit MoveStopReq else ret_op ()))
         (\<lambda>exc. ret_op ()))
    (seq_op (log_event_async env ''e_stop'' ''E-stop button'')
    (ret_op \<lparr>ar_success = True, ar_message = Latched\<rparr>)))))"

definition on_estop_reset :: "tas_env \<Rightarrow> action_result tas_op" where
  "on_estop_reset env =
     bind_op (gets_op ts_grip_taken) (\<lambda>grip_was_taken.
     seq_op (modify_op (\<lambda>s. s\<lparr>ts_estop := False\<rparr>))
    (seq_op (modify_op (\<lambda>s. s\<lparr>ts_grip_taken := False\<rparr>))
    (seq_op
       (if grip_was_taken then set_plc ''error''
        else seq_op (set_plc ''idle'') (publish_status False))
    (seq_op (log_event_async env ''e_stop_reset'' ''operator released the E-stop latch'')
    (ret_op \<lparr>ar_success = True, ar_message = ResetDone\<rparr>)))))"

text \<open>\<open>math.atan2\<close> and \<open>math.degrees\<close>.\<close>

definition py_atan2 :: "real \<Rightarrow> real \<Rightarrow> real" where
  "py_atan2 y x =
     (if x > 0 then arctan (y / x)
      else if x < 0 then (if y \<ge> 0 then arctan (y / x) + pi else arctan (y / x) - pi)
      else if y > 0 then pi / 2 else if y < 0 then - pi / 2 else 0)"

definition py_degrees :: "real \<Rightarrow> real" where
  "py_degrees a = a * 180 / pi"

definition on_tool_gripper_pose :: "pose_msg \<Rightarrow> tas \<Rightarrow> tas" where
  "on_tool_gripper_pose m s =
     (case pm_quat m of (qx, qy, qz, qw) \<Rightarrow>
      let siny_cosp = 2.0 * (qw * qz + qx * qy);
          cosy_cosp = 1.0 - 2.0 * (qy * qy + qz * qz);
          pca_theta = py_degrees (py_atan2 siny_cosp cosy_cosp);
          rz = pca_theta - 90.0;
          rz = (if rz < -180.0 then rz + 360.0 else rz)
      in s\<lparr>ts_gripper := \<lparr>tp_x = pm_x m * 1000.0, tp_y = pm_y m * 1000.0, tp_z = pm_z m * 1000.0,
                         tp_rz = rz, tp_valid = True\<rparr>\<rparr>)"

definition on_hand_pose :: "pose_msg \<Rightarrow> tas \<Rightarrow> tas" where
  "on_hand_pose m s = s\<lparr>ts_hand := Some m\<rparr>"

definition on_hand_ready :: "bool \<Rightarrow> tas \<Rightarrow> tas" where
  "on_hand_ready b s = s\<lparr>ts_hand_ready := b\<rparr>"

definition on_joint_states :: "real list \<Rightarrow> tas \<Rightarrow> tas" where
  "on_joint_states v s = s\<lparr>ts_joint_vel := v\<rparr>"

definition goal_callback :: "tas \<Rightarrow> bool" where
  "goal_callback s = (\<not> ts_estop s)"

text \<open>The answer to a goal that finds the action lock taken, and to a service call that does.\<close>

definition busy_goal :: "nat \<Rightarrow> action_result tas_op" where
  "busy_goal g = seq_op (emit (GoalAbort g)) (ret_op \<lparr>ar_success = False, ar_message = Busy\<rparr>)"

text \<open>
  An event delivered while a handler holds the action lock: a further goal is rejected under the
  latch and aborted otherwise, a further service call is refused.
\<close>

definition on_event :: "tas_env \<Rightarrow> tas_event \<Rightarrow> tas \<Rightarrow> tas" where
  "on_event env ev s =
     (case ev of
        EvEstop \<Rightarrow> snd (on_estop env s)
      | EvEstopReset \<Rightarrow> snd (on_estop_reset env s)
      | EvCancel g \<Rightarrow> s\<lparr>ts_cancels := g # ts_cancels s\<rparr>
      | EvGoal g \<Rightarrow> if goal_callback s then snd (busy_goal g s) else s\<lparr>ts_outs := ts_outs s @ [GoalRejected g]\<rparr>
      | EvTrigger \<Rightarrow> s\<lparr>ts_outs := ts_outs s @ [TriggerAnswer False (if ts_estop s then Latched else Busy)]\<rparr>
      | EvToolPose m \<Rightarrow> on_tool_gripper_pose m s
      | EvHandPose m \<Rightarrow> on_hand_pose m s
      | EvHandReady b \<Rightarrow> on_hand_ready b s
      | EvJointStates v \<Rightarrow> on_joint_states v s)"

definition observe :: "tas_env \<Rightarrow> unit tas_op" where
  "observe env =
     modify_op (\<lambda>s. fold (on_event env) (en_events env (ts_tick s)) (s\<lparr>ts_tick := Suc (ts_tick s)\<rparr>))"

definition read_flag :: "tas_env \<Rightarrow> (tas \<Rightarrow> 'a) \<Rightarrow> 'a tas_op" where
  "read_flag env f = seq_op (observe env) (gets_op f)"

text \<open>\<open>time.sleep(d)\<close> takes at least \<open>d\<close>; events arrive meanwhile.\<close>

definition py_sleep :: "tas_env \<Rightarrow> real \<Rightarrow> unit tas_op" where
  "py_sleep env d =
     (if d < 0 then fail_op ''sleep length must be non-negative''
      else seq_op
        (modify_op (\<lambda>s. s\<lparr>ts_now := ts_now s + d + max 0 (en_lag env (ts_tick s))\<rparr>))
        (observe env))"

text \<open>
  \<open>while time.monotonic() < deadline: body; time.sleep(period)\<close>. The body leaves the loop with
  \<open>Some\<close>; the loop ends with \<open>None\<close> once the deadline has passed. Every round sleeps for \<open>period\<close>,
  so the rounds before the deadline are at most \<open>poll_rounds timeout period\<close>
  (\<open>poll_until_enough\<close>).
\<close>

primrec poll_until ::
  "nat \<Rightarrow> tas_env \<Rightarrow> real \<Rightarrow> real \<Rightarrow> 'a option tas_op \<Rightarrow> 'a option tas_op" where
  "poll_until 0 env deadline period body = ret_op None"
| "poll_until (Suc n) env deadline period body =
     bind_op (gets_op ts_now) (\<lambda>now.
     if now < deadline
     then bind_op body (\<lambda>r.
       case r of
         Some v \<Rightarrow> ret_op (Some v)
       | None \<Rightarrow> seq_op (py_sleep env period) (poll_until n env deadline period body))
     else ret_op None)"

definition poll_rounds :: "real \<Rightarrow> real \<Rightarrow> nat" where
  "poll_rounds timeout period = nat \<lceil>timeout / period\<rceil>"

section \<open>Requests to the robot and the gripper\<close>

text \<open>
  \<open>call_async\<close> followed by \<open>_wait_future\<close> and \<open>result()\<close>: \<open>None\<close> is the time-out. Events arrive
  before the request is sent and while its reply is awaited.
\<close>

definition call_and_wait :: "tas_env \<Rightarrow> tas_out \<Rightarrow> (bool \<times> string) option option tas_op" where
  "call_and_wait env x =
     seq_op (observe env)
    (bind_op (gets_op (\<lambda>s. en_reply env (ts_tick s))) (\<lambda>r.
     case r of
       CallRaises e \<Rightarrow> fail_op e
     | NoReply \<Rightarrow> seq_op (emit x) (seq_op (observe env) (ret_op None))
     | ResultRaises e \<Rightarrow> seq_op (emit x) (seq_op (observe env) (fail_op e))
     | Replied res \<Rightarrow> seq_op (emit x) (seq_op (observe env) (ret_op (Some res)))))"

text \<open>\<open>bool(res and res.success)\<close>\<close>

definition res_ok :: "(bool \<times> string) option \<Rightarrow> bool" where
  "res_ok res = (case res of None \<Rightarrow> False | Some (ok, _) \<Rightarrow> ok)"

text \<open>\<open>x or d\<close> for a number: \<open>None\<close> and zero are falsy.\<close>

definition or_num :: "real option \<Rightarrow> real \<Rightarrow> real" where
  "or_num x d = (case x of None \<Rightarrow> d | Some v \<Rightarrow> if v = 0 then d else v)"

definition DR_MV_MOD_ABS :: int where
  "DR_MV_MOD_ABS = 0"

definition DR_MV_MOD_REL :: int where
  "DR_MV_MOD_REL = 1"

definition line_req :: "real list \<Rightarrow> real list \<Rightarrow> real list \<Rightarrow> int \<Rightarrow> int \<Rightarrow> move_line_req" where
  "line_req pos v a mode sync =
     \<lparr>lr_pos = pos, lr_vel = v, lr_acc = a, lr_time = 0.0, lr_radius = 0.0, lr_ref = 0,
      lr_mode = mode, lr_blend_type = 0, lr_sync_type = sync\<rparr>"

definition movel_req :: "motion_step \<Rightarrow> real list \<Rightarrow> int \<Rightarrow> move_line_req" where
  "movel_req st p mode =
     line_req p [or_num (vel st) VEL_L, VEL_R] [or_num (acc st) ACC_L, ACC_R] mode 0"

definition movel :: "tas_env \<Rightarrow> motion_step \<Rightarrow> int \<Rightarrow> bool tas_op" where
  "movel env st mode =
     (case pose st of
        None \<Rightarrow> fail_op '''NoneType' object is not iterable''
      | Some p \<Rightarrow>
          bind_op (call_and_wait env (MoveLineReq (movel_req st p mode))) (\<lambda>a.
          case a of
            None \<Rightarrow> ret_op False
          | Some res \<Rightarrow> seq_op (py_sleep env 0.2) (ret_op (res_ok res))))"

definition movej_req :: "motion_step \<Rightarrow> real list \<Rightarrow> move_joint_req" where
  "movej_req st p =
     \<lparr>jr_pos = p, jr_vel = or_num (vel st) 12.0, jr_acc = or_num (acc st) 20.0, jr_time = 0.0,
      jr_radius = 0.0, jr_mode = DR_MV_MOD_ABS, jr_blend_type = 0, jr_sync_type = 0\<rparr>"

definition movej :: "tas_env \<Rightarrow> motion_step \<Rightarrow> bool tas_op" where
  "movej env st =
     (case pose st of
        None \<Rightarrow> fail_op '''NoneType' object is not iterable''
      | Some p \<Rightarrow>
          bind_op (call_and_wait env (MoveJointReq (movej_req st p))) (\<lambda>a.
          case a of
            None \<Rightarrow> ret_op False
          | Some res \<Rightarrow> seq_op (py_sleep env 0.2) (ret_op (res_ok res))))"

definition GRIP_CURRENT :: int where
  "GRIP_CURRENT = 400"

definition grip_req :: "motion_step \<Rightarrow> gripper_req" where
  "grip_req st =
     (let p = (case pulse st of None \<Rightarrow> 0 | Some p \<Rightarrow> p)
      in \<lparr>gr_position = p, gr_current = (if p \<ge> PULSE_RELEASE then GRIP_CURRENT else 0),
          gr_timeout_sec = 0.0\<rparr>)"

definition do_grip :: "tas_env \<Rightarrow> motion_step \<Rightarrow> bool tas_op" where
  "do_grip env st =
     bind_op (call_and_wait env (GripReq (grip_req st))) (\<lambda>a.
     case a of
       None \<Rightarrow> ret_op False
     | Some res \<Rightarrow>
         if \<not> res_ok res then ret_op False
         else seq_op (py_sleep env 0.1) (ret_op True))"

definition TCP_SETTLE :: real where
  "TCP_SETTLE = 0.3"

definition set_tcp :: "tas_env \<Rightarrow> unit tas_op" where
  "set_tcp env =
     catch_op
       (seq_op (bind_op (service_ready env CreateTcp) (\<lambda>up. if up then emit CreateTcpReq else ret_op ()))
       (seq_op (bind_op (service_ready env SetTcp) (\<lambda>up. if up then emit SetTcpReq else ret_op ()))
       (py_sleep env TCP_SETTLE)))
       (\<lambda>exc. ret_op ())"

section \<open>Waiting for the arm to stop\<close>

definition peak :: "real list \<Rightarrow> real" where
  "peak vels = foldr (\<lambda>v m. max \<bar>v\<bar> m) vels 0"

definition saw_motion :: "tas_env \<Rightarrow> real \<Rightarrow> bool option tas_op" where
  "saw_motion env moving_thresh =
     bind_op (read_flag env ts_estop) (\<lambda>latched.
     if latched then ret_op (Some False)
     else bind_op (read_flag env ts_joint_vel) (\<lambda>vels.
       if vels \<noteq> [] \<and> peak vels > moving_thresh then ret_op (Some True) else ret_op None))"

definition saw_still :: "tas_env \<Rightarrow> real \<Rightarrow> bool option tas_op" where
  "saw_still env still_thresh =
     bind_op (read_flag env ts_estop) (\<lambda>latched.
     if latched then ret_op (Some False)
     else bind_op (read_flag env ts_joint_vel) (\<lambda>vels.
       if vels \<noteq> [] \<and> peak vels < still_thresh then ret_op (Some True) else ret_op None))"

definition wait_motion_complete :: "tas_env \<Rightarrow> real \<Rightarrow> real \<Rightarrow> real \<Rightarrow> bool tas_op" where
  "wait_motion_complete env timeout still_thresh moving_thresh =
     bind_op (gets_op ts_now) (\<lambda>start.
     seq_op (py_sleep env 0.5)
    (bind_op (read_flag env ts_joint_vel) (\<lambda>vels.
     if vels \<noteq> [] \<and> peak vels < still_thresh then ret_op True
     else bind_op (poll_until (poll_rounds timeout 0.02) env (start + timeout) 0.02
                    (saw_motion env moving_thresh)) (\<lambda>r.
       if r \<noteq> Some True then ret_op False
       else bind_op (poll_until (poll_rounds timeout 0.05) env (start + timeout) 0.05
                      (saw_still env still_thresh)) (\<lambda>r'.
         ret_op (r' = Some True))))))"

section \<open>Moves to what the gripper camera sees\<close>

definition get_handover_type :: "tas_cfg \<Rightarrow> string \<Rightarrow> string" where
  "get_handover_type c tool_id =
     (case List.find (\<lambda>t. te_tool_id t = Some tool_id) (tc_tools c) of
        None \<Rightarrow> ''direct''
      | Some t \<Rightarrow> (case te_handover_type t of None \<Rightarrow> ''direct'' | Some h \<Rightarrow> h))"

definition get_tool_length_mm :: "tas_cfg \<Rightarrow> string \<Rightarrow> real" where
  "get_tool_length_mm c tool_id =
     (case List.find (\<lambda>t. te_tool_id t = Some tool_id) (tc_tools c) of
        None \<Rightarrow> 150.0
      | Some t \<Rightarrow> (case te_length t of None \<Rightarrow> 0.15 | Some l \<Rightarrow> l) * 1000.0)"

definition inside :: "real \<times> real \<Rightarrow> real \<Rightarrow> bool" where
  "inside r v \<longleftrightarrow> fst r \<le> v \<and> v \<le> snd r"

definition check_vision_coords :: "tas_cfg \<Rightarrow> real \<Rightarrow> real \<Rightarrow> real \<Rightarrow> bool" where
  "check_vision_coords c x y z =
     (if x = 0.0 \<and> y = 0.0 \<and> z = 0.0 then False
      else inside (tc_x c) x \<and> inside (tc_y c) y \<and> inside (tc_z c) z)"

definition saw_tool :: "tas_env \<Rightarrow> bool option tas_op" where
  "saw_tool env =
     bind_op (read_flag env ts_estop) (\<lambda>latched.
     if latched then ret_op (Some False)
     else bind_op (read_flag env (\<lambda>s. case ts_goal s of None \<Rightarrow> False | Some g \<Rightarrow> g \<in> set (ts_cancels s)))
       (\<lambda>cancelled.
       if cancelled then ret_op (Some False)
       else bind_op (read_flag env ts_gripper) (\<lambda>p.
         if tp_valid p then ret_op (Some True) else ret_op None)))"

definition exec_wait_vision_gripper_xy :: "tas_env \<Rightarrow> bool tas_op" where
  "exec_wait_vision_gripper_xy env =
     seq_op (modify_op (\<lambda>s. s\<lparr>ts_gripper := no_tool_pose\<rparr>))
    (bind_op (gets_op ts_now) (\<lambda>start.
     bind_op (poll_until (poll_rounds 5.0 0.05) env (start + 5.0) 0.05 (saw_tool env)) (\<lambda>r.
     ret_op (r = Some True))))"

text \<open>\<open>ori = list(self._tool_approach_ori); ori[2] = rz\<close>\<close>

definition approach_ori :: "tas_cfg \<Rightarrow> real \<Rightarrow> (string, real list) result" where
  "approach_ori c rz =
     (if length (tc_approach_ori c) \<le> 2 then Inl ''list assignment index out of range''
      else Inr ((tc_approach_ori c)[2 := rz]))"

definition line_step :: "real list \<Rightarrow> motion_step" where
  "line_step p = (bare_step MOVE_L_ABS)\<lparr>pose := Some p, vel := Some VEL_L, acc := Some ACC_L\<rparr>"

definition exec_move_l_top_xy :: "tas_env \<Rightarrow> bool tas_op" where
  "exec_move_l_top_xy env =
     bind_op (read_flag env ts_gripper) (\<lambda>p.
     if \<not> tp_valid p then ret_op False
     else if \<not> (-185.0 \<le> tp_rz p \<and> tp_rz p \<le> 185.0) then ret_op False
     else if \<not> check_vision_coords (en_cfg env) (tp_x p) (tp_y p) (tc_approach_z (en_cfg env))
       then ret_op False
     else (case approach_ori (en_cfg env) (tp_rz p) of
         Inl e \<Rightarrow> fail_op e
       | Inr ori \<Rightarrow>
           movel env (line_step ([tp_x p, tp_y p, tc_approach_z (en_cfg env)] @ ori)) DR_MV_MOD_ABS))"

definition exec_move_l_tool_xyz :: "tas_env \<Rightarrow> bool tas_op" where
  "exec_move_l_tool_xyz env =
     bind_op (read_flag env ts_gripper) (\<lambda>p.
     if \<not> tp_valid p then ret_op False
     else bind_op (gets_op ts_tool_id) (\<lambda>tool_id.
       let z = (case map_of (tc_grasp_z (en_cfg env)) tool_id of Some g \<Rightarrow> g | None \<Rightarrow> tp_z p) in
       if \<not> check_vision_coords (en_cfg env) (tp_x p) (tp_y p) z then ret_op False
       else (case approach_ori (en_cfg env) (tp_rz p) of
           Inl e \<Rightarrow> fail_op e
         | Inr ori \<Rightarrow> movel env (line_step ([tp_x p, tp_y p, z] @ ori)) DR_MV_MOD_ABS)))"

section \<open>Handing a tool over\<close>

definition HANDOVER_VEL_L :: real where
  "HANDOVER_VEL_L = 5.0"

definition HANDOVER_ACC_L :: real where
  "HANDOVER_ACC_L = 20.0"

definition HANDOVER_VEL_R :: real where
  "HANDOVER_VEL_R = 2.5"

definition HANDOVER_ACC_R :: real where
  "HANDOVER_ACC_R = 10.0"

definition HANDOVER_RX :: real where
  "HANDOVER_RX = 180.0"

definition HANDOVER_RY :: real where
  "HANDOVER_RY = 180.0"

definition pre_approach_req :: "real list \<Rightarrow> move_line_req" where
  "pre_approach_req pos =
     line_req pos [VEL_L / 3.0, VEL_R / 3.0] [ACC_L / 3.0, ACC_R / 3.0] DR_MV_MOD_ABS 1"

definition hand_req :: "real list \<Rightarrow> move_line_req" where
  "hand_req pos =
     line_req pos [HANDOVER_VEL_L, HANDOVER_VEL_R] [HANDOVER_ACC_L, HANDOVER_ACC_R] DR_MV_MOD_ABS 1"

definition hand_distance :: "pose_msg \<Rightarrow> real list \<Rightarrow> real" where
  "hand_distance p goal =
     (let dx = pm_x p * 1000.0 - goal ! 0;
          dy = pm_y p * 1000.0 - goal ! 1;
          dz = pm_z p * 1000.0 - goal ! 2
      in sqrt (dx * dx + dy * dy + dz * dz))"

definition saw_hand :: "tas_env \<Rightarrow> real \<Rightarrow> bool option tas_op" where
  "saw_hand env threshold_mm =
     bind_op (read_flag env ts_estop) (\<lambda>latched.
     if latched then ret_op (Some False)
     else bind_op (read_flag env (\<lambda>s. (ts_hand s, ts_hand_ready s, ts_approach s))) (\<lambda>(hand, ready, goal).
       case hand of
         None \<Rightarrow> ret_op None
       | Some p \<Rightarrow>
           if \<not> ready then ret_op None
           else (case goal of
               None \<Rightarrow> ret_op (Some True)
             | Some q \<Rightarrow> ret_op (Some (\<not> hand_distance p q > threshold_mm)))))"

definition wait_hand_pose :: "tas_env \<Rightarrow> bool tas_op" where
  "wait_hand_pose env =
     (let timeout = h_get (en_cfg env) ''detection_timeout_s'' 5.0;
          threshold_mm = h_get (en_cfg env) ''lock_update_distance_m'' 0.03 * 1000.0
      in bind_op (gets_op ts_now) (\<lambda>start.
         bind_op (poll_until (poll_rounds timeout 0.1) env (start + timeout) 0.1
                   (saw_hand env threshold_mm)) (\<lambda>r.
         ret_op (r = Some True))))"

definition quat_to_robot_rz :: "tas_env \<Rightarrow> quat \<Rightarrow> (string, real) result" where
  "quat_to_robot_rz env q =
     (case en_yaw env q of
        Inl e \<Rightarrow> Inl e
      | Inr raw_yaw \<Rightarrow>
          let c = en_cfg env;
              rz = (raw_yaw - h_get c ''rz_cal_hand_yaw'' 77.0) * h_get c ''rz_sign'' (-1.0)
                   + h_get c ''rz_cal_robot_rz'' 8.39 + 180.0
          in Inr (if rz > 180.0 then rz - 360.0 else if rz < -180.0 then rz + 360.0 else rz))"

text \<open>Where above the palm to go; for handle-first tools shifted by the hand's axes.\<close>

definition hand_xy :: "tas_env \<Rightarrow> string \<Rightarrow> bool \<Rightarrow> pose_msg \<Rightarrow> (string, real \<times> real) result" where
  "hand_xy env tool_id handle_first m =
     (let c = en_cfg env;
          x = pm_x m * 1000.0 + h_get c ''approach_x_offset_m'' 0.0 * 1000.0;
          y = pm_y m * 1000.0 + h_get c ''approach_y_offset_m'' 0.0 * 1000.0
      in if \<not> handle_first then Inr (x, y)
         else (case en_rot env (pm_quat m) of
             Inl e \<Rightarrow> Inl e
           | Inr R \<Rightarrow>
               let finger_off = h_get c ''finger_offset_m'' 0.02 * 1000.0;
                   offset = get_tool_length_mm c tool_id / 2.0
               in Inr (x + R 0 1 * finger_off + R 0 0 * offset, y + R 1 1 * finger_off + R 1 0 * offset)))"

definition hand_pos :: "real \<Rightarrow> real \<Rightarrow> real \<Rightarrow> real \<Rightarrow> real list" where
  "hand_pos x y z rz = [x, y, z, HANDOVER_RX, HANDOVER_RY, rz]"

definition approach_height_mm :: "tas_cfg \<Rightarrow> real" where
  "approach_height_mm c = h_get c ''approach_height_m'' 0.05 * 1000.0"

definition hand_z_max_mm :: "tas_cfg \<Rightarrow> real" where
  "hand_z_max_mm c = h_get c ''hand_z_max_m'' 0.17 * 1000.0"

text \<open>The second half of \<open>_move_hand_rz_approach\<close>, after the pre-approach move has been answered.\<close>

definition final_approach :: "tas_env \<Rightarrow> real list \<Rightarrow> bool tas_op" where
  "final_approach env pos =
     seq_op (wait_motion_complete env 60.0 0.01 0.05)
    (bind_op (read_flag env ts_hand_ready) (\<lambda>ready_after.
     if \<not> ready_after then ret_op False
     else bind_op (call_and_wait env (MoveLineReq (hand_req pos))) (\<lambda>a.
       case a of
         None \<Rightarrow> ret_op False
       | Some res \<Rightarrow>
           if \<not> res_ok res then ret_op False
           else seq_op (wait_motion_complete env 60.0 0.005 0.01) (ret_op True))))"

definition move_hand_rz_approach :: "tas_env \<Rightarrow> bool \<Rightarrow> bool tas_op" where
  "move_hand_rz_approach env handle_first =
     bind_op (read_flag env (\<lambda>s. (ts_hand s, ts_hand_ready s))) (\<lambda>(hand, ready).
     case hand of
       None \<Rightarrow> ret_op False
     | Some m \<Rightarrow>
         if \<not> ready then ret_op False
         else (case quat_to_robot_rz env (pm_quat m) of
             Inl e \<Rightarrow> fail_op e
           | Inr rz \<Rightarrow>
               let z = pm_z m * 1000.0; h = approach_height_mm (en_cfg env) in
               if z > hand_z_max_mm (en_cfg env) then ret_op False
               else bind_op (gets_op ts_tool_id) (\<lambda>tool_id.
                 case hand_xy env tool_id handle_first m of
                   Inl e \<Rightarrow> fail_op e
                 | Inr (x, y) \<Rightarrow>
                     seq_op (modify_op (\<lambda>s. s\<lparr>ts_approach := Some (hand_pos x y z rz)\<rparr>))
                    (bind_op (call_and_wait env
                        (MoveLineReq (pre_approach_req (hand_pos x y (z + h + 30.0) rz)))) (\<lambda>a.
                     case a of
                       None \<Rightarrow> ret_op False
                     | Some res \<Rightarrow>
                         if \<not> res_ok res then ret_op False
                         else final_approach env (hand_pos x y (z + h) rz))))))"

definition place_z_offset_mm :: "tas_cfg \<Rightarrow> bool \<Rightarrow> real" where
  "place_z_offset_mm c handle_first =
     (if handle_first
      then h_get c ''place_z_offset_handle_first_m'' (h_get c ''place_z_offset_m'' 0.0) * 1000.0
      else h_get c ''place_z_offset_m'' 0.0 * 1000.0)"

definition move_hand_place :: "tas_env \<Rightarrow> bool \<Rightarrow> bool tas_op" where
  "move_hand_place env handle_first =
     bind_op (read_flag env ts_approach) (\<lambda>goal.
     case goal of
       None \<Rightarrow> ret_op False
     | Some q \<Rightarrow>
         bind_op (call_and_wait env (MoveLineReq (hand_req
             (q[2 := q ! 2 + place_z_offset_mm (en_cfg env) handle_first])))) (\<lambda>a.
         case a of
           None \<Rightarrow> ret_op False
         | Some res \<Rightarrow>
             seq_op (wait_motion_complete env 60.0 0.005 0.01)
            (seq_op (py_sleep env 0.3) (ret_op (res_ok res)))))"

section \<open>Running a sequence\<close>

text \<open>\<open>step.kind.name\<close>\<close>

definition kind_name :: "step_kind \<Rightarrow> string" where
  "kind_name k =
     (case k of
        MOVE_L_ABS \<Rightarrow> ''MOVE_L_ABS'' | MOVE_L_REL \<Rightarrow> ''MOVE_L_REL'' | MOVE_J_ABS \<Rightarrow> ''MOVE_J_ABS''
      | MOVE_J_REL \<Rightarrow> ''MOVE_J_REL'' | GRIP \<Rightarrow> ''GRIP'' | WAIT \<Rightarrow> ''WAIT''
      | VISUAL_SERVO_XZ \<Rightarrow> ''VISUAL_SERVO_XZ'' | MOVE_L_TOP_XY \<Rightarrow> ''MOVE_L_TOP_XY''
      | VISUAL_SERVO_XY \<Rightarrow> ''VISUAL_SERVO_XY'' | MOVE_L_TOOL_XYZ \<Rightarrow> ''MOVE_L_TOOL_XYZ''
      | MOVE_L_SLOT_XY \<Rightarrow> ''MOVE_L_SLOT_XY'' | WAIT_VISION_TOP_XY \<Rightarrow> ''WAIT_VISION_TOP_XY''
      | WAIT_VISION_RETURN_XY \<Rightarrow> ''WAIT_VISION_RETURN_XY'' | MOVE_L_SLOT_XYZ \<Rightarrow> ''MOVE_L_SLOT_XYZ''
      | MOVE_L_STAGING_XYZ \<Rightarrow> ''MOVE_L_STAGING_XYZ'' | WAIT_HAND_POSE \<Rightarrow> ''WAIT_HAND_POSE''
      | MOVE_L_HAND_RZ_APPROACH \<Rightarrow> ''MOVE_L_HAND_RZ_APPROACH'' | MOVE_L_HAND_PLACE \<Rightarrow> ''MOVE_L_HAND_PLACE''
      | MOVE_L_HAND_RZ_APPROACH_HANDLE \<Rightarrow> ''MOVE_L_HAND_RZ_APPROACH_HANDLE''
      | MOVE_L_HAND_PLACE_HANDLE \<Rightarrow> ''MOVE_L_HAND_PLACE_HANDLE'')"

definition marker_name :: "marker \<Rightarrow> string" where
  "marker_name m = (case m of Pick \<Rightarrow> ''pick'' | Place \<Rightarrow> ''place'')"

definition exec_step :: "tas_env \<Rightarrow> motion_step \<Rightarrow> bool tas_op" where
  "exec_step env st =
     (case kind st of
        MOVE_L_ABS \<Rightarrow> movel env st DR_MV_MOD_ABS
      | MOVE_L_REL \<Rightarrow> movel env st DR_MV_MOD_REL
      | MOVE_J_ABS \<Rightarrow> movej env st
      | MOVE_J_REL \<Rightarrow> movej env st
      | GRIP \<Rightarrow> do_grip env st
      | WAIT \<Rightarrow> seq_op (py_sleep env (or_num (sec st) 0.5)) (ret_op True)
      | WAIT_VISION_TOP_XY \<Rightarrow> exec_wait_vision_gripper_xy env
      | MOVE_L_TOP_XY \<Rightarrow> exec_move_l_top_xy env
      | MOVE_L_TOOL_XYZ \<Rightarrow> exec_move_l_tool_xyz env
      | WAIT_HAND_POSE \<Rightarrow> wait_hand_pose env
      | MOVE_L_HAND_RZ_APPROACH \<Rightarrow> move_hand_rz_approach env False
      | MOVE_L_HAND_PLACE \<Rightarrow> move_hand_place env False
      | MOVE_L_HAND_RZ_APPROACH_HANDLE \<Rightarrow> move_hand_rz_approach env True
      | MOVE_L_HAND_PLACE_HANDLE \<Rightarrow> move_hand_place env True
      | _ \<Rightarrow> ret_op False)"

definition cancel_requested :: "nat option \<Rightarrow> tas \<Rightarrow> bool" where
  "cancel_requested g s = (case g of None \<Rightarrow> False | Some n \<Rightarrow> n \<in> set (ts_cancels s))"

definition feedback :: "nat option \<Rightarrow> string \<Rightarrow> real \<Rightarrow> unit tas_op" where
  "feedback g phase progress =
     (case g of None \<Rightarrow> ret_op () | Some n \<Rightarrow> emit (Feedback n phase progress))"

text \<open>\<open>PlaceOnHand\<close> only: whether the gripper holds the tool, from the answers to its strokes.\<close>

definition track_grip :: "bool \<Rightarrow> motion_step \<Rightarrow> bool \<Rightarrow> unit tas_op" where
  "track_grip track st ok =
     (case pulse st of
        Some p \<Rightarrow>
          if track \<and> kind st = GRIP \<and> ok then modify_op (\<lambda>s. s\<lparr>ts_grip_taken := p \<ge> 600\<rparr>) else ret_op ()
      | None \<Rightarrow> ret_op ())"

primrec run_steps ::
  "tas_env \<Rightarrow> nat option \<Rightarrow> bool \<Rightarrow> nat \<Rightarrow> nat \<Rightarrow> motion_step list \<Rightarrow> bool tas_op" where
  "run_steps env g track n_steps i [] = ret_op True"
| "run_steps env g track n_steps i (st # rest) =
     bind_op (read_flag env ts_estop) (\<lambda>latched.
     if latched then ret_op False
     else bind_op (read_flag env (cancel_requested g)) (\<lambda>cancelled.
     if cancelled then ret_op False
     else seq_op (feedback g (kind_name (kind st)) (real i / real n_steps))
       (bind_op (exec_step env st) (\<lambda>ok.
        seq_op (track_grip track st ok)
        (if \<not> ok then ret_op False
         else seq_op
           (case marker st of
              None \<Rightarrow> ret_op ()
            | Some m \<Rightarrow> feedback g (marker_name m) (real (i + 1) / real n_steps))
           (run_steps env g track n_steps (i + 1) rest))))))"

definition run_sequence :: "tas_env \<Rightarrow> nat option \<Rightarrow> motion_step list \<Rightarrow> bool tas_op" where
  "run_sequence env g steps = run_steps env g False (length steps) 0 steps"

definition run_sequence_handover :: "tas_env \<Rightarrow> nat \<Rightarrow> motion_step list \<Rightarrow> bool tas_op" where
  "run_sequence_handover env g steps =
     seq_op (modify_op (\<lambda>s. s\<lparr>ts_goal := Some g\<rparr>)) (run_steps env (Some g) True (length steps) 0 steps)"

section \<open>The handlers\<close>

text \<open>The non-blocking acquisition of the action lock; \<open>False\<close> is a lock already taken.\<close>

definition acquire :: "bool tas_op" where
  "acquire = bind_op (gets_op ts_busy) (\<lambda>taken.
     if taken then ret_op False else seq_op (modify_op (\<lambda>s. s\<lparr>ts_busy := True\<rparr>)) (ret_op True))"

definition release :: "unit tas_op" where
  "release = modify_op (\<lambda>s. s\<lparr>ts_busy := False\<rparr>)"

definition answer :: "bool \<Rightarrow> tas_msg \<Rightarrow> action_result" where
  "answer ok m = \<lparr>ar_success = ok, ar_message = m\<rparr>"

text \<open>A builder's exception is raised in the handler; \<open>str(exc)\<close> is left abstract.\<close>

definition built :: "(motion_error, 'a) result \<Rightarrow> 'a tas_op" where
  "built r = (case r of Inl e \<Rightarrow> fail_op ''motion sequence'' | Inr a \<Rightarrow> ret_op a)"

text \<open>\<open>ok and not is_cancel_requested\<close>\<close>

definition still_wanted :: "tas_env \<Rightarrow> nat \<Rightarrow> bool \<Rightarrow> bool tas_op" where
  "still_wanted env g ok =
     (if ok then bind_op (read_flag env (cancel_requested (Some g))) (\<lambda>c. ret_op (\<not> c)) else ret_op False)"

text \<open>The common shape of \<open>_on_place_at_staging\<close> and \<open>_on_return_to_slot\<close>: the \<open>try\<close> block up to the run ...\<close>

definition run_plan ::
  "tas_env \<Rightarrow> nat \<Rightarrow> (motion_error, motion_step list) result \<Rightarrow> bool tas_op" where
  "run_plan env g plan =
     seq_op (set_tcp env)
    (seq_op (publish_status True)
    (seq_op (set_plc ''moving'')
    (bind_op (built plan) (run_sequence env (Some g)))))"

text \<open>... and from the run's result to the end of the goal.\<close>

definition conclude :: "tas_env \<Rightarrow> nat \<Rightarrow> string \<Rightarrow> bool \<Rightarrow> action_result tas_op" where
  "conclude env g tool_id ok =
     bind_op (still_wanted env g ok) (\<lambda>good.
     if good then
       seq_op (emit (GoalSucceed g))
      (seq_op (set_plc ''idle'')
      (ret_op (answer True (Finished tool_id))))
     else bind_op (read_flag env (cancel_requested (Some g))) (\<lambda>cancelled.
       if cancelled then
         seq_op (emit (GoalCanceled g)) (ret_op (answer False Cancelled))
       else
         seq_op (emit (GoalAbort g))
        (seq_op (set_plc ''error'')
        (ret_op (answer False (Failed tool_id))))))"

definition sequence_action ::
  "tas_env \<Rightarrow> nat \<Rightarrow> string \<Rightarrow> (motion_error, motion_step list) result \<Rightarrow> action_result tas_op" where
  "sequence_action env g tool_id plan =
     bind_op acquire (\<lambda>got.
     if \<not> got then busy_goal g
     else bind_op
       (catch_op
         (bind_op (run_plan env g plan) (conclude env g tool_id))
         (\<lambda>exc.
            seq_op (emit (GoalAbort g))
           (seq_op (set_plc ''error'') (ret_op (answer False (Exc exc))))))
       (\<lambda>result. seq_op (publish_status False) (seq_op release (ret_op result))))"

definition on_place_at_staging :: "tas_env \<Rightarrow> nat \<Rightarrow> string \<Rightarrow> action_result tas_op" where
  "on_place_at_staging env g tool_id = sequence_action env g tool_id full_socket_fetch_seq"

definition on_return_to_slot :: "tas_env \<Rightarrow> nat \<Rightarrow> string \<Rightarrow> action_result tas_op" where
  "on_return_to_slot env g tool_id = sequence_action env g tool_id full_socket_return_seq"

text \<open>
  The common shape of \<open>_on_place_on_hand\<close> and \<open>_on_place_on_hand_test\<close>, which differ in the
  sequence and in whether the tool counts as grasped from the start.
\<close>

definition run_hand_plan ::
  "tas_env \<Rightarrow> nat \<Rightarrow> string \<Rightarrow> bool \<Rightarrow> motion_step list \<Rightarrow> bool tas_op" where
  "run_hand_plan env g tool_id holding steps =
     seq_op (set_tcp env)
    (seq_op (publish_status True)
    (seq_op (set_plc ''moving'')
    (seq_op (modify_op (\<lambda>s. s\<lparr>ts_tool_id := tool_id, ts_approach := None, ts_grip_taken := holding\<rparr>))
    (run_sequence_handover env g steps))))"

definition conclude_hand :: "tas_env \<Rightarrow> nat \<Rightarrow> string \<Rightarrow> bool \<Rightarrow> action_result tas_op" where
  "conclude_hand env g tool_id ok =
     bind_op (still_wanted env g ok) (\<lambda>good.
     if good then
       seq_op (emit (GoalSucceed g))
      (seq_op (set_plc ''idle'')
      (seq_op (log_event_async env ''fetch'' tool_id)
      (ret_op (answer True (Finished tool_id)))))
     else bind_op (read_flag env (cancel_requested (Some g))) (\<lambda>cancelled.
       if cancelled then
         seq_op (emit (GoalCanceled g))
        (seq_op (log_event_async env ''rejected'' tool_id)
        (ret_op (answer False Cancelled)))
       else
         seq_op (emit (GoalAbort g))
        (seq_op (log_event_async env ''error'' tool_id)
        (seq_op (set_plc ''error'')
        (ret_op (answer False (Failed tool_id)))))))"

text \<open>The \<open>finally\<close> block: a tool still held keeps the voice input blocked.\<close>

definition finish_hand :: "unit tas_op" where
  "finish_hand =
     seq_op (modify_op (\<lambda>s. s\<lparr>ts_tool_id := [], ts_approach := None\<rparr>))
    (bind_op (gets_op ts_grip_taken) (\<lambda>held.
     seq_op (if held then set_plc ''error'' else publish_status False)
    (seq_op (modify_op (\<lambda>s. s\<lparr>ts_grip_taken := False\<rparr>)) release)))"

definition hand_action ::
  "tas_env \<Rightarrow> nat \<Rightarrow> string \<Rightarrow> bool \<Rightarrow> motion_step list \<Rightarrow> action_result tas_op" where
  "hand_action env g tool_id holding steps =
     bind_op acquire (\<lambda>got.
     if \<not> got then busy_goal g
     else bind_op
       (catch_op
         (bind_op (run_hand_plan env g tool_id holding steps) (conclude_hand env g tool_id))
         (\<lambda>exc.
            seq_op (emit (GoalAbort g))
           (seq_op (log_event_async env ''error'' exc)
           (seq_op (set_plc ''error'') (ret_op (answer False (Exc exc)))))))
       (\<lambda>result. seq_op finish_hand (ret_op result)))"

definition on_place_on_hand :: "tas_env \<Rightarrow> nat \<Rightarrow> string \<Rightarrow> action_result tas_op" where
  "on_place_on_hand env g tool_id =
     hand_action env g tool_id False
       (if get_handover_type (en_cfg env) tool_id = ''handle_first''
        then handover_fetch_handle_first_seq else handover_fetch_seq)"

definition on_place_on_hand_test :: "tas_env \<Rightarrow> nat \<Rightarrow> string \<Rightarrow> action_result tas_op" where
  "on_place_on_hand_test env g tool_id =
     hand_action env g tool_id True
       (handover_place_only_seq (get_handover_type (en_cfg env) tool_id = ''handle_first''))"

text \<open>
  The services that run a sequence. \<open>_on_home\<close> and \<open>_run_toolbox_seq\<close> differ in what an exception
  publishes: \<open>exc_state\<close>.
\<close>

definition run_service :: "tas_env \<Rightarrow> string \<Rightarrow> motion_step list \<Rightarrow> action_result tas_op" where
  "run_service env label steps =
     seq_op (set_tcp env)
    (seq_op (publish_status True)
    (seq_op (set_plc ''moving'')
    (bind_op (run_sequence env None steps) (\<lambda>ok.
     if ok then seq_op (set_plc ''idle'') (ret_op (answer True (Finished label)))
     else seq_op (set_plc ''error'') (ret_op (answer False (Failed label)))))))"

definition sequence_service ::
  "tas_env \<Rightarrow> string \<Rightarrow> unit tas_op \<Rightarrow> motion_step list \<Rightarrow> action_result tas_op" where
  "sequence_service env label exc_state steps =
     bind_op (gets_op ts_estop) (\<lambda>latched.
     if latched then ret_op (answer False Latched)
     else bind_op acquire (\<lambda>got.
     if \<not> got then ret_op (answer False Busy)
     else bind_op
       (catch_op (run_service env label steps)
         (\<lambda>exc. seq_op exc_state (ret_op (answer False (Exc exc)))))
       (\<lambda>result. seq_op (publish_status False) (seq_op release (ret_op result)))))"

definition on_home :: "tas_env \<Rightarrow> action_result tas_op" where
  "on_home env = sequence_service env ''home'' (ret_op ()) home_seq"

definition TOOLBOX_LAYER :: int where
  "TOOLBOX_LAYER = 1"

definition run_toolbox_seq :: "tas_env \<Rightarrow> motion_step list \<Rightarrow> string \<Rightarrow> action_result tas_op" where
  "run_toolbox_seq env steps label = sequence_service env label (set_plc ''error'') steps"

definition on_open_toolbox :: "tas_env \<Rightarrow> action_result tas_op" where
  "on_open_toolbox env =
     bind_op (built (drawer_open_seq TOOLBOX_LAYER None)) (\<lambda>steps. run_toolbox_seq env steps ''open_toolbox'')"

definition on_close_toolbox :: "tas_env \<Rightarrow> action_result tas_op" where
  "on_close_toolbox env =
     bind_op (built (drawer_close_seq TOOLBOX_LAYER None)) (\<lambda>steps. run_toolbox_seq env steps ''close_toolbox'')"

section \<open>Requests from outside\<close>

datatype tas_request =
    Fetch nat string
  | Return nat string
  | HandOver nat string
  | HandOverTest nat string
  | Home
  | OpenToolbox
  | CloseToolbox

definition rejected_goal :: "nat \<Rightarrow> action_result tas_op" where
  "rejected_goal g = seq_op (emit (GoalRejected g)) (ret_op (answer False Latched))"

text \<open>A goal passes \<open>_goal_callback\<close> first; an accepted one is executed.\<close>

definition accept_goal :: "nat \<Rightarrow> action_result tas_op \<Rightarrow> action_result tas_op" where
  "accept_goal g execute =
     bind_op (gets_op goal_callback) (\<lambda>accepted. if accepted then execute else rejected_goal g)"

definition serve :: "tas_env \<Rightarrow> tas_request \<Rightarrow> action_result tas_op" where
  "serve env rq =
     (case rq of
        Fetch g tool_id \<Rightarrow> accept_goal g (on_place_at_staging env g tool_id)
      | Return g tool_id \<Rightarrow> accept_goal g (on_return_to_slot env g tool_id)
      | HandOver g tool_id \<Rightarrow> accept_goal g (on_place_on_hand env g tool_id)
      | HandOverTest g tool_id \<Rightarrow> accept_goal g (on_place_on_hand_test env g tool_id)
      | Home \<Rightarrow> on_home env
      | OpenToolbox \<Rightarrow> on_open_toolbox env
      | CloseToolbox \<Rightarrow> on_close_toolbox env)"

text \<open>Requests one after the other, with events arriving between them.\<close>

definition serve_all :: "tas_env \<Rightarrow> tas_request list \<Rightarrow> unit tas_op" where
  "serve_all env rqs = for_op (\<lambda>rq. seq_op (observe env) (serve env rq)) rqs"

end
