(* ===== verification/TasOrder.thy ===== *)
theory TasOrder imports ToolActionServer begin

text \<open>
  Interfaces over the action server's operations. \<open>tas_order\<close> lifts a relation between states from
  the four things an operation is made of (an event arriving, a change of a private field, a
  message sent, time passing) to the operations that serve a handler; \<open>tas_calm\<close> extends it to the
  handlers, \<open>tas_free\<close> to every step of a sequence. They are interpreted on the model: the clock
  only advances, cancel requests are never forgotten, the trace only grows, an E-stop in the trace
  is latched; waiting sends no motion command.
\<close>

section \<open>Relations kept by every operation\<close>

text \<open>Requests that make the arm or the gripper move.\<close>

definition is_move :: "tas_out \<Rightarrow> bool" where
  "is_move x = (case x of MoveLineReq _ \<Rightarrow> True | MoveJointReq _ \<Rightarrow> True | GripReq _ \<Rightarrow> True | _ \<Rightarrow> False)"

lemma is_move_simps [simp]:
  "is_move (MoveLineReq a)" "is_move (MoveJointReq b)" "is_move (GripReq c)"
  "\<not> is_move (RobotMoving d)" "\<not> is_move (PlcState e)" "\<not> is_move (Feedback n f x)"
  "\<not> is_move (GoalSucceed n)" "\<not> is_move (GoalAbort n)" "\<not> is_move (GoalCanceled n)"
  "\<not> is_move (GoalRejected n)" "\<not> is_move (TriggerAnswer d m)" "\<not> is_move MoveStopReq"
  "\<not> is_move CreateTcpReq" "\<not> is_move SetTcpReq" "\<not> is_move (LogEventReq g h i j)"
  by (simp_all add: is_move_def)

text \<open>Messages no property counts.\<close>

definition is_plumbing :: "tas_out \<Rightarrow> bool" where
  "is_plumbing x = (case x of
     CreateTcpReq \<Rightarrow> True | SetTcpReq \<Rightarrow> True | RobotMoving _ \<Rightarrow> True | LogEventReq _ _ _ _ \<Rightarrow> True
   | _ \<Rightarrow> False)"

lemma is_plumbing_simps [simp]:
  "is_plumbing CreateTcpReq" "is_plumbing SetTcpReq" "is_plumbing (RobotMoving b)"
  "is_plumbing (LogEventReq g h i j)" "\<not> is_plumbing (PlcState x)" "\<not> is_plumbing (Feedback n f y)"
  "\<not> is_plumbing (GoalSucceed n)" "\<not> is_plumbing (GoalAbort n)" "\<not> is_plumbing (GoalCanceled n)"
  "\<not> is_plumbing (MoveLineReq a)" "\<not> is_plumbing (MoveJointReq c)" "\<not> is_plumbing (GripReq d)"
  by (simp_all add: is_plumbing_def)

text \<open>The request of a move to a position the camera gave.\<close>

definition vision_req :: "real list \<Rightarrow> move_line_req" where
  "vision_req p = line_req p [VEL_L, VEL_R] [ACC_L, ACC_R] DR_MV_MOD_ABS 0"

lemma movel_req_line_step [simp]: "movel_req (line_step p) p DR_MV_MOD_ABS = vision_req p"
  by (simp add: movel_req_def line_step_def bare_step_def vision_req_def or_num_def VEL_L_def ACC_L_def)

lemma pose_line_step [simp]: "pose (line_step p) = Some p"
  by (simp add: line_step_def)

locale tas_order = step_order R for R :: "tas \<Rightarrow> tas \<Rightarrow> bool" +
  fixes env :: tas_env and own :: "tas_out \<Rightarrow> bool"
  assumes arrives: "R s (snd (observe env s))"
    and frame: "ts_outs t = ts_outs s \<Longrightarrow> ts_estop t = ts_estop s \<Longrightarrow> ts_cancels t = ts_cancels s \<Longrightarrow>
      ts_approach t = ts_approach s \<Longrightarrow> ts_now s \<le> ts_now t \<Longrightarrow> R s t"
    and sends: "own x \<Longrightarrow> R s (s\<lparr>ts_outs := ts_outs s @ [x]\<rparr>)"
    and forgets: "R s (s\<lparr>ts_approach := None\<rparr>)"
    and plumbing: "is_plumbing x \<Longrightarrow> own x"
begin

lemma stays_cond: "(b \<Longrightarrow> stays m) \<Longrightarrow> (\<not> b \<Longrightarrow> stays k) \<Longrightarrow> stays (if b then m else k)"
  by simp

lemma stays_observe: "stays (observe env)"
  by (rule staysI) (rule arrives)

lemma stays_emit: "own x \<Longrightarrow> stays (emit x)"
  unfolding emit_def by (rule stays_modify) (rule sends)

lemma stays_plumb: "is_plumbing x \<Longrightarrow> stays (emit x)"
  by (intro stays_emit plumbing)

lemma stays_private:
  "(\<And>s. ts_outs (f s) = ts_outs s \<and> ts_estop (f s) = ts_estop s \<and> ts_cancels (f s) = ts_cancels s
     \<and> ts_approach (f s) = ts_approach s \<and> ts_now s \<le> ts_now (f s)) \<Longrightarrow> stays (modify_op f)"
  by (rule stays_modify) (simp add: frame)

lemma stays_read: "stays (read_flag env f)"
  unfolding read_flag_def by (intro stays_seq stays_observe stays_gets)

lemma stays_sleep: "stays (py_sleep env d)"
  unfolding py_sleep_def
  by (cases "d < 0") (auto intro!: stays_fail stays_seq stays_observe stays_private)

lemma stays_service_ready: "stays (service_ready env sv)"
  unfolding service_ready_def
  by (intro stays_bind stays_gets) (auto split: readiness.splits intro: stays_ret stays_fail)

lemma stays_poll: "stays body \<Longrightarrow> stays (poll_until n env deadline period body)"
  by (induction n) (auto intro!: stays_rules stays_sleep)

lemma stays_call: "own x \<Longrightarrow> stays (call_and_wait env x)"
  unfolding call_and_wait_def
  by (intro stays_seq stays_bind stays_observe stays_gets)
    (auto split: reply.splits intro!: stays_rules stays_observe stays_emit)

lemma stays_log: "stays (log_event_async env ev nts)"
  unfolding log_event_async_def
  by (intro stays_catch stays_bind stays_service_ready) (auto intro: stays_ret stays_plumb)

lemma stays_set_tcp: "stays (set_tcp env)"
  unfolding set_tcp_def
  by (intro stays_catch stays_seq stays_bind stays_service_ready stays_sleep stays_ret)
    (auto intro: stays_ret stays_plumb)

lemma stays_movel:
  "(\<And>p. pose st = Some p \<Longrightarrow> own (MoveLineReq (movel_req st p mode))) \<Longrightarrow> stays (movel env st mode)"
  unfolding movel_def
  by (cases "pose st") (auto intro!: stays_rules stays_call stays_sleep)

lemma stays_movej:
  "(\<And>p. own (MoveJointReq (movej_req st p))) \<Longrightarrow> stays (movej env st)"
  unfolding movej_def
  by (cases "pose st") (auto intro!: stays_rules stays_call stays_sleep)

lemma stays_grip: "own (GripReq (grip_req st)) \<Longrightarrow> stays (do_grip env st)"
  unfolding do_grip_def by (auto intro!: stays_rules stays_call stays_sleep)

lemma stays_saw_motion: "stays (saw_motion env m)"
  unfolding saw_motion_def by (auto intro!: stays_rules stays_read)

lemma stays_saw_still: "stays (saw_still env m)"
  unfolding saw_still_def by (auto intro!: stays_rules stays_read)

lemma stays_saw_tool: "stays (saw_tool env)"
  unfolding saw_tool_def by (auto intro!: stays_rules stays_read)

lemma stays_saw_hand: "stays (saw_hand env m)"
  unfolding saw_hand_def by (auto intro!: stays_rules stays_read split: prod.splits option.splits)

lemma stays_wait_motion: "stays (wait_motion_complete env timeout still moving)"
  unfolding wait_motion_complete_def
  by (auto intro!: stays_rules stays_read stays_sleep stays_poll stays_saw_motion stays_saw_still)

lemma stays_wait_vision: "stays (exec_wait_vision_gripper_xy env)"
  unfolding exec_wait_vision_gripper_xy_def
  by (auto intro!: stays_rules stays_poll stays_saw_tool stays_private)

lemma stays_wait_hand: "stays (wait_hand_pose env)"
  unfolding wait_hand_pose_def Let_def by (auto intro!: stays_rules stays_poll stays_saw_hand)

lemma stays_top_xy:
  assumes "\<And>p :: tool_pose. \<And>ori.
    check_vision_coords (en_cfg env) (tp_x p) (tp_y p) (tc_approach_z (en_cfg env)) \<Longrightarrow>
    own (MoveLineReq (vision_req (tp_x p # tp_y p # tc_approach_z (en_cfg env) # ori)))"
  shows "stays (exec_move_l_top_xy env)"
  unfolding exec_move_l_top_xy_def
  by (intro stays_bind stays_read stays_cond stays_sum stays_movel stays_gets stays_ret stays_fail)
    (use assms in auto)

lemma stays_tool_xyz:
  assumes "\<And>p :: tool_pose. \<And>z ori. check_vision_coords (en_cfg env) (tp_x p) (tp_y p) z \<Longrightarrow>
    own (MoveLineReq (vision_req (tp_x p # tp_y p # z # ori)))"
  shows "stays (exec_move_l_tool_xyz env)"
  unfolding exec_move_l_tool_xyz_def Let_def
  by (intro stays_bind stays_read stays_cond stays_sum stays_movel stays_gets stays_ret stays_fail)
    (use assms in auto)

lemma stays_status: "stays (publish_status b)"
  unfolding publish_status_def by (rule stays_plumb) simp

lemma stays_set_plc: "own (PlcState x) \<Longrightarrow> stays (set_plc x)"
  unfolding set_plc_def by (rule stays_emit)

lemma stays_feedback: "(\<And>n. own (Feedback n phase x)) \<Longrightarrow> stays (feedback g phase x)"
  unfolding feedback_def by (cases g) (auto intro!: stays_ret stays_emit)

lemma stays_track: "stays (track_grip track st ok)"
  unfolding track_grip_def by (cases "pulse st") (auto intro!: stays_ret stays_private)

lemma stays_run_steps:
  "(\<And>st. st \<in> set steps \<Longrightarrow> stays (exec_step env st)) \<Longrightarrow>
   (\<And>n f x. own (Feedback n f x)) \<Longrightarrow> stays (run_steps env g track n i steps)"
proof (induction steps arbitrary: i)
  case Nil
  show ?case by (simp del: op_simps add: stays_ret)
next
  case (Cons st rest)
  have "stays (exec_step env st)" by (rule Cons.prems) simp
  moreover have "stays (run_steps env g track n j rest)" for j
    by (rule Cons.IH) (simp_all add: Cons.prems)
  ultimately show ?case
    by (auto simp del: op_simps intro!: stays_bind stays_seq stays_read stays_feedback stays_track
        stays_ret stays_option Cons.prems(2))
qed

lemma stays_run_sequence:
  "(\<And>st. st \<in> set steps \<Longrightarrow> stays (exec_step env st)) \<Longrightarrow>
   (\<And>n f x. own (Feedback n f x)) \<Longrightarrow> stays (run_sequence env g steps)"
  unfolding run_sequence_def by (rule stays_run_steps)

lemma stays_run_plan:
  assumes run: "\<And>steps. plan = Inr steps \<Longrightarrow> stays (run_sequence env (Some g) steps)"
    and moving: "own (PlcState ''moving'')"
  shows "stays (run_plan env g plan)"
proof -
  have "stays (bind_op (built plan) (run_sequence env (Some g)))"
  proof (cases plan)
    case (Inr steps)
    then have "bind_op (built plan) (run_sequence env (Some g)) = run_sequence env (Some g) steps"
      by (simp add: fun_eq_iff bind_op_def built_def)
    with run [OF Inr] show ?thesis by simp
  next
    case (Inl e)
    then have "bind_op (built plan) (run_sequence env (Some g)) = fail_op ''motion sequence''"
      by (simp add: fun_eq_iff bind_op_def built_def)
    then show ?thesis by (simp add: stays_fail)
  qed
  then show ?thesis
    unfolding run_plan_def by (intro stays_seq stays_set_tcp stays_status stays_set_plc moving)
qed

lemma stays_run_hand_plan:
  assumes run: "stays (run_steps env (Some g) True (length steps) 0 steps)"
    and moving: "own (PlcState ''moving'')"
  shows "stays (run_hand_plan env g tool_id holding steps)"
proof -
  have "stays (modify_op (\<lambda>s. s\<lparr>ts_tool_id := tool_id, ts_approach := None, ts_grip_taken := holding\<rparr>))"
  proof (rule stays_modify)
    fix s
    show "R s (s\<lparr>ts_tool_id := tool_id, ts_approach := None, ts_grip_taken := holding\<rparr>)"
      by (rule trans [OF forgets frame]) simp_all
  qed
  with run show ?thesis
    unfolding run_hand_plan_def run_sequence_handover_def
    by (intro stays_seq stays_set_tcp stays_status stays_set_plc moving) (simp_all add: stays_private)
qed

end

text \<open>
  A view of the state, told by the trace, that neither events nor plumbing change: an operation
  settles when it returns, with \<open>P\<close>, and the view is as before.
\<close>

locale view = tas_order "\<lambda>s t. F t = F s" env own for F :: "tas \<Rightarrow> 'b" and env own +
  assumes by_trace: "ts_outs t = ts_outs s \<Longrightarrow> F t = F s"
begin

definition settles :: "('a \<Rightarrow> bool) \<Rightarrow> 'a tas_op \<Rightarrow> bool" where
  "settles P m \<longleftrightarrow> (\<forall>s. \<exists>a t. m s = (Inr a, t) \<and> P a \<and> F t = F s)"

lemma view_same:
  assumes "stays m" "m s = (r, t)"
  shows "F t = F s"
proof -
  have "F (snd (m s)) = F s" using assms(1) by (rule staysD)
  then show ?thesis by (simp only: assms(2) snd_conv)
qed

lemma settles_ret: "P a \<Longrightarrow> settles P (ret_op a)"
  by (simp add: settles_def)

lemma settles_emit: "own x \<Longrightarrow> P () \<Longrightarrow> settles P (emit x)"
  using sends by (simp add: settles_def emit_def)

lemma settles_plc: "own (PlcState x) \<Longrightarrow> P () \<Longrightarrow> settles P (set_plc x)"
  by (simp add: set_plc_def settles_emit)

lemma settles_status: "P () \<Longrightarrow> settles P (publish_status b)"
  by (simp add: publish_status_def settles_emit plumbing)

lemma settles_modify: "(\<And>s. ts_outs (f s) = ts_outs s) \<Longrightarrow> P () \<Longrightarrow> settles P (modify_op f)"
  using by_trace [of "f s" s for s] by (simp add: settles_def)

lemma settles_gets: "(\<And>s. P (f s)) \<Longrightarrow> settles P (gets_op f)"
  by (simp add: settles_def)

lemma settles_bind: "settles Q m \<Longrightarrow> (\<And>a. Q a \<Longrightarrow> settles P (f a)) \<Longrightarrow> settles P (bind_op m f)"
  unfolding settles_def by (metis bind_op_Inr)

lemma settles_seq: "settles (\<lambda>_. True) m \<Longrightarrow> settles P k \<Longrightarrow> settles P (seq_op m k)"
  unfolding seq_op_def by (rule settles_bind)

lemma settles_if: "(b \<Longrightarrow> settles P m) \<Longrightarrow> (\<not> b \<Longrightarrow> settles P k) \<Longrightarrow> settles P (if b then m else k)"
  by simp

lemma settles_read: "(\<And>s. P (f s)) \<Longrightarrow> settles P (read_flag env f)"
  using arrives by (simp add: settles_def read_flag_def seq_op_def bind_op_def observe_def)

lemma settles_log: "P () \<Longrightarrow> settles P (log_event_async env ev nts)"
  unfolding settles_def
proof
  fix s
  assume P: "P ()"
  obtain r t where t: "log_event_async env ev nts s = (r, t)" by (cases "log_event_async env ev nts s")
  moreover have "F t = F s" by (rule view_same [OF stays_log t])
  moreover have "is_ok (fst (log_event_async env ev nts s))"
    by (auto simp: log_event_async_def catch_op_def is_ok_iff split: prod.splits sum.splits)
  ultimately show "\<exists>a t. log_event_async env ev nts s = (Inr a, t) \<and> P a \<and> F t = F s"
    using P by (auto simp: is_ok_iff)
qed

lemma settles_set_tcp: "settles (\<lambda>_. True) (set_tcp env)"
  unfolding settles_def
proof
  fix s
  obtain r t where t: "set_tcp env s = (r, t)" by (cases "set_tcp env s")
  moreover have "F t = F s" by (rule view_same [OF stays_set_tcp t])
  moreover have "is_ok (fst (set_tcp env s))"
    by (auto simp: set_tcp_def catch_op_def is_ok_iff split: prod.splits sum.splits)
  ultimately show "\<exists>a t. set_tcp env s = (Inr a, t) \<and> True \<and> F t = F s"
    by (auto simp: is_ok_iff)
qed

lemma settles_release: "P () \<Longrightarrow> settles P release"
  by (simp add: release_def settles_modify)

lemma settles_finish_hand:
  assumes "own (PlcState ''error'')"
  shows "settles (\<lambda>_. True) finish_hand"
  unfolding finish_hand_def
  by (intro settles_seq settles_bind [where Q = "\<lambda>_. True"] settles_gets settles_if settles_modify
      settles_plc settles_status settles_release assms) simp_all

lemma settles_acquire: "settles (\<lambda>_. True) acquire"
  unfolding acquire_def
  by (intro settles_bind [where Q = "\<lambda>_. True"] settles_seq settles_gets settles_if settles_modify
      settles_ret) simp_all

lemma settles_still_wanted: "settles (\<lambda>good. good \<longrightarrow> ok) (still_wanted env g ok)"
  unfolding still_wanted_def
  by (intro settles_if settles_bind [OF settles_read [where P = "\<lambda>_. True"]] settles_ret) simp_all

lemmas settles_rules =
  settles_ret settles_emit settles_plc settles_status settles_modify settles_gets settles_seq
  settles_if settles_log

end

text \<open>Relations that see neither the messages about goals nor the state shown on the PLC display.\<close>

locale tas_calm = tas_order +
  assumes calm: "\<not> is_move x \<Longrightarrow> x \<noteq> PlcState ''e_stop'' \<Longrightarrow> own x"
begin

lemma stays_say: "\<not> is_move x \<Longrightarrow> x \<noteq> PlcState ''e_stop'' \<Longrightarrow> stays (emit x)"
  by (intro stays_emit calm)

lemma stays_plc: "x \<noteq> ''e_stop'' \<Longrightarrow> stays (set_plc x)"
  by (intro stays_set_plc calm) simp_all

lemma stays_conclude: "stays (conclude env g tool_id ok)"
  unfolding conclude_def still_wanted_def
  by (auto intro!: stays_rules stays_read stays_say stays_plc)

lemma stays_acquire: "stays acquire"
  unfolding acquire_def by (auto intro!: stays_rules stays_private)

lemma stays_release: "stays release"
  unfolding release_def by (auto intro!: stays_private)

lemma stays_busy_goal: "stays (busy_goal g)"
  unfolding busy_goal_def by (auto intro!: stays_rules stays_say)

lemma stays_sequence_action:
  "(\<And>steps. plan = Inr steps \<Longrightarrow> stays (run_sequence env (Some g) steps)) \<Longrightarrow>
   stays (sequence_action env g tool_id plan)"
  unfolding sequence_action_def
  by (intro stays_bind stays_seq stays_cond stays_catch stays_acquire stays_busy_goal stays_run_plan calm
      stays_conclude stays_say stays_plc stays_status stays_release stays_ret) simp_all

lemma stays_conclude_hand: "stays (conclude_hand env g tool_id ok)"
  unfolding conclude_hand_def still_wanted_def
  by (auto intro!: stays_rules stays_read stays_say stays_plc stays_log)

lemma stays_finish_hand: "stays finish_hand"
proof -
  have "stays (modify_op (\<lambda>s. s\<lparr>ts_tool_id := [], ts_approach := None\<rparr>))"
  proof (rule stays_modify)
    fix s
    show "R s (s\<lparr>ts_tool_id := [], ts_approach := None\<rparr>)"
      by (rule trans [OF forgets frame]) simp_all
  qed
  then show ?thesis
    unfolding finish_hand_def
    by (intro stays_seq stays_bind stays_gets stays_cond stays_plc stays_status stays_release)
      (simp_all add: stays_private)
qed

lemma stays_hand_action:
  "stays (run_steps env (Some g) True (length steps) 0 steps) \<Longrightarrow>
   stays (hand_action env g tool_id holding steps)"
  unfolding hand_action_def
  by (intro stays_bind stays_seq stays_cond stays_catch stays_acquire stays_busy_goal
      stays_run_hand_plan calm stays_conclude_hand stays_say stays_plc stays_log stays_finish_hand
      stays_ret) simp_all

lemma stays_sequence_service:
  "stays (run_sequence env None steps) \<Longrightarrow> stays exc_state \<Longrightarrow>
   stays (sequence_service env label exc_state steps)"
  unfolding sequence_service_def run_service_def
  by (intro stays_bind stays_seq stays_cond stays_catch stays_gets stays_acquire stays_set_tcp
      stays_plc stays_status stays_release stays_ret) simp_all

end

text \<open>Relations that do not look at the saved hand position and allow every request.\<close>

locale tas_free = tas_order +
  assumes remembers: "R s (s\<lparr>ts_approach := q\<rparr>)"
    and moves: "is_move x \<Longrightarrow> own x"
begin

lemma stays_final_approach: "stays (final_approach env pos)"
  unfolding final_approach_def
  by (auto intro!: stays_rules stays_wait_motion stays_read stays_call moves)

lemma stays_approach: "stays (move_hand_rz_approach env handle_first)"
  unfolding move_hand_rz_approach_def Let_def
  by (auto intro!: stays_rules stays_read stays_call stays_final_approach moves
      stays_modify remembers split: prod.splits)

lemma stays_place: "stays (move_hand_place env handle_first)"
  unfolding move_hand_place_def
  by (auto intro!: stays_rules stays_read stays_call stays_wait_motion stays_sleep moves)

lemma stays_exec_step: "stays (exec_step env st)"
  unfolding exec_step_def
  by (cases "kind st")
    (auto intro!: stays_movel stays_movej stays_grip stays_seq stays_sleep stays_ret
      stays_wait_vision stays_wait_hand stays_top_xy stays_tool_xyz stays_approach stays_place moves
      simp del: op_simps)

end

text \<open>Both at once: relations every handler keeps.\<close>

locale tas_whole = tas_calm + tas_free
begin

lemma stays_any_feedback: "own (Feedback n f x)"
  by (rule calm) simp_all

lemmas stays_any_run =
  stays_run_steps [OF stays_exec_step stays_any_feedback]
  stays_run_sequence [OF stays_exec_step stays_any_feedback]

lemmas stays_handlers =
  stays_sequence_action [OF stays_any_run(2)] stays_hand_action [OF stays_any_run(1)]
  stays_sequence_service [OF stays_any_run(2)]

end

text \<open>An event at a time.\<close>

lemma observe_by_events:
  assumes "\<And>s. R s s" and "\<And>s t u. R s t \<Longrightarrow> R t u \<Longrightarrow> R s u"
    and "\<And>s. R s (s\<lparr>ts_tick := Suc (ts_tick s)\<rparr>)"
    and ev: "\<And>ev s. ev \<in> set (en_events env (ts_tick s0)) \<Longrightarrow> R s (on_event env ev s)"
  shows "R s0 (snd (observe env s0))"
proof -
  have "R s (fold (on_event env) evs s)" if "set evs \<subseteq> set (en_events env (ts_tick s0))" for evs s
    using that
  proof (induction evs arbitrary: s)
    case (Cons e es)
    have "R s (on_event env e s)" using Cons.prems by (intro ev) simp
    moreover have "R (on_event env e s) (fold (on_event env) es (on_event env e s))"
      using Cons.prems by (intro Cons.IH) simp
    ultimately have "R s (fold (on_event env) es (on_event env e s))" by (rule assms(2))
    then show ?case by simp
  qed (simp add: assms(1))
  then show ?thesis
    by (auto simp: observe_def intro: assms(2) [OF assms(3)])
qed

lemma emit_snd [simp]: "snd (emit x s) = s\<lparr>ts_outs := ts_outs s @ [x]\<rparr>" "fst (emit x s) = Inr ()"
  by (simp_all add: emit_def)

lemma service_ready_snd [simp]: "snd (service_ready env sv s) = s"
  by (simp add: service_ready_def bind_op_def split: readiness.splits)

text \<open>What the two E-stop services do to the state, whatever services are up.\<close>

definition log_outs :: "tas_env \<Rightarrow> string \<Rightarrow> string \<Rightarrow> tas \<Rightarrow> tas_out list" where
  "log_outs env ev nts s =
     (if en_ready env (ts_tick s) LogEvent = Ready then [LogEventReq [] ev ''A'' nts] else [])"

lemma log_event_async_eq:
  "log_event_async env ev nts s = (Inr (), s\<lparr>ts_outs := ts_outs s @ log_outs env ev nts s\<rparr>)"
  by (simp add: log_event_async_def catch_op_def bind_op_def service_ready_def emit_def log_outs_def
      split: readiness.splits)

definition stop_outs :: "tas_env \<Rightarrow> tas \<Rightarrow> tas_out list" where
  "stop_outs env s = (if en_ready env (ts_tick s) MoveStop = Ready then [MoveStopReq] else [])"

lemma on_estop_eq:
  "on_estop env s =
     (Inr \<lparr>ar_success = True, ar_message = Latched\<rparr>,
      s\<lparr>ts_estop := True,
        ts_outs := ts_outs s @ [RobotMoving False, PlcState ''e_stop''] @ stop_outs env s
          @ log_outs env ''e_stop'' ''E-stop button'' s\<rparr>)"
  by (simp add: on_estop_def seq_op_def bind_op_def catch_op_def publish_status_def set_plc_def emit_def
      log_event_async_eq service_ready_def stop_outs_def log_outs_def split: readiness.splits)

lemma on_estop_reset_eq:
  "on_estop_reset env s =
     (Inr \<lparr>ar_success = True, ar_message = ResetDone\<rparr>,
      s\<lparr>ts_estop := False, ts_grip_taken := False,
        ts_outs := ts_outs s
          @ (if ts_grip_taken s then [PlcState ''error''] else [PlcState ''idle'', RobotMoving False])
          @ log_outs env ''e_stop_reset'' ''operator released the E-stop latch'' s\<rparr>)"
  by (simp add: on_estop_reset_def seq_op_def bind_op_def publish_status_def set_plc_def emit_def
      log_event_async_eq log_outs_def)

text \<open>Everything an event sends.\<close>

definition event_outs :: "tas_env \<Rightarrow> tas_event \<Rightarrow> tas \<Rightarrow> tas_out list" where
  "event_outs env ev s =
     (case ev of
        EvEstop \<Rightarrow> [RobotMoving False, PlcState ''e_stop''] @ stop_outs env s
          @ log_outs env ''e_stop'' ''E-stop button'' s
      | EvEstopReset \<Rightarrow>
          (if ts_grip_taken s then [PlcState ''error''] else [PlcState ''idle'', RobotMoving False])
          @ log_outs env ''e_stop_reset'' ''operator released the E-stop latch'' s
      | EvGoal g \<Rightarrow> [if ts_estop s then GoalRejected g else GoalAbort g]
      | EvTrigger \<Rightarrow> [TriggerAnswer False (if ts_estop s then Latched else Busy)]
      | _ \<Rightarrow> [])"

lemma busy_goal_eq:
  "busy_goal g s = (Inr \<lparr>ar_success = False, ar_message = Busy\<rparr>, s\<lparr>ts_outs := ts_outs s @ [GoalAbort g]\<rparr>)"
  by (simp add: busy_goal_def seq_op_def bind_op_def emit_def)

lemma on_tool_gripper_pose_frame:
  "\<exists>p. on_tool_gripper_pose m s = s\<lparr>ts_gripper := p\<rparr>"
  by (cases "pm_quat m") (auto simp: on_tool_gripper_pose_def Let_def)

lemmas event_eqs =
  on_event_def on_estop_eq on_estop_reset_eq goal_callback_def busy_goal_eq on_hand_pose_def
  on_hand_ready_def on_joint_states_def

text \<open>The event's effect on the fields the development reasons about.\<close>

lemma on_event_frame:
  "ts_outs (on_event env ev s) = ts_outs s @ event_outs env ev s
   \<and> ts_now (on_event env ev s) = ts_now s
   \<and> ts_estop (on_event env ev s) = (ev = EvEstop \<or> ev \<noteq> EvEstopReset \<and> ts_estop s)
   \<and> set (ts_cancels s) \<subseteq> set (ts_cancels (on_event env ev s))
   \<and> ts_approach (on_event env ev s) = ts_approach s
   \<and> ts_busy (on_event env ev s) = ts_busy s"
proof (cases ev)
  case (EvToolPose m)
  obtain p where "on_tool_gripper_pose m s = s\<lparr>ts_gripper := p\<rparr>"
    using on_tool_gripper_pose_frame by blast
  with EvToolPose show ?thesis by (simp add: on_event_def event_outs_def)
qed (auto simp: event_eqs event_outs_def)

lemmas on_event_simps [simp] =
  on_event_frame [THEN conjunct1]
  on_event_frame [THEN conjunct2, THEN conjunct1]
  on_event_frame [THEN conjunct2, THEN conjunct2, THEN conjunct1]
  on_event_frame [THEN conjunct2, THEN conjunct2, THEN conjunct2, THEN conjunct1]
  on_event_frame [THEN conjunct2, THEN conjunct2, THEN conjunct2, THEN conjunct2, THEN conjunct1]
  on_event_frame [THEN conjunct2, THEN conjunct2, THEN conjunct2, THEN conjunct2, THEN conjunct2]

lemma event_outs_still: "list_all (\<lambda>x. \<not> is_move x) (event_outs env ev s)"
  by (cases ev) (simp_all add: event_outs_def stop_outs_def log_outs_def)

section \<open>The relations the development uses\<close>

definition later :: "tas \<Rightarrow> tas \<Rightarrow> bool" where
  "later s t \<longleftrightarrow> ts_now s \<le> ts_now t"

interpretation clock: tas_whole later env "\<lambda>_. True" for env
proof unfold_locales
  fix s
  show "later s (snd (observe env s))"
    by (rule observe_by_events) (auto simp: later_def)
qed (auto simp: later_def)

definition remembered :: "tas \<Rightarrow> tas \<Rightarrow> bool" where
  "remembered s t \<longleftrightarrow> set (ts_cancels s) \<subseteq> set (ts_cancels t)"

interpretation cancels: tas_whole remembered env "\<lambda>_. True" for env
proof unfold_locales
  fix s
  show "remembered s (snd (observe env s))"
    by (rule observe_by_events) (simp_all add: remembered_def; blast)+
qed (auto simp: remembered_def)

definition trace_grows :: "tas \<Rightarrow> tas \<Rightarrow> bool" where
  "trace_grows = extends_by ts_outs (\<lambda>_. True)"

lemma trace_growsI: "ts_outs t = ts_outs s @ ext \<Longrightarrow> trace_grows s t"
  by (auto simp: trace_grows_def extends_by_def list_all_iff)

lemma trace_growsE:
  assumes "trace_grows s t"
  obtains ext where "ts_outs t = ts_outs s @ ext"
  using assms by (auto simp: trace_grows_def extends_by_def)

interpretation trace: tas_whole trace_grows env "\<lambda>_. True" for env
proof unfold_locales
  show "trace_grows s s" for s by (rule trace_growsI [of _ _ "[]"]) simp
  show trans: "trace_grows s u" if "trace_grows s t" "trace_grows t u" for s t u
    using that by (auto elim!: trace_growsE intro: trace_growsI)
  show "trace_grows s (snd (observe env s))" for s
    by (rule observe_by_events) (auto intro: trace_growsI [of _ _ "[]"] trace_growsI trans)
qed (auto intro: trace_growsI [of _ _ "[]"] trace_growsI)

text \<open>
  While no reset is requested, the trace since its \<open>n\<close>-th message shows an E-stop only when the
  latch is set.
\<close>

definition no_resets :: "tas_env \<Rightarrow> bool" where
  "no_resets env \<longleftrightarrow> (\<forall>k. EvEstopReset \<notin> set (en_events env k))"

definition stop_is_latched :: "nat \<Rightarrow> tas \<Rightarrow> bool" where
  "stop_is_latched n s \<longleftrightarrow> (PlcState ''e_stop'' \<in> set (drop n (ts_outs s)) \<longrightarrow> ts_estop s)"

lemma stop_is_latched_append:
  assumes "stop_is_latched n s" and "ts_outs t = ts_outs s @ ext" and "ts_estop s \<Longrightarrow> ts_estop t"
    and "PlcState ''e_stop'' \<in> set ext \<Longrightarrow> ts_estop t"
  shows "stop_is_latched n t"
  using assms by (auto simp: stop_is_latched_def dest: in_set_dropD)

lemma event_outs_estop:
  "PlcState ''e_stop'' \<in> set (event_outs env ev s) \<longleftrightarrow> ev = EvEstop"
  by (cases ev) (auto simp: event_outs_def stop_outs_def log_outs_def)

lemma latch_order:
  assumes "no_resets env"
  shows "tas_whole (keeps (stop_is_latched n)) env (\<lambda>x. x \<noteq> PlcState ''e_stop'')"
proof unfold_locales
  show "keeps (stop_is_latched n) s (snd (observe env s))" for s
  proof (rule observe_by_events)
    fix ev r
    assume "ev \<in> set (en_events env (ts_tick s))"
    with assms have ev: "ev \<noteq> EvEstopReset" by (auto simp: no_resets_def)
    show "keeps (stop_is_latched n) r (on_event env ev r)"
      unfolding keeps_def
    proof
      assume "stop_is_latched n r"
      then show "stop_is_latched n (on_event env ev r)"
        by (rule stop_is_latched_append [where ext = "event_outs env ev r"])
          (use ev in \<open>auto simp: event_outs_estop\<close>)
    qed
  qed (auto simp: keeps_def stop_is_latched_def)
  show "keeps (stop_is_latched n) s (s\<lparr>ts_outs := ts_outs s @ [x]\<rparr>)" if "x \<noteq> PlcState ''e_stop''" for s x
    unfolding keeps_def using that by (auto intro: stop_is_latched_append)
qed (auto simp: keeps_def stop_is_latched_def)

text \<open>The latch itself stays set.\<close>

definition stays_latched :: "tas \<Rightarrow> tas \<Rightarrow> bool" where
  "stays_latched s t \<longleftrightarrow> (ts_estop s \<longrightarrow> ts_estop t)"

lemma latched_order:
  assumes "no_resets env"
  shows "tas_whole stays_latched env (\<lambda>_. True)"
proof unfold_locales
  show "stays_latched s (snd (observe env s))" for s
    by (rule observe_by_events) (use assms in \<open>auto simp: stays_latched_def no_resets_def\<close>)
qed (auto simp: stays_latched_def)

section \<open>Counting motion commands\<close>

definition moves_in :: "tas_out list \<Rightarrow> nat" where
  "moves_in tr = length (filter is_move tr)"

lemma moves_in_simps [simp]:
  "moves_in [] = 0" "moves_in (x # xs) = (if is_move x then 1 else 0) + moves_in xs"
  "moves_in (xs @ ys) = moves_in xs + moves_in ys"
  by (simp_all add: moves_in_def)

lemma moves_in_0_iff: "moves_in tr = 0 \<longleftrightarrow> list_all (\<lambda>x. \<not> is_move x) tr"
  by (induction tr) simp_all

definition still :: "tas \<Rightarrow> tas \<Rightarrow> bool" where
  "still s t \<longleftrightarrow> moves_in (ts_outs t) = moves_in (ts_outs s)"

interpretation still: tas_calm still env "\<lambda>x. \<not> is_move x" for env
proof unfold_locales
  show "still s (snd (observe env s))" for s
    by (rule observe_by_events)
      (use event_outs_still [of env] in \<open>simp_all add: still_def moves_in_0_iff\<close>)
qed (auto simp: still_def is_plumbing_def split: tas_out.splits)

text \<open>An operation that sends at most \<open>n\<close> motion commands, whatever happens.\<close>

definition spends :: "nat \<Rightarrow> 'a tas_op \<Rightarrow> bool" where
  "spends n m \<longleftrightarrow> (\<forall>s. moves_in (ts_outs (snd (m s))) \<le> moves_in (ts_outs s) + n)"

lemma spendsI: "(\<And>s. moves_in (ts_outs (snd (m s))) \<le> moves_in (ts_outs s) + n) \<Longrightarrow> spends n m"
  by (simp add: spends_def)

lemma spendsD: "spends n m \<Longrightarrow> m s = (r, t) \<Longrightarrow> moves_in (ts_outs t) \<le> moves_in (ts_outs s) + n"
  by (metis snd_conv spends_def)

lemma spends_still: "still.stays m \<Longrightarrow> spends n m"
  by (simp add: still.stays_def still_def spends_def)

lemma spends_mono: "spends k m \<Longrightarrow> k \<le> n \<Longrightarrow> spends n m"
  unfolding spends_def by (meson add_left_mono order_trans)

lemma spends_bind:
  assumes m: "spends a m" and f: "\<And>x. spends b (f x)" and n: "a + b \<le> n"
  shows "spends n (bind_op m f)"
proof (rule spendsI)
  fix s
  obtain r t where eq: "m s = (r, t)" by (cases "m s")
  have le: "moves_in (ts_outs t) \<le> moves_in (ts_outs s) + a" using m eq by (rule spendsD)
  show "moves_in (ts_outs (snd (bind_op m f s))) \<le> moves_in (ts_outs s) + n"
  proof (cases r)
    case (Inl e)
    with eq le n show ?thesis by (simp add: bind_op_def)
  next
    case (Inr x)
    obtain r' u where u: "f x t = (r', u)" by (cases "f x t")
    have "moves_in (ts_outs u) \<le> moves_in (ts_outs t) + b" using f u by (rule spendsD)
    with eq Inr u le n show ?thesis by (simp add: bind_op_def)
  qed
qed

lemma spends_first: "spends n m \<Longrightarrow> (\<And>x. still.stays (f x)) \<Longrightarrow> spends n (bind_op m f)"
  by (rule spends_bind [where a = n and b = 0]) (auto intro: spends_still)

lemma spends_then: "still.stays m \<Longrightarrow> (\<And>x. spends n (f x)) \<Longrightarrow> spends n (bind_op m f)"
  by (rule spends_bind [where a = 0 and b = n]) (auto intro: spends_still)

lemma spends_if: "spends n m \<Longrightarrow> spends n k \<Longrightarrow> spends n (if b then m else k)"
  by simp

lemma spends_seq_then: "still.stays m \<Longrightarrow> spends n k \<Longrightarrow> spends n (seq_op m k)"
  unfolding seq_op_def by (rule spends_then)

lemma spends_emit: "spends (Suc 0) (emit x)"
  by (rule spendsI) simp

lemma spends_call: "spends (Suc 0) (call_and_wait env x)"
proof -
  have "spends (Suc 0) (seq_op (emit x) (seq_op (observe env) k))" if "still.stays k"
    for k :: "(bool \<times> string) option option tas_op"
    unfolding seq_op_def
    using that by (intro spends_first spends_emit still.stays_bind still.stays_observe)
  note sent = this
  show ?thesis
    unfolding call_and_wait_def
    by (intro spends_seq_then spends_then still.stays_observe still.stays_gets)
      (auto split: reply.splits intro: sent spends_still still.stays_fail still.stays_ret)
qed

lemmas still_rules =
  still.stays_rules still.stays_read still.stays_sleep still.stays_wait_motion still.stays_poll

lemma spends_movel: "spends (Suc 0) (movel env st mode)"
  unfolding movel_def
  by (cases "pose st") (auto intro!: spends_first spends_call still_rules intro: spends_still)

lemma spends_movej: "spends (Suc 0) (movej env st)"
  unfolding movej_def
  by (cases "pose st") (auto intro!: spends_first spends_call still_rules intro: spends_still)

lemma spends_grip: "spends (Suc 0) (do_grip env st)"
  unfolding do_grip_def by (auto intro!: spends_first spends_call still_rules)

lemma spends_top_xy: "spends (Suc 0) (exec_move_l_top_xy env)"
  unfolding exec_move_l_top_xy_def
  by (intro spends_then still.stays_read spends_if)
    (auto intro!: spends_movel spends_still still_rules split: sum.splits)

lemma spends_tool_xyz: "spends (Suc 0) (exec_move_l_tool_xyz env)"
  unfolding exec_move_l_tool_xyz_def Let_def
  by (intro spends_then still.stays_read still.stays_gets spends_if)
    (auto intro!: spends_movel spends_still still_rules split: sum.splits)

end
