(* ===== verification/TasSafety.thy ===== *)
theory TasSafety imports TasOrder "HOL-Library.Sublist" begin

text \<open>
  The properties of the tool action server: how many motion commands can follow an E-stop, that
  the commands sent are a prefix of the planned sequence, that a goal ends once and the lock is
  released, where camera-guided moves may go, that the waiting loops end by their deadline.
\<close>

section \<open>Motion commands after an E-stop\<close>

lemma spends_0 [intro]: "spends n (ret_op a)" "spends n (fail_op e)"
  by (simp_all add: spends_def)

lemma spends_place: "spends (Suc 0) (move_hand_place env handle_first)"
  unfolding move_hand_place_def
  by (intro spends_then still.stays_read)
    (auto intro!: spends_first spends_call still_rules intro: spends_still split: option.splits)

lemma spends_final_approach: "spends (Suc 0) (final_approach env pos)"
  unfolding final_approach_def
  by (rule spends_seq_then, rule still.stays_wait_motion, rule spends_then, rule still.stays_read)
    (auto intro!: spends_first spends_call still_rules intro: spends_still)

lemma spends_approach: "spends 2 (move_hand_rz_approach env handle_first)"
proof -
  have tail: "spends 2 (bind_op (call_and_wait env x) (\<lambda>a. case a of None \<Rightarrow> ret_op False
      | Some res \<Rightarrow> if \<not> res_ok res then ret_op False else final_approach env pos))" for x pos
    by (rule spends_bind [where a = "Suc 0" and b = "Suc 0"])
      (auto intro!: spends_call spends_final_approach spends_still still.stays_ret split: option.splits)
  have store: "still.stays (modify_op (\<lambda>s. s\<lparr>ts_approach := q\<rparr>))" for q
    by (rule still.stays_modify) (simp add: still_def)
  show ?thesis
    unfolding move_hand_rz_approach_def Let_def
    by (intro spends_then still.stays_read)
      (auto intro!: spends_then spends_seq_then still.stays_gets store tail
        split: option.splits sum.splits prod.splits)
qed

text \<open>How many motion commands a step can send.\<close>

definition step_cost :: "step_kind \<Rightarrow> nat" where
  "step_cost k =
     (if k \<in> {MOVE_L_HAND_RZ_APPROACH, MOVE_L_HAND_RZ_APPROACH_HANDLE} then 2 else 1)"

lemma spends_exec_step: "spends (step_cost (kind st)) (exec_step env st)"
  unfolding exec_step_def step_cost_def
  by (cases "kind st")
    (auto intro: spends_movel spends_movej spends_grip spends_top_xy spends_tool_xyz spends_place
      spends_approach spends_still still.stays_wait_vision still.stays_wait_hand
      still.stays_seq still.stays_sleep still.stays_ret simp del: op_simps)

definition plan_cost :: "motion_step list \<Rightarrow> nat" where
  "plan_cost steps = (if list_all (\<lambda>st. step_cost (kind st) = 1) steps then 1 else 2)"

lemma plan_cost_bound: "st \<in> set steps \<Longrightarrow> step_cost (kind st) \<le> plan_cost steps"
  by (auto simp: plan_cost_def step_cost_def list_all_iff)

text \<open>The motion commands after the first E-stop in a trace.\<close>

fun moves_after_stop :: "tas_out list \<Rightarrow> nat" where
  "moves_after_stop [] = 0"
| "moves_after_stop (x # xs) =
     (if x = PlcState ''e_stop'' then moves_in xs else moves_after_stop xs)"

lemma moves_after_stop_le: "moves_after_stop xs \<le> moves_in xs"
  by (induction xs) auto

lemma moves_after_stop_append: "moves_after_stop (xs @ ys) \<le> moves_after_stop xs + moves_in ys"
  by (induction xs) (auto intro: moves_after_stop_le)

lemma moves_after_stop_fresh:
  "PlcState ''e_stop'' \<notin> set xs \<Longrightarrow> moves_after_stop (xs @ ys) = moves_after_stop ys"
  by (induction xs) auto

text \<open>
  From a state \<open>s\<close> whose trace since message \<open>n\<close> shows at most \<open>c\<close> commands after a stop, an
  operation leads to such a state.
\<close>

definition late_moves :: "nat \<Rightarrow> tas \<Rightarrow> nat" where
  "late_moves n s = moves_after_stop (drop n (ts_outs s))"

lemma late_moves_step:
  assumes "trace.stays m" and "spends k m" and "n \<le> length (ts_outs s)" and "m s = (r, t)"
  shows "late_moves n t \<le> late_moves n s + k \<and> n \<le> length (ts_outs t)"
    and "PlcState ''e_stop'' \<notin> set (drop n (ts_outs s)) \<Longrightarrow> late_moves n t \<le> k"
proof -
  obtain ext where ext: "ts_outs t = ts_outs s @ ext"
    using trace.staysD' [OF assms(1,4)] by (rule trace_growsE)
  then have k: "moves_in ext \<le> k" using spendsD [OF assms(2,4)] by simp
  show "late_moves n t \<le> late_moves n s + k \<and> n \<le> length (ts_outs t)"
    using moves_after_stop_append [of "drop n (ts_outs s)" ext] ext k assms(3)
    by (simp add: late_moves_def)
  show "late_moves n t \<le> k" if "PlcState ''e_stop'' \<notin> set (drop n (ts_outs s))"
    using moves_after_stop_fresh [OF that, of ext] moves_after_stop_le [of ext] ext k assms(3)
    by (simp add: late_moves_def)
qed

text \<open>What holds of the trace since message \<open>n\<close> all through a run.\<close>

definition stop_bounded :: "nat \<Rightarrow> nat \<Rightarrow> tas \<Rightarrow> bool" where
  "stop_bounded n c s \<longleftrightarrow> n \<le> length (ts_outs s) \<and> stop_is_latched n s \<and> late_moves n s \<le> c"

lemma stop_bounded_append:
  assumes "stop_bounded n c s" and "ts_outs t = ts_outs s @ ext"
    and "stop_is_latched n t" and "moves_in ext = 0"
  shows "stop_bounded n c t"
  using assms moves_after_stop_append [of "drop n (ts_outs s)" ext]
  by (simp add: stop_bounded_def late_moves_def)

text \<open>Everything but a motion command keeps the bound.\<close>

lemma stop_bounded_order:
  assumes nr: "no_resets env"
  shows "tas_calm (keeps (stop_bounded n c)) env (\<lambda>x. \<not> is_move x \<and> x \<noteq> PlcState ''e_stop'')"
proof unfold_locales
  show "keeps (stop_bounded n c) s (snd (observe env s))" for s
  proof (rule observe_by_events)
    fix ev r
    assume "ev \<in> set (en_events env (ts_tick s))"
    with nr have ev: "ev \<noteq> EvEstopReset" by (auto simp: no_resets_def)
    show "keeps (stop_bounded n c) r (on_event env ev r)"
      unfolding keeps_def
    proof
      assume r: "stop_bounded n c r"
      have "stop_is_latched n (on_event env ev r)"
        by (rule stop_is_latched_append [where s = r and ext = "event_outs env ev r"])
          (use r ev in \<open>auto simp: event_outs_estop stop_bounded_def\<close>)
      then show "stop_bounded n c (on_event env ev r)"
        by (intro stop_bounded_append [OF r]) (use event_outs_still in \<open>simp_all add: moves_in_0_iff\<close>)
    qed
  qed (auto simp: keeps_def stop_bounded_def stop_is_latched_def late_moves_def)
  show "keeps (stop_bounded n c) s (s\<lparr>ts_outs := ts_outs s @ [x]\<rparr>)"
    if "\<not> is_move x \<and> x \<noteq> PlcState ''e_stop''" for s x
    unfolding keeps_def
  proof
    assume s: "stop_bounded n c s"
    with that have "stop_is_latched n (s\<lparr>ts_outs := ts_outs s @ [x]\<rparr>)"
      by (auto simp: stop_bounded_def stop_is_latched_def)
    then show "stop_bounded n c (s\<lparr>ts_outs := ts_outs s @ [x]\<rparr>)"
      by (rule stop_bounded_append [OF s, where ext = "[x]", rotated]) (use that in auto)
  qed
qed (auto simp: keeps_def stop_bounded_def stop_is_latched_def late_moves_def is_plumbing_def
      split: tas_out.splits)

lemma stop_bounded_step:
  assumes nr: "no_resets env" and c: "step_cost (kind st) \<le> c"
    and s: "stop_bounded n 0 s"
  shows "stop_bounded n c (snd (exec_step env st s))"
proof -
  obtain r t where t: "exec_step env st s = (r, t)" by (cases "exec_step env st s")
  have "stop_is_latched n t"
    using keeps.staysD' [OF tas_free.stays_exec_step [OF tas_whole.axioms(2) [OF latch_order [OF nr]]] t, of n] s
    by (simp add: keeps_def stop_bounded_def)
  moreover have "spends c (exec_step env st)" by (rule spends_mono [OF spends_exec_step c])
  ultimately show ?thesis
    using late_moves_step(1) [OF trace.stays_exec_step _ _ t, of c n] s t by (simp add: stop_bounded_def)
qed

lemma stop_bounded_unlatched: "stop_bounded n c s \<Longrightarrow> \<not> ts_estop s \<Longrightarrow> stop_bounded n 0 s"
proof -
  assume s: "stop_bounded n c s" "\<not> ts_estop s"
  then have "PlcState ''e_stop'' \<notin> set (drop n (ts_outs s))"
    by (auto simp: stop_bounded_def stop_is_latched_def)
  from moves_after_stop_fresh [OF this, of "[]"] s show "stop_bounded n 0 s"
    by (simp add: stop_bounded_def late_moves_def)
qed

lemma stop_bounded_mono: "stop_bounded n a s \<Longrightarrow> a \<le> b \<Longrightarrow> stop_bounded n b s"
  by (simp add: stop_bounded_def)

text \<open>From \<open>I\<close> to \<open>J\<close>, whether the operation returns or raises.\<close>

definition leads :: "('s \<Rightarrow> bool) \<Rightarrow> ('s \<Rightarrow> bool) \<Rightarrow> ('s, 'e, 'a) op \<Rightarrow> bool" where
  "leads I J m \<longleftrightarrow> (\<forall>s. I s \<longrightarrow> J (snd (m s)))"

lemma leads_keeps: "keeps.stays I m \<Longrightarrow> leads I I m"
  by (simp add: leads_def keeps.stays_def keeps_def)

lemma leads_bind:
  assumes "leads I J m" "\<And>a. leads J K (f a)" "\<And>s. J s \<Longrightarrow> K s"
  shows "leads I K (bind_op m f)"
  unfolding leads_def
proof (intro allI impI)
  fix s
  assume "I s"
  obtain r t where t: "m s = (r, t)" by (cases "m s")
  with assms(1) \<open>I s\<close> have "J t" by (metis leads_def snd_conv)
  with assms(2,3) t show "K (snd (bind_op m f s))"
    by (cases r) (simp_all add: bind_op_def leads_def)
qed

lemma leads_seq:
  "leads I J m \<Longrightarrow> leads J K k \<Longrightarrow> (\<And>s. J s \<Longrightarrow> K s) \<Longrightarrow> leads I K (seq_op m k)"
  unfolding seq_op_def by (rule leads_bind)

lemma leads_if: "leads I J m \<Longrightarrow> leads I J k \<Longrightarrow> leads I J (if b then m else k)"
  by simp

lemma leads_ret: "(\<And>s. I s \<Longrightarrow> J s) \<Longrightarrow> leads I J (ret_op a)"
  by (simp add: leads_def)

lemma read_flag_eq: "read_flag env f s = (Inr (f (snd (observe env s))), snd (observe env s))"
  by (simp add: read_flag_def seq_op_def bind_op_def observe_def)

lemma run_steps_stop_bounded:
  assumes nr: "no_resets env"
  shows "\<forall>st\<in>set steps. step_cost (kind st) \<le> c \<Longrightarrow>
    leads (stop_bounded n c) (stop_bounded n c) (run_steps env g track N i steps)"
proof (induction steps arbitrary: i)
  case (Cons st rest)
  let ?B = "stop_bounded n"
  note calm = stop_bounded_order [OF nr, of n]
  note base = tas_calm.axioms(1) [OF calm]
  have weak: "\<And>s. ?B 0 s \<Longrightarrow> ?B c s" by (erule stop_bounded_mono) simp
  have step: "leads (?B 0) (?B c) (exec_step env st)"
    unfolding leads_def using stop_bounded_step [OF nr] Cons.prems by simp
  have rest: "leads (?B c) (?B c) (run_steps env g track N j rest)" for j
    by (rule Cons.IH) (use Cons.prems in simp)
  have fb: "leads (?B d) (?B d) (feedback g ph x)" for ph x d
    by (rule leads_keeps, rule tas_order.stays_feedback [OF base]) simp
  have mark: "leads (?B c) (?B c) (case marker st of None \<Rightarrow> ret_op () | Some m \<Rightarrow> feedback g (marker_name m) x)" for x
    by (cases "marker st") (simp_all add: fb leads_ret del: op_simps)
  have track: "leads (?B c) (?B c) (track_grip track st ok)" for ok
    by (rule leads_keeps, rule tas_order.stays_track [OF base])
  have tail: "leads (?B c) (?B c)
     (seq_op (track_grip track st ok)
       (if \<not> ok then ret_op False
        else seq_op
          (case marker st of None \<Rightarrow> ret_op ()
           | Some m \<Rightarrow> feedback g (marker_name m) (real (i + 1) / real N))
          (run_steps env g track N (i + 1) rest)))" for ok
    by (rule leads_seq [OF track], rule leads_if, rule leads_ret, assumption, rule leads_seq [OF mark rest])
  have after: "leads (?B 0) (?B c)
     (bind_op (read_flag env (cancel_requested g)) (\<lambda>cancelled.
      if cancelled then ret_op False
      else seq_op (feedback g (kind_name (kind st)) (real i / real N))
       (bind_op (exec_step env st) (\<lambda>ok.
        seq_op (track_grip track st ok)
        (if \<not> ok then ret_op False
         else seq_op
           (case marker st of None \<Rightarrow> ret_op ()
            | Some m \<Rightarrow> feedback g (marker_name m) (real (i + 1) / real N))
           (run_steps env g track N (i + 1) rest))))))"
  proof (rule leads_bind [where J = "?B 0"])
    show "leads (?B 0) (?B 0) (read_flag env (cancel_requested g))"
      by (rule leads_keeps, rule tas_order.stays_read [OF base])
  qed (intro leads_if leads_ret leads_seq [OF fb] leads_bind [OF step tail], (assumption | erule weak)+)
  show ?case
    unfolding leads_def
  proof (intro allI impI)
    fix s
    assume s: "?B c s"
    have s1: "?B c (snd (observe env s))"
      using keeps.staysD [OF tas_order.stays_observe [OF base], of c s] s by (simp add: keeps_def)
    show "?B c (snd (run_steps env g track N i (st # rest) s))"
    proof (cases "ts_estop (snd (observe env s))")
      case True
      then show ?thesis using s1 by (simp add: bind_op_def read_flag_eq)
    next
      case False
      with s1 have "?B 0 (snd (observe env s))" by (rule stop_bounded_unlatched)
      with after False show ?thesis
        unfolding run_steps.simps bind_op_def [of "read_flag env ts_estop"]
        by (simp add: read_flag_eq leads_def)
    qed
  qed
qed (simp add: leads_def)

definition is_hand_over :: "tas_request \<Rightarrow> bool" where
  "is_hand_over rq = (case rq of HandOver _ _ \<Rightarrow> True | HandOverTest _ _ \<Rightarrow> True | _ \<Rightarrow> False)"

text \<open>Every sequence but the hand-over ones sends one motion command per step.\<close>

definition plain_plans :: "(motion_error, motion_step list) result list" where
  "plain_plans =
     [full_socket_fetch_seq, full_socket_return_seq, Inr home_seq,
      drawer_open_seq TOOLBOX_LAYER None, drawer_close_seq TOOLBOX_LAYER None]"

lemma plain_plans_single:
  "list_all (\<lambda>plan. is_ok plan \<and> list_all (\<lambda>st. step_cost (kind st) = 1) (projr plan)) plain_plans"
  by code_simp

lemma plain_plan:
  assumes "plan \<in> set plain_plans" "1 \<le> c"
  shows "\<exists>steps. plan = Inr steps \<and> (\<forall>st\<in>set steps. step_cost (kind st) \<le> c)"
proof -
  have "is_ok plan \<and> list_all (\<lambda>st. step_cost (kind st) = 1) (projr plan)"
    using plain_plans_single assms(1) by (simp add: list_all_iff)
  with assms(2) show ?thesis by (auto simp: is_ok_iff list_all_iff)
qed

lemma bind_ret: "bind_op (ret_op a) f = f a"
  by (simp add: fun_eq_iff bind_op_def)

lemma run_keeps_bound:
  assumes "no_resets env" "\<forall>st\<in>set steps. step_cost (kind st) \<le> c"
  shows "keeps.stays (stop_bounded n c) (run_steps env g track N i steps)"
  using run_steps_stop_bounded [OF assms] by (simp add: leads_def keeps.stays_def keeps_def)

lemma serve_keeps_bound:
  assumes nr: "no_resets env" and c: "1 \<le> c" "is_hand_over rq \<Longrightarrow> 2 \<le> c"
  shows "keeps.stays (stop_bounded n c) (serve env rq)"
proof -
  note calm = stop_bounded_order [OF nr, of n c]
  note base = tas_calm.axioms(1) [OF calm]
  have run: "keeps.stays (stop_bounded n c) (run_sequence env g steps)"
    if "\<forall>st\<in>set steps. step_cost (kind st) \<le> c" for g steps
    unfolding run_sequence_def by (rule run_keeps_bound [OF nr that])
  have hands: "keeps.stays (stop_bounded n c) (hand_action env g tool_id holding steps)"
    if "2 \<le> c" for g tool_id holding steps
    by (rule tas_calm.stays_hand_action [OF calm], rule run_keeps_bound [OF nr])
      (use that in \<open>simp add: step_cost_def\<close>)
  have plain: "keeps.stays (stop_bounded n c) (sequence_action env g tool_id plan)"
    if "plan \<in> set plain_plans" for g tool_id plan
  proof (rule tas_calm.stays_sequence_action [OF calm])
    fix steps
    assume "plan = Inr steps"
    with plain_plan [OF that c(1)] show "keeps.stays (stop_bounded n c) (run_sequence env (Some g) steps)"
      by (intro run) auto
  qed
  have service: "keeps.stays (stop_bounded n c)
      (bind_op (built plan) (\<lambda>steps. sequence_service env label exc_state steps))"
    if pl: "plan \<in> set plain_plans" and ex: "keeps.stays (stop_bounded n c) exc_state"
    for plan label exc_state
  proof -
    obtain steps where steps: "plan = Inr steps" "\<forall>st\<in>set steps. step_cost (kind st) \<le> c"
      using plain_plan [OF pl c(1)] by blast
    have "keeps.stays (stop_bounded n c) (sequence_service env label exc_state steps)"
      by (rule tas_calm.stays_sequence_service [OF calm run [OF steps(2)] ex])
    with steps(1) show ?thesis by (simp add: built_def bind_ret)
  qed
  have home: "on_home env = bind_op (built (Inr home_seq)) (\<lambda>steps. sequence_service env ''home'' (ret_op ()) steps)"
    by (simp add: on_home_def built_def bind_ret)
  have actions: "keeps.stays (stop_bounded n c) (accept_goal g m)"
    if "keeps.stays (stop_bounded n c) m" for g m
    unfolding accept_goal_def rejected_goal_def using that
    by (intro keeps.stays_bind keeps.stays_seq keeps.stays_gets keeps.stays_if keeps.stays_ret
        tas_calm.stays_say [OF calm]) simp_all
  have error: "keeps.stays (stop_bounded n c) (set_plc ''error'')"
    by (rule tas_calm.stays_plc [OF calm]) simp
  show ?thesis
    using c(2)
    by (cases rq)
      (auto simp: serve_def is_hand_over_def on_place_at_staging_def on_return_to_slot_def
        on_place_on_hand_def on_place_on_hand_test_def home on_open_toolbox_def on_close_toolbox_def
        run_toolbox_seq_def plain_plans_def
        intro!: actions plain hands service error keeps.stays_ret simp del: op_simps)
qed

text \<open>
  C1: E-stop and motion. While no reset is requested, whatever requests are served and however the
  events fall between their steps: at most one motion command (arm or gripper) is sent after the
  first E-stop, the one whose check had already been passed; at most two when hand-overs are among
  the requests, because the approach to the hand sends two moves without a check in between.
\<close>
theorem estop_bounds_motion:
  assumes "no_resets env"
  shows "moves_after_stop (drop (length (ts_outs s)) (ts_outs (snd (serve_all env rqs s))))
    \<le> (if list_ex is_hand_over rqs then 2 else 1)"
proof -
  let ?n = "length (ts_outs s)"
  define c :: nat where "c = (if list_ex is_hand_over rqs then 2 else 1)"
  have c: "1 \<le> c" "rq \<in> set rqs \<Longrightarrow> is_hand_over rq \<Longrightarrow> 2 \<le> c" for rq
    by (auto simp: c_def list_ex_iff)
  have serve: "keeps.stays (stop_bounded ?n c) (seq_op (observe env) (serve env rq))" if "rq \<in> set rqs" for rq
    by (intro keeps.stays_seq serve_keeps_bound [OF assms] c(1) c(2) [OF that]
      tas_order.stays_observe [OF tas_calm.axioms(1) [OF stop_bounded_order [OF assms]]])
  have runs_all: "keeps.stays (stop_bounded ?n c) (for_op (\<lambda>rq. seq_op (observe env) (serve env rq)) xs)"
    if "set xs \<subseteq> set rqs" for xs
    using that by (induction xs) (auto intro!: keeps.stays_ret keeps.stays_seq [of _ "seq_op _ _"] serve simp del: op_simps)
  have "stop_bounded ?n c s"
    by (simp add: stop_bounded_def stop_is_latched_def late_moves_def)
  then have "stop_bounded ?n c (snd (serve_all env rqs s))"
    using keeps.staysD [OF runs_all [OF subset_refl], of s] by (simp add: keeps_def serve_all_def)
  then show ?thesis by (simp add: stop_bounded_def late_moves_def c_def)
qed

section \<open>A concrete server\<close>

text \<open>The shipped workspace limits and no tool entries; the hand's axes are the base's.\<close>

definition demo_cfg :: tas_cfg where
  "demo_cfg =
     \<lparr>tc_handover = [], tc_tools = [], tc_approach_z = 234, tc_approach_ori = [180, 180, 90],
      tc_x = (50, 800), tc_y = (-600, 600), tc_z = (-31, 700), tc_grasp_z = []\<rparr>"

text \<open>Every request succeeds, no optional service is up, sleeps are exact.\<close>

definition demo_env :: "(nat \<Rightarrow> tas_event list) \<Rightarrow> tas_env" where
  "demo_env evs =
     \<lparr>en_cfg = demo_cfg, en_events = evs, en_reply = (\<lambda>k. Replied (Some (True, []))),
      en_ready = (\<lambda>k sv. NotReady), en_lag = (\<lambda>k. 0), en_yaw = (\<lambda>q. Inr 0),
      en_rot = (\<lambda>q. Inr (\<lambda>i j. if i = j then 1 else 0))\<rparr>"

text \<open>A hand held still over the table, the arm at rest.\<close>

definition demo_hand :: pose_msg where
  "demo_hand = \<lparr>pm_x = 4/10, pm_y = 0, pm_z = 1/10, pm_quat = (0, 0, 0, 1)\<rparr>"

definition demo_state :: tas where
  "demo_state = (tas_init 0)\<lparr>ts_hand := Some demo_hand, ts_hand_ready := True, ts_joint_vel := [0]\<rparr>"

text \<open>The E-stop button is pressed at one point of the run.\<close>

definition stop_at :: "nat \<Rightarrow> nat \<Rightarrow> tas_event list" where
  "stop_at k i = (if i = k then [EvEstop] else [])"

lemma stop_at_no_resets: "no_resets (demo_env (stop_at k))"
  by (simp add: no_resets_def demo_env_def stop_at_def)

theorem estop_bounds_motion_witness:
  "moves_after_stop (drop 1 (ts_outs (snd (serve_all (demo_env (stop_at 9)) [Fetch 1 ''t'', Home] demo_state)))) \<le> 1"
  using estop_bounds_motion [OF stop_at_no_resets, of demo_state 9 "[Fetch 1 ''t'', Home]"]
  by (simp add: demo_state_def tas_init_def is_hand_over_def)

declare py_degrees_def [code del] py_atan2_def [code del] hand_distance_def [code del]

text \<open>
  The bound of two is attained, and one of the two is no race: when the button is pressed while
  the pre-approach move to the hand is under way, the latch is not looked at again before the
  approach itself, so the arm is sent down to the hand after the E-stop.
\<close>
theorem hand_approach_after_estop:
  "moves_after_stop (ts_outs (snd (serve (demo_env (stop_at 8)) (HandOverTest 1 ''t'') demo_state))) = 2
   \<and> filter is_move (dropWhile (\<lambda>x. x \<noteq> PlcState ''e_stop'')
       (ts_outs (snd (serve (demo_env (stop_at 10)) (HandOverTest 1 ''t'') demo_state))))
     = [MoveLineReq (hand_req [400, 0, 150, 180, 180, -94.61])]"
  by (intro conjI; code_simp)

section \<open>The commands of a sequence\<close>

definition is_feedback :: "tas_out \<Rightarrow> bool" where
  "is_feedback x = (case x of Feedback _ _ _ \<Rightarrow> True | _ \<Rightarrow> False)"

lemma is_feedback_simps [simp]:
  "is_feedback (Feedback n f x)" "\<not> is_feedback (MoveLineReq a)" "\<not> is_feedback (MoveJointReq b)"
  "\<not> is_feedback (GripReq c)" "\<not> is_feedback (RobotMoving d)" "\<not> is_feedback (PlcState e)"
  "\<not> is_feedback (GoalSucceed n)" "\<not> is_feedback (GoalAbort n)" "\<not> is_feedback (GoalCanceled n)"
  "\<not> is_feedback (GoalRejected n)" "\<not> is_feedback (TriggerAnswer d m)" "\<not> is_feedback MoveStopReq"
  "\<not> is_feedback CreateTcpReq" "\<not> is_feedback SetTcpReq" "\<not> is_feedback (LogEventReq g h i j)"
  by (simp_all add: is_feedback_def)

text \<open>What a goal's client and the devices see of a trace: commands and feedback.\<close>

definition visible :: "tas_out list \<Rightarrow> tas_out list" where
  "visible tr = filter (\<lambda>x. is_move x \<or> is_feedback x) tr"

lemma visible_simps [simp]:
  "visible [] = []"
  "visible (x # xs) = (if is_move x \<or> is_feedback x then x # visible xs else visible xs)"
  "visible (xs @ ys) = visible xs @ visible ys"
  by (simp_all add: visible_def)

lemma event_outs_unseen: "visible (event_outs env ev s) = []"
  by (cases ev) (simp_all add: event_outs_def stop_outs_def log_outs_def)

interpretation unseen: view "\<lambda>s. visible (ts_outs s)" env "\<lambda>x. \<not> (is_move x \<or> is_feedback x)" for env
proof unfold_locales
  show "visible (ts_outs (snd (observe env s))) = visible (ts_outs s)" for s
    by (rule observe_by_events) (simp_all add: event_outs_unseen)
qed (auto simp: is_plumbing_def split: tas_out.splits)

lemmas unseenD = unseen.view_same

definition fb :: "nat option \<Rightarrow> string \<Rightarrow> real \<Rightarrow> tas_out list" where
  "fb g phase x = (case g of None \<Rightarrow> [] | Some n \<Rightarrow> [Feedback n phase x])"

text \<open>The command of a step with fixed parameters.\<close>

definition scripted :: "motion_step \<Rightarrow> bool" where
  "scripted st \<longleftrightarrow>
     kind st = GRIP \<or> (kind st \<in> {MOVE_L_ABS, MOVE_L_REL, MOVE_J_ABS, MOVE_J_REL} \<and> pose st \<noteq> None)"

definition command :: "motion_step \<Rightarrow> tas_out" where
  "command st =
     (case kind st of
        MOVE_L_ABS \<Rightarrow> MoveLineReq (movel_req st (the (pose st)) DR_MV_MOD_ABS)
      | MOVE_L_REL \<Rightarrow> MoveLineReq (movel_req st (the (pose st)) DR_MV_MOD_REL)
      | GRIP \<Rightarrow> GripReq (grip_req st)
      | _ \<Rightarrow> MoveJointReq (movej_req st (the (pose st))))"

text \<open>What a run to the end shows: per step its feedback, its command, and its marker.\<close>

primrec planned :: "nat option \<Rightarrow> nat \<Rightarrow> nat \<Rightarrow> motion_step list \<Rightarrow> tas_out list" where
  "planned g n i [] = []"
| "planned g n i (st # rest) =
     fb g (kind_name (kind st)) (real i / real n) @ [command st]
     @ (case marker st of None \<Rightarrow> [] | Some m \<Rightarrow> fb g (marker_name m) (real (i + 1) / real n))
     @ planned g n (i + 1) rest"

text \<open>\<open>m\<close> from \<open>s\<close> shows a prefix of \<open>xs\<close>, and all of it when it returns \<open>True\<close>.\<close>

definition follows :: "tas_out list \<Rightarrow> bool tas_op \<Rightarrow> bool" where
  "follows xs m \<longleftrightarrow>
     (\<forall>s r t. m s = (r, t) \<longrightarrow>
       (\<exists>ys zs. visible (ts_outs t) = visible (ts_outs s) @ ys \<and> xs = ys @ zs \<and> (r = Inr True \<longrightarrow> zs = [])))"

lemma followsD:
  assumes "follows xs m" "m s = (r, t)"
  obtains ys zs where "visible (ts_outs t) = visible (ts_outs s) @ ys" "xs = ys @ zs" "r = Inr True \<longrightarrow> zs = []"
  using assms unfolding follows_def by blast

lemma follows_after:
  assumes q: "unseen.stays m" and f: "\<And>a. follows xs (f a)"
  shows "follows xs (bind_op m f)"
  unfolding follows_def
proof (intro allI impI)
  fix s r t
  assume run: "bind_op m f s = (r, t)"
  obtain r1 s1 where s1: "m s = (r1, s1)" by (cases "m s")
  have v: "visible (ts_outs s1) = visible (ts_outs s)" using unseenD [OF q s1] .
  show "\<exists>ys zs. visible (ts_outs t) = visible (ts_outs s) @ ys \<and> xs = ys @ zs \<and> (r = Inr True \<longrightarrow> zs = [])"
  proof (cases r1)
    case (Inl e)
    with run s1 v show ?thesis by (auto simp: bind_op_def)
  next
    case (Inr a)
    with run s1 have "f a s1 = (r, t)" by (simp add: bind_op_def)
    with f [of a] v show ?thesis by (fastforce simp: follows_def)
  qed
qed

lemma follows_quiet_seq: "unseen.stays m \<Longrightarrow> follows xs k \<Longrightarrow> follows xs (seq_op m k)"
  unfolding seq_op_def by (rule follows_after)

lemma follows_False: "follows xs (ret_op False)"
  by (simp add: follows_def)

lemma observe_seq: "seq_op (observe env) k s = k (snd (observe env s))"
  by (simp add: seq_op_def bind_op_def observe_def)

lemma emit_seq: "seq_op (emit x) k s = k (s\<lparr>ts_outs := ts_outs s @ [x]\<rparr>)"
  by (simp add: seq_op_def bind_op_def emit_def)

lemma call_shows:
  assumes "is_move x" "call_and_wait env x s = (r, t)"
  shows "visible (ts_outs t) = visible (ts_outs s) @ [x]
    \<or> visible (ts_outs t) = visible (ts_outs s) \<and> (\<exists>e. r = Inl e)"
proof -
  have obs: "visible (ts_outs (snd (observe env u))) = visible (ts_outs u)" for u
    using unseen.staysD [OF unseen.stays_observe, of env u] by simp
  have sent: "visible (ts_outs (snd (seq_op (emit x) (seq_op (observe env) k) u))) = visible (ts_outs u) @ [x]"
    if "\<And>v. snd (k v) = v" for k :: "(bool \<times> string) option option tas_op" and u
    using assms(1) obs [of "u\<lparr>ts_outs := ts_outs u @ [x]\<rparr>"] by (simp add: emit_seq observe_seq that)
  let ?s1 = "snd (observe env s)"
  have "(r, t) =
      (case en_reply env (ts_tick ?s1) of
         CallRaises e \<Rightarrow> fail_op e ?s1
       | NoReply \<Rightarrow> seq_op (emit x) (seq_op (observe env) (ret_op None)) ?s1
       | ResultRaises e \<Rightarrow> seq_op (emit x) (seq_op (observe env) (fail_op e)) ?s1
       | Replied res \<Rightarrow> seq_op (emit x) (seq_op (observe env) (ret_op (Some res))) ?s1)"
    using assms(2) unfolding call_and_wait_def observe_seq by (simp add: bind_op_def split: reply.splits)
  then show ?thesis
    using sent [of "ret_op None" ?s1] sent [of "fail_op e" ?s1 for e] sent [of "ret_op (Some res)" ?s1 for res] obs [of s]
    by (cases "en_reply env (ts_tick ?s1)") (auto dest: arg_cong [of _ _ snd])
qed

lemma follows_call:
  assumes x: "is_move x" and f: "\<And>a. unseen.stays (f a)"
  shows "follows [x] (bind_op (call_and_wait env x) f)"
  unfolding follows_def
proof (intro allI impI)
  fix s r t
  assume run: "bind_op (call_and_wait env x) f s = (r, t)"
  obtain r1 s1 where s1: "call_and_wait env x s = (r1, s1)" by (cases "call_and_wait env x s")
  show "\<exists>ys zs. visible (ts_outs t) = visible (ts_outs s) @ ys \<and> [x] = ys @ zs \<and> (r = Inr True \<longrightarrow> zs = [])"
  proof (cases r1)
    case (Inl e)
    with run s1 have "r = Inl e" "t = s1" by (simp_all add: bind_op_def)
    with call_shows [OF x s1] show ?thesis by auto
  next
    case (Inr a)
    with run s1 have "f a s1 = (r, t)" by (simp add: bind_op_def)
    with call_shows [OF x s1] Inr unseenD [OF f] show ?thesis by auto
  qed
qed

lemmas unseen_rules = unseen.stays_rules unseen.stays_sleep

lemma follows_exec_step:
  assumes "scripted st"
  shows "follows [command st] (exec_step env st)"
proof -
  have line: "follows [MoveLineReq (movel_req st p mode)] (movel env st mode)" if "pose st = Some p" for p mode
    unfolding movel_def using that by (auto intro!: follows_call unseen_rules)
  have joint: "follows [MoveJointReq (movej_req st p)] (movej env st)" if "pose st = Some p" for p
    unfolding movej_def using that by (auto intro!: follows_call unseen_rules)
  have "follows [GripReq (grip_req st)] (do_grip env st)"
    unfolding do_grip_def by (auto intro!: follows_call unseen_rules)
  with assms show ?thesis
    by (auto simp: scripted_def command_def exec_step_def intro: line joint)
qed

lemma follows_feedback:
  assumes "follows xs k"
  shows "follows (fb g phase x @ xs) (seq_op (feedback g phase x) k)"
proof (cases g)
  case None
  with assms show ?thesis
    by (simp add: follows_def fb_def feedback_def seq_op_def bind_op_def)
next
  case (Some n)
  show ?thesis
    unfolding follows_def
  proof (intro allI impI)
    fix s r t
    assume "seq_op (feedback g phase x) k s = (r, t)"
    then have "k (s\<lparr>ts_outs := ts_outs s @ [Feedback n phase x]\<rparr>) = (r, t)"
      using Some by (simp add: seq_op_def bind_op_def feedback_def emit_def)
    then show "\<exists>ys zs. visible (ts_outs t) = visible (ts_outs s) @ ys \<and> fb g phase x @ xs = ys @ zs
        \<and> (r = Inr True \<longrightarrow> zs = [])"
      using Some by (elim followsD [OF assms]) (auto simp: fb_def)
  qed
qed

lemma follows_continue:
  assumes m: "follows xs m" and f: "follows ys (f True)" and stop: "follows [] (f False)"
    and fails: "\<And>s. fst (f False s) \<noteq> Inr True"
  shows "follows (xs @ ys) (bind_op m f)"
  unfolding follows_def
proof (intro allI impI)
  fix s r t
  assume run: "bind_op m f s = (r, t)"
  obtain r1 s1 where s1: "m s = (r1, s1)" by (cases "m s")
  obtain as bs where as: "visible (ts_outs s1) = visible (ts_outs s) @ as" "xs = as @ bs"
    "r1 = Inr True \<longrightarrow> bs = []" using m s1 by (rule followsD)
  show "\<exists>vs zs. visible (ts_outs t) = visible (ts_outs s) @ vs \<and> xs @ ys = vs @ zs \<and> (r = Inr True \<longrightarrow> zs = [])"
  proof (cases r1)
    case (Inl e)
    with run s1 as show ?thesis by (auto simp: bind_op_def)
  next
    case (Inr ok)
    with run s1 have t: "f ok s1 = (r, t)" by (simp add: bind_op_def)
    show ?thesis
    proof (cases ok)
      case True
      with t have "f True s1 = (r, t)" by simp
      with as Inr True show ?thesis by (elim followsD [OF f]) auto
    next
      case False
      with t have "f False s1 = (r, t)" by simp
      then have "visible (ts_outs t) = visible (ts_outs s1)" "r \<noteq> Inr True"
        using fails [of s1] by (auto elim: followsD [OF stop])
      with as show ?thesis by auto
    qed
  qed
qed

lemma follows_run_steps:
  "list_all scripted steps \<Longrightarrow> follows (planned g n i steps) (run_steps env g track n i steps)"
proof (induction steps arbitrary: i)
  case Nil
  show ?case by (simp add: follows_def)
next
  case (Cons st rest)
  let ?tail = "case marker st of None \<Rightarrow> [] | Some m \<Rightarrow> fb g (marker_name m) (real (i + 1) / real n)"
  have rest: "follows (planned g n (i + 1) rest) (run_steps env g track n (i + 1) rest)"
    by (rule Cons.IH) (use Cons.prems in simp)
  have mark: "follows (?tail @ planned g n (i + 1) rest)
      (seq_op (case marker st of None \<Rightarrow> ret_op () | Some m \<Rightarrow> feedback g (marker_name m) (real (i + 1) / real n))
        (run_steps env g track n (i + 1) rest))"
    using rest follows_feedback [OF rest] by (cases "marker st") (simp_all add: seq_op_def bind_ret del: op_simps)
  have track: "unseen.stays (track_grip track st ok)" for ok by (rule unseen.stays_track)
  have fails: "fst (seq_op (track_grip track st False) (ret_op False) s) \<noteq> Inr True" for s
    by (cases "pulse st") (simp_all add: track_grip_def seq_op_def bind_op_def)
  have stop: "follows [] (seq_op (track_grip track st False) (ret_op False))"
    by (rule follows_quiet_seq [OF track]) (simp add: follows_def)
  have step: "follows ([command st] @ ?tail @ planned g n (i + 1) rest)
     (bind_op (exec_step env st) (\<lambda>ok.
        seq_op (track_grip track st ok)
        (if \<not> ok then ret_op False
         else seq_op
           (case marker st of None \<Rightarrow> ret_op () | Some m \<Rightarrow> feedback g (marker_name m) (real (i + 1) / real n))
           (run_steps env g track n (i + 1) rest))))"
    using Cons.prems stop fails follows_quiet_seq [OF track mark, of True]
    by (intro follows_continue follows_exec_step) simp_all
  show ?case
    unfolding run_steps.simps planned.simps
    using follows_feedback [OF step] follows_False
    by (auto intro!: follows_after unseen.stays_read simp del: op_simps)
qed

lemma scripted_plans: "list_all (\<lambda>plan. list_all scripted (projr plan)) plain_plans"
  by code_simp

lemma plain_plan_scripted: "plan \<in> set plain_plans \<Longrightarrow> plan = Inr steps \<Longrightarrow> list_all scripted steps"
  using scripted_plans by (auto simp: list_all_iff)

text \<open>Handlers return and never raise; their answer decides whether the whole plan was shown.\<close>

definition answers :: "tas_out list \<Rightarrow> action_result tas_op \<Rightarrow> bool" where
  "answers xs m \<longleftrightarrow>
     (\<forall>s r t. m s = (r, t) \<longrightarrow>
       (\<exists>res ys zs. r = Inr res \<and> visible (ts_outs t) = visible (ts_outs s) @ ys \<and> xs = ys @ zs
          \<and> (ar_success res \<longrightarrow> zs = [])))"

definition plan_of :: "tas_request \<Rightarrow> (motion_error, motion_step list) result" where
  "plan_of rq =
     (case rq of
        Fetch _ _ \<Rightarrow> full_socket_fetch_seq
      | Return _ _ \<Rightarrow> full_socket_return_seq
      | Home \<Rightarrow> Inr home_seq
      | OpenToolbox \<Rightarrow> drawer_open_seq TOOLBOX_LAYER None
      | CloseToolbox \<Rightarrow> drawer_close_seq TOOLBOX_LAYER None
      | _ \<Rightarrow> Inr [])"

definition goal_of :: "tas_request \<Rightarrow> nat option" where
  "goal_of rq =
     (case rq of Fetch g _ \<Rightarrow> Some g | Return g _ \<Rightarrow> Some g | HandOver g _ \<Rightarrow> Some g
      | HandOverTest g _ \<Rightarrow> Some g | _ \<Rightarrow> None)"

definition request_plan :: "tas_request \<Rightarrow> tas_out list" where
  "request_plan rq =
     (let steps = projr (plan_of rq) in planned (goal_of rq) (length steps) 0 steps)"

lemma settles_conclude: "unseen.settles (\<lambda>res. ar_success res \<longrightarrow> ok) (conclude env g tool_id ok)"
  unfolding conclude_def
  by (rule unseen.settles_bind [OF unseen.settles_still_wanted])
    (auto intro!: unseen.settles_rules unseen.settles_bind [OF unseen.settles_read [where P = "\<lambda>_. True"]]
      simp: answer_def simp del: op_simps)

lemma follows_run_plan:
  assumes "plan \<in> set plain_plans" "plan = Inr steps"
  shows "follows (planned (Some g) (length steps) 0 steps) (run_plan env g plan)"
  unfolding run_plan_def
  using follows_run_steps [OF plain_plan_scripted [OF assms]] assms(2)
  by (auto intro!: follows_quiet_seq unseen.stays_set_tcp unseen.stays_status unseen.stays_set_plc
      simp: built_def bind_ret run_sequence_def simp del: op_simps)

lemma answers_try:
  assumes m: "follows xs m" and c: "\<And>ok. unseen.settles (\<lambda>res. ar_success res \<longrightarrow> ok) (c ok)"
    and h: "\<And>e. unseen.settles (\<lambda>res. \<not> ar_success res) (h e)"
  shows "answers xs (catch_op (bind_op m c) h)"
  unfolding answers_def
proof (intro allI impI)
  fix s r t
  assume run: "catch_op (bind_op m c) h s = (r, t)"
  obtain r1 s1 where s1: "m s = (r1, s1)" by (cases "m s")
  obtain ys zs where v: "visible (ts_outs s1) = visible (ts_outs s) @ ys" "xs = ys @ zs"
      "r1 = Inr True \<longrightarrow> zs = []" using m s1 by (rule followsD)
  show "\<exists>res ys zs. r = Inr res \<and> visible (ts_outs t) = visible (ts_outs s) @ ys \<and> xs = ys @ zs
      \<and> (ar_success res \<longrightarrow> zs = [])"
  proof (cases r1)
    case (Inl e)
    with run s1 have "h e s1 = (r, t)" by (simp add: catch_op_def bind_op_def)
    moreover obtain res u where "h e s1 = (Inr res, u)" "\<not> ar_success res"
        "visible (ts_outs u) = visible (ts_outs s1)"
      using h [of e] unfolding unseen.settles_def by blast
    ultimately show ?thesis using v by auto
  next
    case (Inr ok)
    obtain res u where u: "c ok s1 = (Inr res, u)" "ar_success res \<longrightarrow> ok"
        "visible (ts_outs u) = visible (ts_outs s1)"
      using c [of ok] unfolding unseen.settles_def by blast
    with run s1 Inr have "r = Inr res" "t = u" by (simp_all add: catch_op_def bind_op_def)
    with u v Inr show ?thesis by auto
  qed
qed

lemma answers_finish:
  fixes fin :: "unit tas_op"
  assumes m: "answers xs m" and fin: "unseen.settles (\<lambda>_. True) fin"
  shows "answers xs (bind_op m (\<lambda>res. seq_op fin (ret_op res)))"
  unfolding answers_def
proof (intro allI impI)
  fix s r t
  assume run: "bind_op m (\<lambda>res. seq_op fin (ret_op res)) s = (r, t)"
  obtain r1 s1 where s1: "m s = (r1, s1)" by (cases "m s")
  with m obtain res ys zs where v: "r1 = Inr res" "visible (ts_outs s1) = visible (ts_outs s) @ ys"
      "xs = ys @ zs" "ar_success res \<longrightarrow> zs = []" unfolding answers_def by blast
  obtain u where u: "fin s1 = (Inr (), u)" "visible (ts_outs u) = visible (ts_outs s1)"
    using fin [unfolded unseen.settles_def, THEN spec, of s1] by auto
  with run s1 v(1) have "r = Inr res" "t = u" by (simp_all add: bind_op_def seq_op_def)
  with u v show "\<exists>res ys zs. r = Inr res \<and> visible (ts_outs t) = visible (ts_outs s) @ ys \<and> xs = ys @ zs
      \<and> (ar_success res \<longrightarrow> zs = [])" by auto
qed

lemma answers_settles: "unseen.settles (\<lambda>res. \<not> ar_success res) m \<Longrightarrow> answers xs m"
  unfolding unseen.settles_def answers_def by (metis Pair_inject append_Nil append_Nil2)

lemma answers_after:
  assumes m: "unseen.settles (\<lambda>_. True) m" and f: "\<And>a. answers xs (f a)"
  shows "answers xs (bind_op m f)"
  unfolding answers_def
proof (intro allI impI)
  fix s r t
  assume run: "bind_op m f s = (r, t)"
  obtain a u where u: "m s = (Inr a, u)" "visible (ts_outs u) = visible (ts_outs s)"
    using m unfolding unseen.settles_def by blast
  with run have "f a u = (r, t)" by (simp add: bind_op_def)
  with f [of a] u(2) show "\<exists>res ys zs. r = Inr res \<and> visible (ts_outs t) = visible (ts_outs s) @ ys
      \<and> xs = ys @ zs \<and> (ar_success res \<longrightarrow> zs = [])" by (fastforce simp: answers_def)
qed

lemma answers_if: "(b \<Longrightarrow> answers xs m) \<Longrightarrow> (\<not> b \<Longrightarrow> answers xs k) \<Longrightarrow> answers xs (if b then m else k)"
  by simp

lemma settles_busy_goal: "unseen.settles (\<lambda>res. \<not> ar_success res) (busy_goal g)"
  unfolding busy_goal_def by (auto intro!: unseen.settles_rules simp del: op_simps)

lemma answers_sequence_action:
  assumes "plan \<in> set plain_plans" "plan = Inr steps"
  shows "answers (planned (Some g) (length steps) 0 steps) (sequence_action env g tool_id plan)"
proof -
  have fin: "unseen.settles (\<lambda>_. True) (seq_op (publish_status False) release)"
    by (intro unseen.settles_seq unseen.settles_status unseen.settles_release) simp_all
  have assoc: "seq_op (publish_status False) (seq_op release k) = seq_op (seq_op (publish_status False) release) k"
    for k :: "action_result tas_op"
    by (simp add: fun_eq_iff seq_op_def bind_op_def publish_status_def emit_def release_def)
  have "answers (planned (Some g) (length steps) 0 steps)
      (catch_op (bind_op (run_plan env g plan) (conclude env g tool_id))
         (\<lambda>exc. seq_op (emit (GoalAbort g)) (seq_op (set_plc ''error'') (ret_op (answer False (Exc exc))))))"
    by (rule answers_try [OF follows_run_plan [OF assms] settles_conclude])
      (auto intro!: unseen.settles_rules simp: answer_def simp del: op_simps)
  from answers_finish [OF this fin] show ?thesis
    unfolding sequence_action_def assoc
    by (intro answers_after [OF unseen.settles_acquire]) (simp add: answers_settles settles_busy_goal)
qed

lemma catch_seq_settled:
  assumes a: "unseen.settles (\<lambda>_. True) a" and m: "answers xs (catch_op m h)"
  shows "answers xs (catch_op (seq_op a m) h)"
proof -
  have "catch_op (seq_op a m) h = seq_op a (catch_op m h)"
  proof
    fix s
    obtain x t where "a s = (Inr x, t)" using a unfolding unseen.settles_def by blast
    then show "catch_op (seq_op a m) h s = seq_op a (catch_op m h) s"
      by (simp add: catch_op_def seq_op_def bind_op_def)
  qed
  with answers_after [OF a m] show ?thesis by (simp add: seq_op_def)
qed

lemma answers_sequence_service:
  assumes "plan \<in> set plain_plans" "plan = Inr steps" and exc: "unseen.settles (\<lambda>_. True) exc_state"
  shows "answers (planned None (length steps) 0 steps) (sequence_service env label exc_state steps)"
proof -
  have fin: "unseen.settles (\<lambda>_. True) (seq_op (publish_status False) release)"
    by (intro unseen.settles_seq unseen.settles_status unseen.settles_release) simp_all
  have assoc: "seq_op (publish_status False) (seq_op release k) = seq_op (seq_op (publish_status False) release) k"
    for k :: "action_result tas_op"
    by (simp add: fun_eq_iff seq_op_def bind_op_def publish_status_def emit_def release_def)
  have run: "follows (planned None (length steps) 0 steps) (run_sequence env None steps)"
    unfolding run_sequence_def by (rule follows_run_steps [OF plain_plan_scripted [OF assms(1,2)]])
  have "answers (planned None (length steps) 0 steps)
     (catch_op (run_service env label steps) (\<lambda>exc. seq_op exc_state (ret_op (answer False (Exc exc)))))"
    unfolding run_service_def
    by (intro catch_seq_settled unseen.settles_set_tcp unseen.settles_status unseen.settles_plc answers_try [OF run])
      (auto intro!: unseen.settles_rules exc simp: answer_def simp del: op_simps)
  from answers_finish [OF this fin] show ?thesis
    unfolding sequence_service_def assoc
    by (intro answers_after [OF unseen.settles_gets] answers_after [OF unseen.settles_acquire] answers_if)
      (auto intro!: answers_settles unseen.settles_ret simp: answer_def simp del: op_simps)
qed

lemma plan_of_plain: "\<not> is_hand_over rq \<Longrightarrow> plan_of rq \<in> set plain_plans"
  by (cases rq) (simp_all add: is_hand_over_def plan_of_def plain_plans_def)

lemma answers_serve:
  assumes "\<not> is_hand_over rq"
  shows "answers (request_plan rq) (serve env rq)"
proof -
  obtain steps where steps: "plan_of rq = Inr steps"
    using plain_plan [OF plan_of_plain [OF assms], of 1] by auto
  note plain = plan_of_plain [OF assms]
  have plan: "request_plan rq = planned (goal_of rq) (length steps) 0 steps"
    by (simp add: request_plan_def steps)
  have goal: "answers xs (accept_goal g m)" if "answers xs m" for xs g m
    unfolding accept_goal_def rejected_goal_def
    by (rule answers_after [OF unseen.settles_gets])
      (use that in \<open>auto intro!: answers_settles unseen.settles_rules simp: answer_def simp del: op_simps\<close>)
  have error: "unseen.settles (\<lambda>_. True) (set_plc ''error'')" by (rule unseen.settles_plc) simp_all
  show ?thesis
  proof (cases rq)
    case Fetch
    show ?thesis
      unfolding plan using answers_sequence_action [OF plain steps] steps Fetch
      by (simp add: serve_def on_place_at_staging_def goal goal_of_def plan_of_def)
  next
    case Return
    show ?thesis
      unfolding plan using answers_sequence_action [OF plain steps] steps Return
      by (simp add: serve_def on_return_to_slot_def goal goal_of_def plan_of_def)
  next
    case Home
    show ?thesis
      unfolding plan using answers_sequence_service [OF plain steps] steps Home
      by (simp add: serve_def on_home_def goal_of_def plan_of_def unseen.settles_ret del: op_simps)
  next
    case OpenToolbox
    show ?thesis
      unfolding plan using answers_sequence_service [OF plain steps error] steps OpenToolbox
      by (simp add: serve_def on_open_toolbox_def run_toolbox_seq_def goal_of_def plan_of_def
          built_def bind_ret)
  next
    case CloseToolbox
    show ?thesis
      unfolding plan using answers_sequence_service [OF plain steps error] steps CloseToolbox
      by (simp add: serve_def on_close_toolbox_def run_toolbox_seq_def goal_of_def plan_of_def
          built_def bind_ret)
  qed (use assms in \<open>simp_all add: is_hand_over_def\<close>)
qed

text \<open>
  C11: A fetch, return, home or drawer request is answered, never raises, and shows its client and
  the devices a prefix of the planned feedback and commands, in order and with the planned
  parameters, whatever replies, failures, cancellations and E-stops occur; it reports success only
  when the whole plan has been sent. So \<open>pick\<close> and \<open>place\<close> are reported only after the commands
  they mark.
\<close>
theorem commands_follow_plan:
  assumes "\<not> is_hand_over rq"
  shows "\<exists>res t shown. serve env rq s = (Inr res, t)
    \<and> visible (ts_outs t) = visible (ts_outs s) @ shown \<and> prefix shown (request_plan rq)
    \<and> (ar_success res \<longrightarrow> shown = request_plan rq)"
proof -
  obtain r t where t: "serve env rq s = (r, t)" by (cases "serve env rq s")
  with answers_serve [OF assms] obtain res ys zs where "r = Inr res"
      "visible (ts_outs t) = visible (ts_outs s) @ ys" "request_plan rq = ys @ zs"
      "ar_success res \<longrightarrow> zs = []"
    unfolding answers_def by blast
  with t show ?thesis by (auto simp: prefix_def)
qed

theorem commands_follow_plan_witness:
  "\<exists>res t shown. serve (demo_env (stop_at 9)) (Fetch 1 ''t'') demo_state = (Inr res, t)
    \<and> visible (ts_outs t) = visible (ts_outs demo_state) @ shown
    \<and> prefix shown (request_plan (Fetch 1 ''t''))
    \<and> (ar_success res \<longrightarrow> shown = request_plan (Fetch 1 ''t''))"
  by (rule commands_follow_plan) (simp add: is_hand_over_def)

section \<open>A goal ends once\<close>

definition ends_goal :: "nat \<Rightarrow> tas_out \<Rightarrow> bool" where
  "ends_goal g x \<longleftrightarrow> x \<in> {GoalSucceed g, GoalAbort g, GoalCanceled g, GoalRejected g}"

definition goal_ends :: "nat \<Rightarrow> tas \<Rightarrow> tas_out list" where
  "goal_ends g s = filter (ends_goal g) (ts_outs s)"

text \<open>No second request carries the identity of goal \<open>g\<close>.\<close>

definition goal_unique :: "nat \<Rightarrow> tas_env \<Rightarrow> bool" where
  "goal_unique g env \<longleftrightarrow> (\<forall>k. EvGoal g \<notin> set (en_events env k))"

lemma event_outs_ends: "ev \<noteq> EvGoal g \<Longrightarrow> filter (ends_goal g) (event_outs env ev s) = []"
  by (cases ev) (auto simp: event_outs_def stop_outs_def log_outs_def ends_goal_def)

lemma goal_view:
  assumes "goal_unique g env"
  shows "view (goal_ends g) env (\<lambda>x. \<not> ends_goal g x)"
proof unfold_locales
  show "goal_ends g (snd (observe env s)) = goal_ends g s" for s
  proof (rule observe_by_events)
    fix ev r
    assume "ev \<in> set (en_events env (ts_tick s))"
    with assms have "ev \<noteq> EvGoal g" by (auto simp: goal_unique_def)
    then show "goal_ends g (on_event env ev r) = goal_ends g r"
      by (simp add: goal_ends_def event_outs_ends)
  qed (simp_all add: goal_ends_def)
qed (auto simp: goal_ends_def is_plumbing_def ends_goal_def split: tas_out.splits)

lemma goal_free:
  assumes "goal_unique g env"
  shows "tas_free (\<lambda>s t. goal_ends g t = goal_ends g s) env (\<lambda>x. \<not> ends_goal g x)"
  using view.axioms(1) [OF goal_view [OF assms]]
  by (rule tas_free.intro)
    (unfold_locales, auto simp: goal_ends_def ends_goal_def is_move_def split: tas_out.splits)

text \<open>The operation answers, ends goal \<open>g\<close> once, and says success exactly when the goal succeeded.\<close>

definition closes :: "nat \<Rightarrow> action_result tas_op \<Rightarrow> bool" where
  "closes g m \<longleftrightarrow>
     (\<forall>s. \<exists>res t e. m s = (Inr res, t) \<and> ends_goal g e \<and> goal_ends g t = goal_ends g s @ [e]
        \<and> (ar_success res \<longleftrightarrow> e = GoalSucceed g))"

lemma closes_emit:
  fixes k :: "action_result tas_op"
  assumes e: "ends_goal g e" and k: "view.settles (goal_ends g) (\<lambda>res. ar_success res \<longleftrightarrow> e = GoalSucceed g) k"
    and v: "view (goal_ends g) env own"
  shows "closes g (seq_op (emit e) k)"
  unfolding closes_def
proof
  fix s :: tas
  obtain res t where "k (s\<lparr>ts_outs := ts_outs s @ [e]\<rparr>) = (Inr res, t)"
      "ar_success res \<longleftrightarrow> e = GoalSucceed g" "goal_ends g t = goal_ends g (s\<lparr>ts_outs := ts_outs s @ [e]\<rparr>)"
    using k unfolding view.settles_def [OF v] by blast
  then show "\<exists>res t e'. seq_op (emit e) k s = (Inr res, t) \<and> ends_goal g e'
      \<and> goal_ends g t = goal_ends g s @ [e'] \<and> (ar_success res \<longleftrightarrow> e' = GoalSucceed g)"
    using e by (auto simp: emit_seq goal_ends_def)
qed

lemma closes_after:
  assumes v: "view (goal_ends g) env own" and m: "view.settles (goal_ends g) (\<lambda>_. True) m"
    and f: "\<And>a. closes g (f a)"
  shows "closes g (bind_op m f)"
  unfolding closes_def
proof
  fix s :: tas
  obtain a t where t: "m s = (Inr a, t)" "goal_ends g t = goal_ends g s"
    using m unfolding view.settles_def [OF v] by blast
  obtain res u e where "f a t = (Inr res, u)" "ends_goal g e" "goal_ends g u = goal_ends g t @ [e]"
      "ar_success res \<longleftrightarrow> e = GoalSucceed g" using f [of a] unfolding closes_def by blast
  with t show "\<exists>res t e. bind_op m f s = (Inr res, t) \<and> ends_goal g e
      \<and> goal_ends g t = goal_ends g s @ [e] \<and> (ar_success res \<longleftrightarrow> e = GoalSucceed g)"
    by (auto simp: bind_op_Inr)
qed

lemma closes_finish:
  assumes v: "view (goal_ends g) env own" and m: "closes g m"
    and fin: "view.settles (goal_ends g) (\<lambda>_. True) (fin :: unit tas_op)"
  shows "closes g (bind_op m (\<lambda>res. seq_op fin (ret_op res)))"
  unfolding closes_def
proof
  fix s :: tas
  obtain res t e where t: "m s = (Inr res, t)" "ends_goal g e" "goal_ends g t = goal_ends g s @ [e]"
      "ar_success res \<longleftrightarrow> e = GoalSucceed g" using m unfolding closes_def by blast
  obtain u where "fin t = (Inr (), u)" "goal_ends g u = goal_ends g t"
    using fin [unfolded view.settles_def [OF v], THEN spec, of t] by auto
  with t show "\<exists>res t e. bind_op m (\<lambda>res. seq_op fin (ret_op res)) s = (Inr res, t) \<and> ends_goal g e
      \<and> goal_ends g t = goal_ends g s @ [e] \<and> (ar_success res \<longleftrightarrow> e = GoalSucceed g)"
    by (auto simp: bind_op_def seq_op_def)
qed

lemma closes_try:
  assumes v: "view (goal_ends g) env own" and m: "step_order.stays (\<lambda>s t. goal_ends g t = goal_ends g s) m"
    and c: "\<And>ok. closes g (c ok)" and h: "\<And>e. closes g (h e)"
  shows "closes g (catch_op (bind_op m c) h)"
  unfolding closes_def
proof
  fix s :: tas
  obtain r t where t: "m s = (r, t)" by (cases "m s")
  have same: "goal_ends g t = goal_ends g s" using v m t by (rule view.view_same)
  show "\<exists>res t e. catch_op (bind_op m c) h s = (Inr res, t) \<and> ends_goal g e
      \<and> goal_ends g t = goal_ends g s @ [e] \<and> (ar_success res \<longleftrightarrow> e = GoalSucceed g)"
  proof (cases r)
    case (Inl x)
    with t have "catch_op (bind_op m c) h s = h x t" by (simp add: catch_op_def bind_op_def)
    with h [of x] same show ?thesis unfolding closes_def by metis
  next
    case (Inr ok)
    obtain res u e where "c ok t = (Inr res, u)" "ends_goal g e" "goal_ends g u = goal_ends g t @ [e]"
        "ar_success res \<longleftrightarrow> e = GoalSucceed g" using c [of ok] unfolding closes_def by blast
    with t Inr same show ?thesis by (auto simp: catch_op_def bind_op_def)
  qed
qed

lemma closes_if: "(b \<Longrightarrow> closes g m) \<Longrightarrow> (\<not> b \<Longrightarrow> closes g k) \<Longrightarrow> closes g (if b then m else k)"
  by simp

lemma closes_concludes:
  assumes u: "goal_unique g env"
  shows "closes g (conclude env g tool_id ok)" "closes g (conclude_hand env g tool_id ok)"
proof -
  note V = goal_view [OF u]
  have wanted: "view.settles (goal_ends g) (\<lambda>_. True) (still_wanted env g ok)"
    using view.settles_still_wanted [OF V, of ok g] by (fastforce simp: view.settles_def [OF V])
  have read: "view.settles (goal_ends g) (\<lambda>_. True) (read_flag env f)" for f :: "tas \<Rightarrow> bool"
    by (rule view.settles_read [OF V]) simp
  note out = closes_emit [OF _ _ V] view.settles_seq [OF V] view.settles_plc [OF V]
    view.settles_log [OF V] view.settles_ret [OF V]
  show "closes g (conclude env g tool_id ok)"
    unfolding conclude_def
    by (intro closes_after [OF V wanted] closes_if closes_after [OF V read] out)
      (simp_all add: ends_goal_def answer_def)
  show "closes g (conclude_hand env g tool_id ok)"
    unfolding conclude_hand_def
    by (intro closes_after [OF V wanted] closes_if closes_after [OF V read] out)
      (simp_all add: ends_goal_def answer_def)
qed

lemma closes_actions:
  assumes u: "goal_unique g env"
  shows "closes g (sequence_action env g tool_id plan)"
    and "closes g (hand_action env g tool_id holding steps)"
proof -
  note V = goal_view [OF u] and Fr = goal_free [OF u]
  note base = view.axioms(1) [OF V]
  have any: "step_order.stays (\<lambda>s t. goal_ends g t = goal_ends g s) (run_steps env h track n i ss)" for h track n i ss
    by (rule tas_order.stays_run_steps [OF base tas_free.stays_exec_step [OF Fr]]) (simp add: ends_goal_def)
  have plan: "step_order.stays (\<lambda>s t. goal_ends g t = goal_ends g s) (run_plan env g plan)"
    by (rule tas_order.stays_run_plan [OF base]) (simp_all add: run_sequence_def any ends_goal_def)
  have hand: "step_order.stays (\<lambda>s t. goal_ends g t = goal_ends g s) (run_hand_plan env g tool_id holding steps)"
    by (rule tas_order.stays_run_hand_plan [OF base any]) (simp add: ends_goal_def)
  note out = closes_emit [OF _ _ V] view.settles_seq [OF V] view.settles_plc [OF V]
    view.settles_log [OF V] view.settles_ret [OF V] view.settles_status [OF V] view.settles_release [OF V]
  have busy: "closes g (busy_goal g)"
    unfolding busy_goal_def by (intro out) (simp_all add: ends_goal_def)
  have fin: "view.settles (goal_ends g) (\<lambda>_. True) (seq_op (publish_status False) release)"
    by (intro out) simp_all
  have assoc: "seq_op (publish_status False) (seq_op release k) = seq_op (seq_op (publish_status False) release) k"
    for k :: "action_result tas_op"
    by (simp add: fun_eq_iff seq_op_def bind_op_def publish_status_def emit_def release_def)
  show "closes g (sequence_action env g tool_id plan)"
    unfolding sequence_action_def assoc
    by (intro closes_after [OF V view.settles_acquire [OF V]] closes_if busy closes_finish [OF V _ fin]
        closes_try [OF V plan] closes_concludes [OF u] out) (simp_all add: ends_goal_def answer_def)
  have fin2: "view.settles (goal_ends g) (\<lambda>_. True) finish_hand"
    by (rule view.settles_finish_hand [OF V]) (simp add: ends_goal_def)
  show "closes g (hand_action env g tool_id holding steps)"
    unfolding hand_action_def
    by (intro closes_after [OF V view.settles_acquire [OF V]] closes_if busy closes_finish [OF V _ fin2]
        closes_try [OF V hand] closes_concludes [OF u] out) (simp_all add: ends_goal_def answer_def)
qed

text \<open>Whoever takes the lock gives it back.\<close>

lemma release_last:
  "bind_op m (\<lambda>res. seq_op (publish_status False) (seq_op release (ret_op res))) s = (Inr r, t) \<Longrightarrow> \<not> ts_busy t"
  "bind_op m (\<lambda>res. seq_op finish_hand (ret_op res)) s = (Inr r, t) \<Longrightarrow> \<not> ts_busy t"
  by (auto dest!: bind_op_okD seq_op_okD simp: release_def finish_hand_def)

lemma acquire_eq:
  "acquire s = (if ts_busy s then (Inr False, s) else (Inr True, s\<lparr>ts_busy := True\<rparr>))"
  by (simp add: acquire_def bind_op_def seq_op_def)

lemma lock_returned:
  assumes "serve env rq s = (Inr res, t)" "goal_of rq = Some g"
  shows "ts_busy t = ts_busy s"
proof -
  have seq: "ts_busy t = ts_busy s" if "sequence_action env g tool_id plan s = (Inr res, t)" for tool_id plan
    using that
    by (cases "ts_busy s")
      (auto simp: sequence_action_def bind_op_def [of acquire] acquire_eq busy_goal_eq dest!: release_last)
  have hand: "ts_busy t = ts_busy s" if "hand_action env g tool_id holding steps s = (Inr res, t)"
    for tool_id holding steps
    using that
    by (cases "ts_busy s")
      (auto simp: hand_action_def bind_op_def [of acquire] acquire_eq busy_goal_eq dest!: release_last)
  have goal: "ts_busy t = ts_busy s"
    if "accept_goal g m s = (Inr res, t)" "m s = (Inr res, t) \<Longrightarrow> ts_busy t = ts_busy s" for m
    using that by (cases "goal_callback s") (auto simp: accept_goal_def bind_op_def rejected_goal_def emit_seq)
  show ?thesis
    using assms
    by (cases rq)
      (auto simp: serve_def goal_of_def on_place_at_staging_def on_return_to_slot_def
        on_place_on_hand_def on_place_on_hand_test_def dest!: goal dest: seq hand)
qed

text \<open>
  C12: Every goal (fetch, return or hand-over, with any plan, replies, failures and events) is
  answered exactly once: one terminal report for it, which says success exactly when the answer
  does, and no exception leaves the handler. The action lock is afterwards as it was: never left
  taken by a goal that failed, was cancelled or raised.
\<close>
theorem goal_ends_once:
  assumes "goal_of rq = Some g" and "goal_unique g env"
  shows "\<exists>res t e. serve env rq s = (Inr res, t) \<and> ends_goal g e \<and> goal_ends g t = goal_ends g s @ [e]
    \<and> (ar_success res \<longleftrightarrow> e = GoalSucceed g) \<and> ts_busy t = ts_busy s"
proof -
  note V = goal_view [OF assms(2)]
  have rejected: "closes g (rejected_goal g)"
    unfolding rejected_goal_def
    by (rule closes_emit [OF _ view.settles_ret [OF V] V]) (simp_all add: ends_goal_def answer_def)
  have goal: "closes g (accept_goal g m)" if "closes g m" for m
    unfolding accept_goal_def
    by (intro closes_after [OF V view.settles_gets [OF V]] closes_if that rejected) simp
  have "closes g (serve env rq)"
    using assms(1)
    by (cases rq)
      (simp_all add: serve_def goal_of_def on_place_at_staging_def on_return_to_slot_def
        on_place_on_hand_def on_place_on_hand_test_def goal closes_actions [OF assms(2)])
  then obtain res t e where "serve env rq s = (Inr res, t)" "ends_goal g e"
      "goal_ends g t = goal_ends g s @ [e]" "ar_success res \<longleftrightarrow> e = GoalSucceed g"
    unfolding closes_def by blast
  with lock_returned [OF _ assms(1)] show ?thesis by blast
qed

theorem goal_ends_once_witness:
  "\<exists>res t e. serve (demo_env (stop_at 8)) (HandOverTest 1 ''t'') demo_state = (Inr res, t) \<and> ends_goal 1 e
    \<and> goal_ends 1 t = goal_ends 1 demo_state @ [e] \<and> (ar_success res \<longleftrightarrow> e = GoalSucceed 1)
    \<and> ts_busy t = ts_busy demo_state"
  by (rule goal_ends_once) (simp_all add: goal_of_def goal_unique_def demo_env_def stop_at_def)

section \<open>What is left behind\<close>

lemma hand_action_not_held:
  assumes "hand_action env g tool_id holding steps s = (Inr res, t)" "\<not> ts_busy s"
  shows "\<not> ts_grip_taken t"
  using assms
  by (auto simp: hand_action_def bind_op_def [of acquire] acquire_eq finish_hand_def release_def
      dest!: bind_op_okD seq_op_okD)

text \<open>
  After a hand-over that ran, however it ended, an E-stop reset publishes \<open>idle\<close> and clears the
  moving flag: the handler's last statement has cleared the flag that tells the reset that the
  gripper still holds the tool, so the branch meant for that case is not taken.
\<close>
theorem reset_after_hand_over:
  assumes "serve env rq s = (Inr res, t)" and "is_hand_over rq" and "\<not> ts_estop s" and "\<not> ts_busy s"
  shows "\<exists>logs u. on_estop_reset env' t = (Inr \<lparr>ar_success = True, ar_message = ResetDone\<rparr>, u)
    \<and> ts_outs u = ts_outs t @ [PlcState ''idle'', RobotMoving False] @ logs"
proof -
  have "\<not> ts_grip_taken t"
    using assms
    by (cases rq) (auto simp: is_hand_over_def serve_def accept_goal_def bind_op_def goal_callback_def
        on_place_on_hand_def on_place_on_hand_test_def dest!: hand_action_not_held)
  then show ?thesis by (simp add: on_estop_reset_eq)
qed

text \<open>The tool is in the gripper when the handler ends, as its last message shows.\<close>

theorem reset_after_hand_over_witness:
  "\<exists>res t logs u. serve (demo_env (stop_at 8)) (HandOverTest 1 ''t'') demo_state = (Inr res, t)
    \<and> last (ts_outs t) = PlcState ''error''
    \<and> on_estop_reset (demo_env (stop_at 8)) t = (Inr \<lparr>ar_success = True, ar_message = ResetDone\<rparr>, u)
    \<and> ts_outs u = ts_outs t @ [PlcState ''idle'', RobotMoving False] @ logs"
proof -
  let ?run = "serve (demo_env (stop_at 8)) (HandOverTest 1 ''t'') demo_state"
  have ok: "is_ok (fst ?run)" "last (ts_outs (snd ?run)) = PlcState ''error''" by code_simp+
  then obtain res t where run: "?run = (Inr res, t)" by (cases ?run) (auto simp: is_ok_iff)
  have "\<exists>logs u. on_estop_reset (demo_env (stop_at 8)) t = (Inr \<lparr>ar_success = True, ar_message = ResetDone\<rparr>, u)
      \<and> ts_outs u = ts_outs t @ [PlcState ''idle'', RobotMoving False] @ logs"
    by (rule reset_after_hand_over [OF run])
      (simp_all add: is_hand_over_def demo_state_def tas_init_def)
  with run ok(2) show ?thesis by auto
qed

definition is_plc :: "tas_out \<Rightarrow> bool" where
  "is_plc x = (case x of PlcState _ \<Rightarrow> True | _ \<Rightarrow> False)"

lemma is_plc_simps [simp]:
  "is_plc (PlcState p)" "\<not> is_plc (RobotMoving b)" "\<not> is_plc (GoalSucceed g)" "\<not> is_plc (GoalAbort g)"
  "\<not> is_plc (GoalCanceled g)" "\<not> is_plc (Feedback n f x)"
  by (simp_all add: is_plc_def)

definition plc_shown :: "tas \<Rightarrow> tas_out list" where
  "plc_shown s = filter is_plc (ts_outs s)"

definition no_stops :: "tas_env \<Rightarrow> bool" where
  "no_stops env \<longleftrightarrow> (\<forall>k. EvEstop \<notin> set (en_events env k) \<and> EvEstopReset \<notin> set (en_events env k))"

lemma event_outs_plc:
  "ev \<noteq> EvEstop \<Longrightarrow> ev \<noteq> EvEstopReset \<Longrightarrow> filter is_plc (event_outs env ev s) = []"
  by (cases ev) (auto simp: event_outs_def is_plc_def)

lemma plc_view:
  assumes "no_stops env"
  shows "view plc_shown env (\<lambda>x. \<not> is_plc x)"
proof unfold_locales
  show "plc_shown (snd (observe env s)) = plc_shown s" for s
  proof (rule observe_by_events)
    fix ev r
    assume "ev \<in> set (en_events env (ts_tick s))"
    with assms have "ev \<noteq> EvEstop" "ev \<noteq> EvEstopReset" by (auto simp: no_stops_def)
    then show "plc_shown (on_event env ev r) = plc_shown r"
      by (simp add: plc_shown_def event_outs_plc)
  qed (simp_all add: plc_shown_def)
qed (auto simp: plc_shown_def is_plumbing_def is_plc_def split: tas_out.splits)

lemma plc_free:
  assumes "no_stops env"
  shows "tas_free (\<lambda>s t. plc_shown t = plc_shown s) env (\<lambda>x. \<not> is_plc x)"
  using view.axioms(1) [OF plc_view [OF assms]]
  by (rule tas_free.intro)
    (unfold_locales, auto simp: plc_shown_def is_move_def is_plc_def split: tas_out.splits)

lemma run_plan_plc:
  assumes ns: "no_stops env" and run: "run_plan env g plan s = (Inr ok, t)"
  shows "plc_shown t = plc_shown s @ [PlcState ''moving'']"
proof -
  note V = plc_view [OF ns]
  note base = view.axioms(1) [OF V]
  obtain s1 where s1: "set_tcp env s = (Inr (), s1)" "plc_shown s1 = plc_shown s"
    using view.settles_set_tcp [OF V, unfolded view.settles_def [OF V], THEN spec, of s] by auto
  let ?s2 = "s1\<lparr>ts_outs := ts_outs s1 @ [RobotMoving True, PlcState ''moving'']\<rparr>"
  obtain steps where steps: "plan = Inr steps" and t: "run_sequence env (Some g) steps ?s2 = (Inr ok, t)"
    using run s1(1)
    by (cases plan) (auto simp: run_plan_def seq_op_def bind_op_def built_def publish_status_def set_plc_def emit_def)
  have "step_order.stays (\<lambda>s t. plc_shown t = plc_shown s) (run_sequence env (Some g) steps)"
    by (rule tas_order.stays_run_sequence [OF base tas_free.stays_exec_step [OF plc_free [OF ns]]]) simp
  then have "plc_shown t = plc_shown ?s2" using t by (rule view.view_same [OF V])
  with s1(2) show ?thesis by (simp add: plc_shown_def)
qed

lemma conclude_cancelled:
  assumes ns: "no_stops env" and run: "conclude env g tool_id ok s = (Inr res, t)"
    and "ar_message res = Cancelled"
  shows "plc_shown t = plc_shown s"
proof -
  note V = plc_view [OF ns]
  obtain good u where u: "still_wanted env g ok s = (Inr good, u)" "plc_shown u = plc_shown s"
    using view.settles_still_wanted [OF V] unfolding view.settles_def [OF V] by blast
  have "plc_shown (snd (observe env u)) = plc_shown u"
    using tas_order.arrives [OF view.axioms(1) [OF V]] .
  with u run assms(3) show ?thesis
    by (auto simp: conclude_def bind_op_def seq_op_def read_flag_eq answer_def emit_def set_plc_def
        plc_shown_def split: if_splits)
qed

lemma sequence_action_cancelled:
  assumes ns: "no_stops env" and run: "sequence_action env g tool_id plan s = (Inr res, t)"
    and c: "ar_message res = Cancelled"
  shows "plc_shown t = plc_shown s @ [PlcState ''moving'']"
proof -
  have free: "\<not> ts_busy s"
    using run c by (auto simp: sequence_action_def bind_op_def [of acquire] acquire_eq busy_goal_eq)
  let ?s0 = "s\<lparr>ts_busy := True\<rparr>"
  obtain r1 s1 where s1: "run_plan env g plan ?s0 = (r1, s1)" by (cases "run_plan env g plan ?s0")
  have "\<exists>ok u. r1 = Inr ok \<and> conclude env g tool_id ok s1 = (Inr res, u) \<and> plc_shown t = plc_shown u"
  proof (cases r1)
    case (Inl e)
    with run free s1 c show ?thesis
      by (auto simp: sequence_action_def bind_op_def acquire_eq catch_op_def seq_op_def answer_def
          publish_status_def set_plc_def emit_def release_def)
  next
    case (Inr ok)
    obtain res' u where u: "conclude env g tool_id ok s1 = (Inr res', u)"
      using settles_conclude [of ok env g tool_id] unfolding unseen.settles_def by blast
    with run free s1 Inr show ?thesis
      by (auto simp: sequence_action_def bind_op_def acquire_eq catch_op_def seq_op_def
          publish_status_def emit_def release_def plc_shown_def)
  qed
  then obtain ok u where u: "r1 = Inr ok" "conclude env g tool_id ok s1 = (Inr res, u)"
      "plc_shown t = plc_shown u" by blast
  have "plc_shown s1 = plc_shown ?s0 @ [PlcState ''moving'']"
    by (rule run_plan_plc [OF ns]) (use s1 u(1) in simp)
  with conclude_cancelled [OF ns u(2) c] u(3) show ?thesis by (simp add: plc_shown_def)
qed

text \<open>
  A fetch or return that is cancelled, with no E-stop service called meanwhile, leaves the last
  PLC state it published at \<open>moving\<close>: nothing sets it back, although the status topic says the
  robot has stopped.
\<close>

theorem cancel_leaves_moving:
  assumes "no_stops env" and "rq \<in> {Fetch g tool_id, Return g tool_id}"
    and "serve env rq s = (Inr res, t)" and "ar_message res = Cancelled"
  shows "plc_shown t = plc_shown s @ [PlcState ''moving'']"
proof -
  from assms(2,3) have "accept_goal g (sequence_action env g tool_id (plan_of rq)) s = (Inr res, t)"
    by (auto simp: serve_def on_place_at_staging_def on_return_to_slot_def plan_of_def)
  with assms(4) have "sequence_action env g tool_id (plan_of rq) s = (Inr res, t)"
    by (auto simp: accept_goal_def bind_op_def rejected_goal_def emit_seq answer_def split: if_splits)
  then show ?thesis using assms(1,4) by (intro sequence_action_cancelled)
qed

definition cancel_at :: "nat \<Rightarrow> nat \<Rightarrow> nat \<Rightarrow> tas_event list" where
  "cancel_at g k i = (if i = k then [EvCancel g] else [])"

theorem cancel_leaves_moving_witness:
  "\<exists>res t. serve (demo_env (cancel_at 1 9)) (Fetch 1 ''t'') demo_state = (Inr res, t)
    \<and> plc_shown t = [PlcState ''moving''] \<and> last (ts_outs t) = RobotMoving False"
proof -
  let ?env = "demo_env (cancel_at 1 9)"
  let ?run = "serve ?env (Fetch 1 ''t'') demo_state"
  have ok: "is_ok (fst ?run) \<and> ar_message (projr (fst ?run)) = Cancelled \<and> last (ts_outs (snd ?run)) = RobotMoving False"
    by code_simp
  then obtain res t where run: "?run = (Inr res, t)" by (cases ?run) (auto simp: is_ok_iff)
  have ns: "no_stops ?env" by (simp add: no_stops_def demo_env_def cancel_at_def)
  have "ar_message res = Cancelled" using ok run by simp
  with run have "plc_shown t = plc_shown demo_state @ [PlcState ''moving'']"
    by (intro cancel_leaves_moving [OF ns, of _ 1 "''t''"]) simp_all
  with run ok show ?thesis by (auto simp: demo_state_def tas_init_def plc_shown_def)
qed

section \<open>The waiting loops\<close>

lemma sleep_advances:
  assumes "0 \<le> d" "py_sleep env d s = (r, t)"
  shows "r = Inr () \<and> ts_now s + d \<le> ts_now t"
proof -
  let ?u = "s\<lparr>ts_now := ts_now s + d + max 0 (en_lag env (ts_tick s))\<rparr>"
  have t: "t = snd (observe env ?u)" "r = Inr ()"
    using assms by (auto simp: py_sleep_def seq_op_def bind_op_def observe_def)
  then have "ts_now ?u \<le> ts_now t"
    using clock.arrives [of ?u env] by (simp add: later_def)
  with t show ?thesis by simp
qed

lemma poll_until_enough:
  assumes body: "clock.stays body" and p: "0 \<le> period"
  shows "deadline \<le> ts_now s + real n * period \<Longrightarrow>
    poll_until (n + k) env deadline period body s = poll_until n env deadline period body s
    \<and> (fst (poll_until n env deadline period body s) = Inr None \<longrightarrow>
        deadline \<le> ts_now (snd (poll_until n env deadline period body s)))"
proof (induction n arbitrary: s)
  case 0
  then show ?case by (cases k) (simp_all add: bind_op_def)
next
  case (Suc n)
  show ?case
  proof (cases "ts_now s < deadline")
    case False
    then show ?thesis by (simp add: bind_op_def)
  next
    case True
    obtain r t where t: "body s = (r, t)" by (cases "body s")
    have now: "ts_now s \<le> ts_now t" using clock.staysD' [OF body t] by (simp add: later_def)
    obtain r' u where u: "py_sleep env period t = (r', u)" by (cases "py_sleep env period t")
    have adv: "r' = Inr ()" "ts_now t + period \<le> ts_now u" using sleep_advances [OF p u] by simp_all
    have "deadline \<le> ts_now u + real n * period"
      using Suc.prems now adv(2) by (simp add: algebra_simps)
    note IH = Suc.IH [OF this]
    show ?thesis
      using True t u adv(1) IH
      by (cases r; cases "projr r") (simp_all add: bind_op_def seq_op_def)
  qed
qed

lemma poll_rounds_bound: "0 < period \<Longrightarrow> timeout \<le> real (poll_rounds timeout period) * period"
proof -
  assume p: "0 < period"
  have "timeout / period \<le> real (nat \<lceil>timeout / period\<rceil>)" by linarith
  with p show ?thesis by (simp add: poll_rounds_def divide_le_eq)
qed



section \<open>Where the arm may go\<close>

text \<open>
  Linear moves a hand-over may request: inside the workspace limits of the camera, or above the
  hand, at a height bounded by the hand's and the approach or placing offset.
\<close>

definition z_ceiling :: "tas_cfg \<Rightarrow> real" where
  "z_ceiling c =
     hand_z_max_mm c + Max {approach_height_mm c + 30, approach_height_mm c, place_z_offset_mm c False, place_z_offset_mm c True}"

definition in_camera_limits :: "tas_cfg \<Rightarrow> real list \<Rightarrow> bool" where
  "in_camera_limits c p \<longleftrightarrow>
     inside (tc_x c) (p ! 0) \<and> inside (tc_y c) (p ! 1) \<and> inside (tc_z c) (p ! 2) \<and> (p ! 0, p ! 1, p ! 2) \<noteq> (0, 0, 0)"

definition over_hand :: "tas_cfg \<Rightarrow> real list \<Rightarrow> bool" where
  "over_hand c p \<longleftrightarrow> length p = 6 \<and> p ! 2 \<le> z_ceiling c \<and> p ! 3 = 180 \<and> p ! 4 = 180"

definition line_allowed :: "tas_cfg \<Rightarrow> tas_out \<Rightarrow> bool" where
  "line_allowed c x = (case x of MoveLineReq r \<Rightarrow> in_camera_limits c (lr_pos r) \<or> over_hand c (lr_pos r) | _ \<Rightarrow> True)"

text \<open>The saved hand position is below the limit, and every linear move since message \<open>n\<close> is allowed.\<close>

definition moves_allowed :: "tas_cfg \<Rightarrow> nat \<Rightarrow> tas \<Rightarrow> bool" where
  "moves_allowed c n s \<longleftrightarrow>
     n \<le> length (ts_outs s) \<and> list_all (line_allowed c) (drop n (ts_outs s))
     \<and> (case ts_approach s of None \<Rightarrow> True
        | Some q \<Rightarrow> length q = 6 \<and> q ! 2 \<le> hand_z_max_mm c \<and> q ! 3 = 180 \<and> q ! 4 = 180)"

lemma event_outs_lines: "list_all (line_allowed c) (event_outs env ev s)"
  by (cases ev) (simp_all add: event_outs_def stop_outs_def log_outs_def line_allowed_def)

interpretation allowed: tas_calm "keeps (moves_allowed c n)" env "line_allowed c" for c n env
proof unfold_locales
  show "keeps (moves_allowed c n) s (snd (observe env s))" for s
    by (rule observe_by_events) (auto simp: keeps_def moves_allowed_def event_outs_lines)
qed (auto simp: keeps_def moves_allowed_def line_allowed_def is_plumbing_def is_move_def
    split: tas_out.splits)

lemma z_ceiling_ge:
  "hand_z_max_mm c + (approach_height_mm c + 30) \<le> z_ceiling c"
  "hand_z_max_mm c + approach_height_mm c \<le> z_ceiling c"
  "hand_z_max_mm c + place_z_offset_mm c b \<le> z_ceiling c"
  by (cases b; simp add: z_ceiling_def)+

lemma camera_request_allowed:
  "check_vision_coords c x y z \<Longrightarrow> line_allowed c (MoveLineReq (vision_req (x # y # z # ori)))"
  by (auto simp: check_vision_coords_def line_allowed_def vision_req_def line_req_def in_camera_limits_def
      split: if_splits)

lemma hand_request_allowed:
  "z \<le> z_ceiling c \<Longrightarrow> line_allowed c (MoveLineReq (hand_req (hand_pos x y z rz)))"
  "z \<le> z_ceiling c \<Longrightarrow> line_allowed c (MoveLineReq (pre_approach_req (hand_pos x y z rz)))"
  by (simp_all add: line_allowed_def hand_req_def pre_approach_req_def line_req_def over_hand_def
      hand_pos_def HANDOVER_RX_def HANDOVER_RY_def)

lemma place_request_allowed:
  "length q = 6 \<Longrightarrow> q ! 2 \<le> hand_z_max_mm c \<Longrightarrow> q ! 3 = 180 \<Longrightarrow> q ! 4 = 180 \<Longrightarrow>
   line_allowed c (MoveLineReq (hand_req (q[2 := q ! 2 + place_z_offset_mm c b])))"
  using z_ceiling_ge(3) [of c b]
  by (simp add: line_allowed_def hand_req_def line_req_def over_hand_def)

lemma allowed_approach: "keeps.stays (moves_allowed (en_cfg env) n) (move_hand_rz_approach env handle_first)"
proof -
  let ?c = "en_cfg env"
  have final: "keeps.stays (moves_allowed ?c n) (final_approach env (hand_pos x y z rz))" if "z \<le> z_ceiling ?c" for x y z rz
    unfolding final_approach_def using that
    by (auto intro!: keeps.stays_rules allowed.stays_wait_motion allowed.stays_read allowed.stays_call
        hand_request_allowed)
  have save: "keeps.stays (moves_allowed ?c n) (modify_op (\<lambda>s. s\<lparr>ts_approach := Some (hand_pos x y z rz)\<rparr>))"
    if "z \<le> hand_z_max_mm ?c" for x y z rz
    by (rule keeps.stays_modify)
      (use that in \<open>simp add: keeps_def moves_allowed_def hand_pos_def HANDOVER_RX_def HANDOVER_RY_def\<close>)
  have heights: "z + approach_height_mm ?c \<le> z_ceiling ?c" "z + approach_height_mm ?c + 30 \<le> z_ceiling ?c"
    if "z \<le> hand_z_max_mm ?c" for z
    using z_ceiling_ge(1,2) [of ?c] that by simp_all
  show ?thesis
    unfolding move_hand_rz_approach_def Let_def
    by (rule keeps.stays_bind, rule allowed.stays_read)
      (auto intro!: allowed.stays_cond keeps.stays_rules allowed.stays_call save final heights
        hand_request_allowed split: prod.splits option.splits sum.splits simp del: op_simps)
qed

lemma allowed_place: "keeps.stays (moves_allowed (en_cfg env) n) (move_hand_place env handle_first)"
proof (rule keeps.staysI)
  fix s
  let ?I = "moves_allowed (en_cfg env) n"
  let ?s1 = "snd (observe env s)"
  have s1: "?I s \<Longrightarrow> ?I ?s1" using allowed.arrives [of "en_cfg env" n s env] by (simp add: keeps_def)
  show "keeps ?I s (snd (move_hand_place env handle_first s))"
  proof (cases "ts_approach ?s1")
    case None
    then show ?thesis using s1 by (simp add: move_hand_place_def bind_op_def read_flag_eq keeps_def)
  next
    case (Some q)
    let ?m = "bind_op (call_and_wait env (MoveLineReq (hand_req
             (q[2 := q ! 2 + place_z_offset_mm (en_cfg env) handle_first])))) (\<lambda>a.
         case a of
           None \<Rightarrow> ret_op False
         | Some res \<Rightarrow>
             seq_op (wait_motion_complete env 60.0 0.005 0.01)
            (seq_op (py_sleep env 0.3) (ret_op (res_ok res))))"
    have run: "move_hand_place env handle_first s = ?m ?s1"
      by (simp only: move_hand_place_def bind_op_def [of "read_flag env ts_approach"] read_flag_eq Some
          prod.case sum.case option.case)
    show ?thesis
      unfolding keeps_def
    proof
      assume "?I s"
      with s1 have I: "?I ?s1" .
      with Some have "line_allowed (en_cfg env) (MoveLineReq (hand_req
             (q[2 := q ! 2 + place_z_offset_mm (en_cfg env) handle_first])))"
        by (intro place_request_allowed) (simp_all add: moves_allowed_def)
      then have "keeps.stays ?I ?m"
        by (auto intro!: keeps.stays_rules allowed.stays_call allowed.stays_wait_motion allowed.stays_sleep)
      from keeps.staysD [OF this, of ?s1, unfolded keeps_def] I have "?I (snd (?m ?s1))" by (rule mp)
      then show "?I (snd (move_hand_place env handle_first s))" by (simp only: run)
    qed
  qed
qed

lemma allowed_exec_step:
  assumes "kind st \<notin> {MOVE_L_ABS, MOVE_L_REL}"
  shows "keeps.stays (moves_allowed (en_cfg env) n) (exec_step env st)"
  using assms unfolding exec_step_def
  by (cases "kind st")
    (auto intro!: allowed.stays_movej allowed.stays_grip keeps.stays_seq allowed.stays_sleep keeps.stays_ret
      allowed.stays_wait_vision allowed.stays_wait_hand allowed.stays_top_xy allowed.stays_tool_xyz
      allowed_approach allowed_place camera_request_allowed
      simp: line_allowed_def [of _ "MoveJointReq r" for r] line_allowed_def [of _ "GripReq r" for r]
      simp del: op_simps)



end
