(* ===== verification/Orchestrator.thy ===== *)
theory Orchestrator imports Prelude begin

text \<open>
  \<open>ros2_ws/src/orchestrator\<close>: the node that turns voice intents into behaviour-tree ticks, gate
  requests, motion goals and status updates. Ticks, status updates and callbacks run in threads of
  their own, so the node is a transition system: an event is one atomic section of one thread (from
  a wake-up to the next blocking call), and \<open>orch_step\<close> says what it does. Replies of services and
  of the action server are part of the events. The blackboard is the fields \<open>oc_bb\<close>.

  \<open>py_trees\<close> is outside the source. The model relies on its documented sequence and selector: the
  children are ticked in order, a sequence stops at the first that fails, a selector at the first
  that succeeds. What \<open>tick_once\<close> returns to the caller is the parameter \<open>T\<close>.
\<close>

section \<open>Data\<close>

datatype bt_status = INVALID | RUNNING | SUCCESS | FAILURE

datatype gate_reason = NoTool | DbNotReady | GateTimedOut | GateSilent | Told string

record bb_pose =
  bp_position :: "real list"
  bp_quaternion :: "real list"
  bp_frame :: string

text \<open>
  Where the thread of a tick stands: created; about to ask the gate; waiting for its answer about a
  tool; about to send the goal; waiting for the action on a tool; ended.
\<close>

datatype stage = Spawned | AtGate | AwaitGate string | AtAction | AwaitAction string | Ended

record tick =
  tk_intent :: string
  tk_tool :: string
  tk_stage :: stage

record update_req =
  up_tool :: string
  up_event :: string
  up_track :: string
  up_status :: string
  up_notes :: string

text \<open>
  \<open>oc_asked\<close>, \<open>oc_goals\<close>, \<open>oc_sent\<close>, \<open>oc_logs\<close> and \<open>oc_plc\<close> are what the node has sent, in order,
  and \<open>oc_approved\<close> the pairs of intent and tool the gate has allowed.
\<close>

record orch =
  oc_active_tool :: string
  oc_scene :: "string option"
  oc_moving :: bool
  oc_lock :: bool
  oc_pending_s7 :: int
  oc_bb_intent :: "string option"
  oc_bb_tool :: "string option"
  oc_bb_pose :: "bb_pose option"
  oc_bb_reason :: "gate_reason option"
  oc_ticks :: "tick list"
  oc_updates :: "update_req list"
  oc_plc :: "string list"
  oc_asked :: "(string \<times> string) list"
  oc_approved :: "(string \<times> string) list"
  oc_goals :: "(string \<times> string) list"
  oc_sent :: "update_req list"
  oc_logs :: "(string \<times> string) list"

definition orch_init :: orch where
  "orch_init =
     \<lparr>oc_active_tool = [], oc_scene = None, oc_moving = False, oc_lock = False, oc_pending_s7 = 0,
      oc_bb_intent = None, oc_bb_tool = None, oc_bb_pose = None, oc_bb_reason = None, oc_ticks = [],
      oc_updates = [], oc_plc = [], oc_asked = [], oc_approved = [], oc_goals = [], oc_sent = [], oc_logs = []\<rparr>"

definition MAX_PENDING_S7_LOGS :: int where
  "MAX_PENDING_S7_LOGS = 16"

definition orch_set_plc :: "string \<Rightarrow> orch \<Rightarrow> orch" where
  "orch_set_plc state s = s\<lparr>oc_plc := oc_plc s @ [state]\<rparr>"

section \<open>Topics\<close>

definition on_robot_status :: "bool \<Rightarrow> orch \<Rightarrow> orch" where
  "on_robot_status is_moving s = s\<lparr>oc_moving := is_moving\<rparr>"

definition on_scene_context :: "string \<Rightarrow> orch \<Rightarrow> orch" where
  "on_scene_context data s = s\<lparr>oc_scene := Some data\<rparr>"

text \<open>A detection: the class and pose of its first result, if it has results.\<close>

type_synonym detection = "(string \<times> real list \<times> real list) option"

fun first_pose :: "string \<Rightarrow> detection list \<Rightarrow> (real list \<times> real list) option" where
  "first_pose tool [] = None"
| "first_pose tool (None # ds) = first_pose tool ds"
| "first_pose tool (Some (class_id, p, q) # ds) =
     (if class_id \<noteq> tool then first_pose tool ds else Some (p, q))"

definition on_tracked_poses :: "string \<Rightarrow> detection list \<Rightarrow> orch \<Rightarrow> orch" where
  "on_tracked_poses frame_id ds s =
     (if oc_active_tool s = [] then s
      else (case first_pose (oc_active_tool s) ds of
          None \<Rightarrow> s
        | Some (p, q) \<Rightarrow>
            s\<lparr>oc_bb_pose := Some \<lparr>bp_position = p, bp_quaternion = q,
                bp_frame = (if frame_id = [] then ''robot_base_link'' else frame_id)\<rparr>\<rparr>))"

text \<open>
  The rejection log: the service is down (or the question raises), it takes the request, or the
  call raises after the counter went up.
\<close>

datatype log_call = LogDown | LogSent | LogCallRaises

definition log_s7_rejection :: "log_call \<Rightarrow> string \<Rightarrow> string \<Rightarrow> orch \<Rightarrow> orch" where
  "log_s7_rejection lc intent tool s =
     (if lc = LogDown then s
      else if oc_pending_s7 s \<ge> MAX_PENDING_S7_LOGS then s
      else let s1 = s\<lparr>oc_pending_s7 := oc_pending_s7 s + 1\<rparr> in
        if lc = LogCallRaises then s1
        else s1\<lparr>oc_logs := oc_logs s @ [(tool, ''S-7: robot moving; intent='' @ intent)]\<rparr>)"

definition on_log_event_done :: "orch \<Rightarrow> orch" where
  "on_log_event_done s = s\<lparr>oc_pending_s7 := max 0 (oc_pending_s7 s - 1)\<rparr>"

definition on_intent :: "log_call \<Rightarrow> string \<Rightarrow> string \<Rightarrow> orch \<Rightarrow> orch" where
  "on_intent lc intent tool s =
     (if oc_moving s then log_s7_rejection lc intent tool s
      else s\<lparr>oc_active_tool := tool, oc_bb_intent := Some intent, oc_bb_tool := Some tool,
            oc_bb_pose := None,
            oc_ticks := oc_ticks s @ [\<lparr>tk_intent = intent, tk_tool = tool, tk_stage = Spawned\<rparr>]\<rparr>)"

section \<open>The tick thread\<close>

definition set_stage :: "nat \<Rightarrow> stage \<Rightarrow> orch \<Rightarrow> orch" where
  "set_stage i st s = s\<lparr>oc_ticks := (oc_ticks s)[i := (oc_ticks s ! i)\<lparr>tk_stage := st\<rparr>]\<rparr>"

text \<open>The end of \<open>_tick_bt\<close>: the tree ended with a status, or raised.\<close>

definition tick_end :: "nat \<Rightarrow> orch \<Rightarrow> orch" where
  "tick_end i s = set_stage i Ended (s\<lparr>oc_lock := False\<rparr>)"

definition tick_finish :: "(bt_status \<Rightarrow> bt_status option) \<Rightarrow> nat \<Rightarrow> bt_status \<Rightarrow> orch \<Rightarrow> orch" where
  "tick_finish T i status s =
     tick_end i (orch_set_plc (if T status = Some SUCCESS then ''idle'' else ''error'') s)"

definition tick_raise :: "nat \<Rightarrow> orch \<Rightarrow> orch" where
  "tick_raise i s = tick_end i (orch_set_plc ''error'' s)"

text \<open>\<open>_tick_bt\<close> up to the tick of the tree.\<close>

definition tick_bt :: "nat \<Rightarrow> orch \<Rightarrow> orch" where
  "tick_bt i s =
     (if oc_lock s then set_stage i Ended s
      else let s1 = s\<lparr>oc_lock := True\<rparr> in
        if tk_intent (oc_ticks s ! i) \<in> {''fetch'', ''return''}
        then set_stage i AtGate (orch_set_plc ''moving'' s1)
        else tick_end i s1)"

text \<open>\<open>CheckFeasibility.update\<close>: its request, and its answer.\<close>

definition bb_tool :: "orch \<Rightarrow> string" where
  "bb_tool s = (case oc_bb_tool s of None \<Rightarrow> [] | Some t \<Rightarrow> t)"

definition gate_call :: "(bt_status \<Rightarrow> bt_status option) \<Rightarrow> bool \<Rightarrow> nat \<Rightarrow> orch \<Rightarrow> orch" where
  "gate_call T ready i s =
     (let tool = bb_tool s; intent = tk_intent (oc_ticks s ! i) in
      if tool = [] then tick_finish T i FAILURE (s\<lparr>oc_bb_reason := Some NoTool\<rparr>)
      else if \<not> ready then tick_finish T i FAILURE (s\<lparr>oc_bb_reason := Some DbNotReady\<rparr>)
      else set_stage i (AwaitGate tool) (s\<lparr>oc_asked := oc_asked s @ [(intent, tool)]\<rparr>))"

definition gated_tool :: "stage \<Rightarrow> string" where
  "gated_tool st = (case st of AwaitGate tool \<Rightarrow> tool | _ \<Rightarrow> [])"

datatype gate_answer = GateNever | GateException | GateSays bool string

definition gate_reply :: "(bt_status \<Rightarrow> bt_status option) \<Rightarrow> gate_answer \<Rightarrow> nat \<Rightarrow> orch \<Rightarrow> orch" where
  "gate_reply T a i s =
     (case a of
        GateNever \<Rightarrow> tick_finish T i FAILURE (s\<lparr>oc_bb_reason := Some GateTimedOut\<rparr>)
      | GateException \<Rightarrow> tick_finish T i FAILURE (s\<lparr>oc_bb_reason := Some GateSilent\<rparr>)
      | GateSays feasible reason \<Rightarrow>
          let s1 = s\<lparr>oc_bb_reason := Some (Told reason)\<rparr> in
          if feasible
          then set_stage i AtAction
            (s1\<lparr>oc_approved := oc_approved s1 @ [(tk_intent (oc_ticks s ! i), gated_tool (tk_stage (oc_ticks s ! i)))]\<rparr>)
          else tick_finish T i FAILURE s1)"

text \<open>\<open>RunAction.update\<close>: the goal is built from the blackboard when the leaf is ticked.\<close>

definition action_call :: "(bt_status \<Rightarrow> bt_status option) \<Rightarrow> bool \<Rightarrow> nat \<Rightarrow> orch \<Rightarrow> orch" where
  "action_call T up i s =
     (let tool = bb_tool s; intent = tk_intent (oc_ticks s ! i) in
      if \<not> up then tick_finish T i FAILURE s
      else set_stage i (AwaitAction tool) (s\<lparr>oc_goals := oc_goals s @ [(intent, tool)]\<rparr>))"

datatype action_answer = ActionNever | ActionRejected | ActionResult bool

definition action_reply :: "(bt_status \<Rightarrow> bt_status option) \<Rightarrow> action_answer \<Rightarrow> nat \<Rightarrow> orch \<Rightarrow> orch" where
  "action_reply T a i s =
     (case a of
        ActionNever \<Rightarrow> tick_finish T i FAILURE s
      | ActionRejected \<Rightarrow> tick_finish T i FAILURE s
      | ActionResult ok \<Rightarrow> tick_finish T i (if ok then SUCCESS else FAILURE) s)"

section \<open>Status updates\<close>

definition dispatch_update_status :: "string \<Rightarrow> string \<Rightarrow> string \<Rightarrow> string \<Rightarrow> orch \<Rightarrow> orch" where
  "dispatch_update_status tool ev status nts s =
     s\<lparr>oc_updates := oc_updates s @
       [\<lparr>up_tool = tool, up_event = ev, up_track = ''A'', up_status = status, up_notes = nts\<rparr>]\<rparr>"

definition on_fetch_pick :: "orch \<Rightarrow> orch" where
  "on_fetch_pick s = dispatch_update_status (oc_active_tool s) ''fetch'' ''out'' ''fetch pick'' s"

definition on_fetch_place :: "orch \<Rightarrow> orch" where
  "on_fetch_place s = dispatch_update_status (oc_active_tool s) ''fetch'' ''staged'' ''fetch place'' s"

definition on_return_pick :: "orch \<Rightarrow> orch" where
  "on_return_pick s = dispatch_update_status (oc_active_tool s) ''return'' ''out'' ''return pick'' s"

definition on_return_place :: "orch \<Rightarrow> orch" where
  "on_return_place s = dispatch_update_status (oc_active_tool s) ''return'' ''in_slot'' ''return place'' s"

definition fetch_feedback :: "string \<Rightarrow> orch \<Rightarrow> orch" where
  "fetch_feedback phase s =
     (if phase = ''pick'' then on_fetch_pick s else if phase = ''place'' then on_fetch_place s else s)"

definition return_feedback :: "string \<Rightarrow> orch \<Rightarrow> orch" where
  "return_feedback phase s =
     (if phase = ''pick'' then on_return_pick s else if phase = ''place'' then on_return_place s else s)"

text \<open>The \<open>k\<close>-th dispatched update thread runs \<open>_call_update_status\<close>.\<close>

datatype update_answer = UpdateDown | UpdateNever | UpdateException | UpdateSays bool

definition call_update_status :: "update_answer \<Rightarrow> nat \<Rightarrow> orch \<Rightarrow> orch" where
  "call_update_status a k s =
     (let q = oc_updates s ! k;
          s1 = s\<lparr>oc_updates := take k (oc_updates s) @ drop (Suc k) (oc_updates s)\<rparr>;
          s2 = (if a = UpdateDown then s1 else s1\<lparr>oc_sent := oc_sent s1 @ [q]\<rparr>)
      in if a = UpdateSays True then s2 else orch_set_plc ''error'' s2)"

section \<open>The node\<close>

datatype orch_event =
    RobotStatusMsg bool
  | IntentMsg log_call string string
  | SceneMsg string
  | PosesMsg string "detection list"
  | LogDone
  | TickStart nat
  | GateCall bool nat
  | GateReply gate_answer nat
  | ActionCall bool nat
  | ActionReply action_answer nat
  | TickRaise nat
  | FeedbackMsg string string
  | UpdateRun update_answer nat

text \<open>The events possible in a state.\<close>

definition at_stage :: "(stage \<Rightarrow> bool) \<Rightarrow> nat \<Rightarrow> orch \<Rightarrow> bool" where
  "at_stage P i s \<longleftrightarrow> i < length (oc_ticks s) \<and> P (tk_stage (oc_ticks s ! i))"

definition awaits_gate :: "stage \<Rightarrow> bool" where
  "awaits_gate st = (case st of AwaitGate _ \<Rightarrow> True | _ \<Rightarrow> False)"

definition awaits_action :: "stage \<Rightarrow> bool" where
  "awaits_action st = (case st of AwaitAction _ \<Rightarrow> True | _ \<Rightarrow> False)"

definition runs_tree :: "stage \<Rightarrow> bool" where
  "runs_tree st = (st \<noteq> Spawned \<and> st \<noteq> Ended)"

definition enabled :: "orch_event \<Rightarrow> orch \<Rightarrow> bool" where
  "enabled ev s =
     (case ev of
        TickStart i \<Rightarrow> at_stage (\<lambda>st. st = Spawned) i s
      | GateCall _ i \<Rightarrow> at_stage (\<lambda>st. st = AtGate) i s
      | GateReply _ i \<Rightarrow> at_stage awaits_gate i s
      | ActionCall _ i \<Rightarrow> at_stage (\<lambda>st. st = AtAction) i s
      | ActionReply _ i \<Rightarrow> at_stage awaits_action i s
      | TickRaise i \<Rightarrow> at_stage runs_tree i s
      | FeedbackMsg intent _ \<Rightarrow> intent \<in> fst ` set (oc_goals s)
      | UpdateRun _ k \<Rightarrow> k < length (oc_updates s)
      | LogDone \<Rightarrow> oc_logs s \<noteq> []
      | _ \<Rightarrow> True)"

definition orch_step :: "(bt_status \<Rightarrow> bt_status option) \<Rightarrow> orch_event \<Rightarrow> orch \<Rightarrow> orch" where
  "orch_step T ev s =
     (case ev of
        RobotStatusMsg b \<Rightarrow> on_robot_status b s
      | IntentMsg lc intent tool \<Rightarrow> on_intent lc intent tool s
      | SceneMsg d \<Rightarrow> on_scene_context d s
      | PosesMsg f ds \<Rightarrow> on_tracked_poses f ds s
      | LogDone \<Rightarrow> on_log_event_done s
      | TickStart i \<Rightarrow> tick_bt i s
      | GateCall ready i \<Rightarrow> gate_call T ready i s
      | GateReply a i \<Rightarrow> gate_reply T a i s
      | ActionCall up i \<Rightarrow> action_call T up i s
      | ActionReply a i \<Rightarrow> action_reply T a i s
      | TickRaise i \<Rightarrow> tick_raise i s
      | FeedbackMsg intent phase \<Rightarrow>
          if intent = ''fetch'' then fetch_feedback phase s else return_feedback phase s
      | UpdateRun a k \<Rightarrow> call_update_status a k s)"

inductive orch_trans :: "(bt_status \<Rightarrow> bt_status option) \<Rightarrow> orch \<Rightarrow> orch_event \<Rightarrow> orch \<Rightarrow> bool" for T where
  orch_transI: "enabled ev s \<Longrightarrow> orch_trans T s ev (orch_step T ev s)"

inductive_simps orch_trans_iff: "orch_trans T s ev t"

inductive orch_run :: "(bt_status \<Rightarrow> bt_status option) \<Rightarrow> orch \<Rightarrow> orch_event list \<Rightarrow> orch \<Rightarrow> bool" for T where
  run_nil: "orch_run T s [] s"
| run_snoc: "orch_run T s evs t \<Longrightarrow> orch_trans T t ev u \<Longrightarrow> orch_run T s (evs @ [ev]) u"

text \<open>The same, computed: \<open>None\<close> when an event of the list is not possible.\<close>

fun play :: "(bt_status \<Rightarrow> bt_status option) \<Rightarrow> orch_event list \<Rightarrow> orch \<Rightarrow> orch option" where
  "play T [] s = Some s"
| "play T (ev # evs) s = (if enabled ev s then play T evs (orch_step T ev s) else None)"

section \<open>The hand-over subtree\<close>

text \<open>
  \<open>place_on_hand_bt.py\<close>: with the answers of its leaves, the goals the selector sends and its
  status. \<open>phases\<close> are the feedback phases; \<open>on_pick\<close> and \<open>on_deliver\<close> are called for them.
\<close>

definition check_hand_ready :: "bool \<Rightarrow> bt_status" where
  "check_hand_ready ready = (if ready then SUCCESS else FAILURE)"

definition run_action_status :: "bool \<Rightarrow> action_answer \<Rightarrow> bt_status" where
  "run_action_status up a =
     (if \<not> up then FAILURE
      else (case a of ActionResult ok \<Rightarrow> if ok then SUCCESS else FAILURE | _ \<Rightarrow> FAILURE))"

definition handover_selector ::
  "bool \<Rightarrow> bool \<times> action_answer \<Rightarrow> bool \<times> action_answer \<Rightarrow> string list \<times> bt_status" where
  "handover_selector ready hand staging =
     (let sent_hand = (if ready \<and> fst hand then [''place_on_hand''] else []);
          try_handover = (if check_hand_ready ready = SUCCESS
                          then run_action_status (fst hand) (snd hand) else FAILURE)
      in if try_handover = SUCCESS then (sent_hand, SUCCESS)
         else (sent_hand @ (if fst staging then [''place_at_staging''] else []),
               run_action_status (fst staging) (snd staging)))"

definition handover_feedback :: "string \<Rightarrow> ('s \<Rightarrow> 's) option \<Rightarrow> ('s \<Rightarrow> 's) option \<Rightarrow> 's \<Rightarrow> 's" where
  "handover_feedback phase on_pick on_deliver s =
     (case (phase = ''pick'', on_pick) of
        (True, Some f) \<Rightarrow> f s
      | _ \<Rightarrow> (case (phase = ''place'', on_deliver) of (True, Some f) \<Rightarrow> f s | _ \<Rightarrow> s))"

definition staging_feedback :: "string \<Rightarrow> ('s \<Rightarrow> 's) option \<Rightarrow> 's \<Rightarrow> 's" where
  "staging_feedback phase on_pick s =
     (case (phase = ''pick'', on_pick) of (True, Some f) \<Rightarrow> f s | _ \<Rightarrow> s)"

section \<open>The unit action server\<close>

text \<open>\<open>unit_action_server.py\<close>: six stubs that abort every goal.\<close>

definition unit_action_names :: "string list" where
  "unit_action_names =
     [''grasp'', ''move_to_pose'', ''place_at_staging'', ''pick_from_staging'', ''release'', ''return_to_slot'']"

definition execute_stub :: "string \<Rightarrow> (bool \<times> string) option" where
  "execute_stub name = (if name \<in> set unit_action_names then Some (False, ''not implemented'') else None)"

end
