(* ===== verification/OrchestratorSafety.thy ===== *)
theory OrchestratorSafety imports Orchestrator "HOL-Library.Sublist" begin

text \<open>
  Properties of the orchestrator by rule induction over its runs: one tick at a time, every goal
  approved by the gate when intents wait for the running tick, and what happens when they do not.
\<close>

section \<open>One tick at a time\<close>

definition running :: "orch \<Rightarrow> nat" where
  "running s = length (filter (\<lambda>tk. runs_tree (tk_stage tk)) (oc_ticks s))"

lemma length_filter_update:
  "i < length xs \<Longrightarrow>
   length (filter P (xs[i := x])) + (if P (xs ! i) then 1 else 0) = length (filter P xs) + (if P x then 1 else 0)"
proof (induction xs arbitrary: i)
  case (Cons y ys)
  then show ?case by (cases i) auto
qed simp

lemma running_set_stage:
  "i < length (oc_ticks s) \<Longrightarrow>
   running (set_stage i st s) + (if runs_tree (tk_stage (oc_ticks s ! i)) then 1 else 0)
     = running s + (if runs_tree st then 1 else 0)"
  unfolding running_def set_stage_def
  using length_filter_update [of i "oc_ticks s" "\<lambda>tk. runs_tree (tk_stage tk)" "(oc_ticks s ! i)\<lparr>tk_stage := st\<rparr>"]
  by simp

lemma running_pos: "i < length (oc_ticks s) \<Longrightarrow> runs_tree (tk_stage (oc_ticks s ! i)) \<Longrightarrow> 0 < running s"
  by (auto simp: running_def filter_empty_conv)

lemma runs_tree_simps [simp]:
  "\<not> runs_tree Spawned" "\<not> runs_tree Ended" "runs_tree AtGate" "runs_tree (AwaitGate t)"
  "runs_tree AtAction" "runs_tree (AwaitAction t)"
  by (simp_all add: runs_tree_def)

definition lock_ok :: "orch \<Rightarrow> bool" where
  "lock_ok s \<longleftrightarrow> running s = (if oc_lock s then 1 else 0)
     \<and> 0 \<le> oc_pending_s7 s \<and> oc_pending_s7 s \<le> MAX_PENDING_S7_LOGS
     \<and> set (oc_plc s) \<subseteq> {''moving'', ''idle'', ''error''}"

text \<open>A running tick moves on, or ends and gives the lock back.\<close>

lemma lock_ok_move:
  assumes "lock_ok s" "at_stage runs_tree i s" "runs_tree st"
    and "oc_ticks s' = oc_ticks s" "oc_lock s' = oc_lock s" "oc_pending_s7 s' = oc_pending_s7 s"
      "oc_plc s' = oc_plc s"
  shows "lock_ok (set_stage i st s')"
proof -
  have "running (set_stage i st s') = running s'"
    using running_set_stage [of i s' st] assms(2-4) by (simp add: at_stage_def)
  moreover have "running s' = running s" using assms(4) by (simp add: running_def)
  ultimately show ?thesis using assms by (simp add: lock_ok_def set_stage_def)
qed

lemma lock_ok_end:
  assumes "lock_ok s" "at_stage runs_tree i s" and "oc_ticks s' = oc_ticks s"
    "oc_pending_s7 s' = oc_pending_s7 s" "set (oc_plc s') \<subseteq> {''moving'', ''idle'', ''error''}"
  shows "lock_ok (tick_end i s')"
proof -
  have "0 < running s" using assms(2) running_pos [of i s] by (simp add: at_stage_def)
  then have "running s = 1" using assms(1) by (auto simp: lock_ok_def split: if_splits)
  moreover have "running (s'\<lparr>oc_lock := False\<rparr>) = running s" using assms(3) by (simp add: running_def)
  ultimately have "running (tick_end i s') = 0"
    using running_set_stage [of i "s'\<lparr>oc_lock := False\<rparr>" Ended] assms(2,3)
    by (simp add: at_stage_def tick_end_def)
  then show ?thesis using assms by (simp add: lock_ok_def tick_end_def set_stage_def)
qed

lemma lock_ok_finish:
  assumes "lock_ok s" "at_stage runs_tree i s" and "oc_ticks s' = oc_ticks s"
    "oc_pending_s7 s' = oc_pending_s7 s" "oc_plc s' = oc_plc s"
  shows "lock_ok (tick_finish T i st s')" "lock_ok (tick_raise i s')"
  unfolding tick_finish_def tick_raise_def
  by (rule lock_ok_end [OF assms(1,2)]; use assms in \<open>auto simp: orch_set_plc_def lock_ok_def\<close>)+

lemma at_stage_mono: "at_stage P i s \<Longrightarrow> (\<And>st. P st \<Longrightarrow> Q st) \<Longrightarrow> at_stage Q i s"
  by (auto simp: at_stage_def)

lemma lock_ok_start:
  assumes "lock_ok s" "at_stage (\<lambda>st. st = Spawned) i s"
  shows "lock_ok (tick_bt i s)"
proof (cases "oc_lock s")
  case True
  have "running (set_stage i Ended s) = running s"
    using running_set_stage [of i s Ended] assms(2) by (simp add: at_stage_def)
  with assms(1) True show ?thesis by (simp add: tick_bt_def lock_ok_def set_stage_def)
next
  case False
  let ?s1 = "s\<lparr>oc_lock := True\<rparr>" and ?s2 = "s\<lparr>oc_lock := False\<rparr>"
  have none: "running s = 0" using assms(1) False by (simp add: lock_ok_def)
  have 1: "running (set_stage i AtGate (orch_set_plc ''moving'' ?s1)) = 1"
    using running_set_stage [of i "orch_set_plc ''moving'' ?s1" AtGate] assms(2) none
    by (simp add: at_stage_def orch_set_plc_def running_def)
  have 2: "running (tick_end i ?s1) = 0"
    using running_set_stage [of i "?s1\<lparr>oc_lock := False\<rparr>" Ended] assms(2) none
    by (simp add: at_stage_def tick_end_def running_def)
  show ?thesis
    using assms(1) False 1 2
    by (simp add: tick_bt_def Let_def lock_ok_def set_stage_def orch_set_plc_def tick_end_def)
qed

lemma lock_ok_same:
  "lock_ok s \<Longrightarrow> oc_ticks s' = oc_ticks s \<Longrightarrow> oc_lock s' = oc_lock s \<Longrightarrow> oc_pending_s7 s' = oc_pending_s7 s \<Longrightarrow>
   set (oc_plc s') \<subseteq> set (oc_plc s) \<union> {''error''} \<Longrightarrow> lock_ok s'"
  by (auto simp: lock_ok_def running_def)

lemma stages_running:
  "at_stage awaits_gate i s \<Longrightarrow> at_stage runs_tree i s" "at_stage awaits_action i s \<Longrightarrow> at_stage runs_tree i s"
  "at_stage (\<lambda>st. st = AtGate) i s \<Longrightarrow> at_stage runs_tree i s"
  "at_stage (\<lambda>st. st = AtAction) i s \<Longrightarrow> at_stage runs_tree i s"
  by (auto simp: at_stage_def awaits_gate_def awaits_action_def split: stage.splits)

lemma lock_ok_step:
  assumes "lock_ok s" "enabled ev s"
  shows "lock_ok (orch_step T ev s)"
proof (cases ev)
  case (TickStart i)
  with assms show ?thesis by (simp add: orch_step_def enabled_def lock_ok_start)
next
  case (GateCall ready i)
  with assms have "at_stage runs_tree i s" by (simp add: enabled_def stages_running)
  with assms(1) GateCall show ?thesis
    by (auto simp: orch_step_def gate_call_def Let_def intro!: lock_ok_finish(1) [of s] lock_ok_move [of s])
next
  case (GateReply a i)
  with assms have "at_stage runs_tree i s" by (simp add: enabled_def stages_running)
  with assms(1) GateReply show ?thesis
    by (cases a)
      (auto simp: orch_step_def gate_reply_def Let_def intro!: lock_ok_finish(1) [of s] lock_ok_move [of s])
next
  case (ActionCall up i)
  with assms have "at_stage runs_tree i s" by (simp add: enabled_def stages_running)
  with assms(1) ActionCall show ?thesis
    by (auto simp: orch_step_def action_call_def Let_def intro!: lock_ok_finish(1) [of s] lock_ok_move [of s])
next
  case (ActionReply a i)
  with assms have "at_stage runs_tree i s" by (simp add: enabled_def stages_running)
  with assms(1) ActionReply show ?thesis
    by (cases a) (auto simp: orch_step_def action_reply_def intro!: lock_ok_finish(1) [of s])
next
  case (TickRaise i)
  with assms show ?thesis by (auto simp: orch_step_def enabled_def intro!: lock_ok_finish(2) [of s])
next
  case (IntentMsg lc intent tool)
  with assms show ?thesis
    by (auto simp: orch_step_def on_intent_def log_s7_rejection_def lock_ok_def running_def Let_def
        MAX_PENDING_S7_LOGS_def)
next
  case LogDone
  with assms show ?thesis by (auto simp: orch_step_def on_log_event_done_def lock_ok_def running_def MAX_PENDING_S7_LOGS_def)
next
  case (UpdateRun a k)
  with assms show ?thesis
    by (auto simp: orch_step_def call_update_status_def Let_def orch_set_plc_def intro!: lock_ok_same [of s])
next
  case (PosesMsg f ds)
  with assms show ?thesis
    by (auto simp: orch_step_def on_tracked_poses_def intro!: lock_ok_same [of s] split: option.splits)
next
  case (FeedbackMsg intent phase)
  with assms show ?thesis
    by (auto simp: orch_step_def fetch_feedback_def return_feedback_def on_fetch_pick_def on_fetch_place_def
        on_return_pick_def on_return_place_def dispatch_update_status_def intro!: lock_ok_same [of s])
qed (use assms in \<open>auto simp: orch_step_def on_robot_status_def on_scene_context_def intro!: lock_ok_same [of s]\<close>)

text \<open>
  C17: In every run, whatever arrives and however the threads interleave: the tree lock is held
  exactly while one tick runs, so never two at a time and never without one; at most sixteen
  rejection logs are pending; and only the three states the PLC node knows are published.
\<close>
theorem one_tick_at_a_time:
  assumes "orch_run T orch_init evs s"
  shows "length (filter (\<lambda>tk. runs_tree (tk_stage tk)) (oc_ticks s)) = (if oc_lock s then 1 else 0)
    \<and> 0 \<le> oc_pending_s7 s \<and> oc_pending_s7 s \<le> 16 \<and> set (oc_plc s) \<subseteq> {''moving'', ''idle'', ''error''}"
proof -
  have "lock_ok s"
    using assms
    by (induction "orch_init" evs s rule: orch_run.induct)
      (auto simp: lock_ok_step orch_trans_iff, simp add: lock_ok_def running_def orch_init_def MAX_PENDING_S7_LOGS_def)
  then show ?thesis by (simp add: lock_ok_def running_def MAX_PENDING_S7_LOGS_def)
qed

lemma one_tick_at_a_time_witness:
  "length (filter (\<lambda>tk. runs_tree (tk_stage tk)) (oc_ticks
      (orch_step Some (TickStart 0) (orch_step Some (IntentMsg LogSent ''fetch'' ''t1'') orch_init)))) = 1"
proof -
  let ?s1 = "orch_step Some (IntentMsg LogSent ''fetch'' ''t1'') orch_init"
  let ?s2 = "orch_step Some (TickStart 0) ?s1"
  have "orch_trans Some orch_init (IntentMsg LogSent ''fetch'' ''t1'') ?s1"
    by (simp add: orch_trans_iff enabled_def)
  from run_snoc [OF run_nil this] have 1: "orch_run Some orch_init [IntentMsg LogSent ''fetch'' ''t1''] ?s1" by simp
  have "orch_trans Some ?s1 (TickStart 0) ?s2"
    by (simp add: orch_trans_iff enabled_def at_stage_def orch_step_def on_intent_def orch_init_def)
  from run_snoc [OF 1 this]
  have 2: "orch_run Some orch_init ([IntentMsg LogSent ''fetch'' ''t1''] @ [TickStart 0]) ?s2" .
  have "oc_lock ?s2" by code_simp
  with one_tick_at_a_time [OF 2] show ?thesis by simp
qed

section \<open>Intents that wait\<close>

text \<open>\<open>play\<close> is the run it computes.\<close>

lemma run_play:
  "orch_run T s0 evs0 s \<Longrightarrow> play T evs s = Some t \<Longrightarrow> orch_run T s0 (evs0 @ evs) t"
proof (induction evs arbitrary: evs0 s)
  case (Cons ev evs)
  then have "orch_run T s0 (evs0 @ [ev]) (orch_step T ev s)"
    by (auto intro: run_snoc simp: orch_trans_iff split: if_splits)
  from Cons.IH [OF this] Cons.prems(2) show ?case by (simp split: if_splits)
qed simp

text \<open>An event does not cut in: an intent comes when the node drops it, or when no tick is alive.\<close>

definition waits :: "orch_event \<Rightarrow> orch \<Rightarrow> bool" where
  "waits ev s = (case ev of
      IntentMsg _ _ _ \<Rightarrow> oc_moving s \<or> list_all (\<lambda>tk. tk_stage tk = Ended) (oc_ticks s)
    | _ \<Rightarrow> True)"

fun patient :: "(bt_status \<Rightarrow> bt_status option) \<Rightarrow> orch_event list \<Rightarrow> orch \<Rightarrow> bool" where
  "patient T [] s = True"
| "patient T (ev # evs) s = (waits ev s \<and> patient T evs (orch_step T ev s))"

text \<open>
  The last tick is the only one that may be alive; it works on the active tool, which is on the
  blackboard, and between the gate and the goal its pair is the last one approved.
\<close>

definition unsent :: "orch \<Rightarrow> (string \<times> string) list" where
  "unsent s = (if oc_ticks s \<noteq> [] \<and> tk_stage (last (oc_ticks s)) = AtAction
     then [(tk_intent (last (oc_ticks s)), oc_active_tool s)] else [])"

definition stage_tool :: "string \<Rightarrow> stage \<Rightarrow> bool" where
  "stage_tool tool st = (case st of AwaitGate t \<Rightarrow> t = tool | AwaitAction t \<Rightarrow> t = tool | _ \<Rightarrow> True)"

definition serial :: "orch \<Rightarrow> bool" where
  "serial s \<longleftrightarrow> list_all (\<lambda>tk. tk_stage tk = Ended) (butlast (oc_ticks s))
     \<and> (oc_ticks s \<noteq> [] \<longrightarrow> bb_tool s = oc_active_tool s \<and> stage_tool (oc_active_tool s) (tk_stage (last (oc_ticks s))))
     \<and> subseq (oc_goals s @ unsent s) (oc_approved s)"

lemma stage_tool_simps [simp]:
  "stage_tool tool Spawned" "stage_tool tool AtGate" "stage_tool tool AtAction" "stage_tool tool Ended"
  "stage_tool tool (AwaitGate t) \<longleftrightarrow> t = tool" "stage_tool tool (AwaitAction t) \<longleftrightarrow> t = tool"
  by (simp_all add: stage_tool_def)

text \<open>The tick an event moves is the last one.\<close>

lemma serial_index:
  assumes "serial s" "at_stage P i s" "\<not> P Ended"
  shows "oc_ticks s \<noteq> []" "i = length (oc_ticks s) - 1" "oc_ticks s ! i = last (oc_ticks s)"
    "P (tk_stage (last (oc_ticks s)))"
proof -
  from assms(2) show 1: "oc_ticks s \<noteq> []" by (auto simp: at_stage_def)
  show 2: "i = length (oc_ticks s) - 1"
  proof (rule ccontr)
    assume "i \<noteq> length (oc_ticks s) - 1"
    with assms(2) have "i < length (butlast (oc_ticks s))" by (auto simp: at_stage_def)
    moreover from this have "butlast (oc_ticks s) ! i = oc_ticks s ! i" by (simp add: nth_butlast)
    ultimately have "oc_ticks s ! i \<in> set (butlast (oc_ticks s))" by (metis nth_mem)
    then have "tk_stage (oc_ticks s ! i) = Ended"
      using assms(1) by (simp add: serial_def list_all_iff)
    with assms(2,3) show False by (simp add: at_stage_def)
  qed
  with 1 show "oc_ticks s ! i = last (oc_ticks s)" by (simp add: last_conv_nth)
  with assms(2) show "P (tk_stage (last (oc_ticks s)))" by (simp add: at_stage_def)
qed

lemma last_set_stage:
  "xs \<noteq> [] \<Longrightarrow> last (xs[length xs - Suc 0 := x]) = x"
  "xs \<noteq> [] \<Longrightarrow> butlast (xs[length xs - Suc 0 := x]) = butlast xs"
  by (cases xs rule: rev_cases; simp)+

text \<open>
  What an event does to its tick: a new stage, and with it the goals and the approvals.
\<close>

lemma serial_move:
  assumes "serial s" "at_stage P i s" "\<not> P Ended"
    and "oc_ticks s' = oc_ticks s" "oc_active_tool s' = oc_active_tool s" "oc_bb_tool s' = oc_bb_tool s"
    and "stage_tool (oc_active_tool s) st"
    and "subseq (oc_goals s' @ (if st = AtAction then [(tk_intent (last (oc_ticks s)), oc_active_tool s)] else []))
           (oc_approved s')"
  shows "serial (set_stage i st s')"
proof -
  note 1 = serial_index [OF assms(1-3)]
  let ?t = "set_stage i st s'"
  have "last (oc_ticks ?t) = (last (oc_ticks s))\<lparr>tk_stage := st\<rparr>" "oc_ticks ?t \<noteq> []"
    "butlast (oc_ticks ?t) = butlast (oc_ticks s)" "bb_tool ?t = bb_tool s"
    "oc_active_tool ?t = oc_active_tool s" "oc_goals ?t = oc_goals s'" "oc_approved ?t = oc_approved s'"
    using 1 assms(4-6) by (simp_all add: set_stage_def last_set_stage last_conv_nth bb_tool_def)
  moreover have "list_all (\<lambda>tk. tk_stage tk = Ended) (butlast (oc_ticks s))" "bb_tool s = oc_active_tool s"
    using assms(1) 1(1) by (simp_all add: serial_def)
  ultimately show ?thesis using assms(7,8)
    by (cases "st = AtAction") (simp_all add: serial_def unsent_def)
qed

lemma serial_goals: "serial s \<Longrightarrow> subseq (oc_goals s) (oc_approved s)"
  unfolding serial_def by (meson list_emb_append2 prefix_imp_subseq prefixI subseq_order.trans)

lemma serial_same:
  "serial s \<Longrightarrow> oc_ticks s' = oc_ticks s \<Longrightarrow> oc_active_tool s' = oc_active_tool s \<Longrightarrow>
   oc_bb_tool s' = oc_bb_tool s \<Longrightarrow> oc_goals s' = oc_goals s \<Longrightarrow> oc_approved s' = oc_approved s \<Longrightarrow> serial s'"
  unfolding serial_def unsent_def bb_tool_def by metis

text \<open>A tick that ends leaves the goals as they are.\<close>

lemma serial_end:
  assumes "serial s" "at_stage P i s" "\<not> P Ended"
    and "oc_ticks s' = oc_ticks s" "oc_active_tool s' = oc_active_tool s" "oc_bb_tool s' = oc_bb_tool s"
      "oc_goals s' = oc_goals s" "oc_approved s' = oc_approved s \<or> (\<exists>x. oc_approved s' = oc_approved s @ [x])"
  shows "serial (tick_end i s')"
  unfolding tick_end_def
  by (rule serial_move [OF assms(1-3)]; use assms(4-8) serial_goals [OF assms(1)] in \<open>auto intro: list_emb_append2 subseq_order.trans prefix_imp_subseq\<close>)

lemmas tick_ends = tick_finish_def tick_raise_def orch_set_plc_def

lemma serial_step:
  assumes "serial s" "enabled ev s" "waits ev s"
  shows "serial (orch_step T ev s)"
proof (cases ev)
  case (IntentMsg lc intent tool)
  show ?thesis
  proof (cases "oc_moving s")
    case True
    with assms(1) IntentMsg show ?thesis
      by (auto simp: orch_step_def on_intent_def log_s7_rejection_def Let_def intro!: serial_same [of s])
  next
    case False
    with assms(3) IntentMsg have "list_all (\<lambda>tk. tk_stage tk = Ended) (oc_ticks s)" by (simp add: waits_def)
    with assms(1) IntentMsg False serial_goals [OF assms(1)] show ?thesis
      by (simp add: orch_step_def on_intent_def serial_def unsent_def bb_tool_def)
  qed
next
  case (TickStart i)
  with assms(2) have at: "at_stage (\<lambda>st. st = Spawned) i s" by (simp add: enabled_def)
  note move = serial_move [OF assms(1) at] and ends = serial_end [OF assms(1) at]
  from TickStart serial_goals [OF assms(1)] show ?thesis
    by (auto simp: orch_step_def tick_bt_def Let_def orch_set_plc_def intro!: move ends)
next
  case (GateCall ready i)
  with assms(2) have at: "at_stage (\<lambda>st. st = AtGate) i s" by (simp add: enabled_def)
  note move = serial_move [OF assms(1) at] and ends = serial_end [OF assms(1) at]
  have "bb_tool s = oc_active_tool s" using assms(1) serial_index [OF assms(1) at] by (simp add: serial_def)
  with GateCall serial_goals [OF assms(1)] show ?thesis
    by (auto simp: orch_step_def gate_call_def Let_def tick_ends intro!: move ends)
next
  case (GateReply a i)
  with assms(2) have at: "at_stage awaits_gate i s" by (simp add: enabled_def)
  have no: "\<not> awaits_gate Ended" by (simp add: awaits_gate_def)
  note move = serial_move [OF assms(1) at no] and ends = serial_end [OF assms(1) at no]
  note here = serial_index [OF assms(1) at no]
  have "gated_tool (tk_stage (last (oc_ticks s))) = oc_active_tool s"
    using assms(1) here by (auto simp: serial_def gated_tool_def awaits_gate_def split: stage.splits)
  with GateReply here(1,3) serial_goals [OF assms(1)] show ?thesis
    by (cases a) (auto simp: orch_step_def gate_reply_def Let_def tick_ends intro!: move ends list_emb_append_mono)
next
  case (ActionCall up i)
  with assms(2) have at: "at_stage (\<lambda>st. st = AtAction) i s" by (simp add: enabled_def)
  note move = serial_move [OF assms(1) at] and ends = serial_end [OF assms(1) at]
  have "\<not> (Ended = AtAction)" by simp
  note here = serial_index [OF assms(1) at this]
  have "bb_tool s = oc_active_tool s" "subseq (oc_goals s @ [(tk_intent (last (oc_ticks s)), oc_active_tool s)]) (oc_approved s)"
    using assms(1) here by (simp_all add: serial_def unsent_def)
  with ActionCall here(1,3) show ?thesis
    by (auto simp: orch_step_def action_call_def Let_def tick_ends intro!: move ends)
next
  case (ActionReply a i)
  with assms(2) have at: "at_stage awaits_action i s" by (simp add: enabled_def)
  have no: "\<not> awaits_action Ended" by (simp add: awaits_action_def)
  note ends = serial_end [OF assms(1) at no]
  from ActionReply show ?thesis
    by (cases a) (auto simp: orch_step_def action_reply_def tick_ends intro!: ends)
next
  case (TickRaise i)
  with assms(2) have at: "at_stage runs_tree i s" by (simp add: enabled_def)
  note ends = serial_end [OF assms(1) at]
  from TickRaise show ?thesis by (auto simp: orch_step_def tick_ends intro!: ends)
next
  case (UpdateRun a k)
  with assms(1) show ?thesis
    by (auto simp: orch_step_def call_update_status_def Let_def orch_set_plc_def intro!: serial_same [of s])
next
  case (PosesMsg f ds)
  with assms(1) show ?thesis
    by (auto simp: orch_step_def on_tracked_poses_def intro!: serial_same [of s] split: option.splits)
next
  case (FeedbackMsg intent phase)
  with assms(1) show ?thesis
    by (auto simp: orch_step_def fetch_feedback_def return_feedback_def on_fetch_pick_def on_fetch_place_def
        on_return_pick_def on_return_place_def dispatch_update_status_def intro!: serial_same [of s])
qed (use assms(1) in \<open>auto simp: orch_step_def on_robot_status_def on_scene_context_def on_log_event_done_def
    intro!: serial_same [of s]\<close>)

lemma serial_play: "play T evs s = Some t \<Longrightarrow> patient T evs s \<Longrightarrow> serial s \<Longrightarrow> serial t"
  by (induction evs arbitrary: s) (auto simp: serial_step split: if_splits)


text \<open>One fetch from the intent to the end of its tick.\<close>

definition demo_fetch :: "string \<Rightarrow> orch_event list" where
  "demo_fetch tool =
     [IntentMsg LogSent ''fetch'' tool, TickStart 0, GateCall True 0, GateReply (GateSays True []) 0,
      ActionCall True 0, FeedbackMsg ''fetch'' ''pick'', FeedbackMsg ''fetch'' ''place'',
      ActionReply (ActionResult True) 0, UpdateRun (UpdateSays True) 0, UpdateRun (UpdateSays True) 0]"


section \<open>Intents that cut in\<close>

text \<open>
  A second intent overwrites the active tool and the blackboard before the lock is asked for, so
  the running tick sends its goal for the second tool, and the updates of its motion name it too.
\<close>

definition cut_in :: "orch_event list" where
  "cut_in =
     [IntentMsg LogSent ''fetch'' ''a'', TickStart 0, GateCall True 0, GateReply (GateSays True []) 0,
      IntentMsg LogSent ''fetch'' ''b'', TickStart 1,
      ActionCall True 0, FeedbackMsg ''fetch'' ''pick'', UpdateRun (UpdateSays True) 0]"

text \<open>
  An intent that arrives between the gate's approval and the goal redirects the running tick:
  there is a run in which the gate is asked about one tool only, the second intent's tick is refused
  by the lock, and yet the goal is sent, and the tool reported out, for the second tool, about which
  the gate was never asked.
\<close>
theorem second_intent_redirects_goal:
  "\<exists>evs s. orch_run T orch_init evs s
     \<and> oc_asked s = [(''fetch'', ''a'')] \<and> oc_goals s = [(''fetch'', ''b'')]
     \<and> (\<exists>q. oc_sent s = [q] \<and> up_tool q = ''b'' \<and> up_status q = ''out'')
     \<and> map tk_stage (oc_ticks s) = [AwaitAction ''b'', Ended]"
proof -
  have "(case play T cut_in orch_init of
      Some s \<Rightarrow> oc_asked s = [(''fetch'', ''a'')] \<and> oc_goals s = [(''fetch'', ''b'')]
        \<and> map tk_stage (oc_ticks s) = [AwaitAction ''b'', Ended]
        \<and> map up_tool (oc_sent s) = [''b''] \<and> map up_status (oc_sent s) = [''out'']
    | None \<Rightarrow> False)" by code_simp
  then obtain s where s: "play T cut_in orch_init = Some s" "oc_asked s = [(''fetch'', ''a'')]"
      "oc_goals s = [(''fetch'', ''b'')]" "map tk_stage (oc_ticks s) = [AwaitAction ''b'', Ended]"
      "map up_tool (oc_sent s) = [''b''] \<and> map up_status (oc_sent s) = [''out'']"
    by (auto split: option.splits)
  have "orch_run T orch_init cut_in s" using run_play [OF run_nil s(1)] by simp
  moreover have "\<exists>q. oc_sent s = [q] \<and> up_tool q = ''b'' \<and> up_status q = ''out''"
    using s(5) by (auto simp: map_eq_Cons_conv)
  ultimately show ?thesis using s(2-4) by metis
qed

text \<open>
  \<open>idle\<close> is published only when what \<open>tick_once\<close> returned equals \<open>SUCCESS\<close>: with a tick that
  returns nothing every goal ends in \<open>error\<close>, the successful ones too.
\<close>

lemma never_idle_step:
  "\<forall>st. T st \<noteq> Some SUCCESS \<Longrightarrow> ''idle'' \<notin> set (oc_plc s) \<Longrightarrow> ''idle'' \<notin> set (oc_plc (orch_step T ev s))"
  by (cases ev)
    (auto simp: orch_step_def on_robot_status_def on_intent_def log_s7_rejection_def on_scene_context_def
      on_tracked_poses_def on_log_event_done_def tick_bt_def gate_call_def gate_reply_def action_call_def
      action_reply_def tick_ends tick_end_def set_stage_def fetch_feedback_def return_feedback_def
      on_fetch_pick_def on_fetch_place_def on_return_pick_def on_return_place_def dispatch_update_status_def
      call_update_status_def Let_def split: option.splits gate_answer.splits action_answer.splits)

lemma idle_needs_status:
  assumes "orch_run T orch_init evs s" "\<forall>st. T st \<noteq> Some SUCCESS"
  shows "''idle'' \<notin> set (oc_plc s)"
  using assms(1)
  by (induction "orch_init" evs s rule: orch_run.induct)
    (auto simp: orch_trans_iff never_idle_step [OF assms(2)], simp add: orch_init_def)

text \<open>\<open>return_to_slot\<close> and \<open>place_at_staging\<close> of the stubs never succeed.\<close>

lemma stubs_abort: "execute_stub name = Some (ok, msg) \<Longrightarrow> \<not> ok"
  by (auto simp: execute_stub_def split: if_splits)

text \<open>
  The hand-over selector sends the staging goal exactly when the hand-over did not succeed, and
  succeeds exactly when one of them did.
\<close>

lemma handover_selector_result:
  "handover_selector ready hand staging = (sent, st) \<Longrightarrow>
   st = SUCCESS \<longleftrightarrow> (ready \<and> fst hand \<and> snd hand = ActionResult True)
     \<or> (fst staging \<and> snd staging = ActionResult True)"
  by (auto simp: handover_selector_def run_action_status_def check_hand_ready_def Let_def
      split: if_splits action_answer.splits)

end
