(* ===== verification/DbSchema.thy ===== *)
theory DbSchema imports Effects begin

text \<open>
  The database of \<open>db_core/schema.py\<close> and the row operations of \<open>db_core/repository.py\<close>. The
  five tables are the fields of \<open>database\<close>; a row operation fails with SQLite's message when a
  constraint of the schema is violated. The \<open>CHECK ... IN\<close> columns of \<open>tools\<close> and
  \<open>tool_events\<close> are datatypes; those of \<open>system_events\<close>, which another node writes with its own
  SQL, are strings checked by the insert.
\<close>

section \<open>Values\<close>

datatype tool_status = In_slot | Out | Staged | Missing | Fod_alert

datatype event_type = Fetch | Return | Rejected | Error_event | Timeout | Fod_alert_event | Reconciled

datatype track = TrackA | TrackB | TrackC

fun status_name :: "tool_status \<Rightarrow> string" where
  "status_name In_slot = ''in_slot''"
| "status_name Out = ''out''"
| "status_name Staged = ''staged''"
| "status_name Missing = ''missing''"
| "status_name Fod_alert = ''fod_alert''"

fun event_type_name :: "event_type \<Rightarrow> string" where
  "event_type_name Fetch = ''fetch''"
| "event_type_name Return = ''return''"
| "event_type_name Rejected = ''rejected''"
| "event_type_name Error_event = ''error''"
| "event_type_name Timeout = ''timeout''"
| "event_type_name Fod_alert_event = ''fod_alert''"
| "event_type_name Reconciled = ''reconciled''"

fun track_name :: "track \<Rightarrow> string" where
  "track_name TrackA = ''A''"
| "track_name TrackB = ''B''"
| "track_name TrackC = ''C''"

definition VALID_STATUSES :: "tool_status list" where
  "VALID_STATUSES = [In_slot, Out, Staged, Missing, Fod_alert]"

definition VALID_EVENT_TYPES :: "event_type list" where
  "VALID_EVENT_TYPES = [Fetch, Return, Rejected, Error_event, Timeout, Fod_alert_event, Reconciled]"

definition VALID_TRACKS :: "track list" where
  "VALID_TRACKS = [TrackA, TrackB, TrackC]"

definition parse_status :: "string \<Rightarrow> tool_status option" where
  "parse_status s = find (\<lambda>x. status_name x = s) VALID_STATUSES"

definition parse_event_type :: "string \<Rightarrow> event_type option" where
  "parse_event_type s = find (\<lambda>x. event_type_name x = s) VALID_EVENT_TYPES"

definition parse_track :: "string \<Rightarrow> track option" where
  "parse_track s = find (\<lambda>x. track_name x = s) VALID_TRACKS"

definition VALID_SYSTEM_EVENT_TYPES :: "string list" where
  "VALID_SYSTEM_EVENT_TYPES =
     [''boot'', ''boot_complete'', ''reconciliation_mismatch'', ''estop'', ''estop_reset'',
      ''db_cache_fallback'', ''db_cache_expired'', ''calibration'', ''fod_alert'']"

definition VALID_SEVERITIES :: "string list" where
  "VALID_SEVERITIES = [''info'', ''warning'', ''error'', ''critical'']"

lemma parse_status_name [simp]: "parse_status (status_name s) = Some s"
  by (cases s) (simp_all add: parse_status_def VALID_STATUSES_def)

lemma parse_event_type_name [simp]: "parse_event_type (event_type_name e) = Some e"
  by (cases e) (simp_all add: parse_event_type_def VALID_EVENT_TYPES_def)

lemma parse_track_name [simp]: "parse_track (track_name t) = Some t"
  by (cases t) (simp_all add: parse_track_def VALID_TRACKS_def)

section \<open>Timestamps\<close>

text \<open>
  A stored timestamp, in microseconds: without a zone, with the offset of its zone, or a text
  that \<open>datetime.fromisoformat\<close> does not accept.
\<close>

datatype timestamp = Naive int | Aware int int | BadText string

text \<open>\<open>_parse_utc\<close>: \<open>None\<close> is the \<open>ValueError\<close>.\<close>

fun parse_utc :: "timestamp \<Rightarrow> int option" where
  "parse_utc (Naive t) = Some t"
| "parse_utc (Aware t off) = Some (t - off)"
| "parse_utc (BadText s) = None"

definition utc_now :: "int \<Rightarrow> timestamp" where
  "utc_now t = Aware t 0"

lemma parse_utc_now [simp]: "parse_utc (utc_now t) = Some t"
  by (simp add: utc_now_def)

section \<open>Tables\<close>

record tool_row =
  display_name :: string
  current_status :: tool_status
  home_slot_row :: int
  home_slot_col :: int
  grasp_z_mm :: "real option"
  last_event_id :: "nat option"
  last_updated :: timestamp

record tool_event =
  te_id :: nat
  te_tool_id :: string
  te_event_type :: event_type
  te_track :: "track option"
  te_operator_id :: string
  te_status_before :: "tool_status option"
  te_status_after :: tool_status
  te_notes :: string
  te_timestamp :: timestamp

record system_event =
  se_id :: nat
  se_event_type :: string
  se_track :: "string option"
  se_severity :: string
  se_notes :: string
  se_timestamp :: timestamp

record drawer_row =
  is_open :: bool
  drawer_updated :: timestamp

record database =
  db_operators :: "string list"
  db_tools :: "(string \<times> tool_row) list"
  db_tool_events :: "tool_event list"
  db_system_events :: "system_event list"
  db_drawers :: "int \<rightharpoonup> drawer_row"
  db_next_event :: nat
  db_next_system_event :: nat

definition DEFAULT_OPERATOR_ID :: string where
  "DEFAULT_OPERATOR_ID = ''operator_01''"

definition empty_database :: database where
  "empty_database =
     \<lparr>db_operators = [], db_tools = [], db_tool_events = [], db_system_events = [],
      db_drawers = Map.empty, db_next_event = 1, db_next_system_event = 1\<rparr>"

text \<open>What running \<open>SCHEMA_SQL\<close> on an existing file adds: the default operator.\<close>

definition bootstrap :: "database \<Rightarrow> database" where
  "bootstrap d =
     (if DEFAULT_OPERATOR_ID \<in> set (db_operators d) then d
      else d\<lparr>db_operators := db_operators d @ [DEFAULT_OPERATOR_ID]\<rparr>)"

section \<open>Row operations\<close>

definition find_tool :: "string \<Rightarrow> database \<Rightarrow> tool_row option" where
  "find_tool tool_id d = map_of (db_tools d) tool_id"

definition status_of_tool :: "string \<Rightarrow> database \<Rightarrow> tool_status option" where
  "status_of_tool tool_id d = map_option current_status (find_tool tool_id d)"

definition set_tool :: "string \<Rightarrow> (tool_row \<Rightarrow> tool_row) \<Rightarrow> database \<Rightarrow> database" where
  "set_tool tool_id f d =
     d\<lparr>db_tools := map (\<lambda>(k, row). (k, if k = tool_id then f row else row)) (db_tools d)\<rparr>"

definition add_event :: "tool_event \<Rightarrow> database \<Rightarrow> database" where
  "add_event e d =
     d\<lparr>db_tool_events := db_tool_events d @ [e], db_next_event := db_next_event d + 1\<rparr>"

text \<open>\<open>_insert_tool_event\<close>; \<open>op\<close> is the repository's \<open>operator_id\<close>.\<close>

definition insert_tool_event ::
  "string \<Rightarrow> string \<Rightarrow> event_type \<Rightarrow> track option \<Rightarrow> tool_status \<Rightarrow> tool_status \<Rightarrow> string \<Rightarrow>
   timestamp \<Rightarrow> database \<Rightarrow> (string, nat \<times> database) result" where
  "insert_tool_event op tool_id ev tr before after notes now d =
     (if find_tool tool_id d = None \<or> op \<notin> set (db_operators d)
      then Inl ''FOREIGN KEY constraint failed''
      else Inr (db_next_event d, add_event
         \<lparr>te_id = db_next_event d, te_tool_id = tool_id, te_event_type = ev, te_track = tr,
          te_operator_id = op, te_status_before = Some before, te_status_after = after,
          te_notes = notes, te_timestamp = now\<rparr> d))"

definition update_tool_row :: "string \<Rightarrow> tool_status \<Rightarrow> nat \<Rightarrow> timestamp \<Rightarrow> database \<Rightarrow> database" where
  "update_tool_row tool_id new_status event_id now =
     set_tool tool_id (\<lambda>row. row\<lparr>current_status := new_status, last_updated := now,
                               last_event_id := Some event_id\<rparr>)"

definition update_last_event :: "string \<Rightarrow> nat \<Rightarrow> database \<Rightarrow> database" where
  "update_last_event tool_id event_id =
     set_tool tool_id (\<lambda>row. row\<lparr>last_event_id := Some event_id\<rparr>)"

text \<open>\<open>_append_rejection\<close>: a \<open>rejected\<close> event that leaves the status as it is.\<close>

definition append_rejection ::
  "string \<Rightarrow> string \<Rightarrow> tool_status \<Rightarrow> string \<Rightarrow> track option \<Rightarrow> timestamp \<Rightarrow> database \<Rightarrow>
   (string, database) result" where
  "append_rejection op tool_id st reason tr now d =
     (case insert_tool_event op tool_id Rejected tr st st reason now d of
        Inl m \<Rightarrow> Inl m
      | Inr (event_id, d') \<Rightarrow> Inr (update_last_event tool_id event_id d'))"

text \<open>An event together with the row it changes.\<close>

definition record_transition ::
  "string \<Rightarrow> string \<Rightarrow> event_type \<Rightarrow> track option \<Rightarrow> tool_status \<Rightarrow> tool_status \<Rightarrow> string \<Rightarrow>
   timestamp \<Rightarrow> database \<Rightarrow> (string, database) result" where
  "record_transition op tool_id ev tr before after notes now d =
     (case insert_tool_event op tool_id ev tr before after notes now d of
        Inl m \<Rightarrow> Inl m
      | Inr (event_id, d') \<Rightarrow> Inr (update_tool_row tool_id after event_id now d'))"

text \<open>The \<open>INSERT\<close> of a \<open>system_events\<close> row, whoever issues it, with the table's \<open>CHECK\<close>s.\<close>

definition insert_system_event ::
  "string \<Rightarrow> string \<Rightarrow> string option \<Rightarrow> string \<Rightarrow> timestamp \<Rightarrow> database \<Rightarrow>
   (string, database) result" where
  "insert_system_event ev severity tr notes now d =
     (if ev \<notin> set VALID_SYSTEM_EVENT_TYPES \<or> severity \<notin> set VALID_SEVERITIES
         \<or> (case tr of None \<Rightarrow> False | Some t \<Rightarrow> parse_track t = None)
      then Inl ''CHECK constraint failed''
      else Inr (d\<lparr>db_system_events := db_system_events d @
            [\<lparr>se_id = db_next_system_event d, se_event_type = ev, se_track = tr,
              se_severity = severity, se_notes = notes, se_timestamp = now\<rparr>],
          db_next_system_event := db_next_system_event d + 1\<rparr>))"

definition upsert_drawer :: "int \<Rightarrow> bool \<Rightarrow> timestamp \<Rightarrow> database \<Rightarrow> database" where
  "upsert_drawer layer_id open_flag now d =
     d\<lparr>db_drawers := (db_drawers d)(layer_id \<mapsto> \<lparr>is_open = open_flag, drawer_updated = now\<rparr>)\<rparr>"

section \<open>Facts about rows\<close>

lemma keys_set_tool [simp]: "map fst (db_tools (set_tool t f d)) = map fst (db_tools d)"
  by (simp add: set_tool_def comp_def case_prod_unfold)

lemma map_of_map_key:
  "map_of (map (\<lambda>(k, v). (k, if k = t then f v else v)) xs) k =
     map_option (\<lambda>v. if k = t then f v else v) (map_of xs k)"
  by (induction xs) auto

lemma find_set_tool [simp]:
  "find_tool k (set_tool t f d) = (if k = t then map_option f (find_tool t d) else find_tool k d)"
  by (auto simp: find_tool_def set_tool_def map_of_map_key option.map_ident)

lemma set_tool_frame [simp]:
  "db_operators (set_tool t f d) = db_operators d"
  "db_tool_events (set_tool t f d) = db_tool_events d"
  "db_system_events (set_tool t f d) = db_system_events d"
  "db_drawers (set_tool t f d) = db_drawers d"
  "db_next_event (set_tool t f d) = db_next_event d"
  "db_next_system_event (set_tool t f d) = db_next_system_event d"
  by (simp_all add: set_tool_def)

lemma bootstrap_frame [simp]:
  "db_tools (bootstrap d) = db_tools d" "db_tool_events (bootstrap d) = db_tool_events d"
  "db_system_events (bootstrap d) = db_system_events d" "db_drawers (bootstrap d) = db_drawers d"
  "db_next_event (bootstrap d) = db_next_event d"
  "db_next_system_event (bootstrap d) = db_next_system_event d"
  "find_tool t (bootstrap d) = find_tool t d" "status_of_tool t (bootstrap d) = status_of_tool t d"
  "DEFAULT_OPERATOR_ID \<in> set (db_operators (bootstrap d))"
  "set (db_operators (bootstrap d)) = insert DEFAULT_OPERATOR_ID (set (db_operators d))"
  by (auto simp: bootstrap_def find_tool_def status_of_tool_def)

lemma add_event_frame [simp]:
  "db_tools (add_event e d) = db_tools d" "db_operators (add_event e d) = db_operators d"
  "db_tool_events (add_event e d) = db_tool_events d @ [e]"
  "db_next_event (add_event e d) = Suc (db_next_event d)"
  "db_system_events (add_event e d) = db_system_events d"
  "db_drawers (add_event e d) = db_drawers d"
  "db_next_system_event (add_event e d) = db_next_system_event d"
  "find_tool t (add_event e d) = find_tool t d"
  by (simp_all add: add_event_def find_tool_def)

lemma status_set_tool [simp]:
  "status_of_tool k (set_tool t f d) =
     (if k = t then map_option (\<lambda>row. current_status (f row)) (find_tool t d)
      else status_of_tool k d)"
  by (simp add: status_of_tool_def option.map_comp comp_def)

lemma status_add_event [simp]: "status_of_tool t (add_event e d) = status_of_tool t d"
  by (simp add: status_of_tool_def)

definition transition_event ::
  "string \<Rightarrow> string \<Rightarrow> event_type \<Rightarrow> track option \<Rightarrow> tool_status \<Rightarrow> tool_status \<Rightarrow> string \<Rightarrow>
   timestamp \<Rightarrow> database \<Rightarrow> tool_event" where
  "transition_event op t ev tr before after notes now d =
     \<lparr>te_id = db_next_event d, te_tool_id = t, te_event_type = ev, te_track = tr,
      te_operator_id = op, te_status_before = Some before, te_status_after = after,
      te_notes = notes, te_timestamp = now\<rparr>"

lemma transition_event_fields [simp]:
  "te_id (transition_event op t ev tr b a notes now d) = db_next_event d"
  "te_tool_id (transition_event op t ev tr b a notes now d) = t"
  "te_event_type (transition_event op t ev tr b a notes now d) = ev"
  "te_operator_id (transition_event op t ev tr b a notes now d) = op"
  "te_status_before (transition_event op t ev tr b a notes now d) = Some b"
  "te_status_after (transition_event op t ev tr b a notes now d) = a"
  by (simp_all add: transition_event_def)

text \<open>Both composite writes fail exactly on the foreign keys, and succeed with one new event.\<close>

lemma record_transition_eq:
  "record_transition op t ev tr b a notes now d =
     (if find_tool t d = None \<or> op \<notin> set (db_operators d)
      then Inl ''FOREIGN KEY constraint failed''
      else Inr (update_tool_row t a (db_next_event d) now
                 (add_event (transition_event op t ev tr b a notes now d) d)))"
  by (simp add: record_transition_def insert_tool_event_def transition_event_def)

lemma append_rejection_eq:
  "append_rejection op t st reason tr now d =
     (if find_tool t d = None \<or> op \<notin> set (db_operators d)
      then Inl ''FOREIGN KEY constraint failed''
      else Inr (update_last_event t (db_next_event d)
                 (add_event (transition_event op t Rejected tr st st reason now d) d)))"
  by (simp add: append_rejection_def insert_tool_event_def transition_event_def)

section \<open>The database invariant\<close>

text \<open>The events of one tool, and those of them that move it.\<close>

definition events_of :: "string \<Rightarrow> database \<Rightarrow> tool_event list" where
  "events_of t d = filter (\<lambda>e. te_tool_id e = t) (db_tool_events d)"

definition moves_of :: "string \<Rightarrow> database \<Rightarrow> tool_event list" where
  "moves_of t d = filter (\<lambda>e. te_event_type e \<noteq> Rejected) (events_of t d)"

text \<open>Each event starts where the one before it ended; \<open>s\<close> is the status in front.\<close>

fun chained :: "tool_status \<Rightarrow> tool_event list \<Rightarrow> bool" where
  "chained s [] = True"
| "chained s (e # es) = (te_status_before e = Some s \<and> chained (te_status_after e) es)"

fun final_status :: "tool_status \<Rightarrow> tool_event list \<Rightarrow> tool_status" where
  "final_status s [] = s"
| "final_status s (e # es) = final_status (te_status_after e) es"

lemma chained_append [simp]:
  "chained s (xs @ ys) \<longleftrightarrow> chained s xs \<and> chained (final_status s xs) ys"
  by (induction xs arbitrary: s) auto

lemma final_status_append [simp]: "final_status s (xs @ ys) = final_status (final_status s xs) ys"
  by (induction xs arbitrary: s) auto

text \<open>
  The invariant: tool keys are unique, event ids are the positions of an append-only log, every
  event refers to a tool and an operator, the snapshot of a tool names its newest event, and
  the events that move a tool lead, each from where the last ended, to its current status.
\<close>

definition snapshot_ok :: "database \<Rightarrow> string \<Rightarrow> tool_row \<Rightarrow> bool" where
  "snapshot_ok d t row \<longleftrightarrow>
     last_event_id row = (if events_of t d = [] then None else Some (te_id (last (events_of t d))))
     \<and> (\<exists>s. chained s (moves_of t d) \<and> final_status s (moves_of t d) = current_status row)"

definition db_ok :: "database \<Rightarrow> bool" where
  "db_ok d \<longleftrightarrow>
     distinct (map fst (db_tools d))
     \<and> map te_id (db_tool_events d) = [1..<db_next_event d] \<and> 1 \<le> db_next_event d
     \<and> map se_id (db_system_events d) = [1..<db_next_system_event d] \<and> 1 \<le> db_next_system_event d
     \<and> list_all (\<lambda>e. find_tool (te_tool_id e) d \<noteq> None \<and> te_operator_id e \<in> set (db_operators d))
         (db_tool_events d)
     \<and> list_all (\<lambda>e. se_event_type e \<in> set VALID_SYSTEM_EVENT_TYPES
                   \<and> se_severity e \<in> set VALID_SEVERITIES) (db_system_events d)
     \<and> (\<forall>t row. find_tool t d = Some row \<longrightarrow> snapshot_ok d t row)"

lemma db_ok_empty: "db_ok empty_database"
  by (simp add: db_ok_def empty_database_def find_tool_def)

lemma events_of_frame [simp]:
  "events_of t (set_tool k f d) = events_of t d" "moves_of t (set_tool k f d) = moves_of t d"
  "events_of t (bootstrap d) = events_of t d" "moves_of t (bootstrap d) = moves_of t d"
  by (simp_all add: events_of_def moves_of_def)

lemma events_of_add [simp]:
  "events_of t (add_event e d) = events_of t d @ (if te_tool_id e = t then [e] else [])"
  "moves_of t (add_event e d) =
     moves_of t d @ (if te_tool_id e = t \<and> te_event_type e \<noteq> Rejected then [e] else [])"
  by (simp_all add: events_of_def moves_of_def)

lemma db_ok_bootstrap: "db_ok d \<Longrightarrow> db_ok (bootstrap d)"
  by (auto simp: db_ok_def snapshot_ok_def list_all_iff)

lemma db_ok_upsert_drawer: "db_ok d \<Longrightarrow> db_ok (upsert_drawer l b now d)"
  by (auto simp: db_ok_def snapshot_ok_def upsert_drawer_def find_tool_def events_of_def moves_of_def)

lemma db_ok_insert_system_event:
  "db_ok d \<Longrightarrow> insert_system_event ev sv tr notes now d = Inr d' \<Longrightarrow> db_ok d'"
  by (auto simp: db_ok_def snapshot_ok_def insert_system_event_def find_tool_def events_of_def
      moves_of_def split: if_splits)

lemma db_ok_record_transition:
  assumes "db_ok d" and "record_transition op t ev tr b a notes now d = Inr d'"
    and "status_of_tool t d = Some b" and "ev \<noteq> Rejected"
  shows "db_ok d'"
proof -
  let ?e = "transition_event op t ev tr b a notes now d"
  have d': "d' = update_tool_row t a (db_next_event d) now (add_event ?e d)"
      and fk: "find_tool t d \<noteq> None" "op \<in> set (db_operators d)"
    using assms(2) by (auto simp: record_transition_eq split: if_splits)
  have snap: "snapshot_ok d' k row" if k: "find_tool k d' = Some row" for k row
  proof (cases "k = t")
    case True
    from assms(3) obtain old where old: "find_tool t d = Some old" "current_status old = b"
      by (auto simp: status_of_tool_def)
    then have "snapshot_ok d t old" using assms(1) by (simp add: db_ok_def)
    with old k True assms(4) show ?thesis
      by (auto simp: d' update_tool_row_def snapshot_ok_def)
  next
    case False
    then have "find_tool k d = Some row" using k by (simp add: d' update_tool_row_def)
    then have "snapshot_ok d k row" using assms(1) by (simp add: db_ok_def)
    with False show ?thesis by (simp add: d' update_tool_row_def snapshot_ok_def)
  qed
  then show ?thesis
    using assms(1) fk by (auto simp: db_ok_def d' update_tool_row_def list_all_iff)
qed

lemma db_ok_append_rejection:
  assumes "db_ok d" and "append_rejection op t st reason tr now d = Inr d'"
  shows "db_ok d'"
proof -
  let ?e = "transition_event op t Rejected tr st st reason now d"
  have d': "d' = update_last_event t (db_next_event d) (add_event ?e d)"
      and fk: "find_tool t d \<noteq> None" "op \<in> set (db_operators d)"
    using assms(2) by (auto simp: append_rejection_eq split: if_splits)
  have snap: "snapshot_ok d' k row" if k: "find_tool k d' = Some row" for k row
  proof (cases "k = t")
    case True
    then obtain old where old: "find_tool t d = Some old" "row = old\<lparr>last_event_id := Some (db_next_event d)\<rparr>"
      using k by (auto simp: d' update_last_event_def)
    then have "snapshot_ok d t old" using assms(1) by (simp add: db_ok_def)
    with old True show ?thesis
      by (auto simp: d' update_last_event_def snapshot_ok_def)
  next
    case False
    then have "find_tool k d = Some row" using k by (simp add: d' update_last_event_def)
    then have "snapshot_ok d k row" using assms(1) by (simp add: db_ok_def)
    with False show ?thesis by (simp add: d' update_last_event_def snapshot_ok_def)
  qed
  then show ?thesis
    using assms(1) fk by (auto simp: db_ok_def d' update_last_event_def list_all_iff)
qed

end
