(* ===== verification/DbRepository.thy ===== *)
theory DbRepository imports DbSchema begin

text \<open>
  \<open>ToolRepository\<close> of \<open>db_core/repository.py\<close>: the DB Gate, the status transitions, the FOD
  monitor's timeouts, rejections, system events and drawers. SQLite itself is the parameter
  \<open>io\<close>: how the \<open>k\<close>-th transaction of the repository ends. A transaction that fails leaves the
  tables as they were.
\<close>

section \<open>Transactions\<close>

datatype outcome = Works | SchemaFails string | SqliteFails string

datatype db_error = SchemaValidationError string | SqliteError string | ValueErr string

text \<open>The text of the exception in an f-string.\<close>

fun exc_text :: "db_error \<Rightarrow> string" where
  "exc_text (SchemaValidationError m) = m"
| "exc_text (SqliteError m) = m"
| "exc_text (ValueErr m) = m"

text \<open>\<open>except sqlite3.Error\<close>: \<open>SchemaValidationError\<close> is a subclass, \<open>ValueError\<close> is not.\<close>

fun is_sqlite_error :: "db_error \<Rightarrow> bool" where
  "is_sqlite_error (ValueErr _) = False"
| "is_sqlite_error _ = True"

record cached_status =
  cached_current_status :: tool_status
  loaded_at :: real

record repository =
  rp_db :: database
  rp_status_cache :: "string \<rightharpoonup> cached_status"
  rp_transactions :: nat

record clock =
  utc :: int
  mono :: real

type_synonym io = "nat \<Rightarrow> outcome"

type_synonym 'a repo_op = "(repository, db_error, 'a) op"

text \<open>
  \<open>with self._connect() as conn\<close> around \<open>body\<close>: the schema is created or checked, the body's
  changes are committed together or, on any exception, rolled back.
\<close>

definition transact :: "io \<Rightarrow> (database \<Rightarrow> (db_error, 'a \<times> database) result) \<Rightarrow> 'a repo_op" where
  "transact io body r =
     (let r' = r\<lparr>rp_transactions := rp_transactions r + 1\<rparr> in
      case io (rp_transactions r) of
        SchemaFails m \<Rightarrow> (Inl (SchemaValidationError m), r')
      | SqliteFails m \<Rightarrow> (Inl (SqliteError m), r')
      | Works \<Rightarrow>
          (case body (bootstrap (rp_db r)) of
             Inl e \<Rightarrow> (Inl e, r'\<lparr>rp_db := bootstrap (rp_db r)\<rparr>)
           | Inr (a, d) \<Rightarrow> (Inr a, r'\<lparr>rp_db := d\<rparr>)))"

text \<open>A statement whose failure is SQLite's \<open>IntegrityError\<close>.\<close>

definition stmt :: "(string, database) result \<Rightarrow> (db_error, database) result" where
  "stmt r = (case r of Inl m \<Rightarrow> Inl (SqliteError m) | Inr d \<Rightarrow> Inr d)"

definition catch_sqlite :: "'a repo_op \<Rightarrow> (db_error \<Rightarrow> 'a repo_op) \<Rightarrow> 'a repo_op" where
  "catch_sqlite m h = catch_op m (\<lambda>e. if is_sqlite_error e then h e else fail_op e)"

section \<open>Results\<close>

record feasibility_result =
  feasible :: bool
  reason :: string

record update_result =
  success :: bool
  message :: string

record fod_update =
  fu_tool_id :: string
  fu_previous_status :: tool_status
  fu_new_status :: tool_status

definition feas :: "bool \<Rightarrow> string \<Rightarrow> feasibility_result" where
  "feas b s = \<lparr>feasible = b, reason = s\<rparr>"

definition upd :: "bool \<Rightarrow> string \<Rightarrow> update_result" where
  "upd b s = \<lparr>success = b, message = s\<rparr>"

lemma result_simps [simp]:
  "feasible (feas b s) = b" "reason (feas b s) = s" "success (upd b s) = b" "message (upd b s) = s"
  by (simp_all add: feas_def upd_def)

definition DB_CACHE_TTL_SECONDS :: real where
  "DB_CACHE_TTL_SECONDS = 300"

definition MAX_REJECTION_NOTES_LEN :: nat where
  "MAX_REJECTION_NOTES_LEN = 1024"

definition VALID_INTENTS :: "string set" where
  "VALID_INTENTS = {''fetch'', ''return''}"

definition VALID_DRAWER_INTENTS :: "string set" where
  "VALID_DRAWER_INTENTS = {''open'', ''close''}"

section \<open>Rejections\<close>

definition record_rejection ::
  "io \<Rightarrow> string \<Rightarrow> clock \<Rightarrow> string \<Rightarrow> tool_status \<Rightarrow> string \<Rightarrow> string repo_op" where
  "record_rejection io op clk tool_id st why =
     catch_sqlite
       (transact io (\<lambda>d. case stmt (append_rejection op tool_id st why None (utc_now (utc clk)) d) of
          Inl e \<Rightarrow> Inl e | Inr d' \<Rightarrow> Inr ('''', d')))
       (\<lambda>e. ret_op (''failed to log rejected event: '' @ exc_text e))"

definition reject ::
  "io \<Rightarrow> string \<Rightarrow> clock \<Rightarrow> string \<Rightarrow> tool_status \<Rightarrow> string \<Rightarrow> feasibility_result repo_op" where
  "reject io op clk tool_id st why =
     bind_op (record_rejection io op clk tool_id st why) (\<lambda>err.
     ret_op (if err \<noteq> [] then feas False (why @ ''; '' @ err) else feas False why))"

definition log_rejection ::
  "io \<Rightarrow> string \<Rightarrow> clock \<Rightarrow> string \<Rightarrow> string \<Rightarrow> string option \<Rightarrow> update_result repo_op" where
  "log_rejection io op clk tool_id why tr =
     (if tool_id = [] then ret_op (upd False ''tool_id is required'')
      else let tr' = (case tr of None \<Rightarrow> None | Some t \<Rightarrow> if t = [] then None else Some t) in
      case (case tr' of None \<Rightarrow> Some None | Some t \<Rightarrow> map_option Some (parse_track t)) of
        None \<Rightarrow> ret_op (upd False (''unsupported track: '' @ the tr'))
      | Some trk \<Rightarrow>
          catch_sqlite
            (transact io (\<lambda>d. case status_of_tool tool_id d of
               None \<Rightarrow> Inr (upd False (''unknown tool_id: '' @ tool_id), d)
             | Some st \<Rightarrow>
                 (case stmt (append_rejection op tool_id st (take MAX_REJECTION_NOTES_LEN why) trk
                              (utc_now (utc clk)) d) of
                    Inl e \<Rightarrow> Inl e
                  | Inr d' \<Rightarrow> Inr (upd True ''logged'', d'))))
            (\<lambda>e. ret_op (upd False (''failed to log rejection: '' @ exc_text e))))"

section \<open>The DB Gate\<close>

definition check_status ::
  "io \<Rightarrow> string \<Rightarrow> clock \<Rightarrow> string \<Rightarrow> string \<Rightarrow> tool_status \<Rightarrow> feasibility_result repo_op" where
  "check_status io op clk intent tool_id st =
     (if intent = ''fetch'' then
        (if st = In_slot then ret_op (feas True ''ok'')
         else reject io op clk tool_id st (''tool is '' @ status_name st))
      else if st = Staged then ret_op (feas True ''ok'')
      else if st = In_slot then reject io op clk tool_id st ''tool is already in slot''
      else reject io op clk tool_id st (''tool is '' @ status_name st @ '', expected staged''))"

definition cached_lookup :: "clock \<Rightarrow> string \<Rightarrow> repository \<Rightarrow> tool_status option" where
  "cached_lookup clk tool_id r =
     (case rp_status_cache r tool_id of
        None \<Rightarrow> None
      | Some c \<Rightarrow>
          if mono clk - loaded_at c > DB_CACHE_TTL_SECONDS then None
          else Some (cached_current_status c))"

definition remember :: "clock \<Rightarrow> string \<Rightarrow> tool_status \<Rightarrow> unit repo_op" where
  "remember clk tool_id st =
     modify_op (\<lambda>r. r\<lparr>rp_status_cache := (rp_status_cache r)
       (tool_id \<mapsto> \<lparr>cached_current_status = st, loaded_at = mono clk\<rparr>)\<rparr>)"

definition check_feasibility ::
  "io \<Rightarrow> string \<Rightarrow> clock \<Rightarrow> string \<Rightarrow> string \<Rightarrow> feasibility_result repo_op" where
  "check_feasibility io op clk intent0 tool_id0 =
     (let intent = py_strip intent0; tool_id = py_strip tool_id0 in
      if intent \<notin> VALID_INTENTS then ret_op (feas False (''unsupported intent: '' @ intent))
      else if tool_id = [] then ret_op (feas False ''tool_id is required'')
      else bind_op
        (catch_op
          (bind_op (transact io (\<lambda>d. Inr (status_of_tool tool_id d, d)))
            (\<lambda>row. ret_op (Inr row)))
          (\<lambda>e. ret_op (Inl e)))
        (\<lambda>read. case read of
           Inl (SchemaValidationError m) \<Rightarrow> ret_op (feas False (''database schema error: '' @ m))
         | Inl e \<Rightarrow>
             bind_op (gets_op (cached_lookup clk tool_id)) (\<lambda>c.
             case c of
               None \<Rightarrow>
                 ret_op (feas False (''database unavailable and cache expired: '' @ exc_text e))
             | Some st \<Rightarrow> check_status io op clk intent tool_id st)
         | Inr None \<Rightarrow> ret_op (feas False ''unknown tool'')
         | Inr (Some st) \<Rightarrow>
             seq_op (remember clk tool_id st) (check_status io op clk intent tool_id st)))"

section \<open>Status transitions\<close>

definition ALLOWED_TRANSITIONS :: "((tool_status \<times> tool_status) \<times> event_type list) list" where
  "ALLOWED_TRANSITIONS =
     [((In_slot, Out), [Fetch]), ((Out, Staged), [Fetch]),
      ((Staged, Out), [Return]), ((Out, In_slot), [Return])]"

text \<open>\<open>_validate_update\<close>, with the parsed values when it finds no error.\<close>

definition validate_update ::
  "string \<Rightarrow> string \<Rightarrow> string \<Rightarrow> string \<Rightarrow>
   (string, tool_status \<times> event_type \<times> track) result" where
  "validate_update tool_id new_status ev tr =
     (if tool_id = [] then Inl ''tool_id is required''
      else case parse_status new_status of
        None \<Rightarrow> Inl (''unsupported status: '' @ new_status)
      | Some st \<Rightarrow>
      (case parse_event_type ev of
        None \<Rightarrow> Inl (''unsupported event_type: '' @ ev)
      | Some e \<Rightarrow>
      (case parse_track tr of
        None \<Rightarrow> Inl (''unsupported track: '' @ tr)
      | Some t \<Rightarrow> Inr (st, e, t))))"

text \<open>\<open>_validate_transition\<close>: the empty string is "no error".\<close>

definition validate_transition ::
  "tool_status \<Rightarrow> tool_status \<Rightarrow> event_type \<Rightarrow> string \<Rightarrow> string" where
  "validate_transition before new ev notes =
     (if ev = Reconciled then
        (if py_strip notes = []
         then ''reconciled transition requires operator confirmation notes (S-9)'' else [])
      else if ev = Error_event then
        (if new \<noteq> before
         then ''error event must not change status ('' @ status_name before @ '' -> ''
              @ status_name new @ '')'' else [])
      else if new \<in> {Missing, Fod_alert}
      then status_name new @ '' is set only by the FOD monitor (S-8)''
      else case map_of ALLOWED_TRANSITIONS (before, new) of
        None \<Rightarrow> ''illegal transition: '' @ status_name before @ '' -> '' @ status_name new
      | Some evs \<Rightarrow>
          if ev \<notin> set evs
          then ''event_type '' @ event_type_name ev @ '' not allowed for ''
               @ status_name before @ '' -> '' @ status_name new
          else [])"

definition update_tool_status ::
  "io \<Rightarrow> string \<Rightarrow> clock \<Rightarrow> string \<Rightarrow> string \<Rightarrow> string \<Rightarrow> string \<Rightarrow> string \<Rightarrow> update_result repo_op" where
  "update_tool_status io op clk tool_id0 new_status ev tr notes =
     (let tool_id = py_strip tool_id0 in
      case validate_update tool_id (py_strip new_status) (py_strip ev) (py_strip tr) of
        Inl m \<Rightarrow> ret_op (upd False m)
      | Inr (new, e, t) \<Rightarrow>
          catch_sqlite
            (bind_op
              (transact io (\<lambda>d. case status_of_tool tool_id d of
                 None \<Rightarrow> Inr (Some (upd False ''unknown tool''), d)
               | Some before \<Rightarrow>
                   (let err = validate_transition before new e notes in
                    if err \<noteq> [] then Inr (Some (upd False err), d)
                    else case stmt (record_transition op tool_id e (Some t) before new notes
                                      (utc_now (utc clk)) d) of
                        Inl x \<Rightarrow> Inl x
                      | Inr d' \<Rightarrow> Inr (None, d'))))
              (\<lambda>early. case early of
                 Some res \<Rightarrow> ret_op res
               | None \<Rightarrow> seq_op (remember clk tool_id new) (ret_op (upd True ''updated''))))
            (\<lambda>x. ret_op (upd False (''database error: '' @ exc_text x))))"

section \<open>System events\<close>

definition log_system_event ::
  "io \<Rightarrow> clock \<Rightarrow> string \<Rightarrow> string \<Rightarrow> string option \<Rightarrow> string \<Rightarrow> update_result repo_op" where
  "log_system_event io clk ev0 severity0 tr notes =
     (let ev = py_strip ev0; severity = py_strip severity0 in
      if ev \<notin> set VALID_SYSTEM_EVENT_TYPES
      then ret_op (upd False (''unsupported system event_type: '' @ ev))
      else if severity \<notin> set VALID_SEVERITIES
      then ret_op (upd False (''unsupported severity: '' @ severity))
      else if (case tr of None \<Rightarrow> False | Some t \<Rightarrow> parse_track t = None)
      then ret_op (upd False (''unsupported track: '' @ the tr))
      else catch_sqlite
        (transact io (\<lambda>d. case stmt (insert_system_event ev severity tr notes
                                      (utc_now (utc clk)) d) of
           Inl e \<Rightarrow> Inl e | Inr d' \<Rightarrow> Inr (upd True ''logged'', d')))
        (\<lambda>e. ret_op (upd False (''database error: '' @ exc_text e))))"

section \<open>FOD timeouts\<close>

text \<open>The new status of a row, \<open>Inl\<close> when its timestamp cannot be parsed; times in microseconds.\<close>

definition fod_next ::
  "int \<Rightarrow> int \<Rightarrow> int \<Rightarrow> tool_row \<Rightarrow> (db_error, tool_status option) result" where
  "fod_next now checkout_timeout alert_grace row =
     (case parse_utc (last_updated row) of
        None \<Rightarrow> Inl (ValueErr ''Invalid isoformat string'')
      | Some seen \<Rightarrow>
          if current_status row \<in> {Out, Staged} \<and> now - seen \<ge> checkout_timeout
          then Inr (Some Missing)
          else if current_status row = Missing \<and> now - seen \<ge> alert_grace
          then Inr (Some Fod_alert)
          else Inr None)"

fun fod_rows ::
  "string \<Rightarrow> int \<Rightarrow> int \<Rightarrow> int \<Rightarrow> (string \<times> tool_row) list \<Rightarrow> fod_update list \<Rightarrow> database \<Rightarrow>
   (db_error, fod_update list \<times> database) result" where
  "fod_rows op now timeout grace [] acc d = Inr (acc, d)"
| "fod_rows op now timeout grace ((t, row) # rows) acc d =
     (case fod_next now timeout grace row of
        Inl e \<Rightarrow> Inl e
      | Inr None \<Rightarrow> fod_rows op now timeout grace rows acc d
      | Inr (Some new) \<Rightarrow>
          (case stmt (record_transition op t (if new = Missing then Timeout else Fod_alert_event)
                       None (current_status row) new ''FOD timeout transition'' (utc_now now) d) of
             Inl e \<Rightarrow> Inl e
           | Inr d' \<Rightarrow>
               fod_rows op now timeout grace rows
                 (acc @ [\<lparr>fu_tool_id = t, fu_previous_status = current_status row,
                          fu_new_status = new\<rparr>]) d'))"

definition overdue_candidates :: "database \<Rightarrow> (string \<times> tool_row) list" where
  "overdue_candidates d =
     filter (\<lambda>(t, row). current_status row \<in> {Out, Staged, Missing}) (db_tools d)"

definition fod_alert_notes :: "fod_update \<Rightarrow> string" where
  "fod_alert_notes u =
     ''FOD alert: '' @ fu_tool_id u @ '' '' @ status_name (fu_previous_status u) @ '' -> fod_alert''"

definition mark_checkout_timeouts ::
  "io \<Rightarrow> string \<Rightarrow> clock \<Rightarrow> int \<Rightarrow> int \<Rightarrow> fod_update list repo_op" where
  "mark_checkout_timeouts io op clk timeout grace =
     bind_op (transact io (\<lambda>d. fod_rows op (utc clk) timeout grace (overdue_candidates d) [] d))
       (\<lambda>updates.
          seq_op
            (for_op (\<lambda>u. log_system_event io clk ''fod_alert'' ''critical'' None (fod_alert_notes u))
              (filter (\<lambda>u. fu_new_status u = Fod_alert) updates))
            (ret_op updates))"

section \<open>Drawers\<close>

definition check_drawer_feasibility ::
  "io \<Rightarrow> string \<Rightarrow> int \<Rightarrow> feasibility_result repo_op" where
  "check_drawer_feasibility io intent0 layer_id =
     (let intent = py_strip intent0 in
      if intent \<notin> VALID_DRAWER_INTENTS
      then ret_op (feas False (''unsupported drawer intent: '' @ intent))
      else if intent = ''close'' then ret_op (feas True ''ok'')
      else catch_op
        (bind_op (transact io (\<lambda>d. Inr (db_drawers d layer_id, d)))
          (\<lambda>row. case row of
             Some dr \<Rightarrow> ret_op (if is_open dr then feas False ''already_open'' else feas True ''ok'')
           | None \<Rightarrow> ret_op (feas True ''ok'')))
        (\<lambda>e. case e of
           SchemaValidationError m \<Rightarrow> ret_op (feas False (''database schema error: '' @ m))
         | SqliteError m \<Rightarrow> ret_op (feas False (''database unavailable: '' @ m))
         | ValueErr m \<Rightarrow> fail_op e))"

definition update_drawer_state :: "io \<Rightarrow> clock \<Rightarrow> int \<Rightarrow> string \<Rightarrow> update_result repo_op" where
  "update_drawer_state io clk layer_id intent0 =
     (let intent = py_strip intent0 in
      if intent \<notin> VALID_DRAWER_INTENTS
      then ret_op (upd False (''unsupported drawer intent: '' @ intent))
      else catch_sqlite
        (seq_op
          (transact io (\<lambda>d. Inr ((), upsert_drawer layer_id (intent = ''open'')
                                         (utc_now (utc clk)) d)))
          (ret_op (upd True ''ok'')))
        (\<lambda>e. ret_op (upd False (''failed to update drawer state: '' @ exc_text e))))"

end
