(* ===== verification/DbProps.thy ===== *)
theory DbProps imports DbRepository begin

text \<open>
  What the repository guarantees: the audit invariant under every operation of every process,
  the transition rules as an equivalence, the DB Gate, the fetch/return cycle as an interface
  that other components use, the FOD timeouts, and the writes that fail.
\<close>

section \<open>Every operation keeps the audit invariant\<close>

text \<open>
  \<open>grown d d'\<close>: the invariant is kept, the logs only grow, and no tool appears or vanishes or
  changes a column other than status, last event and last update.
\<close>

definition row_frame :: "tool_row \<Rightarrow> tool_row \<Rightarrow> bool" where
  "row_frame row row' \<longleftrightarrow>
     display_name row' = display_name row \<and> home_slot_row row' = home_slot_row row
     \<and> home_slot_col row' = home_slot_col row \<and> grasp_z_mm row' = grasp_z_mm row"

definition tools_frame :: "database \<Rightarrow> database \<Rightarrow> bool" where
  "tools_frame d d' \<longleftrightarrow>
     list_all2 (\<lambda>x y. fst y = fst x \<and> row_frame (snd x) (snd y)) (db_tools d) (db_tools d')"

definition grown :: "database \<Rightarrow> database \<Rightarrow> bool" where
  "grown d d' \<longleftrightarrow>
     (db_ok d \<longrightarrow> db_ok d'
        \<and> (\<exists>ext. db_tool_events d' = db_tool_events d @ ext)
        \<and> (\<exists>ext. db_system_events d' = db_system_events d @ ext)
        \<and> tools_frame d d')"

lemma row_frame_refl [simp]: "row_frame row row"
  by (simp add: row_frame_def)

lemma row_frame_trans: "row_frame a b \<Longrightarrow> row_frame b c \<Longrightarrow> row_frame a c"
  by (simp add: row_frame_def)

lemma tools_frame_same: "db_tools d' = db_tools d \<Longrightarrow> tools_frame d d'"
  by (simp add: tools_frame_def list_all2_refl)

lemma tools_frame_trans: "tools_frame a b \<Longrightarrow> tools_frame b c \<Longrightarrow> tools_frame a c"
  unfolding tools_frame_def
  by (rule list_all2_trans [of _ _ _ "db_tools a" "db_tools b" "db_tools c"])
    (auto intro: row_frame_trans)

lemma grown_refl [simp]: "grown d d"
  by (simp add: grown_def tools_frame_same)

lemma grown_trans: "grown a b \<Longrightarrow> grown b c \<Longrightarrow> grown a c"
  by (auto simp: grown_def intro: tools_frame_trans)

interpretation repo: step_order "\<lambda>r r'. grown (rp_db r) (rp_db r')"
  by unfold_locales (auto intro: grown_trans)

lemma tools_frame_set_tool:
  "(\<And>row. row_frame row (f row)) \<Longrightarrow> tools_frame d (set_tool t f (add_event e d))"
  by (auto simp: tools_frame_def set_tool_def list_all2_conv_all_nth split_beta)

lemma grown_bootstrap [simp]: "grown d (bootstrap d)"
  by (auto simp: grown_def db_ok_bootstrap tools_frame_same)

lemma grown_transition:
  assumes "record_transition op t ev tr b a notes now d = Inr d'"
    and "status_of_tool t d = Some b" and "ev \<noteq> Rejected"
  shows "grown d d'"
proof -
  have "d' = update_tool_row t a (db_next_event d) now
      (add_event (transition_event op t ev tr b a notes now d) d)"
    using assms(1) by (simp add: record_transition_eq split: if_splits)
  moreover have "tools_frame d (update_tool_row t a i now (add_event e d))" for e i
    unfolding update_tool_row_def by (rule tools_frame_set_tool) (simp add: row_frame_def)
  ultimately show ?thesis
    using assms db_ok_record_transition by (auto simp: grown_def update_tool_row_def)
qed

lemma grown_rejection:
  assumes "append_rejection op t st why tr now d = Inr d'"
  shows "grown d d'"
proof -
  have "d' = update_last_event t (db_next_event d)
      (add_event (transition_event op t Rejected tr st st why now d) d)"
    using assms by (simp add: append_rejection_eq split: if_splits)
  moreover have "tools_frame d (update_last_event t i (add_event e d))" for e i
    unfolding update_last_event_def by (rule tools_frame_set_tool) (simp add: row_frame_def)
  ultimately show ?thesis
    using assms db_ok_append_rejection by (auto simp: grown_def update_last_event_def)
qed

lemma grown_system_event:
  "insert_system_event ev sv tr notes now d = Inr d' \<Longrightarrow> grown d d'"
  using db_ok_insert_system_event
  by (auto simp: grown_def insert_system_event_def tools_frame_same split: if_splits)

lemma grown_drawer: "grown d (upsert_drawer l b now d)"
  using db_ok_upsert_drawer by (auto simp: grown_def upsert_drawer_def tools_frame_same)

lemma grown_transact:
  assumes "\<And>d a d'. body d = Inr (a, d') \<Longrightarrow> grown d d'"
  shows "repo.stays (transact io body)"
proof (rule repo.staysI)
  fix r
  show "grown (rp_db r) (rp_db (snd (transact io body r)))"
    using assms [of "bootstrap (rp_db r)"] grown_trans [OF grown_bootstrap]
    by (auto simp: transact_def Let_def split: outcome.splits sum.splits)
qed

lemma stmt_InrD: "stmt r = Inr d \<Longrightarrow> r = Inr d"
  by (cases r) (simp_all add: stmt_def)

lemma grown_catch_sqlite: "repo.stays m \<Longrightarrow> (\<And>e. repo.stays (h e)) \<Longrightarrow> repo.stays (catch_sqlite m h)"
  unfolding catch_sqlite_def by (intro repo.stays_rules)

lemma grown_remember: "repo.stays (remember clk t st)"
  by (rule repo.staysI) (simp add: remember_def)

lemma grown_record_rejection: "repo.stays (record_rejection io op clk t st why)"
  unfolding record_rejection_def
  by (intro grown_catch_sqlite grown_transact repo.stays_rules)
    (auto split: sum.splits dest: stmt_InrD intro: grown_rejection)

lemma grown_check_status: "repo.stays (check_status io op clk i t st)"
  unfolding check_status_def reject_def
  by (intro repo.stays_rules grown_record_rejection)

lemma grown_check_feasibility: "repo.stays (check_feasibility io op clk i t)"
proof -
  have read: "repo.stays (transact io (\<lambda>d. Inr (status_of_tool k d, d)))" for k
    by (rule grown_transact) simp
  have branch: "repo.stays (case e of
      SchemaValidationError m \<Rightarrow> ret_op (feas False (''database schema error: '' @ m))
    | SqliteError m \<Rightarrow> h m | ValueErr m \<Rightarrow> h' m)"
    if "\<And>m. repo.stays (h m)" "\<And>m. repo.stays (h' m)" for e h h'
    using that by (cases e) (auto intro: repo.stays_ret)
  show ?thesis
    unfolding check_feasibility_def Let_def
    by (intro repo.stays_rules read branch grown_check_status grown_remember)
qed

lemma grown_log_rejection: "repo.stays (log_rejection io op clk t why tr)"
  unfolding log_rejection_def Let_def
  by (intro repo.stays_rules grown_catch_sqlite grown_transact)
    (auto split: option.splits sum.splits dest: stmt_InrD intro: grown_rejection)

lemma validate_not_rejected: "validate_transition b n Rejected notes \<noteq> []"
  by (cases b; cases n) (auto simp: validate_transition_def ALLOWED_TRANSITIONS_def)

lemma grown_update: "repo.stays (update_tool_status io op clk t n e tr notes)"
proof -
  have body: "grown d d'"
    if "(case status_of_tool k d of
           None \<Rightarrow> Inr (Some (upd False ''unknown tool''), d)
         | Some before \<Rightarrow>
             (let err = validate_transition before new ev notes in
              if err \<noteq> [] then Inr (Some (upd False err), d)
              else case stmt (record_transition op k ev (Some trk) before new notes now d) of
                  Inl x \<Rightarrow> Inl x | Inr d' \<Rightarrow> Inr (None, d'))) = Inr (a, d')"
    for k new ev trk now a d d'
    using that validate_not_rejected
    by (auto simp: Let_def split: option.splits if_splits sum.splits dest!: stmt_InrD
        intro!: grown_transition [of op k ev "Some trk"])
  show ?thesis
    unfolding update_tool_status_def Let_def prod.case_distrib
    by (auto split: sum.splits simp: case_prod_unfold intro!: repo.stays_rules grown_catch_sqlite grown_remember
        grown_transact body [unfolded Let_def])
qed

lemma grown_log_system_event: "repo.stays (log_system_event io clk ev sv tr notes)"
  unfolding log_system_event_def Let_def
  by (intro repo.stays_rules grown_catch_sqlite grown_transact)
    (auto split: sum.splits dest: stmt_InrD intro: grown_system_event)

lemma transition_find_other:
  "record_transition op t ev tr b a notes now d = Inr d' \<Longrightarrow> k \<noteq> t \<Longrightarrow> find_tool k d' = find_tool k d"
  by (auto simp: record_transition_eq update_tool_row_def split: if_splits)

lemma fod_rows_grown:
  assumes "fod_rows op now timeout grace rows acc d = Inr (ups, d')"
    and "distinct (map fst rows)" and "\<forall>(t, row)\<in>set rows. find_tool t d = Some row"
  shows "grown d d'"
  using assms
proof (induction rows arbitrary: acc d)
  case (Cons x rows)
  obtain t row where x: "x = (t, row)" by (cases x)
  have row: "status_of_tool t d = Some (current_status row)"
    using Cons.prems(3) by (simp add: x status_of_tool_def)
  show ?case
  proof (cases "\<exists>new. fod_next now timeout grace row = Inr (Some new)")
    case False
    then show ?thesis using Cons by (auto simp: x split: sum.splits option.splits)
  next
    case True
    then obtain new where new: "fod_next now timeout grace row = Inr (Some new)" ..
    define ev where "ev = (if new = Missing then Timeout else Fod_alert_event)"
    obtain d1 where d1: "record_transition op t ev None (current_status row) new
          ''FOD timeout transition'' (utc_now now) d = Inr d1"
        and rest: "\<exists>acc'. fod_rows op now timeout grace rows acc' d1 = Inr (ups, d')"
      using Cons.prems(1) new
      by (auto simp: x ev_def split: sum.splits if_splits dest!: stmt_InrD)
    have "grown d d1" using d1 row by (rule grown_transition) (simp add: ev_def)
    moreover have "\<forall>(k, row)\<in>set rows. find_tool k d1 = Some row"
    proof clarify
      fix k row' assume k: "(k, row') \<in> set rows"
      then have "k \<noteq> t" using Cons.prems(2) by (auto simp: x rev_image_eqI)
      then have "find_tool k d1 = find_tool k d" by (rule transition_find_other [OF d1])
      with k show "find_tool k d1 = Some row'" using Cons.prems(3) by auto
    qed
    moreover have "distinct (map fst rows)" using Cons.prems(2) by (simp add: x)
    ultimately have "grown d d1" "grown d1 d'" using Cons.IH rest by blast+
    then show ?thesis by (rule grown_trans)
  qed
qed simp

lemma overdue_distinct:
  "db_ok d \<Longrightarrow> distinct (map fst (overdue_candidates d))"
  by (simp add: overdue_candidates_def db_ok_def distinct_map_filter)

lemma overdue_found:
  "db_ok d \<Longrightarrow> \<forall>(t, row)\<in>set (overdue_candidates d). find_tool t d = Some row"
  by (auto simp: overdue_candidates_def db_ok_def find_tool_def)

lemma grown_mark: "repo.stays (mark_checkout_timeouts io op clk timeout grace)"
proof -
  have "grown d d'" if "fod_rows op now timeout grace (overdue_candidates d) [] d = Inr (a, d')"
    for now a d d'
  proof (cases "db_ok d")
    case True
    then show ?thesis using that overdue_distinct overdue_found by (blast intro: fod_rows_grown)
  qed (simp add: grown_def)
  then show ?thesis
    unfolding mark_checkout_timeouts_def
    by (intro repo.stays_rules grown_transact grown_log_system_event) auto
qed

lemma grown_check_drawer: "repo.stays (check_drawer_feasibility io i l)"
proof -
  have "repo.stays (transact io (\<lambda>d. Inr (db_drawers d l, d)))"
    by (rule grown_transact) simp
  moreover have "repo.stays (case e of
      SchemaValidationError m \<Rightarrow> ret_op (f m) | SqliteError m \<Rightarrow> ret_op (g m) | ValueErr m \<Rightarrow> fail_op e)"
    for e f g
    by (cases e) (auto intro: repo.stays_rules)
  ultimately show ?thesis
    unfolding check_drawer_feasibility_def Let_def
    by (intro repo.stays_rules)
qed

lemma grown_update_drawer: "repo.stays (update_drawer_state io clk l i)"
  unfolding update_drawer_state_def Let_def
  by (intro repo.stays_rules grown_catch_sqlite grown_transact) (auto intro: grown_drawer)

text \<open>The calls any process makes on its repository.\<close>

datatype repo_call =
    CallCheck string string
  | CallUpdate string string string string string
  | CallLogRejection string string "string option"
  | CallLogSystem string string "string option" string
  | CallTimeouts int int
  | CallCheckDrawer string int
  | CallUpdateDrawer int string

fun run_call :: "io \<Rightarrow> string \<Rightarrow> clock \<Rightarrow> repo_call \<Rightarrow> repository \<Rightarrow> repository" where
  "run_call io op clk (CallCheck i t) r = snd (check_feasibility io op clk i t r)"
| "run_call io op clk (CallUpdate t n e tr notes) r =
     snd (update_tool_status io op clk t n e tr notes r)"
| "run_call io op clk (CallLogRejection t why tr) r = snd (log_rejection io op clk t why tr r)"
| "run_call io op clk (CallLogSystem e s tr n) r = snd (log_system_event io clk e s tr n r)"
| "run_call io op clk (CallTimeouts timeout grace) r =
     snd (mark_checkout_timeouts io op clk timeout grace r)"
| "run_call io op clk (CallCheckDrawer i l) r = snd (check_drawer_feasibility io i l r)"
| "run_call io op clk (CallUpdateDrawer l i) r = snd (update_drawer_state io clk l i r)"

text \<open>
  Several processes share the file: each step is one call of some repository, with its own
  operator, cache, clock and luck with SQLite, that finds the file as the last call left it.
\<close>

inductive db_reach :: "database \<Rightarrow> database \<Rightarrow> bool" for d0 :: database where
  start: "db_reach d0 d0"
| call: "db_reach d0 (rp_db r) \<Longrightarrow> db_reach d0 (rp_db (run_call io op clk c r))"

lemma run_call_grown: "grown (rp_db r) (rp_db (run_call io op clk c r))"
  by (cases c) (simp_all add: grown_check_feasibility [THEN repo.staysD]
      grown_update [THEN repo.staysD] grown_log_rejection [THEN repo.staysD]
      grown_log_system_event [THEN repo.staysD] grown_mark [THEN repo.staysD]
      grown_check_drawer [THEN repo.staysD] grown_update_drawer [THEN repo.staysD])

lemma db_reach_grown: "db_reach d0 d \<Longrightarrow> grown d0 d"
  by (induction rule: db_reach.induct) (auto intro: grown_trans run_call_grown)

definition sample_tool :: "tool_status \<Rightarrow> timestamp \<Rightarrow> tool_row" where
  "sample_tool st t =
     \<lparr>display_name = ''hex key'', current_status = st, home_slot_row = 1, home_slot_col = 2,
      grasp_z_mm = None, last_event_id = None, last_updated = t\<rparr>"

definition sample_db :: "tool_status \<Rightarrow> timestamp \<Rightarrow> database" where
  "sample_db st t =
     empty_database\<lparr>db_operators := [DEFAULT_OPERATOR_ID], db_tools := [(''hex'', sample_tool st t)]\<rparr>"

definition fresh_repo :: "database \<Rightarrow> repository" where
  "fresh_repo d = \<lparr>rp_db = d, rp_status_cache = Map.empty, rp_transactions = 0\<rparr>"

definition clock_at :: "int \<Rightarrow> clock" where
  "clock_at t = \<lparr>utc = t, mono = 0\<rparr>"

lemma sample_db_ok: "db_ok (sample_db st t)"
  by (auto simp: db_ok_def sample_db_def empty_database_def find_tool_def snapshot_ok_def
      events_of_def moves_of_def sample_tool_def)

text \<open>
  C6: Whatever calls the processes that share the database make, in whatever order and with
  whatever failures, the audit invariant survives (event ids are consecutive, every event refers
  to a known tool and operator, each snapshot names its newest event, and the moving events of
  a tool chain up to its current status), both logs only grow, and no tool or fixed column of a
  tool changes.
\<close>
theorem audit_invariant:
  assumes "db_reach d0 d" and "db_ok d0"
  shows "db_ok d \<and> (\<exists>ext. db_tool_events d = db_tool_events d0 @ ext)
    \<and> (\<exists>ext. db_system_events d = db_system_events d0 @ ext) \<and> tools_frame d0 d"
  using db_reach_grown [OF assms(1)] assms(2) by (simp add: grown_def)

theorem audit_invariant_witness:
  "db_ok (rp_db (run_call (\<lambda>_. Works) DEFAULT_OPERATOR_ID (clock_at 7)
     (CallUpdate ''hex'' ''out'' ''fetch'' ''A'' '''') (fresh_repo (sample_db In_slot (utc_now 0)))))"
proof -
  have "db_reach (sample_db In_slot (utc_now 0)) (rp_db (fresh_repo (sample_db In_slot (utc_now 0))))"
    by (simp add: fresh_repo_def db_reach.start)
  from audit_invariant [OF db_reach.call [OF this] sample_db_ok] show ?thesis by blast
qed

section \<open>Which transitions are accepted\<close>

text \<open>The rules S-6, S-8 and S-9, independently of the code's table.\<close>

fun legal_move :: "event_type \<Rightarrow> tool_status \<Rightarrow> tool_status \<Rightarrow> string \<Rightarrow> bool" where
  "legal_move Fetch before new notes = ((before, new) \<in> {(In_slot, Out), (Out, Staged)})"
| "legal_move Return before new notes = ((before, new) \<in> {(Staged, Out), (Out, In_slot)})"
| "legal_move Error_event before new notes = (new = before)"
| "legal_move Reconciled before new notes = (py_strip notes \<noteq> [])"
| "legal_move Rejected before new notes = False"
| "legal_move Timeout before new notes = False"
| "legal_move Fod_alert_event before new notes = False"

lemma validate_transition_iff:
  "validate_transition before new ev notes = [] \<longleftrightarrow> legal_move ev before new notes"
  by (cases ev; cases before; cases new)
    (simp_all add: validate_transition_def ALLOWED_TRANSITIONS_def)

lemma legal_not_rejected: "legal_move ev before new notes \<Longrightarrow> ev \<noteq> Rejected"
  by auto

text \<open>What a call of \<open>update_tool_status\<close> would do if SQLite works: the request it stands for.\<close>

definition update_request ::
  "string \<Rightarrow> string \<Rightarrow> string \<Rightarrow> string \<Rightarrow> (string \<times> tool_status \<times> event_type \<times> track) option" where
  "update_request t n e tr =
     (if py_strip t = [] then None
      else case (parse_status (py_strip n), parse_event_type (py_strip e), parse_track (py_strip tr)) of
        (Some new, Some ev, Some trk) \<Rightarrow> Some (py_strip t, new, ev, trk)
      | _ \<Rightarrow> None)"

lemma validate_update_request:
  "update_request t n e tr = None \<Longrightarrow>
     \<exists>m. validate_update (py_strip t) (py_strip n) (py_strip e) (py_strip tr) = Inl m"
  "update_request t n e tr = Some (t', new, ev, trk) \<Longrightarrow>
     t' = py_strip t
     \<and> validate_update (py_strip t) (py_strip n) (py_strip e) (py_strip tr) = Inr (new, ev, trk)"
  by (auto simp: update_request_def validate_update_def split: option.splits if_splits)

lemma update_refused:
  assumes "update_request t n e tr = None"
  shows "\<exists>m. update_tool_status io op clk t n e tr notes r = (Inr (upd False m), r)"
  using validate_update_request(1) [OF assms] by (auto simp: update_tool_status_def)

lemma update_eq:
  assumes "update_request t n e tr = Some (t', new, ev, trk)"
  shows "update_tool_status io op clk t n e tr notes r =
    (let r1 = r\<lparr>rp_transactions := rp_transactions r + 1\<rparr>; d = bootstrap (rp_db r);
         r2 = r1\<lparr>rp_db := d\<rparr> in
     case io (rp_transactions r) of
       SchemaFails m \<Rightarrow> (Inr (upd False (''database error: '' @ m)), r1)
     | SqliteFails m \<Rightarrow> (Inr (upd False (''database error: '' @ m)), r1)
     | Works \<Rightarrow>
         (case status_of_tool t' d of
            None \<Rightarrow> (Inr (upd False ''unknown tool''), r2)
          | Some before \<Rightarrow>
              if \<not> legal_move ev before new notes
              then (Inr (upd False (validate_transition before new ev notes)), r2)
              else if op \<notin> set (db_operators d)
              then (Inr (upd False ''database error: FOREIGN KEY constraint failed''), r2)
              else (Inr (upd True ''updated''),
                r1\<lparr>rp_db := update_tool_row t' new (db_next_event d) (utc_now (utc clk))
                     (add_event (transition_event op t' ev (Some trk) before new notes
                                  (utc_now (utc clk)) d) d),
                   rp_status_cache := (rp_status_cache r)
                     (t' \<mapsto> \<lparr>cached_current_status = new, loaded_at = mono clk\<rparr>)\<rparr>)))"
proof -
  have "find_tool t' (rp_db r) \<noteq> None" if "status_of_tool t' (rp_db r) = Some b" for b
    using that by (auto simp: status_of_tool_def)
  then show ?thesis
    using validate_update_request(2) [OF assms]
    by (auto simp: update_tool_status_def Let_def catch_sqlite_def catch_op_def bind_op_def
        seq_op_def transact_def stmt_def record_transition_eq remember_def
        validate_transition_iff [symmetric]
        split: outcome.splits option.splits)
qed

text \<open>
  C7: \<open>update_tool_status\<close> never raises. It reports success exactly if the request is well formed,
  SQLite works, the tool and the operator exist, and the move is one of the rules S-6, S-8, S-9
  (\<open>fetch\<close> in_slot-out-staged, \<open>return\<close> staged-out-in_slot, \<open>error\<close> without a change, or
  \<open>reconciled\<close> with operator notes). On success the tool has the new status with one new event
  that moves it there; otherwise no row and no event changed.
\<close>
theorem update_succeeds_iff:
  "\<exists>u r'. update_tool_status io op clk t n e tr notes r = (Inr u, r')
    \<and> (success u \<longleftrightarrow> (\<exists>t' new ev trk before. update_request t n e tr = Some (t', new, ev, trk)
         \<and> io (rp_transactions r) = Works \<and> status_of_tool t' (rp_db r) = Some before
         \<and> op \<in> set (db_operators (bootstrap (rp_db r))) \<and> legal_move ev before new notes))
    \<and> (if success u
       then (\<exists>t' new ev trk before. update_request t n e tr = Some (t', new, ev, trk)
         \<and> status_of_tool t' (rp_db r) = Some before
         \<and> status_of_tool t' (rp_db r') = Some new
         \<and> db_tool_events (rp_db r') = db_tool_events (rp_db r)
             @ [transition_event op t' ev (Some trk) before new notes (utc_now (utc clk)) (rp_db r)]
         \<and> (\<forall>k. k \<noteq> t' \<longrightarrow> find_tool k (rp_db r') = find_tool k (rp_db r)))
       else db_tools (rp_db r') = db_tools (rp_db r)
         \<and> db_tool_events (rp_db r') = db_tool_events (rp_db r))"
proof (cases "update_request t n e tr")
  case None
  obtain m where "update_tool_status io op clk t n e tr notes r = (Inr (upd False m), r)"
    using update_refused [OF None] by blast
  then show ?thesis using None by simp
next
  case (Some x)
  obtain t' new ev trk where x: "x = (t', new, ev, trk)" by (cases x) auto
  have ev: "transition_event op t' ev (Some trk) b new notes s (bootstrap d) =
      transition_event op t' ev (Some trk) b new notes s d" for b s d
    by (simp add: transition_event_def)
  note eq = update_eq [OF Some [unfolded x], of io op clk "notes" r]
  show ?thesis
  proof (cases "io (rp_transactions r)")
    case Works
    show ?thesis
    proof (cases "status_of_tool t' (rp_db r)")
      case None
      then show ?thesis using eq Works Some x by (simp add: Let_def)
    next
      case (Some before)
      then obtain row where "find_tool t' (rp_db r) = Some row"
        by (auto simp: status_of_tool_def)
      then show ?thesis
        using eq Works Some \<open>update_request t n e tr = Some x\<close> x
        by (simp add: Let_def ev update_tool_row_def status_of_tool_def)
    qed
  qed (use eq Some x in \<open>simp_all add: Let_def\<close>)
qed

theorem update_succeeds_iff_witness:
  "status_of_tool ''hex'' (rp_db (snd (update_tool_status (\<lambda>_. Works) DEFAULT_OPERATOR_ID (clock_at 7)
     ''hex'' ''out'' ''fetch'' ''A'' '''' (fresh_repo (sample_db In_slot (utc_now 0)))))) = Some Out"
proof -
  let ?r = "fresh_repo (sample_db In_slot (utc_now 0))"
  have req: "update_request ''hex'' ''out'' ''fetch'' ''A'' = Some (''hex'', Out, Fetch, TrackA)"
    by code_simp
  have st: "status_of_tool ''hex'' (rp_db ?r) = Some In_slot"
    by (simp add: fresh_repo_def sample_db_def sample_tool_def status_of_tool_def find_tool_def)
  show ?thesis
    using update_succeeds_iff [of "\<lambda>_. Works" DEFAULT_OPERATOR_ID "clock_at 7" "''hex''" "''out''"
        "''fetch''" "''A''" "''''" ?r]
    by (auto simp: req st)
qed

section \<open>The DB Gate\<close>

text \<open>The status the gate decides on: the row, or while SQLite is failing a fresh cache entry.\<close>

definition gate_view :: "io \<Rightarrow> clock \<Rightarrow> string \<Rightarrow> repository \<Rightarrow> tool_status option" where
  "gate_view io clk t r =
     (case io (rp_transactions r) of
        Works \<Rightarrow> status_of_tool t (rp_db r)
      | SqliteFails m \<Rightarrow> cached_lookup clk t r
      | SchemaFails m \<Rightarrow> None)"

fun gate_allows :: "string \<Rightarrow> tool_status \<Rightarrow> bool" where
  "gate_allows intent st = (intent = ''fetch'' \<and> st = In_slot \<or> intent = ''return'' \<and> st = Staged)"

lemma stmt_InlD: "stmt x = Inl e \<Longrightarrow> is_sqlite_error e"
  by (cases x) (auto simp: stmt_def)

lemma catch_sqlite_returns:
  assumes "\<And>x r'. m r = (Inl x, r') \<Longrightarrow> is_sqlite_error x"
    and "\<And>e r'. \<exists>a r''. h e r' = (Inr a, r'')"
  shows "\<exists>a r'. catch_sqlite m h r = (Inr a, r')"
proof -
  obtain x r' where m: "m r = (x, r')" by (cases "m r")
  with assms show ?thesis
    by (cases x) (auto simp: catch_sqlite_def catch_op_def)
qed

lemma record_rejection_returns:
  "\<exists>m r'. record_rejection io op clk t st why r = (Inr m, r')"
proof -
  let ?body = "\<lambda>d. case stmt (append_rejection op t st why None (utc_now (utc clk)) d) of
      Inl e \<Rightarrow> Inl e | Inr d' \<Rightarrow> Inr ('''', d')"
  have "is_sqlite_error x" if "transact io ?body r = (Inl x, r')" for x r'
    using that by (auto simp: transact_def Let_def split: outcome.splits sum.splits dest: stmt_InlD)
  then show ?thesis
    unfolding record_rejection_def by (rule catch_sqlite_returns) simp_all
qed

lemma reject_returns: "\<exists>m r'. reject io op clk t st why r = (Inr (feas False m), r')"
  using record_rejection_returns [of io op clk t st why r] by (auto simp: reject_def bind_op_def)

lemma check_status_returns:
  assumes "intent \<in> VALID_INTENTS"
  shows "\<exists>res. (\<exists>r'. check_status io op clk intent t st r = (Inr res, r'))
    \<and> feasible res = gate_allows intent st"
proof -
  have "\<exists>res. (\<exists>r'. reject io op clk t st why r = (Inr res, r')) \<and> \<not> feasible res" for why
    using reject_returns [of io op clk t st why r] by auto
  then show ?thesis
    using assms by (auto simp: check_status_def VALID_INTENTS_def)
qed

lemma gate_answer:
  "\<exists>res r'. check_feasibility io op clk i t r = (Inr res, r')
    \<and> (feasible res \<longleftrightarrow> py_strip t \<noteq> []
        \<and> (\<exists>st. gate_view io clk (py_strip t) r = Some st \<and> gate_allows (py_strip i) st))"
proof (cases "py_strip i \<in> VALID_INTENTS \<and> py_strip t \<noteq> []")
  case False
  then show ?thesis by (auto simp: check_feasibility_def VALID_INTENTS_def Let_def)
next
  case True
  note ok = True check_status_returns [of "py_strip i" io op clk "py_strip t"]
  show ?thesis
  proof (cases "io (rp_transactions r)")
    case Works
    then show ?thesis
      using ok by (cases "status_of_tool (py_strip t) (rp_db r)")
        (auto simp: check_feasibility_def Let_def bind_op_def catch_op_def transact_def seq_op_def
          remember_def gate_view_def simp del: gate_allows.simps)
  next
    case (SchemaFails m)
    then show ?thesis
      using True
      by (simp add: check_feasibility_def Let_def bind_op_def catch_op_def transact_def gate_view_def)
  next
    case (SqliteFails m)
    have "cached_lookup clk k (r\<lparr>rp_transactions := j\<rparr>) = cached_lookup clk k r" for k j
      by (simp add: cached_lookup_def)
    with SqliteFails show ?thesis
      using ok by (cases "cached_lookup clk (py_strip t) r")
        (auto simp: check_feasibility_def Let_def bind_op_def catch_op_def transact_def gate_view_def
          simp del: gate_allows.simps)
  qed
qed

text \<open>
  C19: The DB Gate never raises, and it lets an intent through exactly if it is \<open>fetch\<close> for a tool
  in its slot or \<open>return\<close> for a staged tool, judged by the row, or, only while SQLite is failing,
  by a cache entry at most \<open>DB_CACHE_TTL_SECONDS\<close> old; with a wrong schema it is closed.
\<close>
theorem gate_decides:
  "\<exists>res r'. check_feasibility io op clk i t r = (Inr res, r')
    \<and> (feasible res \<longleftrightarrow> py_strip t \<noteq> []
        \<and> (\<exists>st. gate_view io clk (py_strip t) r = Some st \<and> gate_allows (py_strip i) st))"
  by (rule gate_answer)

section \<open>Rejections change nothing but the log\<close>

definition calm :: "database \<Rightarrow> database \<Rightarrow> bool" where
  "calm d d' \<longleftrightarrow>
     (\<forall>t. map_option (\<lambda>row. (current_status row, last_updated row)) (find_tool t d')
        = map_option (\<lambda>row. (current_status row, last_updated row)) (find_tool t d))
     \<and> (\<exists>ext. db_tool_events d' = db_tool_events d @ ext
            \<and> list_all (\<lambda>e. te_event_type e = Rejected) ext)"

lemma calm_refl [simp]: "calm d d"
  by (simp add: calm_def)

lemma calm_trans: "calm a b \<Longrightarrow> calm b c \<Longrightarrow> calm a c"
  by (force simp: calm_def)

interpretation calm: step_order "\<lambda>r r'. calm (rp_db r) (rp_db r')"
  by unfold_locales (auto intro: calm_trans)

lemma calm_bootstrap: "calm d (bootstrap d)"
  by (simp add: calm_def)

lemma calm_rejection: "append_rejection op t st why tr now d = Inr d' \<Longrightarrow> calm d d'"
  by (auto simp: append_rejection_eq calm_def update_last_event_def option.map_comp comp_def
      split: if_splits)

lemma calm_transact:
  assumes "\<And>d a d'. body d = Inr (a, d') \<Longrightarrow> calm d d'"
  shows "calm.stays (transact io body)"
proof (rule calm.staysI)
  fix r :: repository
  have step: "calm (rp_db r) d'" if "body (bootstrap (rp_db r)) = Inr (a, d')" for a d'
    using calm_bootstrap assms [OF that] by (rule calm_trans)
  show "calm (rp_db r) (rp_db (snd (transact io body r)))"
    using step calm_bootstrap [of "rp_db r"]
    by (auto simp: transact_def Let_def split: outcome.splits sum.splits)
qed

lemma calm_catch_sqlite: "calm.stays m \<Longrightarrow> (\<And>e. calm.stays (h e)) \<Longrightarrow> calm.stays (catch_sqlite m h)"
  unfolding catch_sqlite_def by (intro calm.stays_rules)

lemma calm_check_status: "calm.stays (check_status io op clk i t st)"
  unfolding check_status_def reject_def record_rejection_def
  by (intro calm.stays_rules calm_catch_sqlite calm_transact)
    (auto split: sum.splits dest: stmt_InrD intro: calm_rejection)

lemma calm_check_feasibility: "calm.stays (check_feasibility io op clk i t)"
proof -
  have read: "calm.stays (transact io (\<lambda>d. Inr (status_of_tool k d, d)))" for k
    by (rule calm_transact) simp
  have remember: "calm.stays (remember clk k st)" for k st
    by (rule calm.staysI) (simp add: remember_def)
  have branch: "calm.stays (case e of
      SchemaValidationError m \<Rightarrow> ret_op (feas False (''database schema error: '' @ m))
    | SqliteError m \<Rightarrow> h m | ValueErr m \<Rightarrow> h' m)"
    if "\<And>m. calm.stays (h m)" "\<And>m. calm.stays (h' m)" for e h h'
    using that by (cases e) (auto intro: calm.stays_ret)
  show ?thesis
    unfolding check_feasibility_def Let_def
    by (intro calm.stays_rules read branch calm_check_status remember)
qed

lemma calm_log_rejection: "calm.stays (log_rejection io op clk t why tr)"
  unfolding log_rejection_def Let_def
  by (intro calm.stays_rules calm_catch_sqlite calm_transact)
    (auto split: option.splits sum.splits dest: stmt_InrD intro: calm_rejection)

text \<open>
  Neither a DB Gate check nor a logged rejection changes the status or the time of the last
  status change of any tool, so a refused command cannot postpone an FOD timeout; all they can
  add to the log are \<open>rejected\<close> events.
\<close>
theorem rejections_are_calm:
  "calm (rp_db r) (rp_db (snd (check_feasibility io op clk i t r)))
   \<and> calm (rp_db r) (rp_db (snd (log_rejection io op clk t why tr r)))"
  using calm_check_feasibility [THEN calm.staysD] calm_log_rejection [THEN calm.staysD] by blast

section \<open>Drawers\<close>

text \<open>
  A recorded drawer state is what the drawer gate then answers: after a successful
  \<open>open\<close> the gate refuses another \<open>open\<close> of that layer as \<open>already_open\<close>, after a successful
  \<open>close\<close> it allows it, and other layers are answered as before.
\<close>
theorem drawer_roundtrip:
  assumes "update_drawer_state io clk l i r = (Inr u, r')" and "success u"
    and "io' (rp_transactions r') = Works"
  shows "fst (check_drawer_feasibility io' ''open'' k r') =
    Inr (if (if k = l then py_strip i = ''open''
             else (\<exists>dr. db_drawers (rp_db r) k = Some dr \<and> is_open dr))
         then feas False ''already_open'' else feas True ''ok'')"
proof -
  have intent: "py_strip i \<in> VALID_DRAWER_INTENTS" and io: "io (rp_transactions r) = Works"
    using assms(1,2)
    by (auto simp: update_drawer_state_def Let_def catch_sqlite_def catch_op_def seq_op_def
        bind_op_def transact_def split: if_splits outcome.splits)
  have strip: "py_strip ''open'' = ''open''" by code_simp
  have "rp_db r' = upsert_drawer l (py_strip i = ''open'') (utc_now (utc clk)) (bootstrap (rp_db r))"
    using assms(1) intent io
    by (auto simp: update_drawer_state_def Let_def catch_sqlite_def catch_op_def seq_op_def
        bind_op_def transact_def)
  then show ?thesis
    using assms(3)
    by (auto simp: check_drawer_feasibility_def VALID_DRAWER_INTENTS_def strip Let_def catch_op_def
        bind_op_def transact_def upsert_drawer_def split: option.splits)
qed

theorem drawer_roundtrip_witness:
  "fst (check_drawer_feasibility (\<lambda>_. Works) ''open'' 2
     (snd (update_drawer_state (\<lambda>_. Works) (clock_at 5) 2 ''open'' (fresh_repo empty_database))))
   = Inr (feas False ''already_open'')"
proof -
  let ?call = "update_drawer_state (\<lambda>_. Works) (clock_at 5) 2 ''open'' (fresh_repo empty_database)"
  have "fst ?call = Inr (upd True ''ok'')" and strip: "py_strip ''open'' = ''open''" by code_simp+
  then have "?call = (Inr (upd True ''ok''), snd ?call)" by (metis prod.collapse)
  from drawer_roundtrip [OF this, of "\<lambda>_. Works" 2] show ?thesis by (simp add: strip)
qed

section \<open>The interface other components rely on\<close>

text \<open>
  What the orchestrator, the simulator and Track C use of the repository: asking the gate and
  recording the two halves, pick and place, of a motion.
\<close>

locale tool_store =
  fixes status :: "'s \<Rightarrow> string \<Rightarrow> tool_status option"
    and gate :: "string \<Rightarrow> string \<Rightarrow> 's \<Rightarrow> bool \<times> 's"
    and move :: "string \<Rightarrow> tool_status \<Rightarrow> event_type \<Rightarrow> 's \<Rightarrow> bool \<times> 's"
    and known :: "string \<Rightarrow> bool"
  assumes gate_keeps: "status (snd (gate i t s)) = status s"
    and gate_iff: "known t \<Longrightarrow> i \<in> {''fetch'', ''return''} \<Longrightarrow>
          fst (gate i t s) \<longleftrightarrow> (\<exists>st. status s t = Some st \<and> gate_allows i st)"
    and move_iff: "known t \<Longrightarrow>
          fst (move t new ev s) \<longleftrightarrow> (\<exists>before. status s t = Some before \<and> legal_move ev before new [])"
    and move_done: "known t \<Longrightarrow> fst (move t new ev s) \<Longrightarrow>
          status (snd (move t new ev s)) = (status s)(t \<mapsto> new)"
    and move_failed: "known t \<Longrightarrow> \<not> fst (move t new ev s) \<Longrightarrow>
          status (snd (move t new ev s)) = status s"
begin

definition pick_and_place :: "string \<Rightarrow> event_type \<Rightarrow> tool_status \<Rightarrow> 's \<Rightarrow> (bool \<times> bool) \<times> 's" where
  "pick_and_place t ev goal s =
     (let (picked, s1) = move t Out ev s; (placed, s2) = move t goal ev s1
      in ((picked, placed), s2))"

lemma fetch_possible:
  "known t \<Longrightarrow> status s t = Some In_slot \<Longrightarrow>
   fst (pick_and_place t Fetch Staged s) = (True, True)
   \<and> status (snd (pick_and_place t Fetch Staged s)) = (status s)(t \<mapsto> Staged)"
  using move_iff [of t Out Fetch s] move_done [of t Out Fetch s]
    move_iff [of t Staged Fetch "snd (move t Out Fetch s)"]
    move_done [of t Staged Fetch "snd (move t Out Fetch s)"]
  by (auto simp: pick_and_place_def split: prod.splits)

lemma return_possible:
  "known t \<Longrightarrow> status s t = Some Staged \<Longrightarrow>
   fst (pick_and_place t Return In_slot s) = (True, True)
   \<and> status (snd (pick_and_place t Return In_slot s)) = (status s)(t \<mapsto> In_slot)"
  using move_iff [of t Out Return s] move_done [of t Out Return s]
    move_iff [of t In_slot Return "snd (move t Out Return s)"]
    move_done [of t In_slot Return "snd (move t Out Return s)"]
  by (auto simp: pick_and_place_def split: prod.splits)

text \<open>A fetch the gate lets through completes, and only a return is then let through.\<close>

lemma gated_fetch:
  assumes t: "known t" and gate: "fst (gate ''fetch'' t s)"
  defines "s' \<equiv> snd (pick_and_place t Fetch Staged (snd (gate ''fetch'' t s)))"
  shows "fst (pick_and_place t Fetch Staged (snd (gate ''fetch'' t s))) = (True, True)
    \<and> status s' = (status s)(t \<mapsto> Staged)
    \<and> \<not> fst (gate ''fetch'' t s') \<and> fst (gate ''return'' t s')"
proof -
  have "status (snd (gate ''fetch'' t s)) t = Some In_slot"
    using gate t by (auto simp: gate_keeps gate_iff)
  with fetch_possible [OF t] show ?thesis
    by (auto simp: s'_def gate_keeps gate_iff [OF t])
qed

lemma gated_return:
  assumes t: "known t" and gate: "fst (gate ''return'' t s)"
  defines "s' \<equiv> snd (pick_and_place t Return In_slot (snd (gate ''return'' t s)))"
  shows "fst (pick_and_place t Return In_slot (snd (gate ''return'' t s))) = (True, True)
    \<and> status s' = (status s)(t \<mapsto> In_slot)
    \<and> fst (gate ''fetch'' t s') \<and> \<not> fst (gate ''return'' t s')"
proof -
  have "status (snd (gate ''return'' t s)) t = Some Staged"
    using gate t by (auto simp: gate_keeps gate_iff)
  with return_possible [OF t] show ?thesis
    by (auto simp: s'_def gate_keeps gate_iff [OF t])
qed

text \<open>No motion skips the hand-over state: in_slot and staged are never one move apart.\<close>

lemma no_direct_move:
  "known t \<Longrightarrow> status s t = Some In_slot \<Longrightarrow> ev \<in> {Fetch, Return} \<Longrightarrow> \<not> fst (move t Staged ev s)"
  "known t \<Longrightarrow> status s t = Some Staged \<Longrightarrow> ev \<in> {Fetch, Return} \<Longrightarrow> \<not> fst (move t In_slot ev s)"
  by (auto simp: move_iff)

end

section \<open>The repository provides it\<close>

text \<open>A repository of the default operator on a working database.\<close>

definition working :: io where
  "working = (\<lambda>_. Works)"

definition id_ok :: "string \<Rightarrow> bool" where
  "id_ok t \<longleftrightarrow> t \<noteq> [] \<and> py_strip t = t"

definition repo_status :: "repository \<Rightarrow> string \<Rightarrow> tool_status option" where
  "repo_status r t = status_of_tool t (rp_db r)"

definition repo_gate :: "clock \<Rightarrow> string \<Rightarrow> string \<Rightarrow> repository \<Rightarrow> bool \<times> repository" where
  "repo_gate clk i t r =
     (case check_feasibility working DEFAULT_OPERATOR_ID clk i t r of
        (Inl e, r') \<Rightarrow> (False, r') | (Inr res, r') \<Rightarrow> (feasible res, r'))"

definition repo_move ::
  "clock \<Rightarrow> track \<Rightarrow> string \<Rightarrow> tool_status \<Rightarrow> event_type \<Rightarrow> repository \<Rightarrow> bool \<times> repository" where
  "repo_move clk trk t new ev r =
     (case update_tool_status working DEFAULT_OPERATOR_ID clk t (status_name new)
             (event_type_name ev) (track_name trk) [] r of
        (Inl e, r') \<Rightarrow> (False, r') | (Inr u, r') \<Rightarrow> (success u, r'))"

lemma strip_status_name [simp]: "py_strip (status_name st) = status_name st"
  by (cases st; simp only: status_name.simps; code_simp)

lemma strip_event_type_name [simp]: "py_strip (event_type_name ev) = event_type_name ev"
  by (cases ev; simp only: event_type_name.simps; code_simp)

lemma strip_track_name [simp]: "py_strip (track_name trk) = track_name trk"
  by (cases trk; simp only: track_name.simps; code_simp)

lemma request_of_names:
  "id_ok t \<Longrightarrow> update_request t (status_name new) (event_type_name ev) (track_name trk) =
     Some (t, new, ev, trk)"
  by (simp add: update_request_def id_ok_def)

lemma repo_move_eq:
  assumes "id_ok t"
  shows "repo_move clk trk t new ev r =
    (let r1 = r\<lparr>rp_transactions := rp_transactions r + 1\<rparr>; d = bootstrap (rp_db r) in
     case status_of_tool t d of
       None \<Rightarrow> (False, r1\<lparr>rp_db := d\<rparr>)
     | Some before \<Rightarrow>
         if legal_move ev before new []
         then (True, r1\<lparr>rp_db := update_tool_row t new (db_next_event d) (utc_now (utc clk))
                (add_event (transition_event DEFAULT_OPERATOR_ID t ev (Some trk) before new []
                             (utc_now (utc clk)) d) d),
               rp_status_cache := (rp_status_cache r)
                 (t \<mapsto> \<lparr>cached_current_status = new, loaded_at = mono clk\<rparr>)\<rparr>)
         else (False, r1\<lparr>rp_db := d\<rparr>))"
  by (simp add: repo_move_def update_eq [OF request_of_names [OF assms]] working_def Let_def
      split: option.splits)

lemma repo_move_status:
  assumes "id_ok t"
  shows "fst (repo_move clk trk t new ev r) \<longleftrightarrow>
      (\<exists>before. repo_status r t = Some before \<and> legal_move ev before new [])"
    and "fst (repo_move clk trk t new ev r) \<Longrightarrow>
      repo_status (snd (repo_move clk trk t new ev r)) = (repo_status r)(t \<mapsto> new)"
    and "\<not> fst (repo_move clk trk t new ev r) \<Longrightarrow>
      repo_status (snd (repo_move clk trk t new ev r)) = repo_status r"
proof -
  have row: "find_tool t d \<noteq> None" if "status_of_tool t d = Some b" for b d
    using that by (auto simp: status_of_tool_def)
  show "fst (repo_move clk trk t new ev r) \<longleftrightarrow>
      (\<exists>before. repo_status r t = Some before \<and> legal_move ev before new [])"
    by (auto simp: repo_move_eq [OF assms] repo_status_def Let_def split: option.splits)
  show "repo_status (snd (repo_move clk trk t new ev r)) = (repo_status r)(t \<mapsto> new)"
    if "fst (repo_move clk trk t new ev r)"
    using that row
    by (auto simp: repo_move_eq [OF assms] repo_status_def Let_def fun_eq_iff update_tool_row_def
        split: option.splits if_splits)
  show "repo_status (snd (repo_move clk trk t new ev r)) = repo_status r"
    if "\<not> fst (repo_move clk trk t new ev r)"
    using that by (auto simp: repo_move_eq [OF assms] repo_status_def Let_def fun_eq_iff
        split: option.splits if_splits)
qed

lemma calm_status: "calm d d' \<Longrightarrow> status_of_tool t d' = status_of_tool t d"
  unfolding calm_def status_of_tool_def
  by (metis (no_types, lifting) fst_conv option.map_comp comp_apply option.map_cong0)

lemma repo_gate_facts:
  "repo_status (snd (repo_gate clk i t r)) = repo_status r"
  "id_ok t \<Longrightarrow> py_strip i = i \<Longrightarrow>
     fst (repo_gate clk i t r) \<longleftrightarrow> (\<exists>st. repo_status r t = Some st \<and> gate_allows i st)"
proof -
  obtain res r' where res: "check_feasibility working DEFAULT_OPERATOR_ID clk i t r = (Inr res, r')"
      and iff: "feasible res \<longleftrightarrow> py_strip t \<noteq> []
        \<and> (\<exists>st. gate_view working clk (py_strip t) r = Some st \<and> gate_allows (py_strip i) st)"
    using gate_answer [of working DEFAULT_OPERATOR_ID clk i t r] by blast
  show "repo_status (snd (repo_gate clk i t r)) = repo_status r"
    using calm_check_feasibility [THEN calm.staysD', OF res]
    by (auto simp: repo_gate_def res repo_status_def fun_eq_iff calm_status)
  show "fst (repo_gate clk i t r) \<longleftrightarrow> (\<exists>st. repo_status r t = Some st \<and> gate_allows i st)"
    if "id_ok t" "py_strip i = i"
    using that iff unfolding repo_gate_def res
    by (simp add: repo_status_def gate_view_def working_def id_ok_def)
qed

lemma strip_intents: "i \<in> {''fetch'', ''return''} \<Longrightarrow> py_strip i = i"
proof -
  have "py_strip ''fetch'' = ''fetch''" "py_strip ''return'' = ''return''" by code_simp+
  then show "i \<in> {''fetch'', ''return''} \<Longrightarrow> py_strip i = i" by auto
qed

interpretation store: tool_store repo_status "repo_gate clk" "repo_move clk trk" id_ok
  for clk :: clock and trk :: track
  by unfold_locales
    (simp_all add: repo_gate_facts strip_intents repo_move_status del: gate_allows.simps)

text \<open>
  C20: Through the repository, a fetch the gate lets through can be completed: its pick and its
  place are both accepted, the tool is then staged, no other tool changed, a second fetch is
  refused and a return is let through; that return can be completed in the same way and puts
  the tool back in its slot. The direct moves that skip the hand-over are refused.
\<close>
theorem fetch_return_cycle:
  assumes "id_ok t" and "fst (repo_gate clk ''fetch'' t r)"
    and "store.pick_and_place clk trk t Fetch Staged (snd (repo_gate clk ''fetch'' t r)) = (a, r1)"
    and "store.pick_and_place clk trk t Return In_slot (snd (repo_gate clk ''return'' t r1)) = (b, r2)"
  shows "a = (True, True) \<and> b = (True, True)
    \<and> repo_status r1 = (repo_status r)(t \<mapsto> Staged) \<and> repo_status r2 = repo_status r
    \<and> \<not> fst (repo_gate clk ''fetch'' t r1) \<and> fst (repo_gate clk ''return'' t r1)
    \<and> \<not> fst (repo_move clk trk t In_slot Return r1) \<and> \<not> fst (repo_move clk trk t Staged Fetch r2)"
proof -
  have slot: "repo_status r t = Some In_slot"
    using assms(1,2) by (simp add: store.gate_iff)
  note fetch = store.gated_fetch [OF assms(1,2), of trk, unfolded assms(3)]
  then have again: "fst (repo_gate clk ''return'' t r1)" by simp
  note ret = store.gated_return [OF assms(1) again, of trk, unfolded assms(4)]
  show ?thesis
    using fetch ret slot store.no_direct_move [OF assms(1)]
    by (auto simp: fun_eq_iff)
qed

theorem fetch_return_cycle_witness:
  "repo_status (snd (store.pick_and_place (clock_at 3) TrackA ''hex'' Fetch Staged
     (snd (repo_gate (clock_at 3) ''fetch'' ''hex'' (fresh_repo (sample_db In_slot (utc_now 0)))))))
     ''hex'' = Some Staged"
proof -
  let ?r = "fresh_repo (sample_db In_slot (utc_now 0))"
  have id: "id_ok ''hex''" by code_simp
  have "repo_status ?r ''hex'' = Some In_slot"
    by (simp add: repo_status_def fresh_repo_def sample_db_def sample_tool_def status_of_tool_def
        find_tool_def)
  then have gate: "fst (repo_gate (clock_at 3) ''fetch'' ''hex'' ?r)"
    using id by (simp add: store.gate_iff)
  show ?thesis
    using fetch_return_cycle [OF id gate prod.collapse [symmetric] prod.collapse [symmetric], of TrackA]
    by simp
qed

section \<open>FOD timeouts\<close>

text \<open>A tool's status and the time of its last change, and what one poll makes of them.\<close>

definition stamp_of :: "string \<Rightarrow> database \<Rightarrow> (tool_status \<times> timestamp) option" where
  "stamp_of t d = map_option (\<lambda>row. (current_status row, last_updated row)) (find_tool t d)"

definition fod_stamp :: "int \<Rightarrow> int \<Rightarrow> int \<Rightarrow> tool_row \<Rightarrow> tool_status \<times> timestamp" where
  "fod_stamp now timeout grace row =
     (case fod_next now timeout grace row of
        Inr (Some new) \<Rightarrow> (new, utc_now now) | _ \<Rightarrow> (current_status row, last_updated row))"

lemma fod_rows_effect:
  assumes "fod_rows op now timeout grace rows acc d = Inr (ups, d')"
    and "distinct (map fst rows)" and "\<forall>(t, row)\<in>set rows. find_tool t d = Some row"
  shows "stamp_of t d' =
      (case map_of rows t of None \<Rightarrow> stamp_of t d | Some row \<Rightarrow> Some (fod_stamp now timeout grace row))
    \<and> ups = acc @ concat (map (\<lambda>(t, row). case fod_next now timeout grace row of
          Inr (Some new) \<Rightarrow> [\<lparr>fu_tool_id = t, fu_previous_status = current_status row, fu_new_status = new\<rparr>]
        | _ \<Rightarrow> []) rows)"
  using assms
proof (induction rows arbitrary: acc d)
  case (Cons x rows)
  obtain k row where x: "x = (k, row)" by (cases x)
  have k: "find_tool k d = Some row" "k \<notin> fst ` set rows" "distinct (map fst rows)"
    using Cons.prems(2,3) by (auto simp: x)
  have none: "map_of rows k = None" using k(2) by (simp add: map_of_eq_None_iff)
  show ?case
  proof (cases "\<exists>new. fod_next now timeout grace row = Inr (Some new)")
    case False
    then have next_None: "fod_next now timeout grace row = Inr None"
      using Cons.prems(1) by (auto simp: x split: sum.splits option.splits)
    then have st: "fod_stamp now timeout grace row = (current_status row, last_updated row)"
        and rest: "fod_rows op now timeout grace rows acc d = Inr (ups, d')"
      using Cons.prems(1) by (simp_all add: fod_stamp_def x)
    have "\<forall>(t, row)\<in>set rows. find_tool t d = Some row" using Cons.prems(3) by (simp add: x)
    from Cons.IH [OF rest k(3) this] show ?thesis
      using st none k(1) next_None by (auto simp: x stamp_of_def)
  next
    case True
    then obtain new where new: "fod_next now timeout grace row = Inr (Some new)" ..
    define ev where "ev = (if new = Missing then Timeout else Fod_alert_event)"
    let ?u = "\<lparr>fu_tool_id = k, fu_previous_status = current_status row, fu_new_status = new\<rparr>"
    obtain d1 where d1: "record_transition op k ev None (current_status row) new
          ''FOD timeout transition'' (utc_now now) d = Inr d1"
        and rest: "fod_rows op now timeout grace rows (acc @ [?u]) d1 = Inr (ups, d')"
      using Cons.prems(1) new
      by (auto simp: x ev_def split: sum.splits if_splits dest!: stmt_InrD)
    have same: "find_tool t d1 = find_tool t d" if "t \<noteq> k" for t
      using that by (rule transition_find_other [OF d1])
    have "\<forall>(t, row)\<in>set rows. find_tool t d1 = Some row"
    proof clarify
      fix t row' assume t: "(t, row') \<in> set rows"
      then have "t \<noteq> k" using k(2) by (auto simp: rev_image_eqI)
      with t same show "find_tool t d1 = Some row'" using Cons.prems(3) by (auto simp: x)
    qed
    note IH = Cons.IH [OF rest k(3) this]
    have "stamp_of k d1 = Some (new, utc_now now)"
      using d1 k(1) by (auto simp: record_transition_eq update_tool_row_def stamp_of_def split: if_splits)
    moreover have "stamp_of t d1 = stamp_of t d" if "t \<noteq> k" for t
      using same [OF that] by (simp add: stamp_of_def)
    ultimately show ?thesis
      using IH none new by (auto simp: x fod_stamp_def split: option.splits)
  qed
qed simp

lemma calm_log_system_event: "calm.stays (log_system_event io clk ev sv tr notes)"
proof -
  have "calm d d'" if "insert_system_event e s tr notes now d = Inr d'" for e s now d d'
    using that by (auto simp: insert_system_event_def calm_def find_tool_def split: if_splits)
  then show ?thesis
    unfolding log_system_event_def Let_def
    by (intro calm.stays_rules calm_catch_sqlite calm_transact)
      (auto split: sum.splits dest: stmt_InrD)
qed

lemma stamp_bootstrap [simp]: "stamp_of t (bootstrap d) = stamp_of t d"
  by (simp add: stamp_of_def)

lemma calm_stamp: "calm d d' \<Longrightarrow> stamp_of t d' = stamp_of t d"
  by (simp add: calm_def stamp_of_def)

text \<open>A row is due when its last change is at least \<open>limit\<close> ago.\<close>

definition due :: "int \<Rightarrow> int \<Rightarrow> tool_row \<Rightarrow> bool" where
  "due now limit row \<longleftrightarrow> (\<exists>seen. parse_utc (last_updated row) = Some seen \<and> seen + limit \<le> now)"

definition fod_spec :: "int \<Rightarrow> int \<Rightarrow> int \<Rightarrow> tool_row \<Rightarrow> tool_status option" where
  "fod_spec now timeout grace row =
     (case current_status row of
        In_slot \<Rightarrow> None
      | Out \<Rightarrow> if due now timeout row then Some Missing else None
      | Staged \<Rightarrow> if due now timeout row then Some Missing else None
      | Missing \<Rightarrow> if due now grace row then Some Fod_alert else None
      | Fod_alert \<Rightarrow> None)"

lemma fod_next_spec: "fod_next now timeout grace row = Inr x \<Longrightarrow> fod_spec now timeout grace row = x"
  by (auto simp: fod_next_def fod_spec_def due_def split: option.splits tool_status.splits if_splits)

lemma fod_rows_parsed:
  "fod_rows op now timeout grace rows acc d = Inr x \<Longrightarrow> (k, row) \<in> set rows \<Longrightarrow>
   \<exists>y. fod_next now timeout grace row = Inr y"
  by (induction rows arbitrary: acc d) (auto split: sum.splits option.splits)

lemma mark_run:
  assumes "mark_checkout_timeouts io op clk timeout grace r = (Inr ups, r')"
  obtains d' where
    "fod_rows op (utc clk) timeout grace (overdue_candidates (rp_db r)) [] (bootstrap (rp_db r))
       = Inr (ups, d')" "calm d' (rp_db r')"
proof -
  let ?logs = "\<lambda>us. for_op (\<lambda>u. log_system_event io clk ''fod_alert'' ''critical'' None
      (fod_alert_notes u)) (filter (\<lambda>u. fu_new_status u = Fod_alert) us)"
  obtain us r1 where t: "transact io (\<lambda>d. fod_rows op (utc clk) timeout grace
        (overdue_candidates d) [] d) r = (Inr us, r1)"
      and rest: "seq_op (?logs us) (ret_op us) r1 = (Inr ups, r')"
    using assms unfolding mark_checkout_timeouts_def by (auto dest!: bind_op_okD)
  have "us = ups" using rest by (auto dest: seq_op_okD)
  have "calm.stays (seq_op (?logs us) (ret_op us))"
    by (intro calm.stays_rules calm_log_system_event)
  then have "calm (rp_db r1) (rp_db r')" using rest by (rule calm.staysD')
  moreover have "overdue_candidates (bootstrap (rp_db r)) = overdue_candidates (rp_db r)"
    by (simp add: overdue_candidates_def)
  ultimately show thesis
    using that [of "rp_db r1"] t \<open>us = ups\<close>
    by (auto simp: transact_def Let_def split: outcome.splits sum.splits)
qed

lemma fod_updates_iff:
  "u \<in> set (concat (map (\<lambda>(t, row). case fod_next now timeout grace row of
        Inr (Some new) \<Rightarrow> [\<lparr>fu_tool_id = t, fu_previous_status = current_status row, fu_new_status = new\<rparr>]
      | _ \<Rightarrow> []) rows)) \<longleftrightarrow>
   (\<exists>t row new. (t, row) \<in> set rows \<and> fod_next now timeout grace row = Inr (Some new)
      \<and> u = \<lparr>fu_tool_id = t, fu_previous_status = current_status row, fu_new_status = new\<rparr>)"
proof -
  have "u \<in> set (case fod_next now timeout grace row of
        Inr (Some new) \<Rightarrow> [\<lparr>fu_tool_id = t, fu_previous_status = current_status row, fu_new_status = new\<rparr>]
      | _ \<Rightarrow> []) \<longleftrightarrow> (\<exists>new. fod_next now timeout grace row = Inr (Some new)
      \<and> u = \<lparr>fu_tool_id = t, fu_previous_status = current_status row, fu_new_status = new\<rparr>)" for t row
    by (auto split: sum.splits option.splits)
  then show ?thesis by (force simp: split_beta)
qed

lemma fod_poll:
  assumes "db_ok (rp_db r)" and "find_tool t (rp_db r) = Some row"
    and "mark_checkout_timeouts io op clk timeout grace r = (Inr ups, r')"
  shows "(case fod_spec (utc clk) timeout grace row of
            None \<Rightarrow> stamp_of t (rp_db r') = stamp_of t (rp_db r) \<and> t \<notin> fu_tool_id ` set ups
          | Some new \<Rightarrow> stamp_of t (rp_db r') = Some (new, utc_now (utc clk))
              \<and> \<lparr>fu_tool_id = t, fu_previous_status = current_status row, fu_new_status = new\<rparr>
                  \<in> set ups)"
proof -
  let ?cands = "overdue_candidates (rp_db r)"
  obtain d' where run: "fod_rows op (utc clk) timeout grace ?cands [] (bootstrap (rp_db r)) = Inr (ups, d')"
      and calm: "calm d' (rp_db r')"
    using assms(3) by (rule mark_run)
  have found: "\<forall>(t, row)\<in>set ?cands. find_tool t (bootstrap (rp_db r)) = Some row"
    using overdue_found [OF assms(1)] by simp
  note eff = fod_rows_effect [OF run overdue_distinct [OF assms(1)] found, of t]
  have ups: "u \<in> set ups \<longleftrightarrow> (\<exists>t row new. (t, row) \<in> set ?cands
      \<and> fod_next (utc clk) timeout grace row = Inr (Some new)
      \<and> u = \<lparr>fu_tool_id = t, fu_previous_status = current_status row, fu_new_status = new\<rparr>)" for u
    using eff fod_updates_iff by simp
  have only: "row' = row" if "(t, row') \<in> set ?cands" for row'
    using that found assms(2) by auto
  have stamp: "stamp_of t (rp_db r') = (case map_of ?cands t of
      None \<Rightarrow> stamp_of t (rp_db r) | Some row \<Rightarrow> Some (fod_stamp (utc clk) timeout grace row))"
    using eff calm_stamp [OF calm, of t] by (simp cong: option.case_cong)
  have in_cands: "(t, row) \<in> set ?cands \<longleftrightarrow> current_status row \<in> {Out, Staged, Missing}"
    using assms(2) by (auto simp: overdue_candidates_def find_tool_def map_of_SomeD)
  show ?thesis
  proof (cases "(t, row) \<in> set ?cands")
    case True
    then have row: "map_of ?cands t = Some row"
      using overdue_distinct [OF assms(1)] by simp
    obtain y where y: "fod_next (utc clk) timeout grace row = Inr y"
      using fod_rows_parsed [OF run True] ..
    show ?thesis
    proof (cases y)
      case None
      then have "t \<notin> fu_tool_id ` set ups" using y only by (auto simp: ups)
      then show ?thesis
        using None y fod_next_spec [OF y] stamp row assms(2) by (simp add: fod_stamp_def stamp_of_def)
    next
      case (Some new)
      then have "\<lparr>fu_tool_id = t, fu_previous_status = current_status row, fu_new_status = new\<rparr> \<in> set ups"
        using y True by (auto simp: ups)
      then show ?thesis
        using Some y fod_next_spec [OF y] stamp row by (simp add: fod_stamp_def)
    qed
  next
    case False
    then have none: "t \<notin> fst ` set ?cands" using only by auto
    then have "t \<notin> fu_tool_id ` set ups" by (force simp: ups)
    moreover have "map_of ?cands t = None" using none by (simp add: map_of_eq_None_iff)
    moreover have "fod_spec (utc clk) timeout grace row = None"
      using False in_cands by (cases "current_status row") (auto simp: fod_spec_def)
    ultimately show ?thesis using stamp by simp
  qed
qed

text \<open>
  C35: A successful poll of the FOD monitor moves exactly the tools that are due: out and staged
  ones at least \<open>timeout\<close> after their last change to missing, missing ones at least \<open>grace\<close>
  after it to fod_alert, each stamped with the time of the poll and reported; every other tool
  keeps status and stamp and is not reported. This holds whether or not the alerts could also
  be written to the system log.
\<close>
theorem fod_poll_effect:
  assumes "db_ok (rp_db r)" and "find_tool t (rp_db r) = Some row"
    and "mark_checkout_timeouts io op clk timeout grace r = (Inr ups, r')"
  shows "(case fod_spec (utc clk) timeout grace row of
            None \<Rightarrow> stamp_of t (rp_db r') = stamp_of t (rp_db r) \<and> t \<notin> fu_tool_id ` set ups
          | Some new \<Rightarrow> stamp_of t (rp_db r') = Some (new, utc_now (utc clk))
              \<and> \<lparr>fu_tool_id = t, fu_previous_status = current_status row, fu_new_status = new\<rparr>
                  \<in> set ups)"
  using assms by (rule fod_poll)

definition poll :: "io \<Rightarrow> int \<Rightarrow> repository \<Rightarrow> repository" where
  "poll io now r = snd (mark_checkout_timeouts io DEFAULT_OPERATOR_ID (clock_at now) 600 30 r)"

lemma sample_find: "find_tool ''hex'' (sample_db st t) = Some (sample_tool st t)"
  by (simp add: sample_db_def find_tool_def)

lemma fresh_repo_db [simp]: "rp_db (fresh_repo d) = d"
  by (simp add: fresh_repo_def)

theorem fod_poll_effect_witness:
  "stamp_of ''hex'' (rp_db (poll working 700 (fresh_repo (sample_db Staged (utc_now 0)))))
     = Some (Missing, utc_now 700)"
proof -
  let ?r = "fresh_repo (sample_db Staged (utc_now 0))"
  let ?call = "mark_checkout_timeouts working DEFAULT_OPERATOR_ID (clock_at 700) 600 30 ?r"
  have "is_ok (fst ?call)" by code_simp
  then obtain ups where ups: "?call = (Inr ups, snd ?call)"
    by (cases ?call) (auto simp: is_ok_iff)
  have "fod_spec 700 600 30 (sample_tool Staged (utc_now 0)) = Some Missing"
    by (simp add: fod_spec_def sample_tool_def due_def)
  then show ?thesis
    using fod_poll_effect [OF _ _ ups, of "''hex''" "sample_tool Staged (utc_now 0)"]
    by (simp add: sample_db_ok sample_find poll_def clock_at_def)
qed

lemma log_alert:
  "\<exists>e u. log_system_event working clk ''fod_alert'' ''critical'' None alert_text r = (Inr u, e)
    \<and> db_tools (rp_db e) = db_tools (rp_db r)
    \<and> (\<exists>ev. db_system_events (rp_db e) = db_system_events (rp_db r) @ [ev]
        \<and> se_event_type ev = ''fod_alert'' \<and> se_severity ev = ''critical'' \<and> se_notes ev = alert_text)"
proof -
  have strip: "py_strip ''fod_alert'' = ''fod_alert''" "py_strip ''critical'' = ''critical''"
    by code_simp+
  show ?thesis
    by (simp add: log_system_event_def strip VALID_SYSTEM_EVENT_TYPES_def VALID_SEVERITIES_def
        catch_sqlite_def catch_op_def transact_def working_def stmt_def insert_system_event_def)
qed

lemma log_alerts:
  assumes "for_op (\<lambda>u. log_system_event working clk ''fod_alert'' ''critical'' None (fod_alert_notes u))
      us r = (x, r')"
  shows "x = Inr () \<and> (\<exists>ext. db_system_events (rp_db r') = db_system_events (rp_db r) @ ext
    \<and> map se_notes ext = map fod_alert_notes us
    \<and> list_all (\<lambda>e. se_event_type e = ''fod_alert'' \<and> se_severity e = ''critical'') ext)"
  using assms
proof (induction us arbitrary: r)
  case (Cons u us)
  obtain v r1 ev where log: "log_system_event working clk ''fod_alert'' ''critical'' None
        (fod_alert_notes u) r = (Inr v, r1)"
      and ev: "db_system_events (rp_db r1) = db_system_events (rp_db r) @ [ev]"
        "se_event_type ev = ''fod_alert''" "se_severity ev = ''critical''"
        "se_notes ev = fod_alert_notes u"
    using log_alert [of clk "fod_alert_notes u" r] by blast
  have "for_op (\<lambda>u. log_system_event working clk ''fod_alert'' ''critical'' None (fod_alert_notes u))
      us r1 = (x, r')"
    using Cons.prems log by (simp add: seq_op_Inr)
  from Cons.IH [OF this] ev show ?case by auto
qed simp

text \<open>
  A tool left out or staged is raised to an FOD alert: a poll at or after its timeout makes
  it missing, and the next poll at least \<open>grace\<close> later makes it fod_alert, reports it and, with a
  working database, writes a critical event naming the tool to the system log.
\<close>
theorem fod_alert_is_raised:
  assumes "db_ok (rp_db r)" and "find_tool t (rp_db r) = Some row"
    and "current_status row \<in> {Out, Staged}" and "due (utc c1) timeout row"
    and "mark_checkout_timeouts io op c1 timeout grace r = (Inr u1, r1)"
    and "utc c1 + grace \<le> utc c2"
    and "mark_checkout_timeouts working op c2 timeout grace r1 = (Inr u2, r2)"
  shows "status_of_tool t (rp_db r1) = Some Missing \<and> status_of_tool t (rp_db r2) = Some Fod_alert
    \<and> (\<exists>e\<in>set (db_system_events (rp_db r2)). se_event_type e = ''fod_alert''
        \<and> se_severity e = ''critical''
        \<and> se_notes e = ''FOD alert: '' @ t @ '' missing -> fod_alert'')"
proof -
  have st: "stamp_of k d = Some (s, x) \<Longrightarrow> status_of_tool k d = Some s" for k d s x
    by (auto simp: stamp_of_def status_of_tool_def)
  have "fod_spec (utc c1) timeout grace row = Some Missing"
    using assms(3,4) by (auto simp: fod_spec_def)
  then have one: "stamp_of t (rp_db r1) = Some (Missing, utc_now (utc c1))"
    using fod_poll [OF assms(1,2,5)] by simp
  then obtain row1 where row1: "find_tool t (rp_db r1) = Some row1"
      "current_status row1 = Missing" "last_updated row1 = utc_now (utc c1)"
    by (auto simp: stamp_of_def)
  have ok1: "db_ok (rp_db r1)"
    using grown_mark [THEN repo.staysD', OF assms(5)] assms(1) by (simp add: grown_def)
  have "fod_spec (utc c2) timeout grace row1 = Some Fod_alert"
    using row1 assms(6) by (simp add: fod_spec_def due_def)
  then have two: "stamp_of t (rp_db r2) = Some (Fod_alert, utc_now (utc c2))"
      "\<lparr>fu_tool_id = t, fu_previous_status = Missing, fu_new_status = Fod_alert\<rparr> \<in> set u2"
    using fod_poll [OF ok1 row1(1) assms(7)] row1(2) by simp_all
  obtain s where s: "for_op (\<lambda>u. log_system_event working c2 ''fod_alert'' ''critical'' None
        (fod_alert_notes u)) (filter (\<lambda>u. fu_new_status u = Fod_alert) u2) s = (Inr (), r2)"
    using assms(7) unfolding mark_checkout_timeouts_def by (auto dest!: bind_op_okD seq_op_okD)
  obtain ext where ext: "db_system_events (rp_db r2) = db_system_events (rp_db s) @ ext"
      "map se_notes ext = map fod_alert_notes (filter (\<lambda>u. fu_new_status u = Fod_alert) u2)"
      "list_all (\<lambda>e. se_event_type e = ''fod_alert'' \<and> se_severity e = ''critical'') ext"
    using log_alerts [OF s] by blast
  have "fod_alert_notes \<lparr>fu_tool_id = t, fu_previous_status = Missing, fu_new_status = Fod_alert\<rparr>
      \<in> set (map se_notes ext)"
    unfolding ext(2) using two(2) by force
  then have "''FOD alert: '' @ t @ '' missing -> fod_alert'' \<in> se_notes ` set ext"
    by (simp add: fod_alert_notes_def)
  then obtain e where "e \<in> set ext" "se_notes e = ''FOD alert: '' @ t @ '' missing -> fod_alert''"
    by force
  with ext st [OF one] st [OF two(1)] show ?thesis
    by (auto simp: list_all_iff)
qed

theorem fod_alert_is_raised_witness:
  "status_of_tool ''hex'' (rp_db (poll working 740 (poll working 700
     (fresh_repo (sample_db Out (utc_now 0)))))) = Some Fod_alert"
proof -
  let ?r = "fresh_repo (sample_db Out (utc_now 0))"
  let ?c1 = "mark_checkout_timeouts working DEFAULT_OPERATOR_ID (clock_at 700) 600 30 ?r"
  let ?c2 = "mark_checkout_timeouts working DEFAULT_OPERATOR_ID (clock_at 740) 600 30 (snd ?c1)"
  have "is_ok (fst ?c1)" "is_ok (fst ?c2)" by code_simp+
  then obtain u1 u2 where u: "?c1 = (Inr u1, snd ?c1)" "?c2 = (Inr u2, snd ?c2)"
    by (cases ?c1, cases ?c2) (auto simp: is_ok_iff)
  show ?thesis
    using fod_alert_is_raised [OF _ _ _ _ u(1) _ u(2), of "''hex''" "sample_tool Out (utc_now 0)"]
    by (simp add: sample_db_ok sample_find poll_def clock_at_def sample_tool_def due_def)
qed

section \<open>Gaps in the audit rules\<close>

text \<open>Refused reads, except that the first transaction of a process works.\<close>

definition second_fails :: io where
  "second_fails k = (if k = 1 then SqliteFails ''database is locked'' else Works)"

text \<open>
  One process asks the gate about a tool in its slot; a second one then fetches it; the first,
  whose next read fails but whose write works, refuses a return and logs why.
\<close>
definition stale_run :: database where
  "stale_run =
     (let r = fresh_repo (sample_db In_slot (utc_now 0));
          a = snd (check_feasibility second_fails DEFAULT_OPERATOR_ID (clock_at 1) ''fetch'' ''hex'' r);
          b = snd (update_tool_status working DEFAULT_OPERATOR_ID (clock_at 2)
                ''hex'' ''out'' ''fetch'' ''A'' '''' (fresh_repo (rp_db a)));
          c = snd (check_feasibility second_fails DEFAULT_OPERATOR_ID (clock_at 3) ''return'' ''hex''
                (a\<lparr>rp_db := rp_db b\<rparr>))
      in rp_db c)"

definition after_update :: "string \<Rightarrow> string \<Rightarrow> string \<Rightarrow> tool_status \<Rightarrow> database" where
  "after_update new ev text st =
     rp_db (snd (update_tool_status working DEFAULT_OPERATOR_ID (clock_at 590) ''hex'' new ev ''A'' text
       (fresh_repo (sample_db st (utc_now 0)))))"

text \<open>
  Three gaps. A rejection decided on a stale cache entry enters the log with a status the
  tool did not have (in_slot, while the database says out). An \<open>error\<close> event without a status
  change restarts the FOD clock, so a tool overdue at 700 is not. And a \<open>reconciled\<close> event lets
  track A itself set fod_alert, which is reserved to the FOD monitor.
\<close>
theorem audit_gaps:
  "status_of_tool ''hex'' stale_run = Some Out
   \<and> map (\<lambda>e. (te_event_type e, te_status_before e, te_status_after e)) (db_tool_events stale_run)
     = [(Fetch, Some In_slot, Out), (Rejected, Some In_slot, In_slot)]
   \<and> status_of_tool ''hex'' (rp_db (poll working 700 (fresh_repo (sample_db Staged (utc_now 0)))))
     = Some Missing
   \<and> status_of_tool ''hex'' (rp_db (poll working 700
       (fresh_repo (after_update ''staged'' ''error'' '''' Staged)))) = Some Staged
   \<and> status_of_tool ''hex'' (after_update ''fod_alert'' ''reconciled'' ''x'' In_slot) = Some Fod_alert"
  by (intro conjI; code_simp)

end
