(* ===== verification/DbServices.thy ===== *)
theory DbServices imports DbProps begin

text \<open>
  The processes around the repository: the ROS services of \<open>db_service_node.py\<close>, the polling of
  \<open>fod_monitor_node.py\<close>, the manual voice simulator of \<open>intent_status_simulator_node.py\<close>, and
  Track C's in-process adapter \<open>db_core/client.py\<close>. ROS transport is left out: a service call is
  the call of its handler.
\<close>

section \<open>The database services\<close>

record update_request_msg =
  ur_tool_id :: string
  ur_new_status :: string
  ur_event_type :: string
  ur_track :: string
  ur_notes :: string

record log_event_msg =
  le_tool_id :: string
  le_event_type :: string
  le_track :: string
  le_notes :: string

definition handle_check_tool_feasibility ::
  "io \<Rightarrow> string \<Rightarrow> clock \<Rightarrow> string \<Rightarrow> string \<Rightarrow> feasibility_result repo_op" where
  "handle_check_tool_feasibility io op clk intent tool_id =
     bind_op (check_feasibility io op clk intent tool_id) (\<lambda>result.
     ret_op \<lparr>feasible = feasible result, reason = reason result\<rparr>)"

definition handle_update_tool_status ::
  "io \<Rightarrow> string \<Rightarrow> clock \<Rightarrow> update_request_msg \<Rightarrow> update_result repo_op" where
  "handle_update_tool_status io op clk q =
     bind_op (update_tool_status io op clk (ur_tool_id q) (ur_new_status q) (ur_event_type q)
               (ur_track q) (ur_notes q)) (\<lambda>result.
     ret_op \<lparr>success = success result, message = message result\<rparr>)"

definition handle_log_event :: "io \<Rightarrow> string \<Rightarrow> clock \<Rightarrow> log_event_msg \<Rightarrow> update_result repo_op" where
  "handle_log_event io op clk q =
     (if le_event_type q \<noteq> ''rejected''
      then ret_op (upd False (''unsupported event_type: '' @ le_event_type q))
      else bind_op
        (log_rejection io op clk (le_tool_id q) (le_notes q)
           (if le_track q = [] then None else Some (le_track q)))
        (\<lambda>result. ret_op \<lparr>success = success result, message = message result\<rparr>))"

section \<open>The FOD monitor node\<close>

text \<open>\<open>_poll\<close>: any exception is logged, and the next poll tries again.\<close>

definition fod_node_poll :: "io \<Rightarrow> string \<Rightarrow> clock \<Rightarrow> int \<Rightarrow> int \<Rightarrow> fod_update list repo_op" where
  "fod_node_poll io op clk timeout grace =
     catch_op (mark_checkout_timeouts io op clk timeout grace) (\<lambda>exc. ret_op [])"

section \<open>The voice simulator\<close>

record intent_msg =
  im_intent_type :: string
  im_tool_id :: string
  im_raw_utterance :: string

definition simulated_status_for_intent :: "string \<Rightarrow> (string \<times> string) option" where
  "simulated_status_for_intent intent_type =
     (if intent_type = ''fetch'' then Some (''out'', ''fetch'')
      else if intent_type = ''return'' then Some (''in_slot'', ''return'')
      else None)"

text \<open>What \<open>_handle_intent\<close> sends to the gate, with the status it will ask for afterwards.\<close>

definition simulator_intent :: "bool \<Rightarrow> intent_msg \<Rightarrow> (string \<times> string \<times> string) option" where
  "simulator_intent service_up m =
     (let tool_id = py_strip (im_tool_id m) in
      case simulated_status_for_intent (im_intent_type m) of
        None \<Rightarrow> None
      | Some (new_status, ev) \<Rightarrow>
          if tool_id = [] then None
          else if \<not> service_up then None
          else Some (im_intent_type m, tool_id, new_status))"

text \<open>What \<open>_handle_feasibility\<close> sends to the update service; \<open>Inl\<close> is an exception of the future.\<close>

definition simulator_feasibility ::
  "bool \<Rightarrow> string \<Rightarrow> (string, feasibility_result) result \<Rightarrow> intent_msg \<Rightarrow> string \<Rightarrow>
   update_request_msg option" where
  "simulator_feasibility service_up trk answer m new_status =
     (case answer of
        Inl exc \<Rightarrow> None
      | Inr response \<Rightarrow>
          if \<not> feasible response then None
          else if \<not> service_up then None
          else Some \<lparr>ur_tool_id = py_strip (im_tool_id m), ur_new_status = new_status,
                     ur_event_type = im_intent_type m, ur_track = trk,
                     ur_notes = (if im_raw_utterance m = [] then ''manual voice intent simulation''
                                 else ''manual voice intent simulation: '' @ im_raw_utterance m)\<rparr>)"

text \<open>An intent from the topic to the database, with both services up.\<close>

definition simulate_intent ::
  "io \<Rightarrow> string \<Rightarrow> clock \<Rightarrow> string \<Rightarrow> intent_msg \<Rightarrow> update_result option repo_op" where
  "simulate_intent io op clk trk m =
     (case simulator_intent True m of
        None \<Rightarrow> ret_op None
      | Some (intent, tool_id, new_status) \<Rightarrow>
          bind_op (handle_check_tool_feasibility io op clk intent tool_id) (\<lambda>response.
          case simulator_feasibility True trk (Inr response) m new_status of
            None \<Rightarrow> ret_op None
          | Some q \<Rightarrow> bind_op (handle_update_tool_status io op clk q) (\<lambda>u. ret_op (Some u))))"

section \<open>Track C's adapter\<close>

datatype client_error =
    DBError string
  | DBCacheExpiredError real
  | SqliteRaised string

record db_client =
  dc_connected :: bool
  dc_repo :: repository
  dc_cache :: "string \<rightharpoonup> tool_row"
  dc_cache_loaded_at :: real

type_synonym 'a client_op = "(db_client, client_error, 'a) op"

definition client_new :: "database \<Rightarrow> db_client" where
  "client_new d =
     \<lparr>dc_connected = False,
      dc_repo = \<lparr>rp_db = d, rp_status_cache = Map.empty, rp_transactions = 0\<rparr>,
      dc_cache = Map.empty, dc_cache_loaded_at = 0\<rparr>"

text \<open>The auxiliary connection answers or fails as \<open>q\<close> says.\<close>

definition client_connect :: "outcome \<Rightarrow> unit client_op" where
  "client_connect q c =
     (case q of
        Works \<Rightarrow> (Inr (), c\<lparr>dc_connected := True,
                  dc_repo := (dc_repo c)\<lparr>rp_db := bootstrap (rp_db (dc_repo c))\<rparr>\<rparr>)
      | SchemaFails m \<Rightarrow> (Inl (SqliteRaised m), c\<lparr>dc_connected := True\<rparr>)
      | SqliteFails m \<Rightarrow> (Inl (SqliteRaised m), c\<lparr>dc_connected := True\<rparr>))"

definition client_disconnect :: "unit client_op" where
  "client_disconnect = modify_op (\<lambda>c. c\<lparr>dc_connected := False\<rparr>)"

definition CLIENT_CACHE_TTL_SECONDS :: real where
  "CLIENT_CACHE_TTL_SECONDS = 300"

definition cache_fallback :: "clock \<Rightarrow> string \<Rightarrow> tool_row client_op" where
  "cache_fallback clk tool_id c =
     (let elapsed = mono clk - dc_cache_loaded_at c in
      if elapsed > CLIENT_CACHE_TTL_SECONDS then (Inl (DBCacheExpiredError elapsed), c)
      else case dc_cache c tool_id of
        None \<Rightarrow> (Inl (DBError (''no cache entry for tool_id='' @ tool_id)), c)
      | Some row \<Rightarrow> (Inr row, c))"

definition get_tool_status :: "outcome \<Rightarrow> clock \<Rightarrow> string \<Rightarrow> tool_row client_op" where
  "get_tool_status q clk tool_id c =
     (if \<not> dc_connected c
      then (Inl (DBError ''DBClient not connected - call connect() first''), c)
      else case q of
        Works \<Rightarrow>
          (case find_tool tool_id (rp_db (dc_repo c)) of
             None \<Rightarrow> (Inl (DBError (''tool_id not found: '' @ tool_id)), c)
           | Some row \<Rightarrow>
               (Inr row, c\<lparr>dc_cache := (dc_cache c)(tool_id \<mapsto> row), dc_cache_loaded_at := mono clk\<rparr>))
      | SchemaFails m \<Rightarrow> cache_fallback clk tool_id c
      | SqliteFails m \<Rightarrow> cache_fallback clk tool_id c)"

text \<open>A call of the repository whose own exceptions none of these methods lets through.\<close>

definition on_repo :: "'a repo_op \<Rightarrow> 'a client_op" where
  "on_repo m c =
     (case m (dc_repo c) of
        (Inl e, r) \<Rightarrow> (Inl (SqliteRaised (exc_text e)), c\<lparr>dc_repo := r\<rparr>)
      | (Inr a, r) \<Rightarrow> (Inr a, c\<lparr>dc_repo := r\<rparr>))"

definition client_check_drawer :: "io \<Rightarrow> string \<Rightarrow> int \<Rightarrow> (bool \<times> string) client_op" where
  "client_check_drawer io intent layer_id =
     bind_op (on_repo (check_drawer_feasibility io intent layer_id)) (\<lambda>result.
     ret_op (if feasible result then (True, []) else (False, reason result)))"

definition client_update_drawer :: "io \<Rightarrow> clock \<Rightarrow> int \<Rightarrow> string \<Rightarrow> unit client_op" where
  "client_update_drawer io clk layer_id intent =
     bind_op (on_repo (update_drawer_state io clk layer_id intent)) (\<lambda>result.
     if \<not> success result then fail_op (DBError (message result)) else ret_op ())"

definition client_check_feasibility ::
  "io \<Rightarrow> clock \<Rightarrow> string \<Rightarrow> string \<Rightarrow> (bool \<times> string) client_op" where
  "client_check_feasibility io clk intent tool_id =
     bind_op (on_repo (check_feasibility io DEFAULT_OPERATOR_ID clk intent tool_id)) (\<lambda>result.
     ret_op (if feasible result then (True, []) else (False, reason result)))"

definition client_log_event ::
  "io \<Rightarrow> outcome \<Rightarrow> clock \<Rightarrow> string \<Rightarrow> string \<Rightarrow> string \<Rightarrow> string \<Rightarrow> string \<Rightarrow> nat client_op" where
  "client_log_event io q clk tool_id ev trk status_after event_notes =
     bind_op (gets_op dc_connected) (\<lambda>up.
     if \<not> up then fail_op (DBError ''DBClient not connected - call connect() first'')
     else bind_op (on_repo (update_tool_status io DEFAULT_OPERATOR_ID clk tool_id status_after ev trk
                              event_notes)) (\<lambda>result.
     if \<not> success result then fail_op (DBError (message result))
     else bind_op (gets_op (\<lambda>c. find_tool tool_id (rp_db (dc_repo c)))) (\<lambda>row.
     case q of
       SchemaFails m \<Rightarrow> fail_op (SqliteRaised m)
     | SqliteFails m \<Rightarrow> fail_op (SqliteRaised m)
     | Works \<Rightarrow>
         (case row of
            None \<Rightarrow> fail_op (DBError (''event committed but last_event_id missing for '' @ tool_id))
          | Some row \<Rightarrow>
              (case last_event_id row of
                 None \<Rightarrow> fail_op (DBError (''event committed but last_event_id missing for '' @ tool_id))
               | Some i \<Rightarrow> ret_op i)))))"

definition client_log_system_event ::
  "io \<Rightarrow> clock \<Rightarrow> string \<Rightarrow> string \<Rightarrow> string option \<Rightarrow> string \<Rightarrow> unit client_op" where
  "client_log_system_event io clk ev severity tr event_notes =
     bind_op (on_repo (log_system_event io clk ev severity tr event_notes)) (\<lambda>result.
     if \<not> success result then fail_op (DBError (message result)) else ret_op ())"

section \<open>Properties\<close>

text \<open>
  The log service is no way to forge events: whatever the request, every tool keeps its
  status and the time of its last change and only \<open>rejected\<close> events are added; a request of any
  other type is refused and leaves the database alone.
\<close>
theorem log_service_only_rejects:
  "calm (rp_db r) (rp_db (snd (handle_log_event io op clk q r)))
   \<and> (le_event_type q = ''rejected'' \<or> snd (handle_log_event io op clk q r) = r
        \<and> (\<exists>u. fst (handle_log_event io op clk q r) = Inr u \<and> \<not> success u))"
proof -
  have "calm.stays (handle_log_event io op clk q)"
    unfolding handle_log_event_def by (intro calm.stays_rules calm_log_rejection)
  from calm.staysD [OF this] show ?thesis
    by (cases "le_event_type q = ''rejected''") (simp_all add: handle_log_event_def)
qed

lemma fod_rows_bad:
  "(t, row) \<in> set rows \<Longrightarrow> parse_utc (last_updated row) = None \<Longrightarrow>
   \<exists>e. fod_rows op now timeout grace rows acc d = Inl e"
proof (induction rows arbitrary: acc d)
  case (Cons x rows)
  obtain k row' where x: "x = (k, row')" by (cases x)
  show ?case
  proof (cases "x = (t, row)")
    case True
    then show ?thesis using Cons.prems(2) by (simp add: fod_next_def)
  next
    case False
    then have "(t, row) \<in> set rows" using Cons.prems(1) by auto
    note IH = Cons.IH [OF this Cons.prems(2)]
    show ?thesis
      using IH by (auto simp: x split: sum.splits option.splits)
  qed
qed simp

text \<open>
  One stored time that \<open>datetime.fromisoformat\<close> rejects, on any tool that is out, staged or
  missing, stops the whole FOD monitor: every poll leaves all tools as they are and raises no
  alert, however overdue the other tools are.
\<close>
theorem bad_timestamp_blocks_fod:
  assumes "find_tool t (rp_db r) = Some row" and "current_status row \<in> {Out, Staged, Missing}"
    and "parse_utc (last_updated row) = None"
  shows "fst (fod_node_poll io op clk timeout grace r) = Inr []
    \<and> db_tools (rp_db (snd (fod_node_poll io op clk timeout grace r))) = db_tools (rp_db r)"
proof -
  have "(t, row) \<in> set (overdue_candidates (bootstrap (rp_db r)))"
    using assms(1,2) by (auto simp: overdue_candidates_def find_tool_def dest: map_of_SomeD)
  from fod_rows_bad [OF this assms(3)]
  obtain e where "fod_rows op (utc clk) timeout grace (overdue_candidates (bootstrap (rp_db r))) []
      (bootstrap (rp_db r)) = Inl e"
    by blast
  then show ?thesis
    by (auto simp: fod_node_poll_def catch_op_def mark_checkout_timeouts_def bind_op_def
        transact_def Let_def split: outcome.splits)
qed

theorem bad_timestamp_blocks_fod_witness:
  "fst (fod_node_poll working DEFAULT_OPERATOR_ID (clock_at 9000) 600 30
     (fresh_repo (sample_db Out (BadText ''2026-01-01T00:00:00.000Z'')))) = Inr []"
  by (rule bad_timestamp_blocks_fod [THEN conjunct1, of "''hex''" _
        "sample_tool Out (BadText ''2026-01-01T00:00:00.000Z'')"])
    (simp_all add: sample_find sample_tool_def)

lemma gate_result:
  "\<exists>res r'. check_feasibility io op clk i t r = (Inr res, r') \<and> calm (rp_db r) (rp_db r')
    \<and> (feasible res \<longleftrightarrow> py_strip t \<noteq> []
        \<and> (\<exists>st. gate_view io clk (py_strip t) r = Some st \<and> gate_allows (py_strip i) st))"
  using gate_answer [of io op clk i t r] calm.staysD' [OF calm_check_feasibility] by blast

text \<open>
  The voice simulator can never complete a return: after the gate approved a staged tool, the
  update it asks for (staged to in_slot in one step) breaks the two-step rule and is refused,
  so no intent of type \<open>return\<close> changes the status of any tool.
\<close>
theorem simulator_return_refused:
  assumes "im_intent_type m = ''return''"
  shows "\<exists>x r'. simulate_intent working DEFAULT_OPERATOR_ID clk trk m r = (Inr x, r')
    \<and> repo_status r' = repo_status r \<and> (\<forall>u. x = Some u \<longrightarrow> \<not> success u)"
proof (cases "py_strip (im_tool_id m) = []")
  case True
  then show ?thesis using assms
    by (simp add: simulate_intent_def simulator_intent_def simulated_status_for_intent_def)
next
  case False
  let ?t = "py_strip (im_tool_id m)"
  obtain res r1 where gate: "check_feasibility working DEFAULT_OPERATOR_ID clk ''return'' ?t r = (Inr res, r1)"
      and calm1: "calm (rp_db r) (rp_db r1)"
      and iff: "feasible res \<longleftrightarrow> (\<exists>st. gate_view working clk ?t r = Some st \<and> gate_allows ''return'' st)"
    using gate_result [of working DEFAULT_OPERATOR_ID clk "''return''" ?t r] False strip_intents
    by auto
  have st1: "repo_status r1 = repo_status r"
    using calm_status [OF calm1] by (simp add: repo_status_def fun_eq_iff)
  show ?thesis
  proof (cases "feasible res")
    case False
    then show ?thesis using gate assms st1 \<open>?t \<noteq> []\<close>
      by (simp add: simulate_intent_def simulator_intent_def simulated_status_for_intent_def
          handle_check_tool_feasibility_def simulator_feasibility_def bind_op_def)
  next
    case True
    then have staged: "repo_status r ?t = Some Staged"
      using iff by (auto simp: gate_view_def working_def repo_status_def)
    define why where "why = (if im_raw_utterance m = [] then ''manual voice intent simulation''
        else ''manual voice intent simulation: '' @ im_raw_utterance m)"
    obtain u r2 where upd: "update_tool_status working DEFAULT_OPERATOR_ID clk ?t ''in_slot'' ''return''
          trk why r1 = (Inr u, r2)"
        "\<not> success u" "repo_status r2 = repo_status r1"
    proof (cases "update_request ?t ''in_slot'' ''return'' trk")
      case None
      then obtain m' where "update_tool_status working DEFAULT_OPERATOR_ID clk ?t ''in_slot''
          ''return'' trk why r1 = (Inr (upd False m'), r1)"
        using update_refused by blast
      then show ?thesis using that by simp
    next
      case (Some q)
      have names: "parse_status (py_strip ''in_slot'') = Some In_slot"
          "parse_event_type (py_strip ''return'') = Some Return"
        by code_simp+
      obtain k where q: "q = (?t, In_slot, Return, k)"
        using Some False by (auto simp: update_request_def names split: option.splits if_splits)
      have "status_of_tool ?t (rp_db r1) = Some Staged"
        using staged st1 by (metis repo_status_def)
      then show ?thesis
        using that update_eq [OF Some [unfolded q], of working DEFAULT_OPERATOR_ID clk why r1]
        by (auto simp: working_def Let_def repo_status_def fun_eq_iff)
    qed
    then show ?thesis using gate assms st1 True \<open>?t \<noteq> []\<close>
      by (simp add: simulate_intent_def simulator_intent_def simulated_status_for_intent_def
          handle_check_tool_feasibility_def simulator_feasibility_def handle_update_tool_status_def
          bind_op_def why_def)
  qed
qed

definition return_msg :: intent_msg where
  "return_msg = \<lparr>im_intent_type = ''return'', im_tool_id = ''hex'', im_raw_utterance = []\<rparr>"

theorem simulator_return_refused_witness:
  "repo_status (snd (simulate_intent working DEFAULT_OPERATOR_ID (clock_at 1) ''A'' return_msg
     (fresh_repo (sample_db Staged (utc_now 0))))) ''hex'' = Some Staged"
proof -
  have "repo_status (fresh_repo (sample_db Staged (utc_now 0))) ''hex'' = Some Staged"
    by (simp add: repo_status_def status_of_tool_def sample_find sample_tool_def)
  then show ?thesis
    using simulator_return_refused [of return_msg "clock_at 1" "''A''"
        "fresh_repo (sample_db Staged (utc_now 0))"]
    by (auto simp: return_msg_def)
qed

lemma on_repo_Inr:
  "on_repo m c = (Inr a, c') \<Longrightarrow> m (dc_repo c) = (Inr a, dc_repo c')"
  by (auto simp: on_repo_def split: prod.splits sum.splits)

lemma update_success_event:
  assumes "update_tool_status io op clk t n e tr event_notes r = (Inr u, r')" and "success u"
  shows "\<exists>ev. db_tool_events (rp_db r') = db_tool_events (rp_db r) @ [ev]
    \<and> te_tool_id ev = py_strip t \<and> te_id ev = db_next_event (rp_db r)
    \<and> map_option last_event_id (find_tool (py_strip t) (rp_db r')) = Some (Some (te_id ev))
    \<and> (\<forall>k. k \<noteq> py_strip t \<longrightarrow> find_tool k (rp_db r') = find_tool k (rp_db r))
    \<and> parse_status (py_strip n) = Some (te_status_after ev)"
proof (cases "update_request t n e tr")
  case None
  then show ?thesis using assms update_refused [OF None, of io op clk event_notes r] by auto
next
  case (Some q)
  obtain t' new ev trk where q: "q = (t', new, ev, trk)" by (cases q) auto
  have t': "t' = py_strip t" "parse_status (py_strip n) = Some new"
    using Some by (auto simp: q update_request_def split: option.splits if_splits)
  show ?thesis
    using assms update_eq [OF Some [unfolded q], of io op clk event_notes r] t'
    by (auto simp: Let_def update_tool_row_def status_of_tool_def
        split: outcome.splits option.splits if_splits)
qed

text \<open>
  When Track C's \<open>log_event\<close> returns an id, exactly one event was appended, it is that id,
  it belongs to the tool and ends in the requested status, and the shared rules S-8 and S-9 were
  applied by the repository, since the call went through \<open>update_tool_status\<close>.
\<close>
theorem client_log_event_id:
  assumes "id_ok t" and "client_log_event io q clk t ev trk st event_notes c = (Inr i, c')"
  shows "\<exists>e. db_tool_events (rp_db (dc_repo c')) = db_tool_events (rp_db (dc_repo c)) @ [e]
    \<and> te_id e = i \<and> te_tool_id e = t \<and> parse_status (py_strip st) = Some (te_status_after e)"
proof -
  obtain u c1 where run: "on_repo (update_tool_status io DEFAULT_OPERATOR_ID clk t st ev trk event_notes) c
        = (Inr u, c1)" and ok: "success u"
      and rest: "\<exists>row. find_tool t (rp_db (dc_repo c1)) = Some row \<and> last_event_id row = Some i" "c' = c1"
    using assms(2)
    by (auto simp: client_log_event_def bind_op_def [of "gets_op _"] split: if_splits
        dest!: bind_op_okD) (auto split: if_splits outcome.splits option.splits)
  obtain e where e: "db_tool_events (rp_db (dc_repo c1)) = db_tool_events (rp_db (dc_repo c)) @ [e]"
      "te_tool_id e = py_strip t"
      "map_option last_event_id (find_tool (py_strip t) (rp_db (dc_repo c1))) = Some (Some (te_id e))"
      "parse_status (py_strip st) = Some (te_status_after e)"
    using update_success_event [OF on_repo_Inr [OF run] ok] by blast
  show ?thesis using e rest assms(1) by (auto simp: id_ok_def)
qed

theorem client_log_event_id_witness:
  "\<exists>e. db_tool_events (rp_db (dc_repo (snd (client_log_event working Works (clock_at 4) ''hex'' ''fetch''
        ''C'' ''out'' [] (snd (client_connect Works (client_new (sample_db In_slot (utc_now 0)))))))))
     = [e] \<and> te_id e = 1"
proof -
  let ?c = "snd (client_connect Works (client_new (sample_db In_slot (utc_now 0))))"
  let ?call = "client_log_event working Works (clock_at 4) ''hex'' ''fetch'' ''C'' ''out'' [] ?c"
  have id: "id_ok ''hex''" and res: "fst ?call = Inr 1"
      and none: "db_tool_events (rp_db (dc_repo ?c)) = []"
    by code_simp+
  have "?call = (Inr 1, snd ?call)" using res by (metis prod.collapse)
  from client_log_event_id [OF id this] show ?thesis by (auto simp: none)
qed

definition two_tools :: database where
  "two_tools = (sample_db In_slot (utc_now 0))\<lparr>db_tools :=
     [(''hex'', sample_tool In_slot (utc_now 0)), (''torx'', sample_tool In_slot (utc_now 0))]\<rparr>"

definition seconds :: "real \<Rightarrow> clock" where
  "seconds s = \<lparr>utc = 0, mono = s\<rparr>"

definition stale_client :: db_client where
  "stale_client =
     (let c0 = snd (client_connect Works (client_new two_tools));
          c1 = snd (get_tool_status Works (seconds 0) ''hex'' c0);
          c2 = c1\<lparr>dc_repo := (dc_repo c1)\<lparr>rp_db := set_tool ''hex''
                 (\<lambda>row. row\<lparr>current_status := Out\<rparr>) (rp_db (dc_repo c1))\<rparr>\<rparr>
      in snd (get_tool_status Works (seconds 299) ''torx'' c2))"

text \<open>
  Two gaps of Track C's adapter. The age check of its status cache uses the time of the last
  read of any tool, so an entry read at 0 s is served at 500 s although the limit is 300 s. And
  \<open>log_event\<close> with a padded tool id commits the transition and then raises \<open>DBError\<close>.
\<close>
theorem client_gaps:
  "map_option current_status (find_tool ''hex'' (rp_db (dc_repo stale_client))) = Some Out
   \<and> (case fst (get_tool_status (SqliteFails ''locked'') (seconds 500) ''hex'' stale_client) of
        Inl e \<Rightarrow> False | Inr row \<Rightarrow> current_status row = In_slot)
   \<and> (case client_log_event working Works (clock_at 4) '' hex'' ''error'' ''C'' ''out'' [] stale_client of
        (r, c) \<Rightarrow> \<not> is_ok r \<and> length (db_tool_events (rp_db (dc_repo c))) = 1)"
  by (intro conjI; code_simp)

end
