(* ===== verification/MotionToDb.thy ===== *)
theory MotionToDb imports TasSafety OrchestratorSafety DbServices begin

text \<open>
  The path of a tool's status: the motion server's feedback (\<open>tool_action_server.py\<close>) reaches the
  orchestrator's callbacks (\<open>orchestrator_node.py\<close>), whose threads call the database service
  (\<open>db_service_node.py\<close>). The composition uses the three models as they are; ROS delivers the
  feedback in order.
\<close>

section \<open>Feedback\<close>

definition told_phase :: "nat \<Rightarrow> tas_out \<Rightarrow> string list" where
  "told_phase g x = (case x of Feedback n phase progress \<Rightarrow> (if n = g then [phase] else []) | _ \<Rightarrow> [])"

definition told_phases :: "nat \<Rightarrow> tas_out list \<Rightarrow> string list" where
  "told_phases g outs = concat (map (told_phase g) outs)"

definition is_marker :: "string \<Rightarrow> bool" where
  "is_marker phase \<longleftrightarrow> phase \<in> {''pick'', ''place''}"

lemma told_phases_simps [simp]:
  "told_phases g [] = []" "told_phases g (x # xs) = told_phase g x @ told_phases g xs"
  "told_phases g (xs @ ys) = told_phases g xs @ told_phases g ys"
  by (simp_all add: told_phases_def)

lemma told_phases_prefix: "prefix xs ys \<Longrightarrow> prefix (told_phases g xs) (told_phases g ys)"
  by (auto simp: prefix_def)

lemma filter_prefix: "prefix xs ys \<Longrightarrow> prefix (filter P xs) (filter P ys)"
  by (auto simp: prefix_def)

lemma marker_names: "is_marker (marker_name m)" "\<not> is_marker (kind_name k)"
proof -
  show "is_marker (marker_name m)" by (cases m) (simp_all add: is_marker_def marker_name_def)
  show "\<not> is_marker (kind_name k)" by (cases k) (simp_all add: is_marker_def kind_name_def)
qed

lemma command_silent: "told_phase g (command st) = []"
  by (auto simp: told_phase_def command_def split: step_kind.splits)

lemma planned_markers:
  "filter is_marker (told_phases g (planned (Some g) n i steps)) = map marker_name (markers steps)"
proof (induction steps arbitrary: i)
  case (Cons st steps)
  have "told_phases g (fb (Some g) ph p) = [ph]" for ph p
    by (simp add: told_phase_def fb_def)
  moreover have "markers (st # steps) = (case marker st of None \<Rightarrow> [] | Some m \<Rightarrow> [m]) @ markers steps"
    by (simp add: markers_def)
  ultimately show ?case
    using Cons [of "Suc i"] by (simp add: marker_names command_silent split: option.splits)
qed (simp add: markers_def)

lemma socket_markers:
  "markers (projr full_socket_fetch_seq) = [Pick, Place]"
  "markers (projr full_socket_return_seq) = [Pick, Place]"
  by code_simp+

lemma request_markers:
  assumes "rq = tas_request.Fetch g t \<or> rq = tas_request.Return g t"
  shows "filter is_marker (told_phases g (request_plan rq)) = [''pick'', ''place'']"
  using assms
  by (auto simp: request_plan_def Let_def goal_of_def plan_of_def planned_markers socket_markers marker_name_def)

section \<open>Updates\<close>

definition apply_update :: "clock \<Rightarrow> update_req \<Rightarrow> repository \<Rightarrow> repository" where
  "apply_update clk q r =
     snd (handle_update_tool_status working DEFAULT_OPERATOR_ID clk
       \<lparr>ur_tool_id = up_tool q, ur_new_status = up_status q, ur_event_type = up_event q,
        ur_track = up_track q, ur_notes = up_notes q\<rparr> r)"

text \<open>The updates a motion's feedback leads to, applied in the order they were dispatched.\<close>

definition record_motion ::
  "(update_req \<Rightarrow> clock) \<Rightarrow> (string \<Rightarrow> orch \<Rightarrow> orch) \<Rightarrow> string list \<Rightarrow> orch \<Rightarrow> repository \<Rightarrow> repository" where
  "record_motion clk on_feedback phases orc r =
     fold (\<lambda>q. apply_update (clk q) q) (oc_updates (fold on_feedback phases orc)) r"

lemma apply_update_status:
  assumes "id_ok t" and "up_tool q = t" "up_status q = status_name new" "up_event q = event_type_name ev"
    "up_track q = ''A''" "ev \<in> {event_type.Fetch, event_type.Return}"
  shows "repo_status (apply_update clk q r) =
    (if \<exists>before. repo_status r t = Some before \<and> legal_move ev before new [] then (repo_status r)(t \<mapsto> new)
     else repo_status r)"
proof -
  have row: "find_tool t d \<noteq> None" if "status_of_tool t d = Some b" for b d
    using that by (auto simp: status_of_tool_def)
  have track: "up_track q = track_name TrackA" using assms(5) by simp
  have same: "legal_move ev b new n \<longleftrightarrow> legal_move ev b new []" for b n
    using assms(6) by auto
  let ?d = "bootstrap (rp_db r)"
  have eq: "rp_db (apply_update clk q r) =
      (case status_of_tool t ?d of
         None \<Rightarrow> ?d
       | Some before \<Rightarrow>
           if legal_move ev before new []
           then update_tool_row t new (db_next_event ?d) (utc_now (utc clk))
             (add_event (transition_event DEFAULT_OPERATOR_ID t ev (Some TrackA) before new (up_notes q)
                (utc_now (utc clk)) ?d) ?d)
           else ?d)"
    by (simp add: apply_update_def handle_update_tool_status_def bind_op_def assms(2-4) track same [of _ "up_notes q"]
        update_eq [OF request_of_names [OF assms(1)]] working_def Let_def
        del: track_name.simps event_type_name.simps status_name.simps split: option.splits)
  show ?thesis
    using row by (auto simp: repo_status_def eq fun_eq_iff update_tool_row_def split: option.splits if_splits)
qed

text \<open>The two updates of a motion, and what they do.\<close>

definition motion_update :: "string \<Rightarrow> string \<Rightarrow> tool_status \<Rightarrow> string \<Rightarrow> update_req" where
  "motion_update t ev new nts =
     \<lparr>up_tool = t, up_event = ev, up_track = ''A'', up_status = status_name new, up_notes = nts\<rparr>"

lemma motion_update_status:
  assumes "id_ok t" "ev \<in> {event_type.Fetch, event_type.Return}"
  shows "repo_status (apply_update clk (motion_update t (event_type_name ev) new nts) r) =
    (if \<exists>before. repo_status r t = Some before \<and> legal_move ev before new [] then (repo_status r)(t \<mapsto> new)
     else repo_status r)"
  using assms by (intro apply_update_status) (simp_all add: motion_update_def)

text \<open>Feedback that is no marker does nothing.\<close>

lemma unmarked_feedback:
  "\<not> is_marker phase \<Longrightarrow> fetch_feedback phase orc = orc"
  "\<not> is_marker phase \<Longrightarrow> return_feedback phase orc = orc"
  by (auto simp: fetch_feedback_def return_feedback_def is_marker_def)

lemma fold_markers:
  "(\<And>phase orc. \<not> is_marker phase \<Longrightarrow> f phase orc = orc) \<Longrightarrow>
   fold f phases orc = fold f (filter is_marker phases) orc"
  by (induction phases arbitrary: orc) auto

lemmas feedback_defs = fetch_feedback_def return_feedback_def on_fetch_pick_def on_fetch_place_def
  on_return_pick_def on_return_place_def dispatch_update_status_def

lemma marked_updates:
  assumes "oc_active_tool orc = t" "oc_updates orc = []"
  shows "oc_updates (fold fetch_feedback [''pick''] orc) = [motion_update t ''fetch'' Out ''fetch pick'']"
    "oc_updates (fold fetch_feedback [''pick'', ''place''] orc) =
       [motion_update t ''fetch'' Out ''fetch pick'', motion_update t ''fetch'' Staged ''fetch place'']"
    "oc_updates (fold return_feedback [''pick''] orc) = [motion_update t ''return'' Out ''return pick'']"
    "oc_updates (fold return_feedback [''pick'', ''place''] orc) =
       [motion_update t ''return'' Out ''return pick'', motion_update t ''return'' In_slot ''return place'']"
  using assms by (simp_all add: feedback_defs motion_update_def)

text \<open>What the shown part of a motion has told, and what the database then says.\<close>

definition status_told :: "string list \<Rightarrow> tool_status \<Rightarrow> tool_status \<Rightarrow> tool_status" where
  "status_told phases start goal =
     (if ''place'' \<in> set phases then goal else if ''pick'' \<in> set phases then Out else start)"

lemma told_cases:
  assumes "prefix shown (request_plan rq)" "rq = tas_request.Fetch g t \<or> rq = tas_request.Return g t"
  obtains "filter is_marker (told_phases g shown) = []" "status_told (told_phases g shown) a b = a"
  | "filter is_marker (told_phases g shown) = [''pick'']" "status_told (told_phases g shown) a b = Out"
  | "filter is_marker (told_phases g shown) = [''pick'', ''place'']" "status_told (told_phases g shown) a b = b"
proof -
  let ?ph = "told_phases g shown"
  have "prefix (filter is_marker ?ph) [''pick'', ''place'']"
    using filter_prefix [OF told_phases_prefix [OF assms(1), of g], of is_marker] request_markers [OF assms(2)] by simp
  then have "filter is_marker ?ph \<in> {[], [''pick''], [''pick'', ''place'']}"
    by (auto simp: prefix_def Cons_eq_append_conv append_eq_Cons_conv)
  then consider "filter is_marker ?ph = []" | "filter is_marker ?ph = [''pick'']"
    | "filter is_marker ?ph = [''pick'', ''place'']" by blast
  moreover have told: "status_told ?ph x y = status_told (filter is_marker ?ph) x y" for x y
    by (simp add: status_told_def is_marker_def)
  ultimately show thesis
  proof cases
    case 1
    from 1 show thesis by (rule that(1)) (subst told, subst 1, simp add: status_told_def)
  next
    case 2
    from 2 show thesis by (rule that(2)) (subst told, subst 2, simp add: status_told_def)
  next
    case 3
    from 3 show thesis by (rule that(3)) (subst told, subst 3, simp add: status_told_def)
  qed
qed

lemma motion_recorded:
  assumes "id_ok t" "ev \<in> {event_type.Fetch, event_type.Return}"
    and "legal_move ev start Out []" "legal_move ev Out goal []" "repo_status r t = Some start"
    and quiet: "\<And>phase orc. \<not> is_marker phase \<Longrightarrow> f phase orc = orc" and "oc_updates orc = []"
    and picked: "oc_updates (fold f [''pick''] orc) = [motion_update t (event_type_name ev) Out n1]"
    and placed: "oc_updates (fold f [''pick'', ''place''] orc) =
      [motion_update t (event_type_name ev) Out n1, motion_update t (event_type_name ev) goal n2]"
    and shown: "prefix shown (request_plan rq)" "rq = tas_request.Fetch g t \<or> rq = tas_request.Return g t"
  shows "repo_status (record_motion clk f (told_phases g shown) orc r) =
    (repo_status r)(t \<mapsto> status_told (told_phases g shown) start goal)"
proof -
  have same: "(repo_status r)(t \<mapsto> start) = repo_status r" using assms(5) by (simp add: map_upd_triv)
  have red: "record_motion clk f (told_phases g shown) orc r =
      fold (\<lambda>q. apply_update (clk q) q) (oc_updates (fold f ms orc)) r"
    if "filter is_marker (told_phases g shown) = ms" for ms
    using fold_markers [of f "told_phases g shown" orc, OF quiet] that by (simp add: record_motion_def)
  show ?thesis
    using shown
  proof (cases rule: told_cases [where a = start and b = goal])
    case 1
    then show ?thesis using red [OF 1(1)] by (simp add: same assms(7))
  next
    case 2
    then show ?thesis using assms(3,5) red [OF 2(1)] by (simp only: picked) (simp add: motion_update_status [OF assms(1,2)])
  next
    case 3
    then show ?thesis using assms(3-5) red [OF 3(1)] by (simp only: placed) (simp add: motion_update_status [OF assms(1,2)])
  qed
qed

lemma shown_prefix:
  assumes "serve env rq s = (Inr res, s')" "\<not> is_hand_over rq"
    and "visible (ts_outs s') = visible (ts_outs s) @ shown"
  shows "prefix shown (request_plan rq)" "ar_success res \<Longrightarrow> shown = request_plan rq"
  using answers_serve [OF assms(2), unfolded answers_def, rule_format, OF assms(1)] assms(3)
  by (auto simp: prefix_def)



section \<open>Updates out of order\<close>

text \<open>
  Each update is sent by a thread of its own, so nothing orders them: the run of
  \<open>demo_fetch\<close> with its last two events swapped.
\<close>

definition reordered_fetch :: "string \<Rightarrow> orch_event list" where
  "reordered_fetch tool = take 8 (demo_fetch tool) @ [UpdateRun (UpdateSays False) 1, UpdateRun (UpdateSays True) 0]"

text \<open>
  A run of the orchestrator in which a fetch succeeds and the staging is sent to the database
  before the pick: the database refuses the one and accepts the other, as the run says, so the tool
  stays recorded \<open>out\<close> although it lies in the staging area.
\<close>
theorem reordered_updates_lose_staging:
  assumes "repo_status r ''hex'' = Some In_slot"
  shows "\<exists>evs s. orch_run T orch_init evs s \<and> map up_status (oc_sent s) = [''staged'', ''out'']
    \<and> oc_goals s = [(''fetch'', ''hex'')] \<and> map tk_stage (oc_ticks s) = [Ended]
    \<and> repo_status (fold (\<lambda>q. apply_update (clk q) q) (oc_sent s) r) ''hex'' = Some Out"
proof -
  have id: "id_ok ''hex''" by code_simp
  have "(case play T (reordered_fetch ''hex'') orch_init of
      Some s \<Rightarrow> oc_sent s = [motion_update ''hex'' ''fetch'' Staged ''fetch place'', motion_update ''hex'' ''fetch'' Out ''fetch pick'']
        \<and> oc_goals s = [(''fetch'', ''hex'')] \<and> map tk_stage (oc_ticks s) = [Ended]
    | None \<Rightarrow> False)" by code_simp
  then obtain s where s: "play T (reordered_fetch ''hex'') orch_init = Some s"
      "oc_sent s = [motion_update ''hex'' ''fetch'' Staged ''fetch place'', motion_update ''hex'' ''fetch'' Out ''fetch pick'']"
      "oc_goals s = [(''fetch'', ''hex'')]" "map tk_stage (oc_ticks s) = [Ended]"
    by (auto split: option.splits)
  have "orch_run T orch_init (reordered_fetch ''hex'') s" using run_play [OF run_nil s(1)] by simp
  moreover have "repo_status (fold (\<lambda>q. apply_update (clk q) q) (oc_sent s) r) ''hex'' = Some Out"
    using assms motion_update_status [OF id, of event_type.Fetch] by (simp add: s(2))
  moreover have "map up_status (oc_sent s) = [''staged'', ''out'']" by (simp add: s(2) motion_update_def)
  ultimately show ?thesis using s(3,4) by (intro exI conjI)
qed

lemma reordered_updates_lose_staging_witness:
  "\<exists>evs s. orch_run Some orch_init evs s
    \<and> repo_status (fold (\<lambda>q. apply_update (clock_at 3) q) (oc_sent s) (fresh_repo (sample_db In_slot (utc_now 0)))) ''hex''
      = Some Out"
proof -
  have "repo_status (fresh_repo (sample_db In_slot (utc_now 0))) ''hex'' = Some In_slot"
    by (simp add: repo_status_def fresh_repo_def sample_db_def sample_tool_def status_of_tool_def find_tool_def)
  from reordered_updates_lose_staging [OF this, of Some "\<lambda>_. clock_at 3"] show ?thesis by blast
qed

end
