(* ===== verification/VoiceText.thy ===== *)
theory VoiceText imports Prelude "HOL-Library.Sublist" begin

text \<open>
  The text side of \<open>ros2_ws/src/voice\<close>: the wake-word gate (\<open>wake_word.py\<close>), the keyword parser
  (\<open>command_parser.py\<close>), the transcript filter (\<open>transcript_filter.py\<close>) and the evaluation helper
  (\<open>intent_evaluator.py\<close>). Utterances are Korean, so a Python string is here the list of its code
  points. \<open>lower\<close> is that of ASCII letters and of the two other characters whose lower case has an
  ASCII letter; other cased letters, none of which occurs in a keyword, are kept. Hangul has no case.
\<close>

section \<open>Unicode strings\<close>

type_synonym utext = "int list"

definition asc :: "string \<Rightarrow> utext" where
  "asc s = map of_char s"

definition u_space :: "int \<Rightarrow> bool" where
  "u_space n \<longleftrightarrow> (9 \<le> n \<and> n \<le> 13) \<or> (28 \<le> n \<and> n \<le> 32) \<or> n = 133 \<or> n = 160 \<or> n = 5760
     \<or> (8192 \<le> n \<and> n \<le> 8202) \<or> n = 8232 \<or> n = 8233 \<or> n = 8239 \<or> n = 8287 \<or> n = 12288"

definition u_lstrip :: "utext \<Rightarrow> utext" where
  "u_lstrip t = dropWhile u_space t"

definition u_strip :: "utext \<Rightarrow> utext" where
  "u_strip t = rev (dropWhile u_space (rev (u_lstrip t)))"

definition u_lower_char :: "int \<Rightarrow> utext" where
  "u_lower_char n =
     (if 65 \<le> n \<and> n \<le> 90 then [n + 32] else if n = 304 then [105, 775] else if n = 8490 then [107] else [n])"

definition u_lower :: "utext \<Rightarrow> utext" where
  "u_lower t = concat (map u_lower_char t)"

text \<open>\<open>k in t\<close>.\<close>

fun contains :: "utext \<Rightarrow> utext \<Rightarrow> bool" where
  "contains k [] = (k = [])"
| "contains k (c # cs) = (prefix k (c # cs) \<or> contains k cs)"

lemma contains_iff: "contains k t \<longleftrightarrow> sublist k t"
  by (induction t) (auto simp: sublist_Cons_right)

section \<open>The wake-word gate\<close>

record wake_result =
  wk_accepted :: bool
  wk_command :: utext

text \<open>Blanks and the punctuation \<open>, . ! ? -\<close> with the full-width forms of the first four.\<close>

definition SEPARATORS :: utext where
  "SEPARATORS = [32, 9, 10, 13, 44, 65292, 46, 12290, 33, 63, 65281, 65311, 45]"

definition lstrip_separators :: "utext \<Rightarrow> utext" where
  "lstrip_separators t = dropWhile (\<lambda>c. c \<in> set SEPARATORS) t"

definition is_token_char :: "int \<Rightarrow> bool" where
  "is_token_char n \<longleftrightarrow> (48 \<le> n \<and> n \<le> 57) \<or> (65 \<le> n \<and> n \<le> 90) \<or> (97 \<le> n \<and> n \<le> 122) \<or> (44032 \<le> n \<and> n \<le> 55203)"

definition strip_spurious_leading_token :: "utext \<Rightarrow> utext" where
  "strip_spurious_leading_token t =
     (let s = u_lstrip t in
      if s = [] then []
      else let leading = takeWhile is_token_char s in
        if 0 < length leading \<and> length leading \<le> 1
        then lstrip_separators (dropWhile (\<lambda>c. \<not> is_token_char c) (drop (length leading) s))
        else s)"

definition strip_wake_word_prefix :: "utext \<Rightarrow> utext \<Rightarrow> utext" where
  "strip_wake_word_prefix t wake_word =
     (let s = u_lstrip t; w = u_strip wake_word in
      if w = [] then s
      else if 32 \<in> set w then lstrip_separators (drop (length w) s)
      else strip_spurious_leading_token (lstrip_separators (drop (length w) s)))"

fun match_wake_word :: "utext \<Rightarrow> utext \<Rightarrow> utext list \<Rightarrow> wake_result" where
  "match_wake_word normalized lowered [] = \<lparr>wk_accepted = False, wk_command = []\<rparr>"
| "match_wake_word normalized lowered (w # ws) =
     (let stripped = u_strip w; candidate = u_lower stripped in
      if candidate = [] then match_wake_word normalized lowered ws
      else if prefix candidate lowered
      then \<lparr>wk_accepted = True, wk_command = strip_wake_word_prefix normalized stripped\<rparr>
      else match_wake_word normalized lowered ws)"

definition apply_wake_word_gate :: "utext \<Rightarrow> utext list \<Rightarrow> bool \<Rightarrow> wake_result" where
  "apply_wake_word_gate t wake_words require_wake_word =
     (let normalized = u_strip t in
      if \<not> require_wake_word then \<lparr>wk_accepted = True, wk_command = normalized\<rparr>
      else match_wake_word normalized (u_lower normalized) wake_words)"

section \<open>The keyword parser\<close>

definition FETCH_KEYWORDS :: "utext list" where
  "FETCH_KEYWORDS = [[44032, 51256], [44732, 45236], asc ''fetch'', asc ''bring'']"

definition RETURN_KEYWORDS :: "utext list" where
  "RETURN_KEYWORDS = [[48152, 45225], [46028, 47140], [45347, 50612], asc ''return'']"

definition CANCEL_KEYWORDS :: "utext list" where
  "CANCEL_KEYWORDS = [[52712, 49548], [51473, 51648], asc ''cancel'', asc ''stop'']"

definition SPANNER_SIZE_KEYWORDS :: "utext list" where
  "SPANNER_SIZE_KEYWORDS =
     [asc ''16mm'', asc ''16 mm'', asc ''16'' @ [48120, 47532], asc ''16 '' @ [48128, 47532],
      [49901, 50977, 48120, 47532], [49901, 50977, 32, 48128, 47532]]"

definition SOCKET_SIZE_KEYWORDS :: "utext list" where
  "SOCKET_SIZE_KEYWORDS =
     [asc ''19mm'', asc ''19 mm'', asc ''19'' @ [48120, 47532], asc ''19 '' @ [48128, 47532],
      [49901, 44396, 48120, 47532], [49901, 44396, 32, 48128, 47532]]"

definition SPANNER_NAME_KEYWORDS :: "utext list" where
  "SPANNER_NAME_KEYWORDS = [[49828, 54056, 45320], asc ''spanner'']"

definition SOCKET_NAME_KEYWORDS :: "utext list" where
  "SOCKET_NAME_KEYWORDS = [[48373, 49828], [49548, 53011], asc ''socket'']"

definition TOOL_ALIASES :: "(string \<times> utext list) list" where
  "TOOL_ALIASES =
     [(''screwdriver'', [[46300, 46972, 51060, 48260], [49901, 51088], asc ''screwdriver'']),
      (''utility_knife'', [[52964, 53552], [52964, 53552, 52860], asc ''knife'']),
      (''ratchet_wrench'', [[46972, 52423], asc ''ratchet'']),
      (''multi_tool'', [[47701, 44032, 51060, 48260], [47589, 44032, 51060, 48260], asc ''multi tool'']),
      (''spanner_16mm'', [[49828, 54056, 45320], asc ''16mm'', asc ''spanner'']),
      (''socket_19mm'', [[48373, 49828], [49548, 53011], asc ''19mm'', asc ''socket''])]"

record parsed_command =
  pc_intent_type :: string
  pc_tool_id :: string
  pc_confidence :: real

definition contains_any :: "utext \<Rightarrow> utext list \<Rightarrow> bool" where
  "contains_any t keywords \<longleftrightarrow> list_ex (\<lambda>k. contains k t) keywords"

fun match_tool_in :: "(string \<times> utext list) list \<Rightarrow> utext \<Rightarrow> string" where
  "match_tool_in [] t = []"
| "match_tool_in ((tool_id, aliases) # rest) t =
     (if list_ex (\<lambda>a. contains a t) aliases then tool_id else match_tool_in rest t)"

definition match_tool :: "utext \<Rightarrow> string" where
  "match_tool t = match_tool_in TOOL_ALIASES t"

definition has_size_conflict :: "utext \<Rightarrow> bool" where
  "has_size_conflict t =
     (let spanner_name = contains_any t SPANNER_NAME_KEYWORDS;
          socket_name = contains_any t SOCKET_NAME_KEYWORDS;
          spanner_size = contains_any t SPANNER_SIZE_KEYWORDS;
          socket_size = contains_any t SOCKET_SIZE_KEYWORDS
      in (socket_name \<and> spanner_size) \<or> (spanner_name \<and> socket_size))"

definition parsed :: "string \<Rightarrow> string \<Rightarrow> real \<Rightarrow> parsed_command" where
  "parsed i t c = \<lparr>pc_intent_type = i, pc_tool_id = t, pc_confidence = c\<rparr>"

definition parse_command :: "utext \<Rightarrow> parsed_command" where
  "parse_command t =
     (let normalized = u_lower (u_strip t) in
      if normalized = [] then parsed ''unknown'' [] 0
      else if contains_any normalized CANCEL_KEYWORDS then parsed ''cancel'' [] 0.9
      else
        let intent_type =
          (if contains_any normalized RETURN_KEYWORDS then ''return''
           else if contains_any normalized FETCH_KEYWORDS then ''fetch'' else ''unknown'')
        in if has_size_conflict normalized then parsed ''unknown'' [] 0
        else
          let tool_id = match_tool normalized
          in if intent_type \<in> {''fetch'', ''return''} \<and> tool_id \<noteq> [] then parsed intent_type tool_id 0.65
          else if tool_id = [] then parsed ''unknown'' [] 0
          else parsed intent_type tool_id 0.3)"

section \<open>The transcript filter\<close>

lemma token_runs_smaller:
  assumes "dropWhile (\<lambda>c. \<not> is_token_char c) t = c # cs"
  shows "length (dropWhile is_token_char (c # cs)) < length t"
proof -
  have "is_token_char c" using assms by (metis (mono_tags, lifting) dropWhile_eq_Cons_conv)
  then have "length (dropWhile is_token_char (c # cs)) \<le> length cs" by (simp add: length_dropWhile_le)
  also have "\<dots> < length t"
    using length_dropWhile_le [of "\<lambda>c. \<not> is_token_char c" t] by (simp add: assms)
  finally show ?thesis .
qed

text \<open>\<open>findall\<close> of one or more token characters: the maximal runs.\<close>

function token_runs :: "utext \<Rightarrow> utext list" where
  "token_runs t =
     (case dropWhile (\<lambda>c. \<not> is_token_char c) t of
        [] \<Rightarrow> []
      | c # cs \<Rightarrow> takeWhile is_token_char (c # cs) # token_runs (dropWhile is_token_char (c # cs)))"
  by pat_completeness auto

termination
  by (relation "measure length") (simp, simp only: in_measure, rule token_runs_smaller)

definition tokenize_transcript :: "utext \<Rightarrow> utext list" where
  "tokenize_transcript t = filter (\<lambda>w. w \<noteq> []) (token_runs (u_lower t))"

definition most_common :: "utext list \<Rightarrow> nat" where
  "most_common ws = fold max (map (count_list ws) ws) 0"

text \<open>The scan of consecutive tokens: the length of the run that ends in the previous one.\<close>

fun repeats :: "nat \<Rightarrow> utext \<Rightarrow> utext list \<Rightarrow> bool" where
  "repeats run previous [] = False"
| "repeats run previous (current # rest) =
     (if current = previous then (if run + 1 \<ge> 3 then True else repeats (run + 1) current rest)
      else repeats 1 current rest)"

definition is_likely_hallucinated :: "utext \<Rightarrow> bool" where
  "is_likely_hallucinated t =
     (let ws = tokenize_transcript t in
      if length ws < 3 then False
      else if most_common ws \<ge> 3 \<and> real (length (remdups ws)) / real (length ws) \<le> 0.5 then True
      else repeats 1 (hd ws) (tl ws))"

section \<open>Evaluation\<close>

record intent_example =
  ex_utterance :: utext
  ex_intent_type :: string
  ex_tool_id :: string

record intent_failure =
  fl_utterance :: utext
  fl_expected_intent :: string
  fl_expected_tool :: string
  fl_actual_intent :: string
  fl_actual_tool :: string

record evaluation =
  ev_total :: nat
  ev_intent_accuracy :: real
  ev_exact_accuracy :: real
  ev_passes :: bool
  ev_failures :: "intent_failure list"

definition GEMMA_INTENT_ACCURACY_TARGET :: real where
  "GEMMA_INTENT_ACCURACY_TARGET = 0.97"

fun evaluate_pairs ::
  "(intent_example \<times> parsed_command) list \<Rightarrow> nat \<times> nat \<times> intent_failure list \<Rightarrow> nat \<times> nat \<times> intent_failure list" where
  "evaluate_pairs [] acc = acc"
| "evaluate_pairs ((ex, p) # rest) (intents, exacts, failures) =
     (let intent_match = (pc_intent_type p = ex_intent_type ex);
          exact_match = (intent_match \<and> pc_tool_id p = ex_tool_id ex)
      in evaluate_pairs rest
        (intents + (if intent_match then 1 else 0), exacts + (if exact_match then 1 else 0),
         if exact_match then failures
         else failures @ [\<lparr>fl_utterance = ex_utterance ex, fl_expected_intent = ex_intent_type ex,
                           fl_expected_tool = ex_tool_id ex, fl_actual_intent = pc_intent_type p,
                           fl_actual_tool = pc_tool_id p\<rparr>]))"

definition evaluate_predictions ::
  "intent_example list \<Rightarrow> parsed_command list \<Rightarrow> real \<Rightarrow> (string, evaluation) result" where
  "evaluate_predictions examples predictions target =
     (if length examples \<noteq> length predictions then Inl ''examples and predictions must have the same length''
      else if examples = []
      then Inr \<lparr>ev_total = 0, ev_intent_accuracy = 0, ev_exact_accuracy = 0, ev_passes = False, ev_failures = []\<rparr>
      else
        let (intents, exacts, failures) = evaluate_pairs (zip examples predictions) (0, 0, []);
            n = real (length examples)
        in Inr \<lparr>ev_total = length examples, ev_intent_accuracy = real intents / n,
                ev_exact_accuracy = real exacts / n, ev_passes = (real intents / n \<ge> target),
                ev_failures = failures\<rparr>)"

end
