(* ===== verification/VoiceNodes.thy ===== *)
theory VoiceNodes imports VoiceText begin

text \<open>
  The nodes of \<open>ros2_ws/src/voice\<close>: the utterance recorder (\<open>audio_input.py\<close>), the speech node
  (\<open>whisper_node.py\<close>), the rule-based and the Gemma intent nodes (\<open>rule_intent_node.py\<close>,
  \<open>gemma_intent_node.py\<close>) with Gemma's output parser (\<open>gemma_intent.py\<close>). The microphone, Whisper
  and the language model are inputs. Feasibility answers arrive as events of their own.
\<close>

section \<open>Recording an utterance\<close>

record recorder_config =
  rc_sample_rate_hz :: int
  rc_chunk_size :: int
  rc_max_duration_s :: real
  rc_silence_threshold :: real
  rc_trailing_silence_chunks :: nat
  rc_pre_roll_chunks :: nat

definition recorder_defaults :: recorder_config where
  "recorder_defaults =
     \<lparr>rc_sample_rate_hz = 16000, rc_chunk_size = 1024, rc_max_duration_s = 4, rc_silence_threshold = 0.02,
      rc_trailing_silence_chunks = 15, rc_pre_roll_chunks = 5\<rparr>"

definition max_chunks :: "recorder_config \<Rightarrow> nat" where
  "max_chunks cfg = nat \<lfloor>real_of_int (rc_sample_rate_hz cfg) / real_of_int (rc_chunk_size cfg) * rc_max_duration_s cfg\<rfloor>"

type_synonym chunk = "real list"

definition rms :: "chunk \<Rightarrow> real" where
  "rms c = (if c \<noteq> [] then sqrt (sum_list (map (\<lambda>x. x ^ 2) c) / real (length c)) else 0)"

text \<open>\<open>deque(maxlen=n)\<close>: the last \<open>n\<close> appended.\<close>

definition deque_append :: "nat \<Rightarrow> 'a list \<Rightarrow> 'a \<Rightarrow> 'a list" where
  "deque_append n q x = drop (Suc (length q) - n) (q @ [x])"

fun record_loop ::
  "recorder_config \<Rightarrow> (chunk \<Rightarrow> bool) \<Rightarrow> chunk list \<Rightarrow> chunk list \<Rightarrow> chunk list \<Rightarrow> nat \<Rightarrow> bool \<Rightarrow> chunk list" where
  "record_loop cfg loud [] chunks pre_roll silence_count speaking = chunks"
| "record_loop cfg loud (c # rest) chunks pre_roll silence_count speaking =
     (if loud c
      then (if \<not> speaking then record_loop cfg loud rest (chunks @ pre_roll @ [c]) [] 0 True
            else record_loop cfg loud rest (chunks @ [c]) pre_roll 0 True)
      else if speaking
      then (if silence_count + 1 > rc_trailing_silence_chunks cfg then chunks @ [c]
            else record_loop cfg loud rest (chunks @ [c]) pre_roll (silence_count + 1) True)
      else record_loop cfg loud rest chunks (deque_append (rc_pre_roll_chunks cfg) pre_roll c) silence_count False)"

text \<open>\<open>reads\<close>: the chunks the stream would deliver.\<close>

definition record_utterance :: "recorder_config \<Rightarrow> chunk list \<Rightarrow> chunk list" where
  "record_utterance cfg reads =
     record_loop cfg (\<lambda>c. rms c > rc_silence_threshold cfg) (take (max_chunks cfg) reads) [] [] 0 False"

section \<open>The speech node\<close>

text \<open>
  One turn of \<open>_listen_loop\<close>: the moving flag at its first, second and third reading, the chunks
  read, and what Whisper returned (\<open>None\<close>: it raised).
\<close>

record listen_turn =
  lt_moving1 :: bool
  lt_reads :: "chunk list"
  lt_moving2 :: bool
  lt_transcript :: "utext option"
  lt_moving3 :: bool

definition should_reject :: "bool \<Rightarrow> utext \<Rightarrow> bool" where
  "should_reject reject_hallucinated t \<longleftrightarrow> reject_hallucinated \<and> is_likely_hallucinated t"

definition publish_transcript :: "bool \<Rightarrow> bool \<Rightarrow> utext \<Rightarrow> bool \<times> utext list" where
  "publish_transcript reject_hallucinated moving transcript =
     (if moving then (False, [])
      else let t = u_strip transcript in
        if t = [] then (False, [])
        else if should_reject reject_hallucinated t then (False, [])
        else (True, [t]))"

definition listen_turn_outs :: "recorder_config \<Rightarrow> bool \<Rightarrow> listen_turn \<Rightarrow> utext list" where
  "listen_turn_outs cfg reject_hallucinated lt =
     (if lt_moving1 lt then []
      else
        let audio = concat (record_utterance cfg (lt_reads lt)) in
        if length audio = 0 \<or> lt_moving2 lt then []
        else (case lt_transcript lt of
            None \<Rightarrow> []
          | Some transcript \<Rightarrow> snd (publish_transcript reject_hallucinated (lt_moving3 lt) transcript)))"

fun listen_loop :: "recorder_config \<Rightarrow> bool \<Rightarrow> listen_turn list \<Rightarrow> utext list" where
  "listen_loop cfg reject_hallucinated [] = []"
| "listen_loop cfg reject_hallucinated (lt # rest) =
     listen_turn_outs cfg reject_hallucinated lt @ listen_loop cfg reject_hallucinated rest"

section \<open>Gemma's output\<close>

record tool_spec =
  sp_tool_id :: utext
  sp_label :: utext
  sp_aliases :: "utext list"

definition normalize_tool_key :: "utext \<Rightarrow> utext" where
  "normalize_tool_key v = map (\<lambda>c. if c = 45 \<or> c = 32 then 95 else c) (u_lower (u_strip v))"

fun dedupe_preserve_order :: "utext list \<Rightarrow> utext list \<Rightarrow> utext list" where
  "dedupe_preserve_order seen [] = []"
| "dedupe_preserve_order seen (v # vs) =
     (if v \<in> set seen then dedupe_preserve_order seen vs else v # dedupe_preserve_order (v # seen) vs)"

definition build_tool_alias_map :: "tool_spec list \<Rightarrow> (utext \<times> utext) list" where
  "build_tool_alias_map catalog =
     fold (\<lambda>(k, v) d. dict_set k v d)
       (concat (map (\<lambda>spec. map (\<lambda>a. (normalize_tool_key a, sp_tool_id spec)) (sp_aliases spec)) catalog)) []"

text \<open>A float: a number, or not finite (infinite or not a number).\<close>

datatype py_float = Fin real | NonFinite

datatype json =
    JNull
  | JBool bool
  | JInt int
  | JFloat py_float
  | JStr utext
  | JList "json list"
  | JObj "(utext \<times> json) list"

datatype gemma_error =
    NotJson | NotObject | BadIntent utext | NoConfidence | ConfidenceNotNumeric | ConfidenceRange | NoToolId

text \<open>
  What a call of the parser ends in other than a result: \<open>GemmaParseError\<close>, or an exception it does
  not catch (\<open>float\<close> of an integer that no float is near).
\<close>

datatype gemma_raise = ParseError gemma_error | FloatOverflow

record gemma_result =
  ge_intent_type :: utext
  ge_tool_id :: utext
  ge_confidence :: real
  ge_needs_confirm :: bool

definition json_get :: "utext \<Rightarrow> (utext \<times> json) list \<Rightarrow> json \<Rightarrow> json" where
  "json_get k entries d = (case map_of entries k of None \<Rightarrow> d | Some v \<Rightarrow> v)"

text \<open>\<open>str(v)\<close>; \<open>shown\<close> is what \<open>str\<close> makes of numbers, lists and dictionaries.\<close>

fun json_str :: "(json \<Rightarrow> utext) \<Rightarrow> json \<Rightarrow> utext" where
  "json_str shown JNull = asc ''None''"
| "json_str shown (JBool b) = asc (if b then ''True'' else ''False'')"
| "json_str shown (JStr s) = s"
| "json_str shown v = shown v"

fun json_true :: "json \<Rightarrow> bool" where
  "json_true JNull = False"
| "json_true (JBool b) = b"
| "json_true (JInt i) = (i \<noteq> 0)"
| "json_true (JFloat (Fin x)) = (x \<noteq> 0)"
| "json_true (JFloat NonFinite) = True"
| "json_true (JStr s) = (s \<noteq> [])"
| "json_true (JList xs) = (xs \<noteq> [])"
| "json_true (JObj fs) = (fs \<noteq> [])"

text \<open>\<open>float(v)\<close>; \<open>read\<close> is what \<open>float\<close> makes of a string.\<close>

definition FLOAT_LIMIT :: int where
  "FLOAT_LIMIT = 2 ^ 1024 - 2 ^ 970"

fun json_float :: "(utext \<Rightarrow> py_float option) \<Rightarrow> json \<Rightarrow> (gemma_raise, py_float) result" where
  "json_float read (JBool b) = Inr (Fin (if b then 1 else 0))"
| "json_float read (JInt i) = (if \<bar>i\<bar> < FLOAT_LIMIT then Inr (Fin (real_of_int i)) else Inl FloatOverflow)"
| "json_float read (JFloat x) = Inr x"
| "json_float read (JStr s) =
     (case read s of None \<Rightarrow> Inl (ParseError ConfidenceNotNumeric) | Some x \<Rightarrow> Inr x)"
| "json_float read v = Inl (ParseError ConfidenceNotNumeric)"

definition VALID_GEMMA_INTENTS :: "utext list" where
  "VALID_GEMMA_INTENTS = [asc ''fetch'', asc ''return'', asc ''cancel'', asc ''unknown'']"

definition normalize_tool_id :: "(utext \<times> utext) list \<Rightarrow> utext list \<Rightarrow> utext \<Rightarrow> utext" where
  "normalize_tool_id alias_to_id valid_ids tool_id =
     (let candidate = normalize_tool_key tool_id in
      if candidate = [] then []
      else if candidate \<in> set valid_ids then candidate
      else (case map_of alias_to_id candidate of None \<Rightarrow> [] | Some i \<Rightarrow> i))"

text \<open>The part of \<open>parse_gemma_output\<close> after \<open>json.loads\<close>; \<open>None\<close> is a decoding error.\<close>

definition parse_gemma_output ::
  "(json \<Rightarrow> utext) \<Rightarrow> (utext \<Rightarrow> py_float option) \<Rightarrow> (utext \<times> utext) list \<Rightarrow> utext list \<Rightarrow> json option
     \<Rightarrow> (gemma_raise, gemma_result) result" where
  "parse_gemma_output shown read alias_to_id valid_ids loaded =
     (case loaded of
        None \<Rightarrow> Inl (ParseError NotJson)
      | Some (JObj entries) \<Rightarrow>
          let intent_type = u_lower (u_strip (json_str shown (json_get (asc ''intent_type'') entries (JStr [])))) in
          if intent_type \<notin> set VALID_GEMMA_INTENTS then Inl (ParseError (BadIntent intent_type))
          else let raw_confidence = json_get (asc ''confidence'') entries JNull in
          if raw_confidence = JNull then Inl (ParseError NoConfidence)
          else (case json_float read raw_confidence of
              Inl e \<Rightarrow> Inl e
            | Inr NonFinite \<Rightarrow> Inl (ParseError ConfidenceRange)
            | Inr (Fin confidence) \<Rightarrow>
                if \<not> (0 \<le> confidence \<and> confidence \<le> 1) then Inl (ParseError ConfidenceRange)
                else
                  let needs_confirm = json_true (json_get (asc ''needs_confirm'') entries (JBool False));
                      tool_id = normalize_tool_id alias_to_id valid_ids
                        (u_strip (json_str shown (json_get (asc ''tool_id'') entries (JStr []))))
                  in if intent_type \<in> {asc ''fetch'', asc ''return''} \<and> tool_id = [] then Inl (ParseError NoToolId)
                  else Inr \<lparr>ge_intent_type = intent_type,
                            ge_tool_id = (if intent_type \<in> {asc ''cancel'', asc ''unknown''} then [] else tool_id),
                            ge_confidence = confidence, ge_needs_confirm = needs_confirm\<rparr>)
      | Some _ \<Rightarrow> Inl (ParseError NotObject))"

definition unsure :: gemma_result where
  "unsure = \<lparr>ge_intent_type = asc ''unknown'', ge_tool_id = [], ge_confidence = 0, ge_needs_confirm = True\<rparr>"

definition classify ::
  "(json \<Rightarrow> utext) \<Rightarrow> (utext \<Rightarrow> py_float option) \<Rightarrow> tool_spec list \<Rightarrow> real \<Rightarrow> json option
     \<Rightarrow> (gemma_raise, gemma_result) result" where
  "classify shown read catalog confidence_threshold loaded =
     (case parse_gemma_output shown read (build_tool_alias_map catalog) (map sp_tool_id catalog) loaded of
        Inl (ParseError e) \<Rightarrow> Inr unsure
      | Inl FloatOverflow \<Rightarrow> Inl FloatOverflow
      | Inr result \<Rightarrow>
          if ge_intent_type result \<in> {asc ''fetch'', asc ''return''}
            \<and> (ge_needs_confirm result \<or> ge_confidence result < confidence_threshold)
          then Inr unsure
          else Inr result)"

section \<open>The intent nodes\<close>

record voice_config =
  vc_require_wake_word :: bool
  vc_wake_words :: "utext list"

record voice_intent =
  vi_intent_type :: string
  vi_tool_id :: string
  vi_confidence :: real
  vi_utterance :: utext

text \<open>
  A node's state: the feasibility requests without an answer yet, what was published, and the
  pairs of intent and tool the gate has allowed, in order.
\<close>

record voice_node =
  vn_pending :: "voice_intent list"
  vn_published :: "voice_intent list"
  vn_allowed :: "(string \<times> string) list"

definition voice_node_init :: voice_node where
  "voice_node_init = \<lparr>vn_pending = [], vn_published = [], vn_allowed = []\<rparr>"

definition publish_intent :: "voice_intent \<Rightarrow> voice_node \<Rightarrow> voice_node" where
  "publish_intent i s = s\<lparr>vn_published := vn_published s @ [i]\<rparr>"

definition intent_of :: "parsed_command \<Rightarrow> utext \<Rightarrow> voice_intent" where
  "intent_of p utterance =
     \<lparr>vi_intent_type = pc_intent_type p, vi_tool_id = pc_tool_id p, vi_confidence = pc_confidence p,
      vi_utterance = utterance\<rparr>"

text \<open>Both nodes continue like this with what they understood.\<close>

definition submit_intent :: "bool \<Rightarrow> parsed_command \<Rightarrow> utext \<Rightarrow> voice_node \<Rightarrow> voice_node" where
  "submit_intent service_up p utterance s =
     (if pc_intent_type p \<notin> {''fetch'', ''return''} then publish_intent (intent_of p utterance) s
      else if \<not> service_up then s
      else s\<lparr>vn_pending := vn_pending s @ [intent_of p utterance]\<rparr>)"

definition rule_handle_raw_text :: "voice_config \<Rightarrow> bool \<Rightarrow> utext \<Rightarrow> voice_node \<Rightarrow> voice_node" where
  "rule_handle_raw_text cfg service_up data s =
     (let gate = apply_wake_word_gate data (vc_wake_words cfg) (vc_require_wake_word cfg) in
      if \<not> wk_accepted gate then s
      else submit_intent service_up (parse_command (wk_command gate)) (wk_command gate) s)"

datatype feasibility_answer = AnswerRaises | AnswerIs bool

text \<open>The answer to the \<open>k\<close>-th pending request.\<close>

definition handle_feasibility :: "nat \<Rightarrow> feasibility_answer \<Rightarrow> voice_node \<Rightarrow> voice_node" where
  "handle_feasibility k a s =
     (let i = vn_pending s ! k;
          s1 = s\<lparr>vn_pending := take k (vn_pending s) @ drop (Suc k) (vn_pending s)\<rparr>
      in case a of
          AnswerRaises \<Rightarrow> s1
        | AnswerIs ok \<Rightarrow>
            if \<not> ok then s1
            else publish_intent i (s1\<lparr>vn_allowed := vn_allowed s1 @ [(vi_intent_type i, vi_tool_id i)]\<rparr>))"

text \<open>
  The Gemma node, given what the classifier returned for the command: an exception of the
  classifier leaves the callback and ends the node's \<open>spin\<close> (\<open>None\<close>). The texts of a result are
  ASCII by the parser's checks and the catalog's; \<open>name_of\<close> reads them back as strings.
\<close>

definition name_of :: "utext \<Rightarrow> string" where
  "name_of t = map char_of t"

definition gemma_handle_raw_text ::
  "voice_config \<Rightarrow> bool \<Rightarrow> (utext \<Rightarrow> gemma_result option) \<Rightarrow> utext \<Rightarrow> voice_node \<Rightarrow> voice_node option" where
  "gemma_handle_raw_text cfg service_up classifier data s =
     (let gate = apply_wake_word_gate data (vc_wake_words cfg) (vc_require_wake_word cfg) in
      if \<not> wk_accepted gate then Some s
      else (case classifier (wk_command gate) of
          None \<Rightarrow> None
        | Some res \<Rightarrow>
            let p = parsed (name_of (ge_intent_type res)) (name_of (ge_tool_id res)) (ge_confidence res) in
            if pc_intent_type p \<in> {''cancel'', ''unknown''} then Some (publish_intent (intent_of p (wk_command gate)) s)
            else if pc_intent_type p \<notin> {''fetch'', ''return''} then Some s
            else Some (submit_intent service_up p (wk_command gate) s)))"

text \<open>The events of the rule node.\<close>

datatype voice_event = RawText bool utext | Answer nat feasibility_answer

definition voice_enabled :: "voice_event \<Rightarrow> voice_node \<Rightarrow> bool" where
  "voice_enabled ev s = (case ev of RawText _ _ \<Rightarrow> True | Answer k _ \<Rightarrow> k < length (vn_pending s))"

definition voice_step :: "voice_config \<Rightarrow> voice_event \<Rightarrow> voice_node \<Rightarrow> voice_node" where
  "voice_step cfg ev s =
     (case ev of RawText up t \<Rightarrow> rule_handle_raw_text cfg up t s | Answer k a \<Rightarrow> handle_feasibility k a s)"

fun voice_play :: "voice_config \<Rightarrow> voice_event list \<Rightarrow> voice_node \<Rightarrow> voice_node option" where
  "voice_play cfg [] s = Some s"
| "voice_play cfg (ev # evs) s =
     (if voice_enabled ev s then voice_play cfg evs (voice_step cfg ev s) else None)"

end
