(* ===== verification/VoiceSafety.thy ===== *)
theory VoiceSafety imports VoiceNodes begin

text \<open>
  Properties of the voice pipeline: what an utterance of the recorder is, what the transcript filter
  refuses, what the keyword parser understands, that Gemma's answers fail closed, and that the
  intent node publishes a fetch or a return only after the gate has allowed it.
\<close>

section \<open>Recording\<close>

lemma deque_append_last:
  assumes "length q \<le> n"
  shows "drop (length (deque_append n q x @ us) - n) (deque_append n q x @ us)
     = drop (length (q @ x # us) - n) (q @ x # us)"
    and "length (deque_append n q x) \<le> n"
proof -
  show "length (deque_append n q x) \<le> n" by (simp add: deque_append_def)
  show "drop (length (deque_append n q x @ us) - n) (deque_append n q x @ us)
     = drop (length (q @ x # us) - n) (q @ x # us)"
  proof (cases "length q < n")
    case False
    with assms have n: "length q = n" by simp
    let ?z = "q @ x # us"
    have "deque_append n q x @ us = drop 1 ?z" using n by (cases q) (simp_all add: deque_append_def)
    moreover have "length ?z - 1 - n + 1 = length ?z - n" using n by simp
    ultimately show ?thesis by (simp only: length_drop drop_drop)
  qed (simp add: deque_append_def)
qed

text \<open>Until the first loud chunk the loop keeps the last chunks it has read.\<close>

lemma record_quiet:
  assumes "\<forall>x\<in>set us. \<not> loud x" "length q \<le> rc_pre_roll_chunks cfg"
  shows "record_loop cfg loud (us @ rest) chunks q k False =
    record_loop cfg loud rest chunks (drop (length (q @ us) - rc_pre_roll_chunks cfg) (q @ us)) k False"
  using assms
proof (induction us arbitrary: q)
  case (Cons x us)
  then show ?case using deque_append_last(1) [OF Cons.prems(2), of x us] deque_append_last(2) [OF Cons.prems(2), of x] by simp
qed simp

text \<open>
  From then on it appends what it reads, up to a run of silence that is one longer than allowed.
  \<open>sp\<close> is what was heard so far, its last \<open>k\<close> chunks silent.
\<close>

definition ends_silent :: "(chunk \<Rightarrow> bool) \<Rightarrow> nat \<Rightarrow> chunk list \<Rightarrow> bool" where
  "ends_silent loud n xs \<longleftrightarrow> n \<le> length xs \<and> (\<forall>x\<in>set (drop (length xs - n) xs). \<not> loud x)"

lemma ends_silent_snoc: "ends_silent loud n xs \<Longrightarrow> \<not> loud x \<Longrightarrow> ends_silent loud (Suc n) (xs @ [x])"
  by (auto simp: ends_silent_def)

lemma record_speaking:
  assumes "k \<le> rc_trailing_silence_chunks cfg" "ends_silent loud k sp"
  shows "\<exists>m\<le>length rest. record_loop cfg loud rest chunks q k True = chunks @ take m rest
    \<and> (m = length rest \<or> ends_silent loud (Suc (rc_trailing_silence_chunks cfg)) (sp @ take m rest))"
  using assms
proof (induction rest arbitrary: k chunks sp)
  case (Cons x rest)
  have step: ?case
    if "record_loop cfg loud (x # rest) chunks q k True = record_loop cfg loud rest (chunks @ [x]) q k' True"
      "k' \<le> rc_trailing_silence_chunks cfg" "ends_silent loud k' (sp @ [x])" for k'
  proof -
    from Cons.IH [OF that(2,3), of "chunks @ [x]"] obtain m where
      "m \<le> length rest" "record_loop cfg loud rest (chunks @ [x]) q k' True = (chunks @ [x]) @ take m rest"
      "m = length rest \<or> ends_silent loud (Suc (rc_trailing_silence_chunks cfg)) ((sp @ [x]) @ take m rest)"
      by blast
    with that(1) show ?thesis by (intro exI [of _ "Suc m"]) auto
  qed
  show ?case
  proof (cases "loud x")
    case True
    then show ?thesis by (intro step [of 0]) (simp_all add: ends_silent_def)
  next
    case quiet: False
    note silent = ends_silent_snoc [OF Cons.prems(2) quiet]
    show ?thesis
    proof (cases "k < rc_trailing_silence_chunks cfg")
      case True
      with quiet silent show ?thesis by (intro step [of "Suc k"]) simp_all
    next
      case False
      with Cons.prems(1) quiet silent show ?thesis by (intro exI [of _ 1]) simp
    qed
  qed
qed simp

definition is_loud :: "recorder_config \<Rightarrow> chunk \<Rightarrow> bool" where
  "is_loud cfg c \<longleftrightarrow> rms c > rc_silence_threshold cfg"

text \<open>
  A recorded utterance is one contiguous piece of the input, nothing lost or reordered inside: it
  starts at most the pre-roll before the first loud chunk and ends where the allowed reads end or
  with one silent chunk more than the trailing silence; its length is within the configured maximum
  (62 chunks, just under four seconds, by default).
\<close>
theorem utterance_is_slice:
  assumes "take (max_chunks cfg) reads = us @ c # rest"
    and "\<forall>x\<in>set us. \<not> is_loud cfg x" "is_loud cfg c"
  shows "(\<exists>m\<le>length rest. record_utterance cfg reads = drop (length us - rc_pre_roll_chunks cfg) us @ c # take m rest
      \<and> (m = length rest \<or> ends_silent (is_loud cfg) (Suc (rc_trailing_silence_chunks cfg)) (c # take m rest)))
    \<and> length (record_utterance cfg reads) \<le> max_chunks cfg \<and> max_chunks recorder_defaults = 62"
proof -
  let ?pre = "drop (length us - rc_pre_roll_chunks cfg) us"
  have loud: "(\<lambda>c. rms c > rc_silence_threshold cfg) = is_loud cfg" by (simp add: is_loud_def fun_eq_iff)
  have run: "record_utterance cfg reads = record_loop cfg (is_loud cfg) rest (?pre @ [c]) [] 0 True"
    using record_quiet [OF assms(2), of "[]" cfg "c # rest" "[]" 0] assms(3)
    unfolding record_utterance_def loud assms(1) by simp
  have "ends_silent (is_loud cfg) 0 [c]" by (simp add: ends_silent_def)
  from record_speaking [OF le0 this, where rest = rest and chunks = "?pre @ [c]" and q = "[]" and cfg = cfg] run obtain m where m:
    "m \<le> length rest" "record_utterance cfg reads = ?pre @ c # take m rest"
    "m = length rest \<or> ends_silent (is_loud cfg) (Suc (rc_trailing_silence_chunks cfg)) (c # take m rest)"
    by auto
  have "length (us @ c # rest) \<le> max_chunks cfg" by (simp flip: assms(1))
  with m(1,2) have "length (record_utterance cfg reads) \<le> max_chunks cfg" by simp
  moreover have "max_chunks recorder_defaults = 62" by (simp add: max_chunks_def recorder_defaults_def)
  ultimately show ?thesis using m by blast
qed

lemma utterance_is_slice_witness:
  "\<exists>m\<le>1. record_utterance recorder_defaults [[0], [1], [0]] = [[0], [1]] @ take m [[0]]"
proof -
  have reads: "take (max_chunks recorder_defaults) [[0], [1], [0]] = [[0]] @ [1] # [[0::real]]"
    by (simp add: max_chunks_def recorder_defaults_def)
  have "\<forall>x\<in>set [[0::real]]. \<not> is_loud recorder_defaults x" "is_loud recorder_defaults [1]"
    by (simp_all add: is_loud_def rms_def recorder_defaults_def)
  from utterance_is_slice [OF reads this] show ?thesis by (auto simp: recorder_defaults_def)
qed

section \<open>The transcript filter\<close>

lemma fold_max_ge: "(k::nat) \<le> fold max xs a \<longleftrightarrow> k \<le> a \<or> (\<exists>x\<in>set xs. k \<le> x)"
  by (induction xs arbitrary: a) (auto simp: le_max_iff_disj)

lemma most_common_ge: "0 < k \<Longrightarrow> k \<le> most_common ws \<longleftrightarrow> (\<exists>w. k \<le> count_list ws w)"
  by (auto simp: most_common_def fold_max_ge) (metis count_notin not_less)

text \<open>The scan has seen \<open>run\<close> copies of the previous token.\<close>

lemma repeats_iff:
  "run \<in> {1, 2} \<Longrightarrow> repeats run previous ws \<longleftrightarrow> (\<exists>w. sublist [w, w, w] (replicate run previous @ ws))"
proof (induction ws arbitrary: run previous)
  case Nil
  then show ?case by (auto simp: numeral_2_eq_2 sublist_Cons_right)
next
  case (Cons c ws)
  show ?case
  proof (cases "c = previous")
    case True
    with Cons.prems Cons.IH [of 2 c] show ?thesis
      by (auto simp: numeral_2_eq_2 sublist_Cons_right)
  next
    case False
    with Cons.prems Cons.IH [of 1 c] show ?thesis
      by (auto simp: numeral_2_eq_2 sublist_Cons_right)
  qed
qed

text \<open>
  The transcript filter refuses exactly the transcripts of at least three tokens in which some
  token occurs three times while at most half of the tokens are distinct, or the same token occurs
  three times in a row.
\<close>
theorem hallucination_filter_exact:
  "is_likely_hallucinated t \<longleftrightarrow>
     3 \<le> length (tokenize_transcript t)
     \<and> ((\<exists>w. 3 \<le> count_list (tokenize_transcript t) w)
          \<and> 2 * card (set (tokenize_transcript t)) \<le> length (tokenize_transcript t)
        \<or> (\<exists>w. sublist [w, w, w] (tokenize_transcript t)))"
proof -
  let ?ws = "tokenize_transcript t"
  have ratio: "real (length (remdups ?ws)) / real (length ?ws) \<le> 0.5 \<longleftrightarrow> 2 * card (set ?ws) \<le> length ?ws"
    if "3 \<le> length ?ws"
  proof -
    from that have "0 < real (length ?ws)" by linarith
    then have "real (length (remdups ?ws)) / real (length ?ws) \<le> 0.5
      \<longleftrightarrow> real (2 * card (set ?ws)) \<le> real (length ?ws)"
      by (simp add: pos_divide_le_eq length_remdups_card_conv) linarith
    then show ?thesis by (simp only: of_nat_le_iff)
  qed
  have scan: "repeats 1 (hd ?ws) (tl ?ws) \<longleftrightarrow> (\<exists>w. sublist [w, w, w] ?ws)" if "3 \<le> length ?ws"
  proof -
    from that have "?ws = hd ?ws # tl ?ws" by (cases ?ws) auto
    then have "replicate 1 (hd ?ws) @ tl ?ws = ?ws" by simp
    with repeats_iff [of 1 "hd ?ws" "tl ?ws"] show ?thesis by simp
  qed
  show ?thesis
    using ratio scan most_common_ge [of 3 ?ws] by (simp add: is_likely_hallucinated_def Let_def)
qed

section \<open>The keyword parser\<close>

definition mentions :: "utext list \<Rightarrow> utext \<Rightarrow> bool" where
  "mentions keywords n \<longleftrightarrow> (\<exists>k\<in>set keywords. sublist k n)"

lemma contains_any_iff: "contains_any n keywords \<longleftrightarrow> mentions keywords n"
  by (auto simp: contains_any_def mentions_def contains_iff list_ex_iff)

text \<open>The first tool of the table that is mentioned.\<close>

definition first_tool :: "string \<Rightarrow> utext \<Rightarrow> bool" where
  "first_tool tool n \<longleftrightarrow> map_option fst (List.find (\<lambda>(other, aliases). mentions aliases n) TOOL_ALIASES) = Some tool"

lemma match_tool_in_find:
  "match_tool_in table n =
    (case List.find (\<lambda>(other, aliases). mentions aliases n) table of None \<Rightarrow> [] | Some (tool, aliases) \<Rightarrow> tool)"
proof (induction table)
  case (Cons entry table)
  obtain i as where entry: "entry = (i, as)" by (cases entry)
  have "list_ex (\<lambda>a. contains a n) as \<longleftrightarrow> mentions as n"
    using contains_any_iff [of n as] by (simp add: contains_any_def)
  with Cons show ?case by (simp add: entry)
qed simp

lemma find_in_set: "List.find P xs = Some x \<Longrightarrow> x \<in> set xs"
  by (induction xs) (auto split: if_splits)

lemma match_tool_iff: "tool \<noteq> [] \<and> match_tool n = tool \<longleftrightarrow> first_tool tool n"
proof -
  have named: "fst entry \<noteq> []" if "List.find (\<lambda>(other, aliases). mentions aliases n) TOOL_ALIASES = Some entry" for entry
    using find_in_set [OF that] by (auto simp: TOOL_ALIASES_def)
  show ?thesis
    unfolding match_tool_def first_tool_def match_tool_in_find
    using named by (auto split: option.splits)
qed

text \<open>
  The keyword parser, in terms of what an utterance mentions. It orders a fetch or a return
  exactly when no cancel word occurs, a return word occurs (or a fetch word and no return word), the
  spanner and the socket are not named with each other's size, and a tool is mentioned; the tool is
  then the first of the table that is. A cancel word always wins.
\<close>
theorem parse_command_understands:
  fixes t :: utext
  defines "n \<equiv> u_lower (u_strip t)"
  shows "(parse_command t = parsed i tool c \<and> i \<in> {''fetch'', ''return''}
      \<longleftrightarrow> \<not> mentions CANCEL_KEYWORDS n
        \<and> (i = ''return'' \<and> mentions RETURN_KEYWORDS n
           \<or> i = ''fetch'' \<and> mentions FETCH_KEYWORDS n \<and> \<not> mentions RETURN_KEYWORDS n)
        \<and> \<not> (mentions SOCKET_NAME_KEYWORDS n \<and> mentions SPANNER_SIZE_KEYWORDS n)
        \<and> \<not> (mentions SPANNER_NAME_KEYWORDS n \<and> mentions SOCKET_SIZE_KEYWORDS n)
        \<and> first_tool tool n \<and> c = 0.65)
    \<and> (mentions CANCEL_KEYWORDS n \<longleftrightarrow> pc_intent_type (parse_command t) = ''cancel'')"
proof -
  have nonempty: "n \<noteq> []" if "mentions CANCEL_KEYWORDS n \<or> mentions RETURN_KEYWORDS n \<or> mentions FETCH_KEYWORDS n"
    using that by (auto simp: mentions_def CANCEL_KEYWORDS_def RETURN_KEYWORDS_def FETCH_KEYWORDS_def asc_def)
  note tools = match_tool_iff [of tool n, symmetric]
  show ?thesis
    using nonempty
    by (auto simp: parse_command_def Let_def contains_any_iff has_size_conflict_def parsed_def tools
        simp flip: n_def)
qed

section \<open>Gemma\<close>

lemma fold_dict_set_values:
  "map_of (fold (\<lambda>(k, v) d. dict_set k v d) kvs d) k = Some v \<Longrightarrow> (\<exists>k. (k, v) \<in> set kvs) \<or> map_of d k = Some v"
  by (induction kvs arbitrary: d) (fastforce split: if_splits)+

lemma alias_map_values: "map_of (build_tool_alias_map catalog) k = Some v \<Longrightarrow> v \<in> sp_tool_id ` set catalog"
  unfolding build_tool_alias_map_def by (drule fold_dict_set_values) auto

lemma normalize_tool_id_known:
  "normalize_tool_id (build_tool_alias_map catalog) (map sp_tool_id catalog) x = v \<Longrightarrow> v \<noteq> [] \<Longrightarrow>
   v \<in> sp_tool_id ` set catalog"
  by (auto simp: normalize_tool_id_def Let_def alias_map_values split: if_splits option.splits)

lemma parsed_order:
  assumes "parse_gemma_output shown read (build_tool_alias_map catalog) (map sp_tool_id catalog) loaded = Inr res"
  shows "0 \<le> ge_confidence res \<and> ge_confidence res \<le> 1 \<and> ge_intent_type res \<in> set VALID_GEMMA_INTENTS"
    and "ge_intent_type res \<in> {asc ''fetch'', asc ''return''} \<Longrightarrow> ge_tool_id res \<in> sp_tool_id ` set catalog"
    and "ge_intent_type res \<in> {asc ''cancel'', asc ''unknown''} \<Longrightarrow> ge_tool_id res = []"
proof -
  note split = option.splits json.splits sum.splits py_float.splits if_splits
  show "0 \<le> ge_confidence res \<and> ge_confidence res \<le> 1 \<and> ge_intent_type res \<in> set VALID_GEMMA_INTENTS"
    using assms by (auto simp: parse_gemma_output_def Let_def split: split)
  show "ge_tool_id res = []" if "ge_intent_type res \<in> {asc ''cancel'', asc ''unknown''}"
    using assms that by (auto simp: parse_gemma_output_def Let_def split: split)
  have other: "asc ''fetch'' \<notin> {asc ''cancel'', asc ''unknown''}" "asc ''return'' \<notin> {asc ''cancel'', asc ''unknown''}"
    by code_simp+
  show "ge_tool_id res \<in> sp_tool_id ` set catalog" if "ge_intent_type res \<in> {asc ''fetch'', asc ''return''}"
    using assms that other
    by (auto simp: parse_gemma_output_def Let_def dest!: normalize_tool_id_known [OF refl] split: split)
qed

lemma json_float_raises: "json_float read v = Inl FloatOverflow \<Longrightarrow> \<exists>i. v = JInt i \<and> FLOAT_LIMIT \<le> \<bar>i\<bar>"
  by (cases v) (auto split: if_splits option.splits)


text \<open>A confidence written \<open>true\<close> counts as one.\<close>

lemma true_is_certain: "json_float read (JBool True) = Inr (Fin 1)"
  by simp

section \<open>The intent node\<close>

definition acts :: "voice_intent \<Rightarrow> bool" where
  "acts i \<longleftrightarrow> vi_intent_type i \<in> {''fetch'', ''return''}"

definition gated :: "voice_node \<Rightarrow> bool" where
  "gated s \<longleftrightarrow> list_all acts (vn_pending s)
     \<and> map (\<lambda>i. (vi_intent_type i, vi_tool_id i)) (filter acts (vn_published s)) = vn_allowed s"

lemma gated_submit: "gated s \<Longrightarrow> gated (submit_intent up p u s)"
  by (auto simp: gated_def submit_intent_def publish_intent_def acts_def intent_of_def)

lemma gated_answer:
  assumes "gated s" "k < length (vn_pending s)"
  shows "gated (handle_feasibility k a s)"
proof -
  have "acts (vn_pending s ! k)" using assms by (simp add: gated_def list_all_length)
  moreover have "list_all acts (take k (vn_pending s) @ drop (Suc k) (vn_pending s))"
    using assms(1) by (auto simp: gated_def list_all_iff dest: in_set_takeD in_set_dropD)
  ultimately show ?thesis
    using assms(1)
    by (cases a) (auto simp: gated_def handle_feasibility_def Let_def publish_intent_def)
qed

lemma gated_step: "gated s \<Longrightarrow> voice_enabled ev s \<Longrightarrow> gated (voice_step cfg ev s)"
  by (cases ev)
    (auto simp: voice_step_def voice_enabled_def rule_handle_raw_text_def Let_def gated_submit gated_answer)

lemma gated_play: "voice_play cfg evs s = Some t \<Longrightarrow> gated s \<Longrightarrow> gated t"
  by (induction evs arbitrary: s) (auto simp: gated_step split: if_splits)


text \<open>Two commands whose answers come in the other order.\<close>

definition demo_voice :: "voice_event list" where
  "demo_voice =
     [RawText True (asc ''bring the spanner''), RawText True (asc ''RETURN the socket''),
      Answer 1 (AnswerIs True), Answer 0 (AnswerIs False)]"

definition open_mic :: voice_config where
  "open_mic = \<lparr>vc_require_wake_word = False, vc_wake_words = []\<rparr>"


section \<open>The speech node\<close>

text \<open>What the listening loop publishes: nothing said while one of its readings saw the robot move.\<close>

lemma listen_turn_published:
  "t \<in> set (listen_turn_outs cfg rej lt) \<Longrightarrow>
   \<not> lt_moving1 lt \<and> \<not> lt_moving2 lt \<and> \<not> lt_moving3 lt \<and> t \<noteq> [] \<and> (rej \<longrightarrow> \<not> is_likely_hallucinated t)"
  by (auto simp: listen_turn_outs_def publish_transcript_def should_reject_def Let_def
      split: if_splits option.splits)

lemma listen_loop_calm:
  "t \<in> set (listen_loop cfg rej turns) \<Longrightarrow>
   \<exists>lt\<in>set turns. \<not> lt_moving1 lt \<and> \<not> lt_moving2 lt \<and> \<not> lt_moving3 lt \<and> (rej \<longrightarrow> \<not> is_likely_hallucinated t)"
  by (induction turns) (auto dest: listen_turn_published)

section \<open>Evaluation\<close>

lemma evaluate_pairs_counts:
  "evaluate_pairs pairs (a, b, fs) = (a', b', fs') \<Longrightarrow>
   a' - a \<le> length pairs \<and> a \<le> a' \<and> b \<le> b' \<and> b' + length fs' = b + length fs + length pairs \<and> b' + a \<le> a' + b"
proof (induction pairs arbitrary: a b fs)
  case (Cons pr pairs)
  obtain ex p where "pr = (ex, p)" by (cases pr)
  with Cons.prems show ?case by (fastforce simp: Let_def dest!: Cons.IH split: if_splits)
qed simp

text \<open>Every wrong prediction is reported, and a tool error counts against the exact accuracy only.\<close>

lemma evaluation_counts:
  assumes "evaluate_predictions examples predictions target = Inr ev"
  shows "ev_exact_accuracy ev \<le> ev_intent_accuracy ev \<and> length (ev_failures ev) \<le> ev_total ev"
proof (cases "examples = []")
  case False
  obtain a b fs where run: "evaluate_pairs (zip examples predictions) (0, 0, []) = (a, b, fs)"
    by (cases "evaluate_pairs (zip examples predictions) (0, 0, [])") auto
  with evaluate_pairs_counts [OF run] assms False show ?thesis
    by (auto simp: evaluate_predictions_def Let_def divide_right_mono split: if_splits)
qed (use assms in \<open>auto simp: evaluate_predictions_def split: if_splits\<close>)

end
