(* ===== verification/VoiceToMotion.thy ===== *)
theory VoiceToMotion imports MotionToDb VoiceSafety begin

text \<open>
  The path of a spoken command: the rule-based intent node asks the database service
  (\<open>rule_intent_node.py\<close>, \<open>db_service_node.py\<close>) and publishes to the orchestrator
  (\<open>orchestrator_node.py\<close>), with the models of the three as they are.
\<close>

section \<open>From speech to the gate\<close>

definition answer_from_db :: "clock \<Rightarrow> voice_intent \<Rightarrow> repository \<Rightarrow> feasibility_answer \<times> repository" where
  "answer_from_db clk i r =
     (case handle_check_tool_feasibility working DEFAULT_OPERATOR_ID clk (vi_intent_type i) (vi_tool_id i) r of
        (Inl e, r') \<Rightarrow> (AnswerRaises, r') | (Inr res, r') \<Rightarrow> (AnswerIs (feasible res), r'))"

lemma answer_from_db_iff:
  assumes "id_ok (vi_tool_id i)" "vi_intent_type i \<in> {''fetch'', ''return''}"
  shows "fst (answer_from_db clk i r) = AnswerIs True \<longleftrightarrow>
    (\<exists>st. repo_status r (vi_tool_id i) = Some st \<and> gate_allows (vi_intent_type i) st)"
proof -
  have "fst (answer_from_db clk i r) = AnswerIs True \<longleftrightarrow> fst (repo_gate clk (vi_intent_type i) (vi_tool_id i) r)"
    by (auto simp: answer_from_db_def handle_check_tool_feasibility_def bind_op_def repo_gate_def
        split: prod.splits sum.splits)
  then show ?thesis using store.gate_iff [OF assms] by simp
qed

text \<open>Every tool the parser can name is an identifier the database takes as it is.\<close>

lemma parsed_tool_ok:
  assumes "parse_command t = parsed i tool c" "i \<in> {''fetch'', ''return''}"
  shows "id_ok tool"
proof -
  have "list_all (\<lambda>(tool, aliases). id_ok tool) TOOL_ALIASES" by code_simp
  moreover have "tool \<noteq> []" "match_tool (u_lower (u_strip t)) = tool"
    using assms by (auto simp: parse_command_def Let_def parsed_def split: if_splits)
  then have "first_tool tool (u_lower (u_strip t))" using match_tool_iff by blast
  then have "tool \<in> fst ` set TOOL_ALIASES" unfolding first_tool_def by (force dest: find_in_set)
  ultimately show ?thesis by (auto simp: list_all_iff)
qed

text \<open>An utterance heard by an idle node, and the database's answer to it.\<close>

definition hear :: "voice_config \<Rightarrow> clock \<Rightarrow> utext \<Rightarrow> repository \<Rightarrow> voice_node \<Rightarrow> voice_node" where
  "hear cfg clk data r s =
     (let s1 = rule_handle_raw_text cfg True data s in
      if vn_pending s1 = [] then s1
      else handle_feasibility 0 (fst (answer_from_db clk (vn_pending s1 ! 0) r)) s1)"

text \<open>
  C9: From speech to the gate: a heard command that passes the wake-word gate and that the parser
  takes for a fetch or a return of a tool is published exactly when the database has that tool in
  the state the intent needs (in its slot for a fetch, staged for a return), and nothing is published otherwise.
\<close>
theorem spoken_command_gated:
  assumes "vn_pending s = []" "wk_accepted gate" "gate = apply_wake_word_gate data (vc_wake_words cfg) (vc_require_wake_word cfg)"
    and "parse_command (wk_command gate) = parsed i tool c" "i \<in> {''fetch'', ''return''}"
  shows "vn_published (hear cfg clk data r s) =
    (if \<exists>st. repo_status r tool = Some st \<and> gate_allows i st
     then vn_published s @ [intent_of (parsed i tool c) (wk_command gate)] else vn_published s)"
proof -
  let ?i = "intent_of (parsed i tool c) (wk_command gate)"
  have pending: "rule_handle_raw_text cfg True data s = s\<lparr>vn_pending := [?i]\<rparr>"
    using assms by (auto simp: rule_handle_raw_text_def Let_def submit_intent_def parsed_def)
  have "vi_intent_type ?i = i" "vi_tool_id ?i = tool" by (simp_all add: intent_of_def parsed_def)
  then have answer: "fst (answer_from_db clk ?i r) = AnswerIs True \<longleftrightarrow>
      (\<exists>st. repo_status r tool = Some st \<and> gate_allows i st)"
    using answer_from_db_iff [of ?i clk r] parsed_tool_ok [OF assms(4,5)] assms(5) by simp
  show ?thesis
    using answer
    by (cases "fst (answer_from_db clk ?i r)")
      (auto simp: hear_def pending handle_feasibility_def publish_intent_def Let_def)
qed

lemma spoken_command_gated_witness:
  "vn_published (hear open_mic (clock_at 3) (asc ''Bring the spanner'') (fresh_repo empty_database) voice_node_init) = []"
proof -
  let ?gate = "apply_wake_word_gate (asc ''Bring the spanner'') (vc_wake_words open_mic) (vc_require_wake_word open_mic)"
  have accepted: "wk_accepted ?gate" by code_simp
  have understood: "parse_command (wk_command ?gate) = parsed ''fetch'' ''spanner_16mm'' 0.65" by code_simp
  have none: "repo_status (fresh_repo empty_database) ''spanner_16mm'' = None"
    by (simp add: repo_status_def fresh_repo_def empty_database_def status_of_tool_def find_tool_def)
  show ?thesis
    using spoken_command_gated [OF _ accepted refl understood, of voice_node_init "clock_at 3" "fresh_repo empty_database"]
    by (simp add: voice_node_init_def none)
qed

section \<open>Cancelling\<close>

text \<open>
  A spoken cancel stops nothing: the intent node publishes it, and the orchestrator, which has
  no branch for it, leaves every tick and its goal running but forgets the active tool. The updates
  of the motion that goes on then name no tool: the database refuses them all and keeps the record
  of the tool as it was before the motion.
\<close>
theorem cancel_only_forgets_tool:
  assumes "parse_command (wk_command gate) = parsed ''cancel'' [] c"
    and "wk_accepted gate" "gate = apply_wake_word_gate data (vc_wake_words cfg) (vc_require_wake_word cfg)"
    and "\<not> oc_moving orc" "oc_updates orc = []"
  shows "\<exists>i. vn_published (rule_handle_raw_text cfg up data s) = vn_published s @ [i]
    \<and> oc_ticks (on_intent lc (vi_intent_type i) (vi_tool_id i) orc)
        = oc_ticks orc @ [\<lparr>tk_intent = ''cancel'', tk_tool = [], tk_stage = Spawned\<rparr>]
    \<and> oc_goals (on_intent lc (vi_intent_type i) (vi_tool_id i) orc) = oc_goals orc
    \<and> record_motion clk fetch_feedback phases (on_intent lc (vi_intent_type i) (vi_tool_id i) orc) r = r
    \<and> record_motion clk return_feedback phases (on_intent lc (vi_intent_type i) (vi_tool_id i) orc) r = r"
proof -
  let ?i = "intent_of (parsed ''cancel'' [] c) (wk_command gate)"
  let ?o = "on_intent lc (vi_intent_type ?i) (vi_tool_id ?i) orc"
  have published: "vn_published (rule_handle_raw_text cfg up data s) = vn_published s @ [?i]"
    using assms(1-3) by (auto simp: rule_handle_raw_text_def Let_def submit_intent_def parsed_def publish_intent_def)
  have forgotten: "oc_active_tool ?o = []" "oc_updates ?o = []"
    using assms(4,5) by (simp_all add: on_intent_def intent_of_def parsed_def)
  have nameless: "oc_active_tool orc' = [] \<and> list_all (\<lambda>q. up_tool q = []) (oc_updates orc') \<Longrightarrow>
      oc_active_tool (fold f phases orc') = [] \<and> list_all (\<lambda>q. up_tool q = []) (oc_updates (fold f phases orc'))"
    if "f = fetch_feedback \<or> f = return_feedback" for f orc'
  proof (induction phases arbitrary: orc')
    case (Cons phase phases)
    have "oc_active_tool (f phase orc') = [] \<and> list_all (\<lambda>q. up_tool q = []) (oc_updates (f phase orc'))"
      using Cons.prems that by (auto simp: feedback_defs)
    with Cons.IH show ?case by simp
  qed simp
  have refused: "fold (\<lambda>q. apply_update (clk q) q) qs r = r" if "list_all (\<lambda>q. up_tool q = []) qs" for qs
    using that
  proof (induction qs)
    case (Cons q qs)
    have "update_request [] n e tr = None" for n e tr by (simp add: update_request_def)
    then have "apply_update (clk q) q r = r"
      using Cons.prems update_refused [of "[]" "up_status q" "up_event q" "up_track q" working DEFAULT_OPERATOR_ID
          "clk q" "up_notes q" r]
      by (auto simp: apply_update_def handle_update_tool_status_def bind_op_def)
    with Cons show ?case by simp
  qed simp
  have "record_motion clk f phases ?o r = r" if "f = fetch_feedback \<or> f = return_feedback" for f
    using nameless [OF that, of ?o] forgotten refused by (simp add: record_motion_def)
  moreover have "oc_ticks ?o = oc_ticks orc @ [\<lparr>tk_intent = ''cancel'', tk_tool = [], tk_stage = Spawned\<rparr>]"
    "oc_goals ?o = oc_goals orc"
    using assms(4) by (simp_all add: on_intent_def intent_of_def parsed_def)
  ultimately show ?thesis using published by blast
qed

lemma cancel_only_forgets_tool_witness:
  "\<exists>i. vn_published (rule_handle_raw_text open_mic True (asc ''stop'') voice_node_init) = [i]
    \<and> record_motion (\<lambda>_. clock_at 3) fetch_feedback [''pick''] (on_intent LogSent (vi_intent_type i) (vi_tool_id i)
        (orch_init\<lparr>oc_active_tool := ''hex'', oc_lock := True\<rparr>)) (fresh_repo (sample_db In_slot (utc_now 0)))
      = fresh_repo (sample_db In_slot (utc_now 0))"
proof -
  let ?gate = "apply_wake_word_gate (asc ''stop'') (vc_wake_words open_mic) (vc_require_wake_word open_mic)"
  let ?orc = "orch_init\<lparr>oc_active_tool := ''hex'', oc_lock := True\<rparr>"
  have accepted: "wk_accepted ?gate" by code_simp
  have understood: "parse_command (wk_command ?gate) = parsed ''cancel'' [] 0.9" by code_simp
  have orc: "\<not> oc_moving ?orc" "oc_updates ?orc = []" by (simp_all add: orch_init_def)
  from cancel_only_forgets_tool [OF understood accepted refl orc, of True voice_node_init LogSent "\<lambda>_. clock_at 3" "[''pick'']"
      "fresh_repo (sample_db In_slot (utc_now 0))"]
  show ?thesis by (simp add: voice_node_init_def) blast
qed

end
