(* ===== verification/PlaceOnHand.thy ===== *)
theory PlaceOnHand imports Prelude begin

text \<open>
  \<open>unit_actions/place_on_hand.py\<close>: lowers a tool onto an open hand and lets go. The calls the
  function makes on the arm and the gripper are the trace \<open>hand_call list\<close>; what the callbacks and
  the arm answer is the argument \<open>hand_env\<close>. The polls of \<open>is_hand_ready\<close> after the approach are a
  list of clock readings with the answer at that time; when the list ends before the loop does,
  the function has not returned yet (\<open>None\<close>).
\<close>

record hand_cfg =
  hc_approach :: real
  hc_lift :: real
  hc_velocity :: real
  hc_z_abort :: real
  hc_recheck :: real

definition default_hand_cfg :: hand_cfg where
  "default_hand_cfg = \<lparr>hc_approach = 1 / 10, hc_lift = 1 / 10, hc_velocity = 1 / 5,
     hc_z_abort = 1 / 20, hc_recheck = 2\<rparr>"

type_synonym orientation = "real \<times> real \<times> real \<times> real"

record hand_pose =
  hn_x :: real
  hn_y :: real
  hn_z :: real
  hn_quat :: orientation

datatype arm_pose = ArmPose (ap_position: "real \<times> real \<times> real") (ap_quat: orientation)

datatype hand_call = MoveToPose arm_pose real | GripperOpen

record hand_env =
  he_first :: "hand_pose option"
  he_ready :: bool
  he_approach_ok :: bool
  he_start :: real
  he_polls :: "(real \<times> bool) list"
  he_second :: "hand_pose option"
  he_place_ok :: bool
  he_third :: "hand_pose option"

fun recheck :: "real \<Rightarrow> (real \<times> bool) list \<Rightarrow> bool option" where
  "recheck deadline [] = None"
| "recheck deadline ((now, ready) # polls) =
     (if now < deadline then (if ready then Some True else recheck deadline polls) else Some False)"

text \<open>\<open>_lift\<close>: the same place, \<open>lift_height_m\<close> higher.\<close>

definition hand_lift :: "arm_pose \<Rightarrow> hand_cfg \<Rightarrow> hand_call" where
  "hand_lift p cfg =
     (case p of ArmPose (x, y, z) q \<Rightarrow> MoveToPose (ArmPose (x, y, z + hc_lift cfg) q) (hc_velocity cfg))"

definition place_on_hand :: "hand_env \<Rightarrow> hand_cfg option \<Rightarrow> (bool \<times> hand_call list) option" where
  "place_on_hand e c =
     (let cfg = (case c of None \<Rightarrow> default_hand_cfg | Some c \<Rightarrow> c) in
      case he_first e of None \<Rightarrow> Some (False, [])
      | Some hp \<Rightarrow>
        if \<not> he_ready e then Some (False, []) else
        let approach = MoveToPose (ArmPose (hn_x hp, hn_y hp, hn_z hp + hc_approach cfg) (hn_quat hp))
                         (hc_velocity cfg) in
        if \<not> he_approach_ok e then Some (False, [approach]) else
        (case recheck (he_start e + hc_recheck cfg) (he_polls e) of
           None \<Rightarrow> None
         | Some False \<Rightarrow> Some (False, [approach])
         | Some True \<Rightarrow>
            (case he_second e of None \<Rightarrow> Some (False, [approach])
             | Some hp2 \<Rightarrow>
               let z_ref = hn_z hp2;
                   place = ArmPose (hn_x hp2, hn_y hp2, z_ref) (hn_quat hp2);
                   down = MoveToPose place (hc_velocity cfg);
                   up = hand_lift place cfg in
               if \<not> he_place_ok e then Some (False, [approach, down, up])
               else if (case he_third e of None \<Rightarrow> False
                        | Some now \<Rightarrow> \<bar>hn_z now - z_ref\<bar> > hc_z_abort cfg)
               then Some (False, [approach, down, up])
               else Some (True, [approach, down, GripperOpen, up]))))"

section \<open>Properties\<close>

lemma recheck_SomeTrue:
  "recheck d ps = Some True \<Longrightarrow> \<exists>now. (now, True) \<in> set ps \<and> now < d"
  by (induction d ps rule: recheck.induct) (auto split: if_splits)

lemma recheck_returns: "\<exists>(now, ready)\<in>set ps. d \<le> now \<or> ready \<Longrightarrow> recheck d ps \<noteq> None"
  by (induction d ps rule: recheck.induct) auto



end
