(* ===== verification/GripperWire.thy ===== *)
theory GripperWire imports Prelude "HOL-Library.Word" begin

unbundle bit_operations_syntax

text \<open>
  The two ends of the gripper link of \<open>ros2_ws/src/motion/motion/gripper_node.py\<close>: Modbus RTU
  frames with their checksum, the binary packets exchanged over TCP, the payloads of commands,
  acknowledgements and states, and the program that runs on the robot controller
  (\<open>DRL_SERVER_CODE\<close>), which parses the packets and writes the frames to the serial line.
  Bytes are \<open>8 word\<close>s and the checksum register is a \<open>16 word\<close>; everything Python keeps as
  an \<open>int\<close> is an \<open>int\<close>, and \<open>struct.pack\<close> fails outside the range of its format.
\<close>

type_synonym byte = "8 word"
type_synonym bytes = "byte list"

datatype wire_error = Value_Error | Struct_Error

section \<open>Packing\<close>

definition pack_B :: "int \<Rightarrow> (wire_error, bytes) result" where
  "pack_B v = (if 0 \<le> v \<and> v < 256 then Inr [word_of_int v] else Inl Struct_Error)"

text \<open>The two bytes of a number below 65536, most significant first.\<close>

definition be16 :: "int \<Rightarrow> bytes" where
  "be16 v = [word_of_int (v div 256), word_of_int (v mod 256)]"

definition pack_H :: "int \<Rightarrow> (wire_error, bytes) result" where
  "pack_H v = (if 0 \<le> v \<and> v < 65536 then Inr (be16 v) else Inl Struct_Error)"

definition get16 :: "byte \<Rightarrow> byte \<Rightarrow> int" where
  "get16 hi lo = uint hi * 256 + uint lo"

text \<open>Concatenating results: the first failure is raised.\<close>

fun cat_results :: "(wire_error, bytes) result list \<Rightarrow> (wire_error, bytes) result" where
  "cat_results [] = Inr []"
| "cat_results (Inl e # rs) = Inl e"
| "cat_results (Inr b # rs) =
     (case cat_results rs of Inl e \<Rightarrow> Inl e | Inr bs \<Rightarrow> Inr (b @ bs))"

text \<open>\<open>bytes([..])\<close> of one number.\<close>

definition one_byte :: "int \<Rightarrow> (wire_error, bytes) result" where
  "one_byte v = (if 0 \<le> v \<and> v < 256 then Inr [word_of_int v] else Inl Value_Error)"

section \<open>Modbus RTU\<close>

definition crc_step :: "16 word \<Rightarrow> 16 word" where
  "crc_step c = (if bit c 0 then drop_bit 1 c XOR 0xA001 else drop_bit 1 c)"

definition crc_byte :: "16 word \<Rightarrow> byte \<Rightarrow> 16 word" where
  "crc_byte c b = (crc_step ^^ 8) (c XOR ucast b)"

definition crc_reg :: "bytes \<Rightarrow> 16 word" where
  "crc_reg data = foldl crc_byte 0xFFFF data"

text \<open>\<open>struct.pack("<H", crc)\<close>: least significant byte first.\<close>

definition crc16 :: "bytes \<Rightarrow> bytes" where
  "crc16 data = (let c = crc_reg data in [ucast c, ucast (drop_bit 8 c)])"

definition with_crc :: "(wire_error, bytes) result \<Rightarrow> (wire_error, bytes) result" where
  "with_crc r = (case r of Inl e \<Rightarrow> Inl e | Inr body \<Rightarrow> Inr (body @ crc16 body))"

definition fc06 :: "int \<Rightarrow> int \<Rightarrow> int \<Rightarrow> (wire_error, bytes) result" where
  "fc06 slave start v = with_crc (cat_results [one_byte slave, Inr [6], pack_H start, pack_H v])"

definition fc16 :: "int \<Rightarrow> int \<Rightarrow> int \<Rightarrow> int list \<Rightarrow> (wire_error, bytes) result" where
  "fc16 slave start num_regs vs =
     with_crc (cat_results ([one_byte slave, Inr [16], pack_H start, pack_H num_regs,
       pack_B (int (length vs) * 2)] @ map pack_H vs))"

definition fc03 :: "int \<Rightarrow> int \<Rightarrow> int \<Rightarrow> (wire_error, bytes) result" where
  "fc03 slave start count = with_crc (cat_results [one_byte slave, Inr [3], pack_H start, pack_H count])"

text \<open>The same frames as the controller builds them: the numbers are masked, not checked.\<close>

definition drl_fc :: "byte \<Rightarrow> int \<Rightarrow> int \<Rightarrow> int \<Rightarrow> (wire_error, bytes) result" where
  "drl_fc code slave addr v =
     (if 0 \<le> slave \<and> slave < 256
      then let pkt = [word_of_int slave, code] @ be16 (addr mod 65536) @ be16 (v mod 65536);
               c = crc_reg pkt
           in Inr (pkt @ [ucast (c AND 0xff), ucast (drop_bit 8 c AND 0xff)])
      else Inl Value_Error)"

definition drl_fc03 :: "int \<Rightarrow> int \<Rightarrow> int \<Rightarrow> (wire_error, bytes) result" where
  "drl_fc03 = drl_fc 3"

definition drl_fc06 :: "int \<Rightarrow> int \<Rightarrow> int \<Rightarrow> (wire_error, bytes) result" where
  "drl_fc06 = drl_fc 6"

section \<open>Packets\<close>

type_synonym packet = "int \<times> int \<times> bytes"

definition TCP_T_PING :: int where "TCP_T_PING = 1"
definition TCP_T_PONG :: int where "TCP_T_PONG = 2"
definition TCP_T_CMD :: int where "TCP_T_CMD = 3"
definition TCP_T_ACK :: int where "TCP_T_ACK = 4"
definition TCP_T_STATE :: int where "TCP_T_STATE = 5"
definition TCP_T_STOP :: int where "TCP_T_STOP = 6"

lemmas packet_types =
  TCP_T_PING_def TCP_T_PONG_def TCP_T_CMD_def TCP_T_ACK_def TCP_T_STATE_def TCP_T_STOP_def

text \<open>The magic \<open>GP\<close> and the version.\<close>

definition hdr_start :: bytes where "hdr_start = [0x47, 0x50, 1]"

text \<open>\<open>TCP_HDR.pack\<close> of a type, a sequence number already in range, and the payload length.\<close>

definition send_bin :: "int \<Rightarrow> int \<Rightarrow> bytes \<Rightarrow> (wire_error, bytes) result" where
  "send_bin mtype sq payload =
     cat_results [Inr hdr_start, Inr [word_of_int (mtype mod 256)], Inr (be16 (sq mod 65536)),
       pack_H (int (length payload)), Inr payload]"

definition hdr_ok :: "bytes \<Rightarrow> bool" where
  "hdr_ok buf \<longleftrightarrow> take 3 buf = hdr_start"

definition hdr_len :: "bytes \<Rightarrow> nat" where
  "hdr_len buf = nat (get16 (buf ! 6) (buf ! 7))"

definition hdr_packet :: "bytes \<Rightarrow> packet" where
  "hdr_packet buf = (uint (buf ! 3), get16 (buf ! 4) (buf ! 5), take (hdr_len buf) (drop 8 buf))"

text \<open>\<open>_bin_try_parse_one\<close>: at most one packet, and at most one byte of junk dropped.\<close>

definition bin_try_parse_one :: "bytes \<Rightarrow> packet option \<times> bytes" where
  "bin_try_parse_one buf =
     (if length buf < 8 then (None, buf)
      else if \<not> hdr_ok buf then (None, drop 1 buf)
      else if length buf < 8 + hdr_len buf then (None, buf)
      else (Some (hdr_packet buf), drop (8 + hdr_len buf) buf))"

text \<open>The loop of \<open>_recv_loop\<close>: parse until no packet is returned.\<close>

function pc_parse :: "bytes \<Rightarrow> packet list \<times> bytes" where
  "pc_parse buf =
     (case bin_try_parse_one buf of
        (None, rest) \<Rightarrow> ([], rest)
      | (Some p, rest) \<Rightarrow> (case pc_parse rest of (ps, r) \<Rightarrow> (p # ps, r)))"
  by pat_completeness auto
termination
  by (relation "measure length") (auto simp: bin_try_parse_one_def split: if_splits)

text \<open>The loop of \<open>_recv_bin_packets\<close>: junk is skipped byte by byte, without leaving the loop.\<close>

function drl_parse :: "bytes \<Rightarrow> packet list \<times> bytes" where
  "drl_parse buf =
     (if length buf < 8 then ([], buf)
      else if \<not> hdr_ok buf then drl_parse (drop 1 buf)
      else if length buf < 8 + hdr_len buf then ([], buf)
      else (case drl_parse (drop (8 + hdr_len buf) buf) of (ps, r) \<Rightarrow> (hdr_packet buf # ps, r)))"
  by pat_completeness auto
termination
  by (relation "measure length") auto

declare pc_parse.simps [simp del] drl_parse.simps [simp del]

text \<open>The length-prefixed messages of the JSON protocol, as both ends split them.\<close>

function json_split :: "bytes \<Rightarrow> bytes list \<times> bytes" where
  "json_split buf =
     (if length buf < 2 then ([], buf)
      else let n = nat (get16 (buf ! 0) (buf ! 1))
           in if length buf < 2 + n then ([], buf)
              else (case json_split (drop (2 + n) buf) of (ms, r) \<Rightarrow> (take n (drop 2 buf) # ms, r)))"
  by pat_completeness auto
termination
  by (relation "measure length") auto

declare json_split.simps [simp del]

section \<open>Payloads\<close>

text \<open>The payload of a command: the number of frames, then each frame after its length.\<close>

definition cmd_payload :: "bytes list \<Rightarrow> (wire_error, bytes) result" where
  "cmd_payload frames =
     cat_results (pack_H (int (length frames))
       # concat (map (\<lambda>b. [pack_H (int (length b)), Inr b]) frames))"

text \<open>
  The controller's loop over the frames of a command. \<open>wr\<close> is what \<open>flange_serial_write\<close> does
  with a frame: nothing, or it raises, and then the text of the exception. The result is the
  success flag, the error text, and the frames written.
\<close>

fun drl_frames :: "(bytes \<Rightarrow> bytes option) \<Rightarrow> nat \<Rightarrow> bytes \<Rightarrow> bool \<times> bytes \<times> bytes list" where
  "drl_frames wr 0 rest = (True, [], [])"
| "drl_frames wr (Suc n) rest =
     (if length rest < 2 then (False, [], [])
      else let flen = nat (get16 (rest ! 0) (rest ! 1)); after = drop 2 rest
           in if length after < flen then (False, [], [])
              else (case wr (take flen after) of
                  Some err \<Rightarrow> (False, err, [])
                | None \<Rightarrow> (case drl_frames wr n (drop flen after) of
                    (ok, err, fs) \<Rightarrow> (ok, err, take flen after # fs))))"

definition drl_command :: "(bytes \<Rightarrow> bytes option) \<Rightarrow> bytes \<Rightarrow> bool \<times> bytes \<times> bytes list" where
  "drl_command wr payload =
     (if length payload < 2 then (False, [], [])
      else drl_frames wr (nat (get16 (payload ! 0) (payload ! 1))) (drop 2 payload))"

text \<open>The payload of the acknowledgement: at most 200 bytes of the error.\<close>

definition ack_payload :: "bool \<Rightarrow> bytes \<Rightarrow> bytes" where
  "ack_payload ok err =
     (let eb = take 200 (if ok then [] else err)
      in [if ok then 1 else 0] @ be16 (int (length eb)) @ eb)"

definition ack_decode :: "bytes \<Rightarrow> bool \<times> bytes" where
  "ack_decode payload =
     (let ok = (payload \<noteq> [] \<and> payload ! 0 \<noteq> 0)
      in (ok, if \<not> ok \<and> length payload \<ge> 3
              then let elen = nat (get16 (payload ! 1) (payload ! 2))
                   in if elen > 0 \<and> length payload \<ge> 3 + elen then take elen (drop 3 payload) else []
              else []))"

text \<open>\<open>struct.pack(">hihHH", ..)\<close>; the last two numbers are masked to 16 bits.\<close>

definition pack_h :: "int \<Rightarrow> (wire_error, bytes) result" where
  "pack_h v = (if - 32768 \<le> v \<and> v < 32768 then Inr (be16 (v mod 65536)) else Inl Struct_Error)"

definition pack_i :: "int \<Rightarrow> (wire_error, bytes) result" where
  "pack_i v = (if - 2147483648 \<le> v \<and> v < 2147483648
     then Inr (be16 (v div 65536 mod 65536) @ be16 (v mod 65536)) else Inl Struct_Error)"

definition state_payload :: "int \<Rightarrow> int \<Rightarrow> int \<Rightarrow> int \<Rightarrow> int \<Rightarrow> bytes" where
  "state_payload cur pos gcur lo hi =
     (case cat_results [pack_h cur, pack_i pos, pack_h gcur, Inr (be16 (lo mod 65536)),
        Inr (be16 (hi mod 65536))] of Inl _ \<Rightarrow> [] | Inr b \<Rightarrow> b)"

definition two_compl :: "int \<Rightarrow> int \<Rightarrow> int" where
  "two_compl w v = (if v \<ge> 2 ^ nat (w - 1) then v - 2 ^ nat w else v)"

definition state_decode :: "bytes \<Rightarrow> (int \<times> int \<times> int \<times> int \<times> int) option" where
  "state_decode p =
     (if length p < 12 then None
      else Some (two_compl 16 (get16 (p ! 0) (p ! 1)),
                 two_compl 32 (get16 (p ! 2) (p ! 3) * 65536 + get16 (p ! 4) (p ! 5)),
                 two_compl 16 (get16 (p ! 6) (p ! 7)), get16 (p ! 8) (p ! 9), get16 (p ! 10) (p ! 11)))"

section \<open>The program on the controller\<close>

text \<open>
  The configuration the node substitutes into the program. Replies on the serial line are a list,
  one for each read after a request; when it runs out the reads return nothing.
\<close>

record drl_cfg =
  dc_cur_reg :: int
  dc_pos_reg :: int
  dc_pos_regs :: int

definition no_value :: int where "no_value = - 99999"

text \<open>A request that is repeated until its reply is accepted.\<close>

fun attempts :: "nat \<Rightarrow> (bytes \<Rightarrow> 'a option) \<Rightarrow> bytes list \<Rightarrow> 'a option \<times> bytes list" where
  "attempts 0 f rs = (None, rs)"
| "attempts (Suc n) f rs =
     (case f (case rs of [] \<Rightarrow> [] | r # _ \<Rightarrow> r) of
        Some v \<Rightarrow> (Some v, drop 1 rs)
      | None \<Rightarrow> attempts n f (drop 1 rs))"

definition or_no_value :: "int option \<times> bytes list \<Rightarrow> int \<times> bytes list" where
  "or_no_value r = (case r of (None, rs) \<Rightarrow> (no_value, rs) | (Some v, rs) \<Rightarrow> (v, rs))"

text \<open>A reply with one register, and one with two (least significant word first).\<close>

definition one_reg :: "bytes \<Rightarrow> int option" where
  "one_reg r = (if length r \<ge> 7 \<and> r ! 1 = 3 \<and> r ! 2 = 2 then Some (get16 (r ! 3) (r ! 4)) else None)"

definition two_regs :: "bytes \<Rightarrow> int option" where
  "two_regs r = (if length r \<ge> 9 \<and> r ! 1 = 3 \<and> r ! 2 = 4
     then Some (two_compl 32 (get16 (r ! 3) (r ! 4) + get16 (r ! 5) (r ! 6) * 65536)) else None)"

definition drl_read_cur :: "bytes list \<Rightarrow> int \<times> bytes list" where
  "drl_read_cur rs = or_no_value (attempts 3 (\<lambda>r. map_option (two_compl 16) (one_reg r)) rs)"

definition drl_read_reg16 :: "bytes list \<Rightarrow> int \<times> bytes list" where
  "drl_read_reg16 rs = or_no_value (attempts 2 one_reg rs)"

definition drl_read_pos :: "drl_cfg \<Rightarrow> bytes list \<Rightarrow> int \<times> bytes list" where
  "drl_read_pos cfg rs = or_no_value (attempts 3 (if dc_pos_regs cfg = 1 then one_reg else two_regs) rs)"

definition bulk_reg :: "int \<Rightarrow> int \<Rightarrow> bytes \<Rightarrow> int \<Rightarrow> int" where
  "bulk_reg start count data addr =
     (let idx = addr - start
      in if idx < 0 \<or> idx \<ge> count then 0
         else get16 (data ! (2 * nat idx)) (data ! (2 * nat idx + 1)))"

text \<open>\<open>_read_cur_pos_bulk\<close>: one request for the range that covers both, else the single reads.\<close>

definition drl_single :: "drl_cfg \<Rightarrow> bytes list \<Rightarrow> (int \<times> int) \<times> bytes list" where
  "drl_single cfg rs =
     (case drl_read_cur rs of (cur, rs1) \<Rightarrow>
        (case drl_read_pos cfg rs1 of (pos, rs2) \<Rightarrow> ((cur, pos), rs2)))"

definition bulk_decode :: "drl_cfg \<Rightarrow> int \<Rightarrow> int \<Rightarrow> bytes \<Rightarrow> (int \<times> int) option" where
  "bulk_decode cfg start count r =
     (if int (length r) < 5 + 2 * count \<or> r ! 1 \<noteq> 3 then None
      else let data = take (2 * nat count) (drop 3 r);
               cur = two_compl 16 (bulk_reg start count data (dc_cur_reg cfg));
               lo = bulk_reg start count data (dc_pos_reg cfg);
               hi = bulk_reg start count data (dc_pos_reg cfg + 1)
           in Some (cur, if max 1 (dc_pos_regs cfg) = 1 then lo else two_compl 32 (lo + hi * 65536)))"

definition drl_read_cur_pos :: "drl_cfg \<Rightarrow> bytes list \<Rightarrow> (int \<times> int) \<times> bytes list" where
  "drl_read_cur_pos cfg rs =
     (let regs = max 1 (dc_pos_regs cfg);
          start = min (dc_cur_reg cfg) (dc_pos_reg cfg);
          stop = max (dc_cur_reg cfg) (dc_pos_reg cfg + regs - 1);
          count = stop - start + 1
      in if count \<le> 0 \<or> count > 16 then drl_single cfg rs
         else (case attempts 3 (bulk_decode cfg start count) rs of
             (Some v, rs1) \<Rightarrow> (v, rs1) | (None, rs1) \<Rightarrow> drl_single cfg rs1))"

text \<open>One sample of the state stream: the payload sent, or nothing when a value is missing.\<close>

definition drl_sample :: "drl_cfg \<Rightarrow> bytes list \<Rightarrow> bytes option" where
  "drl_sample cfg rs =
     (case drl_read_cur_pos cfg rs of ((cur, pos), rs1) \<Rightarrow>
       if cur \<noteq> no_value \<and> pos \<noteq> no_value
       then (case drl_read_reg16 rs1 of (gcur, rs2) \<Rightarrow>
              (case drl_read_reg16 rs2 of (lo, rs3) \<Rightarrow>
                (case drl_read_reg16 rs3 of (hi, _) \<Rightarrow> Some (state_payload cur pos gcur lo hi))))
       else None)"

fun starts_with :: "bytes \<Rightarrow> bytes \<Rightarrow> bool" where
  "starts_with [] xs = True"
| "starts_with (p # ps) [] = False"
| "starts_with (p # ps) (x # xs) = (p = x \<and> starts_with ps xs)"

text \<open>\<open>b"STOP" in raw\<close>.\<close>

definition stop_text :: bytes where "stop_text = [0x53, 0x54, 0x4F, 0x50]"

fun has_stop :: "bytes \<Rightarrow> bool" where
  "has_stop [] = False"
| "has_stop (x # xs) = (starts_with stop_text (x # xs) \<or> has_stop xs)"

datatype drl_rx = Rx_Closed | Rx_Stop | Rx_Packets "packet list"

text \<open>\<open>_recv_bin_packets\<close>: what has arrived, in the chunks \<open>recv\<close> returned, and the buffer.\<close>

fun drl_recv :: "bytes list \<Rightarrow> bytes \<Rightarrow> drl_rx \<times> bytes" where
  "drl_recv [] buf = (case drl_parse buf of (ps, r) \<Rightarrow> (Rx_Packets ps, r))"
| "drl_recv (raw # raws) buf =
     (if raw = [] then (Rx_Closed, buf)
      else if has_stop raw then (Rx_Stop, buf)
      else drl_recv raws (buf @ raw))"

definition sent_or_nothing :: "(wire_error, bytes) result \<Rightarrow> bytes" where
  "sent_or_nothing r = (case r of Inl _ \<Rightarrow> [] | Inr b \<Rightarrow> b)"

text \<open>The packets of one round: the bytes sent back and the frames written.\<close>

fun drl_serve :: "(bytes \<Rightarrow> bytes option) \<Rightarrow> packet list \<Rightarrow> bytes \<times> bytes list" where
  "drl_serve wr [] = ([], [])"
| "drl_serve wr ((mtype, sq, payload) # ps) =
     (if mtype = TCP_T_PING
      then (case drl_serve wr ps of (out, fs) \<Rightarrow>
              (sent_or_nothing (send_bin TCP_T_PONG sq []) @ out, fs))
      else if mtype = TCP_T_STOP then ([], [])
      else if mtype \<noteq> TCP_T_CMD then drl_serve wr ps
      else (case drl_command wr payload of (ok, err, fs) \<Rightarrow>
              (case drl_serve wr ps of (out, fs') \<Rightarrow>
                (sent_or_nothing (send_bin TCP_T_ACK sq (ack_payload ok err)) @ out, fs @ fs'))))"

end
