(* ===== verification/GripperLink.thy ===== *)
theory GripperLink imports GripperWire begin

text \<open>
  What the gripper link guarantees: the checksum leaves no residue and detects every change
  confined to two neighbouring bytes; the parsers of the two ends return the packets that were
  sent, however TCP cuts the stream; commands, acknowledgements and states survive their encoding.
\<close>

section \<open>The checksum\<close>

lemma crc_step_bit:
  "bit (crc_step x) k \<longleftrightarrow> bit x (Suc k) \<noteq> (bit x 0 \<and> bit (0xA001 :: 16 word) k)"
  by (simp add: crc_step_def bit_xor_iff bit_drop_bit_eq del: bit_numeral_word_iff)

lemma crc_step_xor: "crc_step (a XOR b) = crc_step a XOR crc_step b"
proof (rule bit_word_eqI)
  fix k
  show "bit (crc_step (a XOR b)) k = bit (crc_step a XOR crc_step b) k"
    unfolding crc_step_bit bit_xor_iff
    by (cases "bit a 0"; cases "bit b 0"; cases "bit a (Suc k)"; cases "bit b (Suc k)") simp_all
qed

lemma crc_steps_xor: "(crc_step ^^ n) (a XOR b) = (crc_step ^^ n) a XOR (crc_step ^^ n) b"
proof (induction n)
  case (Suc n)
  have "(crc_step ^^ Suc n) (a XOR b) = crc_step ((crc_step ^^ n) (a XOR b))" by simp
  also have "\<dots> = crc_step ((crc_step ^^ n) a) XOR crc_step ((crc_step ^^ n) b)"
    unfolding Suc.IH by (rule crc_step_xor)
  finally show ?case by simp
qed simp

lemma crc_step_top: "bit (crc_step x) 15 \<longleftrightarrow> bit x 0"
proof -
  have "\<not> bit x 16" using bit_imp_le_length [of x 16] by auto
  moreover have "bit (0xA001 :: 16 word) 15" by code_simp
  ultimately show ?thesis unfolding crc_step_bit by simp
qed

text \<open>A register whose low bits are zero is only shifted.\<close>

lemma crc_steps_low:
  "(\<forall>k<n. \<not> bit x k) \<Longrightarrow> (crc_step ^^ n) x = drop_bit n x"
  by (induction n) (simp_all add: crc_step_def bit_drop_bit_eq)

text \<open>Conversely, if the top bits come out zero then the register was only shifted.\<close>

lemma crc_steps_top:
  "n \<le> 16 \<Longrightarrow> (\<forall>k. 16 - n \<le> k \<and> k < 16 \<longrightarrow> \<not> bit ((crc_step ^^ n) x) k)
    \<Longrightarrow> (crc_step ^^ n) x = drop_bit n x \<and> (\<forall>k<n. \<not> bit x k)"
proof (induction n)
  case (Suc n)
  let ?y = "(crc_step ^^ n) x"
  have "\<not> bit (crc_step ?y) 15" using Suc.prems by simp
  then have b0: "\<not> bit ?y 0" by (simp add: crc_step_top)
  then have s: "crc_step ?y = drop_bit 1 ?y" by (simp add: crc_step_def)
  have "\<not> bit ?y k" if "16 - n \<le> k" "k < 16" for k
  proof -
    have "16 - Suc n \<le> k - 1" "k - 1 < 16" "Suc (k - 1) = k" using that Suc.prems(1) by auto
    then show ?thesis using Suc.prems(2) s by (auto simp: bit_drop_bit_eq dest: spec [of _ "k - 1"])
  qed
  then have "?y = drop_bit n x" "\<forall>k<n. \<not> bit x k" using Suc.IH Suc.prems(1) by auto
  with b0 s show ?case by (auto simp: bit_drop_bit_eq less_Suc_eq)
qed simp

lemma ucast_byte_bits: "bit (ucast (b :: byte) :: 16 word) k \<longleftrightarrow> k < 8 \<and> bit b k"
  using bit_imp_le_length [of b k] by (auto simp: bit_ucast_iff)

lemma ucast_byte_0:
  assumes "(ucast (b :: byte) :: 16 word) = 0"
  shows "b = 0"
proof (rule bit_word_eqI)
  fix k assume "k < LENGTH(8)"
  then have "bit b k = bit (ucast b :: 16 word) k" by (simp add: ucast_byte_bits)
  then show "bit b k = bit (0 :: byte) k" unfolding assms by simp
qed

lemma crc_byte_diff: "crc_byte c b XOR crc_byte c' b' = (crc_step ^^ 8) ((c XOR c') XOR ucast (b XOR b'))"
proof -
  have "(c XOR c') XOR ucast (b XOR b') = (c XOR ucast b) XOR (c' XOR ucast b')"
    by (simp add: unsigned_xor_eq ac_simps)
  then show ?thesis by (simp add: crc_byte_def crc_steps_xor del: funpow.simps)
qed

lemma crc_steps_0: "(crc_step ^^ n) 0 = 0"
  by (induction n) (simp_all add: crc_step_def)

lemma crc_steps_8_eq_0: "(crc_step ^^ 8) x = 0 \<Longrightarrow> x = 0"
proof -
  assume z: "(crc_step ^^ 8) x = 0"
  then have "drop_bit 8 x = 0" "\<forall>k<8. \<not> bit x k" using crc_steps_top [of 8 x] by simp_all
  have "\<not> bit x k" for k
  proof (cases "k < 8")
    case False
    have "bit (drop_bit 8 x) (k - 8) = bit x k" using False by (simp add: bit_drop_bit_eq)
    then show ?thesis using \<open>drop_bit 8 x = 0\<close> by simp
  qed (use \<open>\<forall>k<8. \<not> bit x k\<close> in simp)
  then show ?thesis by (simp add: bit_eq_iff)
qed

lemma xor_eq_0: "(a :: 'a::len word) XOR b = 0 \<longleftrightarrow> a = b"
  by (auto simp: bit_eq_iff bit_xor_iff)

lemma crc_byte_left: "crc_byte c b = crc_byte c' b \<Longrightarrow> c = c'"
  using crc_byte_diff [of c b c' b] crc_steps_8_eq_0 [of "c XOR c'"]
  by (simp add: xor_eq_0 del: funpow.simps)

lemma crc_foldl_left: "foldl crc_byte c data = foldl crc_byte c' data \<Longrightarrow> c = c'"
  by (induction data arbitrary: c c') (auto dest: crc_byte_left)

text \<open>Two bytes are recovered from what they do to the register.\<close>

lemma crc_two_bytes:
  assumes "crc_byte (crc_byte c a) b = crc_byte (crc_byte c a') b'"
  shows "a = a' \<and> b = b'"
proof -
  let ?D = "crc_byte c a XOR crc_byte c a'"
  have D: "?D = (crc_step ^^ 8) (ucast (a XOR a'))" by (simp add: crc_byte_diff del: funpow.simps)
  have "(crc_step ^^ 8) (?D XOR ucast (b XOR b'))
      = crc_byte (crc_byte c a) b XOR crc_byte (crc_byte c a') b'"
    by (rule crc_byte_diff [symmetric])
  also have "\<dots> = 0" unfolding assms by (rule bit.xor_self)
  finally have "?D XOR ucast (b XOR b') = 0" by (rule crc_steps_8_eq_0)
  then have e: "(crc_step ^^ 8) (ucast (a XOR a')) = ucast (b XOR b')" using D by (simp add: xor_eq_0)
  then have "\<forall>k. 16 - 8 \<le> k \<and> k < 16 \<longrightarrow> \<not> bit ((crc_step ^^ 8) (ucast (a XOR a') :: 16 word)) k"
    by (simp add: ucast_byte_bits del: funpow.simps)
  from crc_steps_top [OF _ this] have
    t: "(crc_step ^^ 8) (ucast (a XOR a')) = drop_bit 8 (ucast (a XOR a') :: 16 word)"
      "\<forall>k<8. \<not> bit (ucast (a XOR a') :: 16 word) k" by simp_all
  have "(ucast (a XOR a') :: 16 word) = 0"
  proof (rule bit_word_eqI)
    fix k
    show "bit (ucast (a XOR a') :: 16 word) k = bit (0 :: 16 word) k"
      using t(2) by (cases "k < 8") (simp_all add: ucast_byte_bits)
  qed
  then have "a XOR a' = 0" by (rule ucast_byte_0)
  then have "(ucast (b XOR b') :: 16 word) = 0" using e by (simp add: crc_steps_0 del: funpow.simps)
  then have "b XOR b' = 0" by (rule ucast_byte_0)
  with \<open>a XOR a' = 0\<close> show ?thesis by (simp add: xor_eq_0)
qed

lemma crc_residue: "crc_reg (body @ crc16 body) = 0"
proof -
  let ?c = "crc_reg body"
  have 1: "crc_byte ?c (ucast ?c) = drop_bit 8 ?c"
  proof -
    have low: "\<forall>k<8. \<not> bit (?c XOR ucast (ucast ?c :: byte)) k"
      by (simp add: bit_xor_iff bit_ucast_iff)
    have "drop_bit 8 (?c XOR ucast (ucast ?c :: byte)) = drop_bit 8 ?c"
      by (rule bit_word_eqI) (auto simp: bit_drop_bit_eq bit_xor_iff ucast_byte_bits)
    with crc_steps_low [OF low] show ?thesis by (simp add: crc_byte_def del: funpow.simps)
  qed
  have 2: "crc_byte (drop_bit 8 ?c) (ucast (drop_bit 8 ?c)) = 0"
  proof -
    have "(ucast (ucast (drop_bit 8 ?c) :: byte) :: 16 word) = drop_bit 8 ?c"
      by (rule bit_word_eqI) (auto simp: bit_drop_bit_eq bit_ucast_iff dest: bit_imp_le_length)
    then show ?thesis by (simp add: crc_byte_def crc_steps_0 del: funpow.simps)
  qed
  have "crc_reg (body @ crc16 body) = crc_byte (crc_byte ?c (ucast ?c)) (ucast (drop_bit 8 ?c))"
    by (simp add: crc_reg_def crc16_def Let_def)
  then show ?thesis by (simp add: 1 2)
qed

section \<open>Numbers and bytes\<close>

lemma be16_length [simp]: "length (be16 v) = 2"
  by (simp add: be16_def)

lemma uint_byte [simp]: "0 \<le> v \<Longrightarrow> v < 256 \<Longrightarrow> uint (word_of_int v :: byte) = v"
  by (simp add: uint_word_of_int)

lemma get16_be16 [simp]:
  "0 \<le> v \<Longrightarrow> v < 65536 \<Longrightarrow> get16 (be16 v ! 0) (be16 v ! Suc 0) = v"
  by (simp add: get16_def be16_def)

lemma get16_bounds: "0 \<le> get16 a b \<and> get16 a b < 65536"
  using uint_lt2p [of a] uint_lt2p [of b] by (simp add: get16_def)

lemma cat_results_Inr [simp]: "cat_results (map Inr bs) = Inr (concat bs)"
  by (induction bs) simp_all

lemma cat_results_Inr_iff:
  "cat_results rs = Inr b \<longleftrightarrow> (\<exists>bs. rs = map Inr bs \<and> b = concat bs)"
proof
  show "cat_results rs = Inr b \<Longrightarrow> \<exists>bs. rs = map Inr bs \<and> b = concat bs"
  proof (induction rs arbitrary: b rule: cat_results.induct)
    case (3 x rs)
    then obtain c where "cat_results rs = Inr c" "b = x @ c" by (auto split: sum.splits)
    then obtain bs where "rs = map Inr bs" "c = concat bs" using 3(1) by blast
    then show ?case using \<open>b = x @ c\<close> by (intro exI [of _ "x # bs"]) simp
  qed auto
qed auto

section \<open>Splitting a stream\<close>

text \<open>
  A parser that is called after every receive with the buffered bytes, and keeps what is left.
  Its contract: parsing a stream in two parts gives what parsing it at once gives.
\<close>

fun feed :: "(bytes \<Rightarrow> 'm list \<times> bytes) \<Rightarrow> bytes list \<Rightarrow> bytes \<Rightarrow> 'm list \<times> bytes" where
  "feed p [] buf = ([], buf)"
| "feed p (c # cs) buf =
     (case p (buf @ c) of (ms, r) \<Rightarrow> (case feed p cs r of (ms', r') \<Rightarrow> (ms @ ms', r')))"

locale stream_parser =
  fixes parse :: "bytes \<Rightarrow> 'm list \<times> bytes"
  assumes parse_append:
    "parse (a @ b) = (case parse a of (ms, r) \<Rightarrow> (case parse (r @ b) of (ms', r') \<Rightarrow> (ms @ ms', r')))"
begin

lemma parse_rest: "parse (snd (parse a)) = ([], snd (parse a))"
  using parse_append [of a "[]"] by (auto split: prod.splits)

lemma feed_parse: "parse buf = ([], buf) \<Longrightarrow> feed parse cs buf = parse (buf @ concat cs)"
proof (induction cs arbitrary: buf)
  case (Cons c cs)
  obtain ms r where e: "parse (buf @ c) = (ms, r)" by (cases "parse (buf @ c)")
  then have "parse r = ([], r)" using parse_rest [of "buf @ c"] by simp
  from Cons.IH [OF this] have "feed parse cs r = parse (r @ concat cs)" .
  with e show ?case using parse_append [of "buf @ c" "concat cs"] by simp
qed simp

text \<open>The cuts of the stream do not matter.\<close>

lemma feed_concat: "parse [] = ([], []) \<Longrightarrow> feed parse cs [] = parse (concat cs)"
  using feed_parse [of "[]" cs] by simp

end

lemma hdr_append:
  "length a \<ge> 8 \<Longrightarrow> hdr_ok (a @ b) = hdr_ok a \<and> hdr_len (a @ b) = hdr_len a"
  by (simp add: hdr_ok_def hdr_len_def nth_append)

lemma hdr_packet_append:
  "length a \<ge> 8 + hdr_len a \<Longrightarrow> hdr_packet (a @ b) = hdr_packet a"
  using hdr_append [of a b] by (simp add: hdr_packet_def nth_append)

lemma drl_parse_append:
  "drl_parse (a @ b) =
     (case drl_parse a of (ms, r) \<Rightarrow> (case drl_parse (r @ b) of (ms', r') \<Rightarrow> (ms @ ms', r')))"
proof (induction a rule: drl_parse.induct)
  case (1 buf)
  consider (short) "length buf < 8" | (junk) "length buf \<ge> 8" "\<not> hdr_ok buf"
    | (part) "length buf \<ge> 8" "hdr_ok buf" "length buf < 8 + hdr_len buf"
    | (full) "hdr_ok buf" "length buf \<ge> 8 + hdr_len buf"
    by linarith
  then show ?case
  proof cases
    case short
    then have "drl_parse buf = ([], buf)" by (simp add: drl_parse.simps [of buf])
    then show ?thesis by simp
  next
    case part
    then have "drl_parse buf = ([], buf)" by (simp add: drl_parse.simps [of buf])
    then show ?thesis by simp
  next
    case junk
    then have "drl_parse buf = drl_parse (drop 1 buf)" "drl_parse (buf @ b) = drl_parse (drop 1 buf @ b)"
      using hdr_append [of buf b] by (simp_all add: drl_parse.simps [of buf] drl_parse.simps [of "buf @ b"])
    then show ?thesis using "1.IH"(1) junk by simp
  next
    case full
    then have h: "\<not> length buf < 8" "\<not> length buf < 8 + hdr_len buf" by simp_all
    have "drl_parse (buf @ b) = (case drl_parse (drop (8 + hdr_len buf) buf @ b) of
        (ps, r) \<Rightarrow> (hdr_packet buf # ps, r))"
      using full hdr_append [of buf b] hdr_packet_append [of buf b] by (simp add: drl_parse.simps [of "buf @ b"])
    moreover have "drl_parse buf = (case drl_parse (drop (8 + hdr_len buf) buf) of
        (ps, r) \<Rightarrow> (hdr_packet buf # ps, r))"
      using full by (simp add: drl_parse.simps [of buf])
    ultimately show ?thesis using "1.IH"(2) [OF h(1) _ h(2)] full(1) by (simp split: prod.splits)
  qed
qed

lemma drl_parse_Nil [simp]: "drl_parse [] = ([], [])"
  by (simp add: drl_parse.simps)

interpretation drl_stream: stream_parser drl_parse
  by unfold_locales (rule drl_parse_append)

lemma json_split_append:
  "json_split (a @ b) =
     (case json_split a of (ms, r) \<Rightarrow> (case json_split (r @ b) of (ms', r') \<Rightarrow> (ms @ ms', r')))"
proof (induction a rule: json_split.induct)
  case (1 buf)
  let ?n = "nat (get16 (buf ! 0) (buf ! 1))"
  show ?case
  proof (cases "length buf < 2 \<or> length buf < 2 + ?n")
    case True
    then have "json_split buf = ([], buf)" by (auto simp: json_split.simps [of buf] Let_def)
    then show ?thesis by simp
  next
    case False
    then have h: "\<not> length buf < 2" "\<not> length buf < 2 + ?n" by simp_all
    have "buf \<noteq> []" "Suc 0 < length buf" "0 < length buf" using h(1) by auto
    then have i: "(buf @ b) ! 0 = buf ! 0" "(buf @ b) ! 1 = buf ! 1" by (simp_all add: nth_append)
    have "json_split (buf @ b) = (case json_split (drop (2 + ?n) buf @ b) of
        (ps, r) \<Rightarrow> (take ?n (drop 2 buf) # ps, r))"
      unfolding json_split.simps [of "buf @ b"] i Let_def using h by simp
    moreover have "json_split buf = (case json_split (drop (2 + ?n) buf) of
        (ps, r) \<Rightarrow> (take ?n (drop 2 buf) # ps, r))"
      using h by (simp add: json_split.simps [of buf] Let_def)
    ultimately show ?thesis using "1.IH" [OF h(1) refl h(2)] by (simp split: prod.splits)
  qed
qed

interpretation json_stream: stream_parser json_split
  by unfold_locales (rule json_split_append)

section \<open>Packets\<close>

definition valid_packet :: "packet \<Rightarrow> bool" where
  "valid_packet p = (case p of (t, sq, payload) \<Rightarrow>
     0 \<le> t \<and> t < 256 \<and> 0 \<le> sq \<and> sq < 65536 \<and> length payload < 65536)"

definition packet_bytes :: "packet \<Rightarrow> bytes" where
  "packet_bytes p = (case p of (t, sq, payload) \<Rightarrow>
     hdr_start @ [word_of_int t] @ be16 sq @ be16 (int (length payload)) @ payload)"

lemma send_bin_valid: "valid_packet (t, sq, payload) \<Longrightarrow> send_bin t sq payload = Inr (packet_bytes (t, sq, payload))"
  by (simp add: send_bin_def packet_bytes_def valid_packet_def pack_H_def)

lemma send_bin_fails: "65536 \<le> length payload \<Longrightarrow> send_bin t sq payload = Inl Struct_Error"
  by (simp add: send_bin_def pack_H_def)

lemma packet_bytes_facts:
  assumes "valid_packet p"
  shows "hdr_ok (packet_bytes p @ rest)" "8 + hdr_len (packet_bytes p @ rest) = length (packet_bytes p)"
    "hdr_packet (packet_bytes p @ rest) = p"
proof -
  obtain t sq payload where p: "p = (t, sq, payload)" by (cases p)
  have w: "valid_packet (t, sq, payload)" using assms p by simp
  have d: "0 \<le> int (length payload) div 256" "int (length payload) div 256 < 256"
    "0 \<le> sq div 256" "sq div 256 < 256"
    using w by (auto simp: valid_packet_def)
  have l: "hdr_len (packet_bytes p @ rest) = length payload"
    using w uint_byte [OF d(1,2)] by (simp add: p packet_bytes_def hdr_start_def hdr_len_def valid_packet_def be16_def get16_def)
  show "hdr_ok (packet_bytes p @ rest)" by (simp add: p packet_bytes_def hdr_start_def hdr_ok_def)
  show "8 + hdr_len (packet_bytes p @ rest) = length (packet_bytes p)"
    unfolding l by (simp add: p packet_bytes_def hdr_start_def)
  show "hdr_packet (packet_bytes p @ rest) = p"
    unfolding hdr_packet_def l using w uint_byte [OF d(3,4)]
    by (simp add: p packet_bytes_def hdr_start_def valid_packet_def be16_def get16_def)
qed

lemma length_packet_bytes: "8 \<le> length (packet_bytes p)"
  by (cases p) (simp add: packet_bytes_def hdr_start_def)

lemma drl_parse_packet:
  assumes "valid_packet p"
  shows "drl_parse (packet_bytes p @ rest) = (case drl_parse rest of (ps, r) \<Rightarrow> (p # ps, r))"
  using packet_bytes_facts [OF assms, of rest] length_packet_bytes [of p]
  by (simp add: drl_parse.simps [of "packet_bytes p @ rest"])

lemma drl_parse_packets:
  "\<forall>p\<in>set ps. valid_packet p \<Longrightarrow>
    drl_parse (concat (map packet_bytes ps) @ rest) = (case drl_parse rest of (qs, r) \<Rightarrow> (ps @ qs, r))"
  by (induction ps) (simp_all add: drl_parse_packet split: prod.splits)

text \<open>On a prefix of a stream of packets the parser of the node does what the other one does.\<close>

definition in_sync :: "bytes \<Rightarrow> bool" where
  "in_sync a \<longleftrightarrow> (\<exists>tail ps. (\<forall>p\<in>set ps. valid_packet p) \<and> a @ tail = concat (map packet_bytes ps))"

lemma in_sync_cases:
  assumes "in_sync a" "8 \<le> length a"
  obtains p ps tail where "valid_packet p" "\<forall>p\<in>set ps. valid_packet p"
    "a @ tail = packet_bytes p @ concat (map packet_bytes ps)" "hdr_ok a"
    "8 + hdr_len a = length (packet_bytes p)"
proof -
  obtain tail ps where ps: "\<forall>p\<in>set ps. valid_packet p" "a @ tail = concat (map packet_bytes ps)"
    using assms(1) by (auto simp: in_sync_def)
  then obtain p qs where q: "ps = p # qs" using assms(2) by (cases ps) auto
  let ?rest = "concat (map packet_bytes qs)"
  have e: "a @ tail = packet_bytes p @ ?rest" and v: "valid_packet p" using ps q by simp_all
  have "hdr_ok (a @ tail)" "8 + hdr_len (a @ tail) = length (packet_bytes p)"
    unfolding e using packet_bytes_facts [OF v] by simp_all
  then show thesis using that [of p qs tail] v e ps q hdr_append [OF assms(2), of tail] by simp
qed

lemma pc_parse_sync: "in_sync a \<Longrightarrow> pc_parse a = drl_parse a \<and> in_sync (snd (drl_parse a))"
proof (induction a rule: drl_parse.induct)
  case (1 buf)
  show ?case
  proof (cases "length buf < 8")
    case True
    then show ?thesis using "1.prems"
      by (simp add: pc_parse.simps [of buf] drl_parse.simps [of buf] bin_try_parse_one_def)
  next
    case False
    then obtain p ps tail where f: "valid_packet p" "\<forall>p\<in>set ps. valid_packet p"
      "buf @ tail = packet_bytes p @ concat (map packet_bytes ps)" "hdr_ok buf"
      "8 + hdr_len buf = length (packet_bytes p)"
      using in_sync_cases [OF "1.prems"] by (metis not_less)
    show ?thesis
    proof (cases "length buf < 8 + hdr_len buf")
      case True
      then show ?thesis using False "1.prems" f
        by (simp add: pc_parse.simps [of buf] drl_parse.simps [of buf] bin_try_parse_one_def)
    next
      case full: False
      then have "drop (8 + hdr_len buf) buf @ tail = drop (8 + hdr_len buf) (buf @ tail)" by simp
      also have "\<dots> = concat (map packet_bytes ps)" unfolding f(3) f(5) by simp
      finally have "in_sync (drop (8 + hdr_len buf) buf)" using f(2) unfolding in_sync_def by blast
      from "1.IH"(2) [OF False _ full this] f(4) show ?thesis using False full
        by (simp add: pc_parse.simps [of buf] drl_parse.simps [of buf] bin_try_parse_one_def split_beta)
    qed
  qed
qed

lemma in_sync_appendD: "in_sync (a @ b) \<Longrightarrow> in_sync a"
  unfolding in_sync_def by (metis append.assoc)

lemma in_sync_rest:
  assumes "in_sync (a @ b)"
  shows "in_sync (snd (drl_parse a) @ b)"
  using assms
proof (induction a rule: drl_parse.induct)
  case (1 buf)
  show ?case
  proof (cases "length buf < 8")
    case False
    obtain p ps tail where f: "\<forall>p\<in>set ps. valid_packet p"
      "(buf @ b) @ tail = packet_bytes p @ concat (map packet_bytes ps)" "hdr_ok (buf @ b)"
      "8 + hdr_len (buf @ b) = length (packet_bytes p)"
      using in_sync_cases [OF "1.prems"] False by (metis length_append not_less trans_le_add1)
    have h: "hdr_ok buf" "hdr_len (buf @ b) = hdr_len buf" using f(3) hdr_append [of buf b] False by auto
    show ?thesis
    proof (cases "length buf < 8 + hdr_len buf")
      case True
      then show ?thesis using False "1.prems" h by (simp add: drl_parse.simps [of buf])
    next
      case full: False
      have "(drop (8 + hdr_len buf) buf @ b) @ tail = drop (8 + hdr_len buf) ((buf @ b) @ tail)"
        using full by simp
      also have "\<dots> = concat (map packet_bytes ps)" using f(4) h(2) unfolding f(2) by simp
      finally have "in_sync (drop (8 + hdr_len buf) buf @ b)" using f(1) unfolding in_sync_def by blast
      from "1.IH"(2) [OF False _ full this] show ?thesis using False full h
        by (simp add: drl_parse.simps [of buf] split_beta)
    qed
  qed (use "1.prems" in \<open>simp add: drl_parse.simps [of buf]\<close>)
qed

lemma feed_pc_sync: "in_sync (buf @ concat cs) \<Longrightarrow> feed pc_parse cs buf = feed drl_parse cs buf"
proof (induction cs arbitrary: buf)
  case (Cons c cs)
  have "in_sync ((buf @ c) @ concat cs)" using Cons.prems by simp
  from in_sync_rest [OF this] pc_parse_sync [OF in_sync_appendD [OF this]] show ?case
    using Cons.IH [of "snd (drl_parse (buf @ c))"] by (simp add: split_beta)
qed simp

text \<open>Junk: bytes none of which can start a packet.\<close>

lemma hdr_ok_first: "hdr_ok (x # xs) \<Longrightarrow> x = 0x47"
  by (simp add: hdr_ok_def hdr_start_def)

lemma drl_parse_junk: "0x47 \<notin> set junk \<Longrightarrow> 8 \<le> length rest \<Longrightarrow> drl_parse (junk @ rest) = drl_parse rest"
proof (induction junk)
  case (Cons x junk)
  then have "\<not> hdr_ok (x # junk @ rest)" using hdr_ok_first by auto
  with Cons show ?case by (simp add: drl_parse.simps [of "x # junk @ rest"])
qed simp

lemma pc_parse_junk:
  assumes "0x47 \<notin> set junk" "buf @ others = junk @ rest" "junk \<noteq> []"
  obtains k where "pc_parse buf = ([], drop k buf)" "k \<le> 1"
proof (cases "length buf < 8")
  case True
  then have "pc_parse buf = ([], drop 0 buf)" by (simp add: pc_parse.simps [of buf] bin_try_parse_one_def)
  then show thesis using that by blast
next
  case False
  then obtain x xs where b: "buf = x # xs" by (cases buf) auto
  with assms have "x \<noteq> 0x47" by (cases junk) auto
  then have "pc_parse buf = ([], drop 1 buf)"
    unfolding b using False b hdr_ok_first [of x xs]
    by (auto simp: pc_parse.simps [of "x # xs"] bin_try_parse_one_def)
  then show thesis using that by blast
qed

lemma feed_pc_junk:
  "0x47 \<notin> set junk \<Longrightarrow> buf @ concat cs = junk @ rest \<Longrightarrow> length cs \<le> length junk \<Longrightarrow>
    fst (feed pc_parse cs buf) = []"
proof (induction cs arbitrary: buf junk)
  case (Cons c cs)
  have e: "(buf @ c) @ concat cs = junk @ rest" "junk \<noteq> []" using Cons.prems by auto
  from pc_parse_junk [OF Cons.prems(1) e] obtain k where
    k: "pc_parse (buf @ c) = ([], drop k (buf @ c))" "k \<le> 1" by blast
  show ?case
  proof (cases "k \<le> length (buf @ c)")
    case True
    have "drop k (buf @ c) @ concat cs = drop k ((buf @ c) @ concat cs)" using True by simp
    also have "\<dots> = drop k junk @ rest" using k(2) e by (cases junk; cases k) auto
    finally have "fst (feed pc_parse cs (drop k (buf @ c))) = []"
      by (intro Cons.IH [of "drop k junk"]) (use Cons.prems k(2) in \<open>auto dest: in_set_dropD\<close>)
    then show ?thesis using k by (simp add: split_beta)
  next
    case False
    then have b: "buf @ c = []" using k(2) by (cases "buf @ c") auto
    have "pc_parse [] = ([], [])" by (simp add: pc_parse.simps bin_try_parse_one_def)
    moreover have "fst (feed pc_parse cs []) = []"
      by (rule Cons.IH [of junk]) (use Cons.prems b in auto)
    ultimately show ?thesis using b by (simp add: split_beta)
  qed
qed simp

section \<open>Commands, acknowledgements, states\<close>

definition frame_part :: "bytes \<Rightarrow> bytes" where
  "frame_part b = be16 (int (length b)) @ b"

lemma pack_H_length:
  "pack_H (int (length b)) = (if length b < 65536 then Inr (be16 (int (length b))) else Inl Struct_Error)"
  by (simp add: pack_H_def)

definition frame_results :: "bytes list \<Rightarrow> (wire_error, bytes) result list" where
  "frame_results fs = concat (map (\<lambda>b. [pack_H (int (length b)), Inr b]) fs)"

lemma frame_results_simps [simp]:
  "frame_results [] = []" "frame_results (b # fs) = pack_H (int (length b)) # Inr b # frame_results fs"
  by (simp_all add: frame_results_def)

lemma concat_frames:
  "\<forall>b\<in>set fs. length b < 65536 \<Longrightarrow> cat_results (frame_results fs) = Inr (concat (map frame_part fs))"
  by (induction fs) (auto simp: frame_part_def pack_H_length)

lemma frames_bad:
  "\<exists>b\<in>set fs. 65536 \<le> length b \<Longrightarrow> cat_results (frame_results fs) \<noteq> Inr x"
  by (induction fs arbitrary: x) (auto simp: pack_H_length split: sum.splits)

lemma cmd_payload_iff:
  "cmd_payload fs = Inr p \<longleftrightarrow>
     length fs < 65536 \<and> (\<forall>b\<in>set fs. length b < 65536)
     \<and> p = be16 (int (length fs)) @ concat (map frame_part fs)"
proof -
  have e: "cmd_payload fs = (if length fs < 65536
      then case cat_results (frame_results fs) of Inl e \<Rightarrow> Inl e
        | Inr b \<Rightarrow> Inr (be16 (int (length fs)) @ b) else Inl Struct_Error)"
    by (simp add: cmd_payload_def frame_results_def pack_H_def)
  show ?thesis
  proof (cases "\<forall>b\<in>set fs. length b < 65536")
    case True
    then show ?thesis by (auto simp: e concat_frames)
  next
    case False
    then have "\<exists>b\<in>set fs. 65536 \<le> length b" by (auto simp: not_less)
    from frames_bad [OF this] False show ?thesis by (auto simp: e split: sum.splits)
  qed
qed

text \<open>What the controller does with a list of frames: it stops at the first write that raises.\<close>

definition written :: "(bytes \<Rightarrow> bytes option) \<Rightarrow> bytes list \<Rightarrow> bool \<times> bytes \<times> bytes list" where
  "written wr fs =
     (let good = takeWhile (\<lambda>f. wr f = None) fs
      in if good = fs then (True, [], fs) else (False, the (wr (fs ! length good)), good))"

lemma written_Cons:
  "written wr (f # fs) = (case wr f of Some err \<Rightarrow> (False, err, [])
     | None \<Rightarrow> (case written wr fs of (ok, err, ws) \<Rightarrow> (ok, err, f # ws)))"
  by (simp add: written_def Let_def split: option.splits)

lemma frame_part_facts:
  assumes "length b < 65536"
  shows "nat (get16 ((frame_part b @ rest) ! 0) ((frame_part b @ rest) ! Suc 0)) = length b"
    "drop 2 (frame_part b @ rest) = b @ rest" "2 \<le> length (frame_part b @ rest)"
proof -
  have "int (length b) div 256 < 256" using assms by simp
  from uint_byte [OF _ this] assms
  show "nat (get16 ((frame_part b @ rest) ! 0) ((frame_part b @ rest) ! Suc 0)) = length b"
    by (simp add: frame_part_def be16_def get16_def)
qed (simp_all add: frame_part_def be16_def)

lemma drl_frames_Cons:
  assumes "length b < 65536"
  shows "drl_frames wr (Suc n) (frame_part b @ rest) = (case wr b of Some err \<Rightarrow> (False, err, [])
     | None \<Rightarrow> (case drl_frames wr n rest of (ok, err, ws) \<Rightarrow> (ok, err, b # ws)))"
proof -
  note f = frame_part_facts [OF assms, of rest]
  have "\<not> length (frame_part b @ rest) < 2" using f(3) by simp
  moreover have "take (length b) (b @ rest) = b" "drop (length b) (b @ rest) = rest"
    "\<not> length (b @ rest) < length b" by simp_all
  ultimately show ?thesis
    unfolding drl_frames.simps Let_def One_nat_def f(1,2) by (simp only: if_False)
qed

declare drl_frames.simps(2) [simp del]

lemma drl_frames_roundtrip:
  "\<forall>b\<in>set fs. length b < 65536 \<Longrightarrow>
    drl_frames wr (length fs) (concat (map frame_part fs)) = written wr fs"
  by (induction fs) (simp_all add: written_def [of wr "[]"] drl_frames_Cons written_Cons split: option.splits)

text \<open>A payload that was cut short is refused, after writing a proper beginning of the frames.\<close>

lemma drl_frames_truncated:
  "\<forall>b\<in>set fs. length b < 65536 \<Longrightarrow> k < length (concat (map frame_part fs)) \<Longrightarrow>
    \<not> fst (drl_frames wr (length fs) (take k (concat (map frame_part fs))))
    \<and> (\<exists>n. snd (snd (drl_frames wr (length fs) (take k (concat (map frame_part fs))))) = take n fs)"
proof (induction fs arbitrary: k)
  case (Cons b fs)
  let ?rest = "concat (map frame_part fs)"
  have b: "length b < 65536" using Cons.prems by simp
  have t0: "\<exists>n. [] = take n (b # fs)" by (rule exI [of _ 0]) simp
  consider "k < 2" | "2 \<le> k" "k < 2 + length b" | "2 + length b \<le> k" by linarith
  then show ?case
  proof cases
    case 1
    then have "length (take k (concat (map frame_part (b # fs)))) < 2" by simp
    then show ?thesis using t0 by (simp add: drl_frames.simps(2) del: take_append length_take list.map concat.simps)
  next
    case 2
    have tk: "take k (frame_part b @ ?rest) = be16 (int (length b)) @ take (k - 2) b"
      using 2 by (simp add: frame_part_def)
    have l: "nat (get16 (take k (frame_part b @ ?rest) ! 0) (take k (frame_part b @ ?rest) ! Suc 0)) = length b"
      using frame_part_facts(1) [OF b, of ?rest] 2 by (simp del: take_append)
    have "k - 2 < length b" using 2 by linarith
    then show ?thesis using 2 l tk t0 by (simp add: drl_frames.simps(2) Let_def)
  next
    case 3
    define j where "j = k - (2 + length b)"
    have fl: "length (frame_part b) = 2 + length b" by (simp add: frame_part_def)
    have tk: "take k (frame_part b @ ?rest) = frame_part b @ take j ?rest" using 3 fl by (simp add: j_def)
    have j: "j < length ?rest" using Cons.prems(2) 3 fl by (simp add: j_def)
    obtain n where n: "\<not> fst (drl_frames wr (length fs) (take j ?rest))"
      "snd (snd (drl_frames wr (length fs) (take j ?rest))) = take n fs"
      using Cons.IH [of j] Cons.prems(1) j by auto
    have "drl_frames wr (length (b # fs)) (take k (concat (map frame_part (b # fs)))) =
        (case wr b of Some err \<Rightarrow> (False, err, [])
         | None \<Rightarrow> (case drl_frames wr (length fs) (take j ?rest) of (ok, err, ws) \<Rightarrow> (ok, err, b # ws)))"
      by (simp only: list.map concat.simps tk length_Cons drl_frames_Cons [OF b])
    then show ?thesis using n t0 by (auto split: option.splits prod.splits intro: exI [of _ "Suc n"])
  qed
qed simp

lemma ack_decode_error:
  assumes "length eb < 256"
  shows "ack_decode (0 # be16 (int (length eb)) @ eb) = (False, eb)"
proof -
  let ?p = "0 # be16 (int (length eb)) @ eb"
  have "get16 (be16 (int (length eb)) ! 0) (be16 (int (length eb)) ! Suc 0) = int (length eb)"
    using assms by simp
  then have g: "get16 (?p ! 1) (?p ! 2) = int (length eb)" by (simp add: be16_def)
  have d: "drop 3 ?p = eb" "3 + length eb = length ?p" "?p \<noteq> []" "?p ! 0 = 0" by (simp_all add: be16_def)
  show ?thesis unfolding ack_decode_def g d(1) Let_def using d by (cases eb) simp_all
qed

lemma ack_roundtrip: "ack_decode (ack_payload ok err) = (ok, if ok then [] else take 200 err)"
proof (cases ok)
  case True
  then show ?thesis by (simp add: ack_payload_def ack_decode_def Let_def)
next
  case False
  have "length (take 200 err) < 256" by simp
  from ack_decode_error [OF this] False show ?thesis by (simp add: ack_payload_def Let_def del: length_take)
qed

lemma get16_word [simp]:
  "0 \<le> v \<Longrightarrow> v < 65536 \<Longrightarrow> get16 (word_of_int (v div 256)) (word_of_int (v mod 256)) = v"
  by (simp add: get16_def)

lemma mod_wrap:
  assumes "- n \<le> v" "v < (n :: int)"
  shows "v mod (2 * n) = (if 0 \<le> v then v else v + 2 * n)"
proof (cases "0 \<le> v")
  case False
  have "v mod (2 * n) = (v + 2 * n) mod (2 * n)" by simp
  also have "\<dots> = v + 2 * n" using assms False by (intro mod_pos_pos_trivial) auto
  finally show ?thesis using False by simp
qed (use assms in auto)

lemma two_compl_16 [simp]: "- 32768 \<le> v \<Longrightarrow> v < 32768 \<Longrightarrow> two_compl 16 (v mod 65536) = v"
  using mod_wrap [of 32768 v] by (simp add: two_compl_def)

lemma two_compl_32 [simp]:
  "- 2147483648 \<le> v \<Longrightarrow> v < 2147483648 \<Longrightarrow>
    two_compl 32 (v div 65536 mod 65536 * 65536 + v mod 65536) = v"
proof -
  assume v: "- 2147483648 \<le> v" "v < 2147483648"
  have "v div 65536 mod 65536 * 65536 + v mod 65536 = v mod 4294967296"
    using zmod_zmult2_eq [of 65536 v 65536] by simp
  then show ?thesis using v mod_wrap [of 2147483648 v] by (simp add: two_compl_def)
qed

lemma state_payload_ok:
  assumes "- 32768 \<le> cur" "cur < 32768" "- 2147483648 \<le> pos" "pos < 2147483648"
    "- 32768 \<le> gcur" "gcur < 32768"
  shows "state_decode (state_payload cur pos gcur lo hi) = Some (cur, pos, gcur, lo mod 65536, hi mod 65536)"
  using assms by (simp add: state_payload_def pack_h_def pack_i_def be16_def state_decode_def)

lemma state_payload_lost:
  "gcur < - 32768 \<or> 32768 \<le> gcur \<Longrightarrow> state_payload cur pos gcur lo hi = []"
  by (auto simp: state_payload_def pack_h_def pack_i_def)

lemma signed_16_bounds: "0 \<le> v \<Longrightarrow> v < 65536 \<Longrightarrow> - 32768 \<le> two_compl 16 v \<and> two_compl 16 v < 32768"
  by (simp add: two_compl_def)

lemma signed_32_bounds:
  "0 \<le> v \<Longrightarrow> v < 4294967296 \<Longrightarrow> - 2147483648 \<le> two_compl 32 v \<and> two_compl 32 v < 2147483648"
  by (simp add: two_compl_def)

lemma attempts_Some: "attempts n f rs = (Some v, rs') \<Longrightarrow> \<exists>r. f r = Some v"
  by (induction n f rs rule: attempts.induct) (auto split: option.splits)

definition in_int16 :: "int \<Rightarrow> bool" where "in_int16 v \<longleftrightarrow> - 32768 \<le> v \<and> v < 32768"
definition in_int32 :: "int \<Rightarrow> bool" where "in_int32 v \<longleftrightarrow> - 2147483648 \<le> v \<and> v < 2147483648"

lemma or_no_value_cases:
  assumes "or_no_value (attempts n f rs) = (v, rs')" "\<And>r x. f r = Some x \<Longrightarrow> P x"
  shows "v = no_value \<or> P v"
  using assms attempts_Some [of n f rs v rs'] by (auto simp: or_no_value_def split: prod.splits option.splits)

lemma bulk_reg_bounds: "0 \<le> bulk_reg start count data addr \<and> bulk_reg start count data addr < 65536"
  using get16_bounds by (simp add: bulk_reg_def Let_def)

lemma bulk_reg_int32: "in_int32 (bulk_reg start count data addr)"
  using bulk_reg_bounds [of start count data addr] by (simp add: in_int32_def)

lemma regs_32: "0 \<le> a \<Longrightarrow> a < 65536 \<Longrightarrow> 0 \<le> b \<Longrightarrow> b < 65536 \<Longrightarrow> in_int32 (two_compl 32 (a + b * 65536))"
  unfolding in_int32_def by (rule signed_32_bounds) simp_all

lemma drl_read_cur_bounds: "drl_read_cur rs = (v, rs') \<Longrightarrow> v = no_value \<or> in_int16 v"
  unfolding drl_read_cur_def
  by (erule or_no_value_cases)
    (use get16_bounds signed_16_bounds in \<open>auto simp: one_reg_def in_int16_def split: if_splits\<close>)

lemma drl_read_pos_bounds: "drl_read_pos cfg rs = (v, rs') \<Longrightarrow> v = no_value \<or> in_int32 v"
  unfolding drl_read_pos_def
proof (erule or_no_value_cases)
  fix r x
  assume "(if dc_pos_regs cfg = 1 then one_reg else two_regs) r = Some x"
  then show "in_int32 x"
    using get16_bounds [of "r ! 3" "r ! 4"] get16_bounds [of "r ! 5" "r ! 6"]
      regs_32 [of "get16 (r ! 3) (r ! 4)" "get16 (r ! 5) (r ! 6)"]
    by (auto simp: one_reg_def two_regs_def in_int32_def split: if_splits)
qed

lemma drl_read_reg16_bounds: "drl_read_reg16 rs = (v, rs') \<Longrightarrow> v = no_value \<or> 0 \<le> v \<and> v < 65536"
  unfolding drl_read_reg16_def
  by (erule or_no_value_cases) (use get16_bounds in \<open>auto simp: one_reg_def split: if_splits\<close>)

lemma drl_single_bounds:
  "drl_single cfg rs = ((c, p), rs') \<Longrightarrow> (c = no_value \<or> in_int16 c) \<and> (p = no_value \<or> in_int32 p)"
  using drl_read_cur_bounds [of rs] drl_read_pos_bounds [of cfg]
  by (auto simp: drl_single_def split: prod.splits)

lemma bulk_decode_bounds: "bulk_decode cfg start count r = Some (c, p) \<Longrightarrow> in_int16 c \<and> in_int32 p"
  using bulk_reg_bounds signed_16_bounds regs_32 bulk_reg_int32
  by (auto simp: bulk_decode_def Let_def in_int16_def split: if_splits)

lemma drl_read_cur_pos_bounds:
  assumes "drl_read_cur_pos cfg rs = ((c, p), rs')"
  shows "(c = no_value \<or> in_int16 c) \<and> (p = no_value \<or> in_int32 p)"
proof -
  have "(\<exists>start count r. bulk_decode cfg start count r = Some (c, p)) \<or> (\<exists>rs. drl_single cfg rs = ((c, p), rs'))"
    using assms unfolding drl_read_cur_pos_def Let_def
    by (simp split: if_splits prod.splits option.splits; blast dest: attempts_Some)
  then show ?thesis using bulk_decode_bounds drl_single_bounds by blast
qed

section \<open>Properties\<close>

lemma with_crc_Inr: "with_crc r = Inr f \<Longrightarrow> \<exists>body. f = body @ crc16 body"
  by (auto simp: with_crc_def split: sum.splits)

text \<open>
  C24: The checksum of every Modbus frame the node builds leaves no residue, and any change that
  is confined to two neighbouring bytes of the frame leaves one, so the gripper refuses it.
\<close>

theorem frame_change_detected:
  assumes "fc06 slave start v = Inr f \<or> fc03 slave start v = Inr f \<or> fc16 slave start v vs = Inr f"
    and "f = pre @ [a, b] @ post" and "(a', b') \<noteq> (a, b)"
  shows "crc_reg f = 0 \<and> crc_reg (pre @ [a', b'] @ post) \<noteq> 0"
proof -
  have f: "crc_reg f = 0"
    using assms(1) with_crc_Inr crc_residue by (auto simp: fc06_def fc03_def fc16_def)
  moreover have "crc_reg (pre @ [a', b'] @ post) \<noteq> crc_reg (pre @ [a, b] @ post)"
    using crc_foldl_left [of _ post] crc_two_bytes [of "foldl crc_byte 0xFFFF pre" a' b' a b] assms(3)
    unfolding crc_reg_def by auto
  ultimately show ?thesis unfolding assms(2) by simp
qed

lemma fc_cases:
  "with_crc (cat_results [one_byte slave, Inr [code], pack_H start, pack_H v]) =
     (if \<not> (0 \<le> slave \<and> slave < 256) then Inl Value_Error
      else if 0 \<le> start \<and> start < 65536 \<and> 0 \<le> v \<and> v < 65536 then drl_fc code slave start v
      else Inl Struct_Error)"
proof -
  have b: "ucast (c AND 0xff :: 16 word) = (ucast c :: byte)" for c
  proof -
    have m: "(0xff :: 16 word) = mask 8" by (simp add: mask_eq_exp_minus_1)
    show ?thesis unfolding m by (intro bit_word_eqI) (simp add: bit_ucast_iff bit_and_iff bit_mask_iff)
  qed
  show ?thesis by (simp add: with_crc_def one_byte_def pack_H_def drl_fc_def crc16_def Let_def b)
qed

text \<open>
  The node and the program on the controller build the same read and write frames, for every
  slave, register and value in range; out of range the node raises, the controller never does
  (for a valid slave) but sends the number modulo 65536.
\<close>

theorem builders_agree:
  "fc06 slave start v =
     (if \<not> (0 \<le> slave \<and> slave < 256) then Inl Value_Error
      else if 0 \<le> start \<and> start < 65536 \<and> 0 \<le> v \<and> v < 65536 then drl_fc06 slave start v
      else Inl Struct_Error)
   \<and> fc03 slave start v =
     (if \<not> (0 \<le> slave \<and> slave < 256) then Inl Value_Error
      else if 0 \<le> start \<and> start < 65536 \<and> 0 \<le> v \<and> v < 65536 then drl_fc03 slave start v
      else Inl Struct_Error)
   \<and> drl_fc06 slave start v = drl_fc06 slave (start mod 65536) (v mod 65536)"
  by (simp add: fc06_def fc03_def fc_cases drl_fc06_def drl_fc03_def) (simp add: drl_fc_def)

text \<open>
  C25: Packets survive TCP. However the bytes of a sequence of packets are cut into receives, both
  parsers return exactly these packets, in order, and keep nothing. After junk that cannot start
  a packet the controller's parser still returns all of them, while the node's parser drops at
  most one byte of junk per receive: it returns nothing as long as there were at most as many
  receives as junk bytes, even when the whole packets are already buffered.
\<close>

theorem packets_survive_tcp:
  assumes "\<forall>p\<in>set ps. valid_packet p" "ps \<noteq> []"
  shows "(concat cs = concat (map packet_bytes ps) \<longrightarrow>
           feed drl_parse cs [] = (ps, []) \<and> feed pc_parse cs [] = (ps, []))
    \<and> (0x47 \<notin> set junk \<and> concat cs = junk @ concat (map packet_bytes ps) \<longrightarrow>
           feed drl_parse cs [] = (ps, [])
           \<and> (length cs \<le> length junk \<longrightarrow> fst (feed pc_parse cs []) = []))"
proof (intro conjI impI)
  have all: "drl_parse (concat (map packet_bytes ps)) = (ps, [])"
    using drl_parse_packets [OF assms(1), of "[]"] by simp
  { assume c: "concat cs = concat (map packet_bytes ps)"
    then show d: "feed drl_parse cs [] = (ps, [])" using drl_stream.feed_concat [of cs] all by simp
    have "in_sync ([] @ concat cs)" using assms(1) c unfolding in_sync_def by force
    from feed_pc_sync [OF this] d show "feed pc_parse cs [] = (ps, [])" by simp }
  { assume c: "0x47 \<notin> set junk \<and> concat cs = junk @ concat (map packet_bytes ps)"
    have "8 \<le> length (concat (map packet_bytes ps))"
      using assms(2) length_packet_bytes by (cases ps) (simp_all add: trans_le_add1)
    then show "feed drl_parse cs [] = (ps, [])"
      using drl_stream.feed_concat [of cs] drl_parse_junk [of junk "concat (map packet_bytes ps)"] c all
      by simp
    assume "length cs \<le> length junk"
    then show "fst (feed pc_parse cs []) = []"
      using feed_pc_junk [of junk "[]" cs "concat (map packet_bytes ps)"] c by simp }
qed

lemma command_decoded_core_cut:
  assumes "cmd_payload fs = Inr p"
  shows "drl_command wr p = written wr fs
    \<and> (k < length p \<longrightarrow> \<not> fst (drl_command wr (take k p))
         \<and> (\<exists>n. snd (snd (drl_command wr (take k p))) = take n fs))"
proof -
  have l: "length fs < 65536" "\<forall>b\<in>set fs. length b < 65536"
    and p: "p = be16 (int (length fs)) @ concat (map frame_part fs)"
    using assms by (simp_all add: cmd_payload_iff)
  have n: "nat (get16 (p ! 0) (p ! 1)) = length fs" "drop 2 p = concat (map frame_part fs)" "\<not> length p < 2"
    using l(1) by (simp_all add: p be16_def)
  have whole: "drl_command wr p = written wr fs"
    unfolding drl_command_def using n drl_frames_roundtrip [OF l(2)] by simp
  have "\<not> fst (drl_command wr (take k p)) \<and> (\<exists>n. snd (snd (drl_command wr (take k p))) = take n fs)"
    if "k < length p"
  proof (cases "k < 2")
    case True
    then show ?thesis by (simp add: drl_command_def)
  next
    case False
    have c: "drl_command wr (take k p) =
        drl_frames wr (length fs) (take (k - 2) (concat (map frame_part fs)))"
    proof -
      have "take k p ! 0 = p ! 0" "take k p ! 1 = p ! 1" using False by simp_all
      moreover have "drop 2 (take k p) = take (k - 2) (concat (map frame_part fs))"
        using n(2) by (simp add: drop_take)
      moreover have "\<not> length (take k p) < 2" using False n(3) by simp
      ultimately show ?thesis unfolding drl_command_def using n(1) by simp
    qed
    show ?thesis unfolding c
      by (rule drl_frames_truncated [OF l(2)]) (use that False p in simp)
  qed
  with whole show ?thesis by blast
qed

lemma command_decoded_core: "cmd_payload fs = Inr p \<Longrightarrow> drl_command wr p = written wr fs"
  using command_decoded_core_cut by blast

text \<open>
  The controller decodes a command to exactly the frames the node put into it and writes them
  in order until the first write that raises, whose error it reports. A payload that was cut short
  is never acknowledged as successful, and then the frames written are the first few of the
  command, none of them incomplete.
\<close>

theorem command_decoded:
  assumes "cmd_payload fs = Inr p"
  shows "drl_command wr p = written wr fs
    \<and> (k < length p \<longrightarrow> \<not> fst (drl_command wr (take k p))
         \<and> (\<exists>n. snd (snd (drl_command wr (take k p))) = take n fs))"
  by (rule command_decoded_core_cut [OF assms])

text \<open>
  C37: A state sample the controller sends carries the current and the position it read from the
  registers, unchanged in sign and value, together with the goal registers; but when the goal
  current could not be read (or is above 32767) the payload is empty and the node ignores the
  sample, although current and position are known.
\<close>

theorem state_sample_arrives:
  assumes "drl_sample cfg rs = Some p"
  shows "\<exists>cur pos rs1 gcur rs2 lo rs3 hi rs4.
      drl_read_cur_pos cfg rs = ((cur, pos), rs1) \<and> in_int16 cur \<and> in_int32 pos
      \<and> drl_read_reg16 rs1 = (gcur, rs2) \<and> drl_read_reg16 rs2 = (lo, rs3) \<and> drl_read_reg16 rs3 = (hi, rs4)
      \<and> state_decode p = (if gcur = no_value \<or> 32768 \<le> gcur then None
           else Some (cur, pos, gcur, lo mod 65536, hi mod 65536))"
proof -
  obtain cur pos rs1 where r: "drl_read_cur_pos cfg rs = ((cur, pos), rs1)" by (metis surj_pair)
  obtain gcur rs2 where g: "drl_read_reg16 rs1 = (gcur, rs2)" by (metis surj_pair)
  obtain lo rs3 where lo: "drl_read_reg16 rs2 = (lo, rs3)" by (metis surj_pair)
  obtain hi rs4 where hi: "drl_read_reg16 rs3 = (hi, rs4)" by (metis surj_pair)
  have ok: "cur \<noteq> no_value" "pos \<noteq> no_value" and p: "p = state_payload cur pos gcur lo hi"
    using assms r g lo hi by (auto simp: drl_sample_def split: if_splits)
  have b: "in_int16 cur" "in_int32 pos" using drl_read_cur_pos_bounds [OF r] ok by auto
  have gb: "gcur = no_value \<or> 0 \<le> gcur \<and> gcur < 65536" using drl_read_reg16_bounds [OF g] .
  have "state_decode p = (if gcur = no_value \<or> 32768 \<le> gcur then None
      else Some (cur, pos, gcur, lo mod 65536, hi mod 65536))"
  proof (cases "gcur = no_value \<or> 32768 \<le> gcur")
    case True
    then have "p = []" unfolding p by (intro state_payload_lost) (auto simp: no_value_def)
    then show ?thesis using True by (simp add: state_decode_def)
  next
    case False
    then show ?thesis using gb b unfolding p by (subst state_payload_ok) (auto simp: in_int16_def in_int32_def)
  qed
  with r g lo hi b show ?thesis by blast
qed

section \<open>Witnesses\<close>

lemma frame_change_detected_witness:
  "\<exists>f crc. fc06 1 275 300 = Inr f \<and> f = [1, 6, 1, 19] @ [1, 44] @ crc \<and> crc_reg f = 0
     \<and> crc_reg ([1, 6, 1, 19] @ [0, 45] @ crc) \<noteq> 0"
proof -
  let ?crc = "crc16 [1, 6, 1, 19, 1, 44]"
  have f: "fc06 1 275 300 = Inr ([1, 6, 1, 19] @ [1, 44] @ ?crc)"
    by (simp add: fc06_def with_crc_def one_byte_def pack_H_def be16_def)
  have "((0 :: byte), (45 :: byte)) \<noteq> (1, 44)" by simp
  from frame_change_detected [OF disjI1 [OF f] refl this] f show ?thesis by blast
qed

lemma packets_survive_tcp_witness:
  "feed pc_parse [take 3 (packet_bytes (3, 5, [7])), drop 3 (packet_bytes (3, 5, [7]))] [] = ([(3, 5, [7])], [])
   \<and> feed drl_parse [0 # packet_bytes (3, 5, [7])] [] = ([(3, 5, [7])], [])
   \<and> fst (feed pc_parse [0 # packet_bytes (3, 5, [7])] []) = []"
proof -
  have v: "\<forall>p\<in>set [(3, 5, [7 :: byte])]. valid_packet p" "[(3 :: int, 5 :: int, [7 :: byte])] \<noteq> []"
    by (simp_all add: valid_packet_def)
  from packets_survive_tcp [OF v,
      of "[take 3 (packet_bytes (3, 5, [7])), drop 3 (packet_bytes (3, 5, [7]))]" "[]"]
    packets_survive_tcp [OF v, of "[0 # packet_bytes (3, 5, [7])]" "[0]"]
  show ?thesis by simp
qed

lemma command_decoded_witness:
  "\<exists>p. cmd_payload [[1, 2], [3]] = Inr p \<and> 4 < length p
     \<and> drl_command (\<lambda>_. None) p = (True, [], [[1, 2], [3]])
     \<and> \<not> fst (drl_command (\<lambda>_. None) (take 4 p))"
proof -
  let ?p = "be16 2 @ frame_part [1, 2] @ frame_part [3]"
  have c: "cmd_payload [[1, 2], [3]] = Inr ?p" by (simp add: cmd_payload_iff)
  have "4 < length ?p" by (simp add: frame_part_def)
  moreover have "written (\<lambda>_. None) [[1, 2], [3]] = (True, [], [[1, 2], [3]])" by (simp add: written_def)
  ultimately show ?thesis using command_decoded [OF c, of "\<lambda>_. None" 4] c by (intro exI [of _ ?p]) simp
qed

lemma attempts_2: "attempts 2 f (r # rs) = (case f r of Some v \<Rightarrow> (Some v, rs) | None \<Rightarrow> attempts 1 f rs)"
  by (simp add: numeral_2_eq_2 del: attempts.simps(1) split: option.split)

lemma state_sample_arrives_witness:
  "\<exists>p. drl_sample \<lparr>dc_cur_reg = 287, dc_pos_reg = 290, dc_pos_regs = 2\<rparr>
      [[1, 3, 10, 255, 246, 0, 0, 0, 0, 1, 164, 0, 0, 0, 0], [1, 3, 2, 1, 44, 0, 0],
       [1, 3, 2, 1, 164, 0, 0], [1, 3, 2, 0, 0, 0, 0]] = Some p
    \<and> state_decode p = Some (- 10, 420, 300, 420, 0)"
proof -
  let ?cfg = "\<lparr>dc_cur_reg = 287, dc_pos_reg = 290, dc_pos_regs = 2\<rparr>"
  let ?r1 = "[[1, 3, 2, 1, 44, 0, 0], [1, 3, 2, 1, 164, 0, 0], [1, 3, 2, 0, 0, 0, 0]]"
  have c: "drl_read_cur_pos ?cfg ([1, 3, 10, 255, 246, 0, 0, 0, 0, 1, 164, 0, 0, 0, 0] # ?r1) = ((- 10, 420), ?r1)"
    by (simp add: drl_read_cur_pos_def bulk_decode_def bulk_reg_def two_compl_def get16_def Let_def
        numeral_3_eq_3)
  have g: "drl_read_reg16 ?r1 = (300, drop 1 ?r1)" "drl_read_reg16 (drop 1 ?r1) = (420, drop 2 ?r1)"
    "drl_read_reg16 (drop 2 ?r1) = (0, [])"
    by (simp_all add: drl_read_reg16_def or_no_value_def one_reg_def get16_def attempts_2)
  have "\<exists>p. drl_sample ?cfg ([1, 3, 10, 255, 246, 0, 0, 0, 0, 1, 164, 0, 0, 0, 0] # ?r1) = Some p"
    unfolding drl_sample_def c using g by (simp add: no_value_def)
  then obtain p where p: "drl_sample ?cfg ([1, 3, 10, 255, 246, 0, 0, 0, 0, 1, 164, 0, 0, 0, 0] # ?r1) = Some p" ..
  from state_sample_arrives [OF p] c g show ?thesis
    unfolding p by (auto simp: no_value_def)
qed

end
