(* ===== verification/GripperNode.thy ===== *)
theory GripperNode imports GripperLink begin

text \<open>
  \<open>ros2_ws/src/motion/motion/gripper_node.py\<close> (the node on the PC) and
  \<open>gripper_conversion.py\<close>. The state is the record \<open>gripper_node\<close>; every callback and helper of
  the node is an operation on it. What arrives on the socket while an operation waits is an
  argument: a list of receives with the clock reading at which each is handled. Whether a
  \<open>sendall\<close> succeeds, and what the DRL service answers, are arguments as well. JSON text is made
  and read by Python's library: the encoders and \<open>json.loads\<close> are the parameter \<open>json_env\<close>.
  Writing to the log has no effect on the state.
\<close>

section \<open>Conversions\<close>

text \<open>Python's \<open>int(round(x))\<close>: to the nearest integer, halves to the even one.\<close>

definition py_round :: "real \<Rightarrow> int" where
  "py_round x =
     (let f = \<lfloor>x\<rfloor>; d = x - real_of_int f
      in if d < 1 / 2 then f else if d > 1 / 2 then f + 1 else if even f then f else f + 1)"

definition clamp :: "real \<Rightarrow> real \<Rightarrow> real \<Rightarrow> real" where
  "clamp v lo hi = max lo (min hi v)"

definition normalized_closure :: "real \<Rightarrow> real \<Rightarrow> real \<Rightarrow> real" where
  "normalized_closure angle op cl =
     (let span = cl - op in if span \<le> 0 then 0 else clamp ((angle - op) / span) 0 1)"

definition rad_to_pulse :: "real \<Rightarrow> real \<Rightarrow> real \<Rightarrow> int \<Rightarrow> int \<Rightarrow> int" where
  "rad_to_pulse angle op cl p_open p_closed =
     py_round (real_of_int p_open + normalized_closure angle op cl * real_of_int (p_closed - p_open))"

definition pulse_to_rad :: "int \<Rightarrow> real \<Rightarrow> real \<Rightarrow> int \<Rightarrow> int \<Rightarrow> real" where
  "pulse_to_rad pulse op cl p_open p_closed =
     (let span = p_closed - p_open
      in if span \<le> 0 then op
         else op + clamp (real_of_int (pulse - p_open) / real_of_int span) 0 1 * (cl - op))"

definition rad_to_stroke :: "real \<Rightarrow> real \<Rightarrow> real \<Rightarrow> int \<Rightarrow> int" where
  "rad_to_stroke angle op cl stroke_max =
     py_round (normalized_closure angle op cl * real_of_int stroke_max)"

definition stroke_to_rad :: "int \<Rightarrow> real \<Rightarrow> real \<Rightarrow> int \<Rightarrow> real" where
  "stroke_to_rad stroke op cl stroke_max =
     (if stroke_max \<le> 0 then op
      else op + clamp (real_of_int stroke / real_of_int stroke_max) 0 1 * (cl - op))"

section \<open>Python text\<close>

text \<open>\<open>s.split()\<close>: the words between runs of white space.\<close>

fun split_words :: "string \<Rightarrow> string \<Rightarrow> string list" where
  "split_words w [] = (if w = [] then [] else [w])"
| "split_words w (c # cs) =
     (if py_space c then (if w = [] then split_words [] cs else w # split_words [] cs)
      else split_words (w @ [c]) cs)"

definition digit_value :: "char \<Rightarrow> int option" where
  "digit_value c = (let n = int (of_char c :: nat) in if 48 \<le> n \<and> n \<le> 57 then Some (n - 48) else None)"

text \<open>Decimal digits with single underscores between them, after at least one digit.\<close>

fun read_digits :: "int \<Rightarrow> string \<Rightarrow> int option" where
  "read_digits acc [] = Some acc"
| "read_digits acc (c # cs) =
     (case digit_value c of
        Some d \<Rightarrow> read_digits (acc * 10 + d) cs
      | None \<Rightarrow>
         (if c = CHR ''_'' then
            (case cs of [] \<Rightarrow> None
             | c' # cs' \<Rightarrow> (case digit_value c' of None \<Rightarrow> None
                 | Some d \<Rightarrow> read_digits (acc * 10 + d) cs'))
          else None))"

text \<open>\<open>int(s)\<close> of a word, \<open>None\<close> for \<open>ValueError\<close>.\<close>

definition py_int :: "string \<Rightarrow> int option" where
  "py_int s =
     (let neg = (case s of c # _ \<Rightarrow> c = CHR ''-'' | [] \<Rightarrow> False);
          body = (case s of c # cs \<Rightarrow> if c = CHR ''-'' \<or> c = CHR ''+'' then cs else s | [] \<Rightarrow> [])
      in (case body of [] \<Rightarrow> None
          | c # cs \<Rightarrow> (case digit_value c of None \<Rightarrow> None
              | Some d \<Rightarrow> map_option (\<lambda>v. if neg then - v else v) (read_digits d cs))))"

section \<open>State\<close>

record gripper_cfg =
  gc_slave :: int
  gc_goal_cur_reg :: int
  gc_goal_pos_reg :: int
  gc_goal_pos_regs :: int
  gc_write_mode :: string
  gc_goal_scale :: real
  gc_pos_scale :: real
  gc_use_low :: bool
  gc_word_order :: string
  gc_transport :: string
  gc_mode :: string
  gc_binary :: bool
  gc_rx_max :: int
  gc_rx_keep :: int
  gc_done_tol :: int
  gc_grip_enabled :: bool
  gc_grip_threshold :: real
  gc_pulse_open :: int
  gc_pulse_closed :: int
  gc_cur_init :: int
  gc_cur_grip :: int
  gc_streaming :: bool
  gc_no_ack :: bool
  gc_latest_only :: bool
  gc_stream_enabled :: bool
  gc_state_hz :: real

text \<open>The defaults of the parameters, with the values of \<open>config/gripper_node.yaml\<close> for the link.\<close>

definition deployed_cfg :: gripper_cfg where
  "deployed_cfg = \<lparr>gc_slave = 1, gc_goal_cur_reg = 275, gc_goal_pos_reg = 282, gc_goal_pos_regs = 2,
     gc_write_mode = ''fc16'', gc_goal_scale = 1, gc_pos_scale = 1, gc_use_low = False,
     gc_word_order = ''hi_lo'', gc_transport = ''tcp'', gc_mode = ''real'', gc_binary = True,
     gc_rx_max = 65536, gc_rx_keep = 8192, gc_done_tol = 20, gc_grip_enabled = True,
     gc_grip_threshold = 50, gc_pulse_open = 0, gc_pulse_closed = 700, gc_cur_init = 400,
     gc_cur_grip = 300, gc_streaming = True, gc_no_ack = True, gc_latest_only = True,
     gc_stream_enabled = True, gc_state_hz = 5\<rparr>"

type_synonym direct_item = "string \<times> int \<times> int"

record gripper_node =
  gn_pos :: int
  gn_cur :: int
  gn_gpos_lo :: "int option"
  gn_last_state :: real
  gn_last_pong :: real
  gn_active :: bool
  gn_rx :: bytes
  gn_waiters :: "int \<rightharpoonup> bool"
  gn_results :: "int \<rightharpoonup> bool \<times> bytes"
  gn_next_id :: int
  gn_hello :: bool
  gn_pong :: bool
  gn_state :: bool
  gn_ack :: bool
  gn_sent_pulse :: "int option"
  gn_sent_cur :: "int option"
  gn_queue :: "direct_item list option"
  gn_out :: "bytes list"

definition gripper_init :: gripper_node where
  "gripper_init = \<lparr>gn_pos = 0, gn_cur = 0, gn_gpos_lo = None, gn_last_state = 0, gn_last_pong = 0,
     gn_active = False, gn_rx = [], gn_waiters = Map.empty, gn_results = Map.empty, gn_next_id = 1,
     gn_hello = False, gn_pong = False, gn_state = False, gn_ack = False, gn_sent_pulse = None,
     gn_sent_cur = None, gn_queue = None, gn_out = []\<rparr>"

text \<open>A decoded JSON message; \<open>JM_raises\<close> is one whose handling raises.\<close>

datatype jmsg =
    JM_state int int "int option"
  | JM_hello
  | JM_pong
  | JM_ack int bool bytes
  | JM_other
  | JM_raises

record json_env =
  js_ping :: bytes
  js_cmd :: "int \<Rightarrow> bytes list \<Rightarrow> bytes"
  js_loads :: "bytes \<Rightarrow> jmsg option"

section \<open>Receiving\<close>

text \<open>The newest state of a batch: current, position and goal position.\<close>

type_synonym state_msg = "int \<times> int \<times> int option"

definition on_pong :: "real \<Rightarrow> gripper_node \<Rightarrow> gripper_node" where
  "on_pong now s = s\<lparr>gn_pong := True, gn_hello := True, gn_last_pong := now\<rparr>"

definition on_ack :: "int \<Rightarrow> bool \<Rightarrow> bytes \<Rightarrow> gripper_node \<Rightarrow> gripper_node" where
  "on_ack k ok err s =
     s\<lparr>gn_results := (gn_results s)(k \<mapsto> (ok, err)),
       gn_waiters := (case gn_waiters s k of None \<Rightarrow> gn_waiters s | Some _ \<Rightarrow> (gn_waiters s)(k \<mapsto> True)),
       gn_ack := True\<rparr>"

definition handle_packet ::
  "real \<Rightarrow> packet \<Rightarrow> gripper_node \<times> state_msg option \<Rightarrow> gripper_node \<times> state_msg option" where
  "handle_packet now p sl =
     (case p of (mtype, sq, payload) \<Rightarrow> (case sl of (s, lst) \<Rightarrow>
        if mtype = TCP_T_PONG then (on_pong now s, lst)
        else if mtype = TCP_T_ACK then
          (case ack_decode payload of (ok, err) \<Rightarrow> (on_ack sq ok err s, lst))
        else if mtype = TCP_T_STATE then
          (case state_decode payload of None \<Rightarrow> (s, lst)
           | Some (cur, pos, _, lo, _) \<Rightarrow> (s, Some (cur, pos, Some lo)))
        else (s, lst)))"

definition handle_json ::
  "real \<Rightarrow> jmsg \<Rightarrow> gripper_node \<times> state_msg option \<Rightarrow> gripper_node \<times> state_msg option" where
  "handle_json now m sl =
     (case sl of (s, lst) \<Rightarrow>
       (case m of
          JM_state cur pos lo \<Rightarrow> (s, Some (cur, pos, lo))
        | JM_hello \<Rightarrow> (s\<lparr>gn_hello := True\<rparr>, lst)
        | JM_pong \<Rightarrow> (on_pong now s, lst)
        | JM_ack k ok err \<Rightarrow> (on_ack k ok err s, lst)
        | JM_other \<Rightarrow> (s, lst)
        | JM_raises \<Rightarrow> (s, lst)))"

text \<open>The position as the node reports it, from the raw register value.\<close>

definition convert_pos :: "gripper_cfg \<Rightarrow> int \<Rightarrow> int" where
  "convert_pos cfg raw =
     (let r = (if gc_use_low cfg then raw mod 65536
               else if gc_word_order cfg = ''lo_hi''
                 then raw mod 65536 * 65536 + raw div 65536 mod 65536
               else raw)
      in if gc_pos_scale cfg \<noteq> 0 \<and> gc_pos_scale cfg \<noteq> 1
         then py_round (real_of_int r / gc_pos_scale cfg) else r)"

definition apply_state :: "gripper_cfg \<Rightarrow> real \<Rightarrow> state_msg option \<Rightarrow> gripper_node \<Rightarrow> gripper_node" where
  "apply_state cfg now lst s =
     (case lst of None \<Rightarrow> s
      | Some (cur, pos, lo) \<Rightarrow>
          s\<lparr>gn_cur := cur, gn_pos := convert_pos cfg pos, gn_last_state := now,
            gn_gpos_lo := (case lo of None \<Rightarrow> gn_gpos_lo s | Some v \<Rightarrow> Some v),
            gn_hello := (gn_hello s \<or> \<not> gc_binary cfg), gn_state := True\<rparr>)"

text \<open>The receive buffer is cut to its last bytes when it grows too large.\<close>

definition trim_rx :: "gripper_cfg \<Rightarrow> bytes \<Rightarrow> bytes" where
  "trim_rx cfg buf =
     (if gc_rx_max cfg > 0 \<and> int (length buf) > gc_rx_max cfg
      then drop (length buf - nat (max 1024 (gc_rx_keep cfg))) buf else buf)"

text \<open>The JSON messages of a batch; one whose handling raises ends the thread.\<close>

fun handle_jsons ::
  "json_env \<Rightarrow> real \<Rightarrow> bytes list \<Rightarrow> gripper_node \<times> state_msg option \<Rightarrow>
   (gripper_node \<times> state_msg option) \<times> bool" where
  "handle_jsons js now [] sl = (sl, True)"
| "handle_jsons js now (b # bs) sl =
     (case js_loads js b of
        None \<Rightarrow> handle_jsons js now bs sl
      | Some JM_raises \<Rightarrow> (sl, False)
      | Some m \<Rightarrow> handle_jsons js now bs (handle_json now m sl))"

text \<open>One round of \<open>_recv_loop\<close> with what \<open>recv\<close> returned; an empty chunk is the closed socket.\<close>

definition recv_chunk :: "gripper_cfg \<Rightarrow> json_env \<Rightarrow> real \<times> bytes \<Rightarrow> gripper_node \<Rightarrow> gripper_node" where
  "recv_chunk cfg js a s =
     (case a of (now, chunk) \<Rightarrow>
       if \<not> gn_active s then s
       else if chunk = [] then s\<lparr>gn_active := False\<rparr>
       else let buf = trim_rx cfg (gn_rx s @ chunk)
            in if gc_binary cfg
               then (case pc_parse buf of (ps, r) \<Rightarrow>
                      (case fold (handle_packet now) ps (s\<lparr>gn_rx := r\<rparr>, None) of
                         (s', lst) \<Rightarrow> apply_state cfg now lst s'))
               else (case json_split buf of (bs, r) \<Rightarrow>
                      (case handle_jsons js now bs (s\<lparr>gn_rx := r\<rparr>, None) of
                         ((s', lst), fine) \<Rightarrow>
                           if fine then apply_state cfg now lst s' else s'\<lparr>gn_active := False\<rparr>)))"

definition recv_all :: "gripper_cfg \<Rightarrow> json_env \<Rightarrow> (real \<times> bytes) list \<Rightarrow> gripper_node \<Rightarrow> gripper_node" where
  "recv_all cfg js as s = fold (recv_chunk cfg js) as s"

section \<open>Sending\<close>

text \<open>
  What a blocking operation meets: whether its \<open>sendall\<close>s succeed, what arrives during the
  handshake, and what arrives while it waits for the acknowledgement (grace period included).
\<close>

record wait_env =
  we_ping_ok :: bool
  we_handshake :: "(real \<times> bytes) list"
  we_send_ok :: bool
  we_arrivals :: "(real \<times> bytes) list"

datatype gripper_msg =
    No_Server | Send_Failed | Ack_Timeout | Tcp_Offline | Reported bytes | Wire_Error wire_error
  | Virtual_Mock | Offline_Or_Drl | Finished | Drl_Done | Drl_Failed | Cur_Ack_Failed | Pos_Ack_Failed
  | Grip_Detected | Position_Reached

definition ping_bytes :: "gripper_cfg \<Rightarrow> json_env \<Rightarrow> (wire_error, bytes) result" where
  "ping_bytes cfg js =
     (if gc_binary cfg then send_bin TCP_T_PING 0 []
      else cat_results [pack_H (int (length (js_ping js))), Inr (js_ping js)])"

definition command_bytes ::
  "gripper_cfg \<Rightarrow> json_env \<Rightarrow> int \<Rightarrow> bytes list \<Rightarrow> (wire_error, bytes) result" where
  "command_bytes cfg js k frames =
     (if gc_binary cfg
      then (case cmd_payload frames of Inl e \<Rightarrow> Inl e | Inr p \<Rightarrow> send_bin TCP_T_CMD k p)
      else cat_results [pack_H (int (length (js_cmd js k frames))), Inr (js_cmd js k frames)])"

text \<open>\<open>sendall\<close> of bytes that could be built: \<open>None\<close> when building or sending raised.\<close>

definition sock_send :: "bool \<Rightarrow> (wire_error, bytes) result \<Rightarrow> gripper_node \<Rightarrow> gripper_node option" where
  "sock_send ok r s = (case r of Inl _ \<Rightarrow> None
     | Inr b \<Rightarrow> if ok then Some (s\<lparr>gn_out := gn_out s @ [b]\<rparr>) else None)"

definition tcp_handshake :: "gripper_cfg \<Rightarrow> json_env \<Rightarrow> wait_env \<Rightarrow> gripper_node \<Rightarrow> bool \<times> gripper_node" where
  "tcp_handshake cfg js e s =
     (let s0 = s\<lparr>gn_pong := False\<rparr>
      in case sock_send (we_ping_ok e) (ping_bytes cfg js) s0 of
           None \<Rightarrow> (False, s0)
         | Some s1 \<Rightarrow>
            (let s2 = recv_all cfg js (we_handshake e) s1
             in (gn_pong s2 \<or> gn_hello s2 \<or> gn_state s2, s2)))"

text \<open>Registering the command, sending it, and waiting for the acknowledgement.\<close>

definition send_and_wait ::
  "gripper_cfg \<Rightarrow> json_env \<Rightarrow> wait_env \<Rightarrow> bytes list \<Rightarrow> gripper_node \<Rightarrow> (bool \<times> gripper_msg) \<times> gripper_node" where
  "send_and_wait cfg js e frames s =
     (let k = gn_next_id s;
          s1 = s\<lparr>gn_next_id := k + 1, gn_waiters := (gn_waiters s)(k \<mapsto> False),
                 gn_results := (gn_results s)(k := None)\<rparr>
      in case sock_send (we_send_ok e) (command_bytes cfg js k frames) s1 of
           None \<Rightarrow> ((False, Send_Failed), s1\<lparr>gn_waiters := (gn_waiters s1)(k := None)\<rparr>)
         | Some s2 \<Rightarrow>
            (let s3 = recv_all cfg js (we_arrivals e) s2;
                 s4 = s3\<lparr>gn_waiters := (gn_waiters s3)(k := None)\<rparr>
             in if gn_waiters s3 k = Some True \<or> gn_results s3 k \<noteq> None
                then (case gn_results s3 k of
                    None \<Rightarrow> ((False, Reported []), s4)
                  | Some (ok, err) \<Rightarrow>
                      ((ok, Reported err), s4\<lparr>gn_results := (gn_results s4)(k := None)\<rparr>))
                else ((False, Ack_Timeout), s4)))"

definition send_cmd_and_wait_ack ::
  "gripper_cfg \<Rightarrow> json_env \<Rightarrow> wait_env \<Rightarrow> bytes list \<Rightarrow> gripper_node \<Rightarrow> (bool \<times> gripper_msg) \<times> gripper_node" where
  "send_cmd_and_wait_ack cfg js e frames s =
     (if gn_hello s \<or> gn_state s \<or> gn_pong s then send_and_wait cfg js e frames s
      else (case tcp_handshake cfg js e s of (ok, s1) \<Rightarrow>
        if ok then send_and_wait cfg js e frames s1 else ((False, No_Server), s1)))"

definition send_cmd_fire_and_forget ::
  "gripper_cfg \<Rightarrow> json_env \<Rightarrow> bool \<Rightarrow> bytes list \<Rightarrow> gripper_node \<Rightarrow> (bool \<times> gripper_msg) \<times> gripper_node" where
  "send_cmd_fire_and_forget cfg js send_ok frames s =
     (if \<not> gn_active s then ((False, Tcp_Offline), s)
      else let s1 = s\<lparr>gn_next_id := gn_next_id s + 1\<rparr>
           in case sock_send send_ok (command_bytes cfg js (gn_next_id s) frames) s1 of
                None \<Rightarrow> ((False, Send_Failed), s1)
              | Some s2 \<Rightarrow> ((True, Reported []), s2))"

section \<open>Direct commands\<close>

definition resolve_preset_action :: "gripper_cfg \<Rightarrow> string \<Rightarrow> int \<Rightarrow> int \<Rightarrow> int \<times> int" where
  "resolve_preset_action cfg action pulse cur =
     (let a = py_strip action
      in if a = ''open'' \<or> a = ''release'' then (gc_pulse_open cfg, gc_cur_init cfg)
         else if a = ''close'' then (gc_pulse_closed cfg, gc_cur_grip cfg)
         else if a = ''custom'' then
           (if pulse \<ge> 0 then pulse else gc_pulse_closed cfg, if cur > 0 then cur else gc_cur_init cfg)
         else (- 1, - 1))"

text \<open>The frames that write the goal position. Both variants are built before one is chosen.\<close>

definition direct_cmd_pos_frames :: "gripper_cfg \<Rightarrow> int \<Rightarrow> (wire_error, bytes list) result" where
  "direct_cmd_pos_frames cfg pulse =
     (let goal = py_round (real_of_int pulse * (if gc_goal_scale cfg \<noteq> 0 then gc_goal_scale cfg else 1))
      in case fc06 (gc_slave cfg) (gc_goal_pos_reg cfg) (goal mod 65536) of
           Inl e \<Rightarrow> Inl e
         | Inr f06 \<Rightarrow>
            (case fc16 (gc_slave cfg) (gc_goal_pos_reg cfg) 2 [goal mod 65536, 0] of
               Inl e \<Rightarrow> Inl e
             | Inr f16 \<Rightarrow> Inr (if gc_goal_pos_regs cfg \<le> 1 then [f06]
                 else if gc_write_mode cfg = ''fc16'' then [f16] else [f06])))"

definition cur_frame :: "gripper_cfg \<Rightarrow> int \<Rightarrow> (wire_error, bytes) result" where
  "cur_frame cfg cur = fc06 (gc_slave cfg) (gc_goal_cur_reg cfg) cur"

text \<open>\<open>Inl\<close> is an exception that leaves the operation.\<close>

definition direct_cmd_streaming_inline ::
  "gripper_cfg \<Rightarrow> json_env \<Rightarrow> bool \<Rightarrow> int \<Rightarrow> int \<Rightarrow> gripper_node \<Rightarrow> (wire_error, unit) result \<times> gripper_node" where
  "direct_cmd_streaming_inline cfg js send_ok pulse cur s =
     (if gn_sent_pulse s = Some pulse \<and> gn_sent_cur s = Some cur then (Inr (), s)
      else if \<not> gn_active s then (Inr (), s)
      else case direct_cmd_pos_frames cfg pulse of
        Inl e \<Rightarrow> (Inl e, s)
      | Inr pos \<Rightarrow>
          (case (if gn_sent_cur s \<noteq> Some cur then cur_frame cfg cur else Inr []) of
             Inl e \<Rightarrow> (Inl e, s)
           | Inr cf \<Rightarrow>
               (case send_cmd_fire_and_forget cfg js send_ok
                  ((if gn_sent_cur s \<noteq> Some cur then [cf] else []) @ pos) s of
                  ((ok, _), s1) \<Rightarrow>
                    (Inr (), if ok then s1\<lparr>gn_sent_pulse := Some pulse, gn_sent_cur := Some cur\<rparr> else s1))))"

text \<open>\<open>queue.Queue(maxsize=20)\<close>.\<close>

definition queue_put :: "gripper_cfg \<Rightarrow> direct_item \<Rightarrow> direct_item list \<Rightarrow> direct_item list" where
  "queue_put cfg item q =
     (let q0 = (if gc_latest_only cfg then [] else q)
      in if length q0 < 20 then q0 @ [item] else tl q0 @ [item])"

text \<open>What a direct command asks for; \<open>None\<close> when there is nothing to do.\<close>

definition direct_target :: "gripper_cfg \<Rightarrow> string \<Rightarrow> (wire_error, direct_item option) result" where
  "direct_target cfg data =
     (case split_words [] (py_strip data) of
        [] \<Rightarrow> Inr None
      | action # args \<Rightarrow>
          (case (case args of [] \<Rightarrow> Some 0 | a # _ \<Rightarrow> py_int a) of
             None \<Rightarrow> Inl Value_Error
           | Some pulse \<Rightarrow>
               (case (case args of _ # b # _ \<Rightarrow> py_int b | _ \<Rightarrow> Some 0) of
                  None \<Rightarrow> Inl Value_Error
                | Some cur \<Rightarrow>
                    (case resolve_preset_action cfg action pulse cur of (t_pulse, t_cur) \<Rightarrow>
                       Inr (if t_pulse = - 1 then None else Some (action, t_pulse, t_cur))))))"

definition on_direct_cmd ::
  "gripper_cfg \<Rightarrow> json_env \<Rightarrow> bool \<Rightarrow> string \<Rightarrow> gripper_node \<Rightarrow> (wire_error, unit) result \<times> gripper_node" where
  "on_direct_cmd cfg js send_ok data s =
     (case direct_target cfg data of
        Inl e \<Rightarrow> (Inl e, s)
      | Inr None \<Rightarrow> (Inr (), s)
      | Inr (Some (action, t_pulse, t_cur)) \<Rightarrow>
          if gc_streaming cfg \<and> gc_no_ack cfg \<and> gc_transport cfg = ''tcp''
          then direct_cmd_streaming_inline cfg js send_ok t_pulse t_cur s
          else (Inr (), case gn_queue s of None \<Rightarrow> s
            | Some q \<Rightarrow> s\<lparr>gn_queue := Some (queue_put cfg (action, t_pulse, t_cur) q)\<rparr>))"

text \<open>What the worker takes: the oldest item, or the newest when only that counts.\<close>

fun worker_take :: "gripper_cfg \<Rightarrow> direct_item list \<Rightarrow> (direct_item \<times> direct_item list) option" where
  "worker_take cfg [] = None"
| "worker_take cfg (i # q) =
     (if gc_latest_only cfg then Some (last (i # q), []) else Some (i, q))"

definition direct_cmd_worker ::
  "gripper_cfg \<Rightarrow> json_env \<Rightarrow> wait_env \<Rightarrow> bool \<Rightarrow> int \<Rightarrow> int \<Rightarrow> gripper_node \<Rightarrow> gripper_node" where
  "direct_cmd_worker cfg js e drl_ok pulse cur s =
     (if gc_transport cfg = ''drl'' then
        (if gc_mode cfg = ''virtual'' then s\<lparr>gn_pos := pulse\<rparr>
         else (case cur_frame cfg cur of Inl _ \<Rightarrow> s
           | Inr _ \<Rightarrow> (case fc16 (gc_slave cfg) (gc_goal_pos_reg cfg) 2 [pulse mod 65536, 0] of
                 Inl _ \<Rightarrow> s | Inr _ \<Rightarrow> if drl_ok then s\<lparr>gn_pos := pulse\<rparr> else s)))
      else if \<not> gn_active s then s
      else (case cur_frame cfg cur of Inl _ \<Rightarrow> s
        | Inr cf \<Rightarrow> (case direct_cmd_pos_frames cfg pulse of Inl _ \<Rightarrow> s
            | Inr pos \<Rightarrow>
                (case (if gc_streaming cfg \<and> gc_no_ack cfg
                       then send_cmd_fire_and_forget cfg js (we_send_ok e) (cf # pos) s
                       else send_cmd_and_wait_ack cfg js e (cf # pos) s) of
                   ((ok, _), s1) \<Rightarrow>
                     if ok then s1\<lparr>gn_sent_pulse := Some pulse, gn_sent_cur := Some cur, gn_pos := pulse\<rparr>
                     else s1))))"

section \<open>Services and actions\<close>

definition gripped :: "gripper_cfg \<Rightarrow> gripper_node \<Rightarrow> bool" where
  "gripped cfg s \<longleftrightarrow> gc_grip_enabled cfg \<and> real_of_int \<bar>gn_cur s\<bar> > gc_grip_threshold cfg"

definition reached :: "gripper_cfg \<Rightarrow> int \<Rightarrow> gripper_node \<Rightarrow> bool" where
  "reached cfg pulse s \<longleftrightarrow> \<bar>gn_pos s - pulse\<bar> < gc_done_tol cfg"

text \<open>
  Polling until the gripper grips or arrives; one list of receives per poll, as many polls as fit
  before the deadline. The result says whether gripping ended the loop.
\<close>

fun settle :: "gripper_cfg \<Rightarrow> json_env \<Rightarrow> int \<Rightarrow> (real \<times> bytes) list list \<Rightarrow> gripper_node \<Rightarrow> bool \<times> gripper_node" where
  "settle cfg js pulse [] s = (False, s)"
| "settle cfg js pulse (as # ps) s =
     (let s1 = recv_all cfg js as s
      in if gripped cfg s1 then (True, s1)
         else if reached cfg pulse s1 then (False, s1)
         else settle cfg js pulse ps s1)"

record set_reply =
  sr_success :: bool
  sr_message :: gripper_msg
  sr_position :: int
  sr_current :: int

definition reply_now :: "bool \<Rightarrow> gripper_msg \<Rightarrow> gripper_node \<Rightarrow> set_reply" where
  "reply_now ok m s = \<lparr>sr_success = ok, sr_message = m, sr_position = gn_pos s, sr_current = gn_cur s\<rparr>"

definition set_position ::
  "gripper_cfg \<Rightarrow> json_env \<Rightarrow> wait_env \<Rightarrow> real \<Rightarrow> (real \<times> bytes) list list \<Rightarrow> int \<Rightarrow> int \<Rightarrow> gripper_node
   \<Rightarrow> set_reply \<times> gripper_node" where
  "set_position cfg js e now polls position current s =
     (let cur = (if current > 0 then current else gc_cur_init cfg) in
      if gc_mode cfg = ''virtual''
      then (\<lparr>sr_success = True, sr_message = Virtual_Mock, sr_position = position, sr_current = cur\<rparr>,
            s\<lparr>gn_pos := position\<rparr>)
      else if gc_transport cfg \<noteq> ''tcp'' \<or> \<not> gn_active s then (reply_now False Offline_Or_Drl s, s)
      else (case cur_frame cfg cur of Inl w \<Rightarrow> (reply_now False (Wire_Error w) s, s)
        | Inr cf \<Rightarrow> (case direct_cmd_pos_frames cfg position of Inl w \<Rightarrow> (reply_now False (Wire_Error w) s, s)
            | Inr pos \<Rightarrow>
                (case send_cmd_and_wait_ack cfg js e (cf # pos) s of ((ok, m), s1) \<Rightarrow>
                   if \<not> ok then (reply_now False m s1, s1)
                   else let s2 = (if gc_stream_enabled cfg \<and> now - gn_last_state s1 < 2
                                  then snd (settle cfg js position polls s1)
                                  else s1\<lparr>gn_pos := position\<rparr>)
                        in (reply_now True Finished s2, s2)))))"

text \<open>The answer to a grasp goal: success and message; the goal succeeds exactly when it is true.\<close>

definition execute_tcp ::
  "gripper_cfg \<Rightarrow> json_env \<Rightarrow> wait_env \<Rightarrow> wait_env \<Rightarrow> (real \<times> bytes) list list \<Rightarrow> int \<Rightarrow> int \<Rightarrow> gripper_node
   \<Rightarrow> (bool \<times> gripper_msg) \<times> gripper_node" where
  "execute_tcp cfg js e1 e2 polls pulse cur s =
     (if \<not> gn_active s then ((False, Tcp_Offline), s)
      else (case cur_frame cfg cur of Inl w \<Rightarrow> ((False, Wire_Error w), s)
        | Inr cf \<Rightarrow> (case direct_cmd_pos_frames cfg pulse of Inl w \<Rightarrow> ((False, Wire_Error w), s)
            | Inr pos \<Rightarrow>
                (case send_cmd_and_wait_ack cfg js e1 [cf] s of ((ok1, _), s1) \<Rightarrow>
                   if \<not> ok1 then ((False, Cur_Ack_Failed), s1)
                   else (case send_cmd_and_wait_ack cfg js e2 pos s1 of ((ok2, _), s2) \<Rightarrow>
                     if \<not> ok2 then ((False, Pos_Ack_Failed), s2)
                     else (case settle cfg js pulse polls s2 of (grip, s3) \<Rightarrow>
                       ((True, if grip then Grip_Detected else Position_Reached), s3)))))))"

text \<open>The target of a goal: its words, and the force when it asks for one.\<close>

definition goal_target :: "gripper_cfg \<Rightarrow> string \<Rightarrow> real \<Rightarrow> (wire_error, int \<times> int) result" where
  "goal_target cfg approach force =
     (let parts = split_words [] (py_strip approach);
          action = (case parts of [] \<Rightarrow> ''close'' | a # _ \<Rightarrow> a)
      in case (case parts of _ # a # _ \<Rightarrow> py_int a | _ \<Rightarrow> Some 0) of
           None \<Rightarrow> Inl Value_Error
         | Some p \<Rightarrow> (case (case parts of _ # _ # b # _ \<Rightarrow> py_int b | _ \<Rightarrow> Some 0) of
             None \<Rightarrow> Inl Value_Error
           | Some c \<Rightarrow>
               (case resolve_preset_action cfg action p c of (p1, c1) \<Rightarrow>
                  (case (if p1 < 0 then (gc_pulse_closed cfg, gc_cur_grip cfg) else (p1, c1)) of (p2, c2) \<Rightarrow>
                     Inr (p2, \<lfloor>min (max (if force > 0 then force else real_of_int c2) 10) 1000\<rfloor>)))))"

text \<open>
  In DRL mode the packets of the polling program are built first; \<open>Inl\<close> leaves the callback
  with the exception.
\<close>

definition execute_drl ::
  "gripper_cfg \<Rightarrow> bool \<Rightarrow> int \<Rightarrow> int \<Rightarrow> gripper_node \<Rightarrow> (wire_error, bool \<times> gripper_msg) result \<times> gripper_node" where
  "execute_drl cfg drl_ok pulse cur s =
     (if gc_mode cfg = ''virtual'' then (Inr (True, Virtual_Mock), s\<lparr>gn_pos := pulse\<rparr>)
      else case cat_results [fc06 (gc_slave cfg) 275 cur, fc16 (gc_slave cfg) 282 2 [pulse, 0],
                fc03 (gc_slave cfg) 284 2, fc03 (gc_slave cfg) 287 1] of
        Inl w \<Rightarrow> (Inl w, s)
      | Inr _ \<Rightarrow> if drl_ok then (Inr (True, Drl_Done), s\<lparr>gn_pos := pulse\<rparr>) else (Inr (False, Drl_Failed), s))"

definition execute_callback ::
  "gripper_cfg \<Rightarrow> json_env \<Rightarrow> wait_env \<Rightarrow> wait_env \<Rightarrow> (real \<times> bytes) list list \<Rightarrow> bool \<Rightarrow> string \<Rightarrow> real \<Rightarrow>
   gripper_node \<Rightarrow> (wire_error, bool \<times> gripper_msg) result \<times> gripper_node" where
  "execute_callback cfg js e1 e2 polls drl_ok approach force s =
     (case goal_target cfg approach force of Inl w \<Rightarrow> (Inl w, s)
      | Inr (pulse, cur) \<Rightarrow>
          if gc_transport cfg = ''drl'' then execute_drl cfg drl_ok pulse cur s
          else (case execute_tcp cfg js e1 e2 polls pulse cur s of (r, s') \<Rightarrow> (Inr r, s')))"

definition publish_state :: "gripper_node \<Rightarrow> real list \<times> real list" where
  "publish_state s = ([real_of_int (gn_pos s)], [real_of_int (gn_cur s)])"

section \<open>Watchdog and reconnection\<close>

datatype watchdog_action = Wd_Nothing | Wd_Reinject | Wd_Reconnect

text \<open>One round of \<open>_tcp_watchdog_loop\<close>; \<open>inflight\<close> is the flag of a reconnection in progress.\<close>

definition watchdog_round ::
  "gripper_cfg \<Rightarrow> json_env \<Rightarrow> bool \<Rightarrow> real \<Rightarrow> bool \<Rightarrow> bool \<Rightarrow> real \<Rightarrow> gripper_node
   \<Rightarrow> watchdog_action \<times> gripper_node" where
  "watchdog_round cfg js enabled stale inflight ping_ok now s =
     (if \<not> enabled \<or> gc_transport cfg \<noteq> ''tcp'' then (Wd_Nothing, s)
      else if inflight then (Wd_Nothing, s)
      else if \<not> gn_active s then (Wd_Reinject, s)
      else (case sock_send ping_ok (ping_bytes cfg js) s of
          None \<Rightarrow> (Wd_Nothing, s\<lparr>gn_active := False\<rparr>)
        | Some s1 \<Rightarrow>
            (let last_rx = max (gn_last_pong s1) (gn_last_state s1)
             in (if last_rx \<noteq> 0 \<and> now - last_rx > stale then Wd_Reconnect else Wd_Nothing, s1))))"

text \<open>One attempt to connect: whether it succeeds, and what the handshake meets.\<close>

definition fresh_socket :: "gripper_node \<Rightarrow> gripper_node" where
  "fresh_socket s = s\<lparr>gn_active := True, gn_rx := [], gn_hello := False, gn_state := False,
     gn_ack := False, gn_pong := False\<rparr>"

fun reconnect_attempts ::
  "gripper_cfg \<Rightarrow> json_env \<Rightarrow> (bool \<times> wait_env \<times> real) list \<Rightarrow> gripper_node \<Rightarrow> bool \<times> gripper_node" where
  "reconnect_attempts cfg js [] s = (False, s)"
| "reconnect_attempts cfg js ((ok, e, now) # tries) s =
     (if \<not> ok then reconnect_attempts cfg js tries s
      else (case tcp_handshake cfg js e (fresh_socket s) of
          (True, s1) \<Rightarrow> (True, s1\<lparr>gn_last_pong := now\<rparr>)
        | (False, s1) \<Rightarrow> reconnect_attempts cfg js tries (s1\<lparr>gn_active := False\<rparr>)))"

definition reconnect_tcp_only ::
  "gripper_cfg \<Rightarrow> json_env \<Rightarrow> (bool \<times> wait_env \<times> real) list \<Rightarrow> gripper_node \<Rightarrow> bool \<times> gripper_node" where
  "reconnect_tcp_only cfg js tries s =
     reconnect_attempts cfg js (take 10 tries) (s\<lparr>gn_active := False, gn_last_state := 0, gn_last_pong := 0\<rparr>)"

text \<open>After the program was sent to the controller again; the clock readings are kept.\<close>

definition reconnect_with_reinject ::
  "gripper_cfg \<Rightarrow> json_env \<Rightarrow> (bool \<times> wait_env \<times> real) list \<Rightarrow> gripper_node \<Rightarrow> bool \<times> gripper_node" where
  "reconnect_with_reinject cfg js tries s = reconnect_attempts cfg js (take 10 tries) s"

definition clamp_plc_out_int_addr :: "int \<Rightarrow> int" where
  "clamp_plc_out_int_addr a = (if a < 0 \<or> a > 23 then (if a < 0 then 0 else 23) else a)"

definition tcp_state_period_sec :: "gripper_cfg \<Rightarrow> real" where
  "tcp_state_period_sec cfg =
     (if \<not> gc_stream_enabled cfg then 999999
      else let hz = min 50 (max 0 (gc_state_hz cfg)) in if hz > 0 then 1 / hz else 999999)"

end
