(* ===== verification/GripperSafety.thy ===== *)
theory GripperSafety imports GripperNode begin

text \<open>
  Properties of the gripper node, alone and together with the program on the controller: a
  command from the node to the serial line and its acknowledgement back, what a reported success
  means, direct commands, and the conversion between joint angle and gripper pulse.
\<close>

section \<open>A command and its acknowledgement\<close>

text \<open>The controller between two polls of the socket: what it sends back, and what it writes.\<close>

definition controller :: "(bytes \<Rightarrow> bytes option) \<Rightarrow> bytes list \<Rightarrow> bytes \<times> bytes list" where
  "controller wr cs = (case fst (drl_recv cs []) of Rx_Packets ps \<Rightarrow> drl_serve wr ps | _ \<Rightarrow> ([], []))"

lemma drl_recv_plain:
  "\<forall>c\<in>set cs. c \<noteq> [] \<and> \<not> has_stop c \<Longrightarrow>
    drl_recv cs buf = (case drl_parse (buf @ concat cs) of (ps, r) \<Rightarrow> (Rx_Packets ps, r))"
  by (induction cs arbitrary: buf) simp_all

lemma send_bin_masked:
  "0 \<le> t \<Longrightarrow> t < 256 \<Longrightarrow> length p < 65536 \<Longrightarrow> send_bin t sq p = Inr (packet_bytes (t, sq mod 65536, p))"
  by (simp add: send_bin_def packet_bytes_def pack_H_def)

lemma ack_payload_length: "length (ack_payload ok err) \<le> 203"
  by (simp add: ack_payload_def Let_def)

lemma controller_command:
  assumes "\<forall>c\<in>set cs. c \<noteq> [] \<and> \<not> has_stop c" "concat cs = packet_bytes (TCP_T_CMD, sq, p)"
    and "0 \<le> sq" "sq < 65536" "length p < 65536" "cmd_payload fs = Inr p"
  shows "controller wr cs = (packet_bytes (TCP_T_ACK, sq, ack_payload (fst (written wr fs)) (fst (snd (written wr fs)))),
    snd (snd (written wr fs)))"
proof -
  have v: "valid_packet (TCP_T_CMD, sq, p)" using assms by (simp add: valid_packet_def TCP_T_CMD_def)
  have "drl_parse (concat cs) = ([(TCP_T_CMD, sq, p)], [])"
    using drl_parse_packet [OF v, of "[]"] assms(2) by simp
  then have r: "fst (drl_recv cs []) = Rx_Packets [(TCP_T_CMD, sq, p)]"
    using drl_recv_plain [OF assms(1), of "[]"] by simp
  obtain ok err ws where w: "written wr fs = (ok, err, ws)" by (cases "written wr fs") auto
  have "drl_command wr p = (ok, err, ws)" using command_decoded_core [OF assms(6)] w by simp
  moreover have "send_bin TCP_T_ACK sq (ack_payload ok err) = Inr (packet_bytes (TCP_T_ACK, sq, ack_payload ok err))"
    using send_bin_masked [of TCP_T_ACK "ack_payload ok err" sq] ack_payload_length [of ok err] assms(3,4)
    by (simp add: TCP_T_ACK_def)
  ultimately show ?thesis
    by (simp add: controller_def r w sent_or_nothing_def TCP_T_CMD_def TCP_T_PING_def TCP_T_STOP_def)
qed

text \<open>Receives that contain nothing but acknowledgements.\<close>

definition ack_packet :: "packet \<Rightarrow> gripper_node \<Rightarrow> gripper_node" where
  "ack_packet p s = (case p of (_, sq, payload) \<Rightarrow>
     (case ack_decode payload of (ok, err) \<Rightarrow> on_ack sq ok err s))"

lemma handle_acks:
  "\<forall>p\<in>set ps. fst p = TCP_T_ACK \<Longrightarrow>
    fold (handle_packet now) ps (s, None) = (fold ack_packet ps s, None)"
  by (induction ps arbitrary: s)
    (auto simp: handle_packet_def ack_packet_def TCP_T_ACK_def TCP_T_PONG_def split: prod.splits)

lemma ack_packet_rx: "(ack_packet p s)\<lparr>gn_rx := r\<rparr> = ack_packet p (s\<lparr>gn_rx := r\<rparr>)"
  by (simp add: ack_packet_def on_ack_def split_beta split: option.split)

lemma acks_rx: "(fold ack_packet ps s)\<lparr>gn_rx := r\<rparr> = fold ack_packet ps (s\<lparr>gn_rx := r\<rparr>)"
  by (induction ps arbitrary: s) (simp_all add: ack_packet_rx)

lemma acks_frame [simp]:
  "gn_active (fold ack_packet ps s) = gn_active s" "gn_rx (fold ack_packet ps s) = gn_rx s"
  "gn_out (fold ack_packet ps s) = gn_out s"
  by (induction ps arbitrary: s) (simp_all add: ack_packet_def on_ack_def split_beta)

lemma pc_parse_length: "length (snd (pc_parse buf)) \<le> length buf"
proof (induction buf rule: pc_parse.induct)
  case (1 buf)
  obtain op rest where o: "bin_try_parse_one buf = (op, rest)" by (cases "bin_try_parse_one buf")
  then have "length rest \<le> length buf" by (auto simp: bin_try_parse_one_def split: if_splits)
  with "1.IH" [OF o [symmetric]] o show ?case
    by (cases op) (fastforce simp: pc_parse.simps [of buf] split_beta)+
qed

lemma recv_acks:
  assumes "gc_binary cfg" "gn_active s" "\<forall>a\<in>set as. snd a \<noteq> []"
    and "gc_rx_max cfg \<le> 0 \<or> int (length (gn_rx s @ concat (map snd as))) \<le> gc_rx_max cfg"
    and "\<forall>p\<in>set (fst (feed pc_parse (map snd as) (gn_rx s))). fst p = TCP_T_ACK"
  shows "recv_all cfg js as s =
    (fold ack_packet (fst (feed pc_parse (map snd as) (gn_rx s))) s)
      \<lparr>gn_rx := snd (feed pc_parse (map snd as) (gn_rx s))\<rparr>"
  using assms(2-)
proof (induction as arbitrary: s)
  case Nil
  then show ?case by (simp add: recv_all_def)
next
  case (Cons a as)
  obtain now chunk where a: "a = (now, chunk)" by (cases a)
  let ?buf = "gn_rx s @ chunk"
  obtain ps r where pr: "pc_parse ?buf = (ps, r)" by (cases "pc_parse ?buf")
  have acks: "\<forall>p\<in>set ps. fst p = TCP_T_ACK" using Cons.prems(4) a pr by (simp add: split_beta)
  have t: "trim_rx cfg ?buf = ?buf" using Cons.prems(3) a by (auto simp: trim_rx_def)
  have one: "recv_chunk cfg js a s = fold ack_packet ps (s\<lparr>gn_rx := r\<rparr>)"
    using Cons.prems(1,2) a pr t handle_acks [OF acks] assms(1)
    by (simp add: recv_chunk_def Let_def apply_state_def)
  let ?s = "fold ack_packet ps (s\<lparr>gn_rx := r\<rparr>)"
  have "length r \<le> length ?buf" using pc_parse_length [of ?buf] pr by simp
  then have "gc_rx_max cfg \<le> 0 \<or> int (length (gn_rx ?s @ concat (map snd as))) \<le> gc_rx_max cfg"
    using Cons.prems(3) a by auto
  then have "recv_all cfg js as ?s = (fold ack_packet (fst (feed pc_parse (map snd as) r)) ?s)
      \<lparr>gn_rx := snd (feed pc_parse (map snd as) r)\<rparr>"
    using Cons.IH [of ?s] Cons.prems a pr by (simp add: split_beta)
  then show ?case using one a pr by (simp add: recv_all_def split_beta acks_rx)
qed

lemma feed_one_packet:
  assumes "valid_packet p" "concat cs = packet_bytes p"
  shows "feed pc_parse cs [] = ([p], [])"
proof -
  have "in_sync ([] @ concat cs)"
    unfolding in_sync_def using assms by (intro exI [of _ "[]"] exI [of _ "[p]"]) simp
  from feed_pc_sync [OF this] show ?thesis
    using drl_stream.feed_concat [of cs] drl_parse_packet [OF assms(1), of "[]"] assms(2) by simp
qed

lemma recv_ack_alone:
  assumes "gc_binary cfg" "gn_active s" "gn_rx s = []" "gc_rx_max cfg \<le> 0 \<or> 256 \<le> gc_rx_max cfg"
    and "\<forall>a\<in>set as. snd a \<noteq> []" "0 \<le> sq" "sq < 65536"
    and "concat (map snd as) = packet_bytes (TCP_T_ACK, sq, ack_payload ok err)"
  shows "recv_all cfg js as s = on_ack sq ok (if ok then [] else take 200 err) s"
proof -
  have v: "valid_packet (TCP_T_ACK, sq, ack_payload ok err)"
    using assms(6,7) ack_payload_length [of ok err] by (simp add: valid_packet_def TCP_T_ACK_def)
  have f: "feed pc_parse (map snd as) (gn_rx s) = ([(TCP_T_ACK, sq, ack_payload ok err)], [])"
    unfolding assms(3) by (rule feed_one_packet [OF v]) (use assms(8) in simp)
  have l: "length (concat (map snd as)) \<le> 211"
    unfolding assms(8) using ack_payload_length [of ok err] by (simp add: packet_bytes_def hdr_start_def)
  have "recv_all cfg js as s = (ack_packet (TCP_T_ACK, sq, ack_payload ok err) s)\<lparr>gn_rx := []\<rparr>"
    using recv_acks [OF assms(1,2,5), of js] f l assms(3,4) by (auto simp: fst_def)
  then show ?thesis by (simp add: ack_packet_def ack_roundtrip on_ack_def assms(3))
qed

text \<open>
  C10: From the node to the serial line and back. Once the link is up, a command the node sends is
  decoded by the controller to exactly its frames, which are written in order, whatever receives
  TCP cuts the bytes into; and the result of the call is the controller's acknowledgement, with
  its error text, provided the number of the command is below 65536. The number is sent modulo
  65536 but waited for in full, so from the 65536th command of a session on every call ends in
  an acknowledgement timeout although the gripper executed the command.
\<close>

theorem command_end_to_end:
  assumes "gc_binary cfg" "gc_rx_max cfg \<le> 0 \<or> 256 \<le> gc_rx_max cfg"
    and "gn_active s" "gn_hello s" "gn_rx s = []" "0 \<le> gn_next_id s"
    and "cmd_payload fs = Inr p" "length p < 65536" "we_send_ok e"
    and "concat cs = packet_bytes (TCP_T_CMD, gn_next_id s mod 65536, p)"
    and "\<forall>c\<in>set cs. c \<noteq> [] \<and> \<not> has_stop c"
    and "concat (map snd (we_arrivals e)) = fst (controller wr cs)"
    and "\<forall>a\<in>set (we_arrivals e). snd a \<noteq> []"
  shows "gn_out (snd (send_cmd_and_wait_ack cfg js e fs s)) = gn_out s @ [concat cs]
    \<and> snd (controller wr cs) = snd (snd (written wr fs))
    \<and> fst (send_cmd_and_wait_ack cfg js e fs s) =
        (if gn_next_id s < 65536
         then (fst (written wr fs), Reported (take 200 (fst (snd (written wr fs)))))
         else (False, Ack_Timeout))"
proof -
  let ?k = "gn_next_id s" and ?sq = "gn_next_id s mod 65536"
  obtain ok err ws where w: "written wr fs = (ok, err, ws)" by (cases "written wr fs") auto
  have okerr: "ok \<Longrightarrow> err = []" using w by (auto simp: written_def Let_def split: if_splits)
  have c: "controller wr cs = (packet_bytes (TCP_T_ACK, ?sq, ack_payload ok err), ws)"
    using controller_command [OF assms(11,10) _ _ assms(8,7), of wr] w by simp
  define s1 where "s1 = s\<lparr>gn_next_id := ?k + 1, gn_waiters := (gn_waiters s)(?k \<mapsto> False),
    gn_results := (gn_results s)(?k := None), gn_out := gn_out s @ [concat cs]\<rparr>"
  have bytes: "command_bytes cfg js ?k fs = Inr (concat cs)"
    using assms(1,7,8,10) send_bin_masked [of TCP_T_CMD p ?k] by (simp add: command_bytes_def TCP_T_CMD_def)
  have r: "recv_all cfg js (we_arrivals e) s1 = on_ack ?sq ok (if ok then [] else take 200 err) s1"
    using recv_ack_alone [OF assms(1) _ _ assms(2,13), of s1 ?sq ok err js] assms(3,5,12) c
    by (simp add: s1_def)
  have step: "send_cmd_and_wait_ack cfg js e fs s = send_and_wait cfg js e fs s"
    using assms(4) by (simp add: send_cmd_and_wait_ack_def)
  have main: "send_and_wait cfg js e fs s =
    (let s3 = on_ack ?sq ok (if ok then [] else take 200 err) s1; s4 = s3\<lparr>gn_waiters := (gn_waiters s3)(?k := None)\<rparr>
     in if gn_waiters s3 ?k = Some True \<or> gn_results s3 ?k \<noteq> None
        then (case gn_results s3 ?k of None \<Rightarrow> ((False, Reported []), s4)
          | Some (ok, err) \<Rightarrow> ((ok, Reported err), s4\<lparr>gn_results := (gn_results s4)(?k := None)\<rparr>))
        else ((False, Ack_Timeout), s4))"
    unfolding r [symmetric] using assms(9)
    by (simp add: send_and_wait_def bytes sock_send_def s1_def Let_def)
  show ?thesis
  proof (cases "?k < 65536")
    case True
    then have "?sq = ?k" using assms(6) by simp
    then show ?thesis using True okerr w c unfolding step main
      by (simp add: on_ack_def s1_def Let_def)
  next
    case False
    then have "?sq \<noteq> ?k" by (metis less_irrefl mod_less_divisor pos_mod_bound zero_less_numeral)
    then show ?thesis using False w c unfolding step main
      by (simp add: on_ack_def s1_def Let_def split: option.splits)
  qed
qed

section \<open>Direct commands\<close>

lemmas sent_defs = on_pong_def on_ack_def handle_packet_def handle_json_def apply_state_def

definition sent :: "gripper_node \<Rightarrow> int option \<times> int option" where
  "sent s = (gn_sent_pulse s, gn_sent_cur s)"

lemma handle_packets_sent: "sent (fst (fold (handle_packet now) ps sl)) = sent (fst sl)"
  by (induction ps arbitrary: sl) (auto simp: sent_def sent_defs split: prod.splits option.splits)

lemma handle_jsons_sent: "sent (fst (fst (handle_jsons js now bs sl))) = sent (fst sl)"
  by (induction js now bs sl rule: handle_jsons.induct)
    (auto simp: sent_def sent_defs split: prod.splits option.splits jmsg.splits)

lemma apply_state_sent: "sent (apply_state cfg now l s) = sent s"
  by (auto simp: sent_def apply_state_def split: option.splits)

lemma sent_frame [simp]:
  "sent (s\<lparr>gn_rx := r\<rparr>) = sent s" "sent (s\<lparr>gn_active := b\<rparr>) = sent s" "sent (s\<lparr>gn_pos := x\<rparr>) = sent s"
  "sent (s\<lparr>gn_waiters := w\<rparr>) = sent s" "sent (s\<lparr>gn_results := rs\<rparr>) = sent s"
  "sent (s\<lparr>gn_next_id := n\<rparr>) = sent s" "sent (s\<lparr>gn_out := out\<rparr>) = sent s"
  "sent (s\<lparr>gn_pong := b\<rparr>) = sent s"
  by (simp_all add: sent_def)

lemma recv_chunk_sent [simp]: "sent (recv_chunk cfg js a s) = sent s"
proof -
  obtain now chunk where a: "a = (now, chunk)" by (cases a)
  obtain ps r where p: "pc_parse (trim_rx cfg (gn_rx s @ chunk)) = (ps, r)" by (metis surj_pair)
  obtain bs r' where j: "json_split (trim_rx cfg (gn_rx s @ chunk)) = (bs, r')" by (metis surj_pair)
  show ?thesis
    using handle_packets_sent [of now ps "(s\<lparr>gn_rx := r\<rparr>, None)"]
      handle_jsons_sent [of js now bs "(s\<lparr>gn_rx := r'\<rparr>, None)"]
    by (simp add: recv_chunk_def a Let_def p j apply_state_sent split_beta)
qed

lemma recv_all_sent [simp]: "sent (recv_all cfg js as s) = sent s"
  by (induction as arbitrary: s) (simp_all add: recv_all_def)

lemma sock_send_sent: "sock_send ok r s = Some s' \<Longrightarrow> sent s' = sent s"
  by (auto simp: sock_send_def split: sum.splits if_splits)

lemma tcp_handshake_sent [simp]: "sent (snd (tcp_handshake cfg js e s)) = sent s"
  by (auto simp: tcp_handshake_def Let_def dest: sock_send_sent split: option.splits)

lemma send_and_wait_sent [simp]: "sent (snd (send_and_wait cfg js e fs s)) = sent s"
  by (auto simp: send_and_wait_def Let_def dest: sock_send_sent split: option.splits)

lemma send_cmd_and_wait_ack_sent [simp]: "sent (snd (send_cmd_and_wait_ack cfg js e fs s)) = sent s"
  using tcp_handshake_sent [of cfg js e s]
  by (auto simp: send_cmd_and_wait_ack_def split: prod.splits simp del: tcp_handshake_sent)

lemma settle_sent [simp]: "sent (snd (settle cfg js pulse ps s)) = sent s"
  by (induction cfg js pulse ps s rule: settle.induct) (simp_all add: Let_def)

lemma set_position_sent: "sent (snd (set_position cfg js e now polls position current s)) = sent s"
  by (auto simp: set_position_def Let_def split_beta split: sum.splits)

lemma execute_tcp_sent: "sent (snd (execute_tcp cfg js e1 e2 polls pulse cur s)) = sent s"
  by (auto simp: execute_tcp_def split_beta split: sum.splits)

lemma inline_skips:
  "sent s = (Some pulse, Some cur) \<Longrightarrow> direct_cmd_streaming_inline cfg js ok pulse cur s = (Inr (), s)"
  by (simp add: direct_cmd_streaming_inline_def sent_def)

lemma inline_sends:
  assumes "direct_cmd_streaming_inline cfg js ok pulse cur s = (Inr (), s1)" "gn_out s1 \<noteq> gn_out s"
  shows "sent s1 = (Some pulse, Some cur)"
  using assms
  by (auto simp: direct_cmd_streaming_inline_def send_cmd_fire_and_forget_def sock_send_def Let_def sent_def
      split: if_splits sum.splits option.splits prod.splits)

text \<open>
  A direct command that was sent is remembered as the last target, and the service that moves
  the gripper does not update that memory: after \<open>set_position\<close> has moved the gripper elsewhere,
  sending the same direct command again is dropped as a duplicate, whatever the service did.
\<close>

theorem repeated_direct_command_dropped:
  assumes "gc_streaming cfg" "gc_no_ack cfg" "gc_transport cfg = ''tcp''"
    and "on_direct_cmd cfg js ok data s = (Inr (), s1)" "gn_out s1 \<noteq> gn_out s"
  shows "on_direct_cmd cfg js ok' data (snd (set_position cfg js e now polls position current s1))
    = (Inr (), snd (set_position cfg js e now polls position current s1))"
proof -
  obtain action pulse cur where t: "direct_target cfg data = Inr (Some (action, pulse, cur))"
    using assms(4,5) by (auto simp: on_direct_cmd_def split: sum.splits option.splits)
  then have "direct_cmd_streaming_inline cfg js ok pulse cur s = (Inr (), s1)"
    using assms by (simp add: on_direct_cmd_def)
  from inline_sends [OF this assms(5)]
  have "sent (snd (set_position cfg js e now polls position current s1)) = (Some pulse, Some cur)"
    by (simp add: set_position_sent)
  from inline_skips [OF this] show ?thesis using t assms(1-3) by (simp add: on_direct_cmd_def)
qed

section \<open>Grasp goals\<close>

text \<open>
  What a successful grasp means. In TCP mode a goal is reported as successful exactly when
  both commands were acknowledged: how the gripper moves afterwards decides only the message, and
  when nothing at all happens before the deadline the message is still "position reached".
\<close>

theorem grasp_success_is_acknowledgement:
  "fst (fst (execute_tcp cfg js e1 e2 polls pulse cur s)) =
     (gn_active s \<and> (\<exists>cf pos. cur_frame cfg cur = Inr cf \<and> direct_cmd_pos_frames cfg pulse = Inr pos
       \<and> (case send_cmd_and_wait_ack cfg js e1 [cf] s of ((ok1, _), s1) \<Rightarrow>
            ok1 \<and> fst (fst (send_cmd_and_wait_ack cfg js e2 pos s1)))))
   \<and> snd (fst (execute_tcp cfg js e1 e2 [] pulse cur s)) \<noteq> Grip_Detected
   \<and> (fst (fst (execute_tcp cfg js e1 e2 [] pulse cur s)) =
        (snd (fst (execute_tcp cfg js e1 e2 [] pulse cur s)) = Position_Reached))"
  by (auto simp: execute_tcp_def split_beta split: sum.splits)

section \<open>Joint angle and pulse\<close>

lemma py_round_int [simp]: "py_round (real_of_int k) = k"
  by (simp add: py_round_def)

lemma py_round_mono_bounds:
  assumes "real_of_int a \<le> x" "x \<le> real_of_int b"
  shows "a \<le> py_round x \<and> py_round x \<le> b"
proof -
  have f: "a \<le> \<lfloor>x\<rfloor>" using assms(1) by (simp add: le_floor_iff)
  have "x = real_of_int \<lfloor>x\<rfloor> \<or> \<lfloor>x\<rfloor> + 1 \<le> b"
  proof (cases "x = real_of_int \<lfloor>x\<rfloor>")
    case False
    then have "real_of_int \<lfloor>x\<rfloor> < real_of_int b" using assms(2) of_int_floor_le [of x] by linarith
    then show ?thesis by simp
  qed simp
  then show ?thesis
  proof
    assume "x = real_of_int \<lfloor>x\<rfloor>"
    then have "py_round x = \<lfloor>x\<rfloor>" by (metis py_round_int)
    then show ?thesis using f assms(2) by (simp add: floor_le_iff)
  next
    assume "\<lfloor>x\<rfloor> + 1 \<le> b"
    then show ?thesis using f by (auto simp: py_round_def Let_def)
  qed
qed

lemma closure_bounds: "0 \<le> normalized_closure angle op cl \<and> normalized_closure angle op cl \<le> 1"
  by (auto simp: normalized_closure_def clamp_def Let_def)

text \<open>
  The conversion from joint angle to gripper pulse stays between the open and the closed pulse
  for every angle, and recovers every pulse in that range from the angle the node computes for it.
\<close>

theorem pulse_conversion:
  assumes "op < cl" "p_open < p_closed" "p_open \<le> pulse" "pulse \<le> p_closed"
  shows "rad_to_pulse (pulse_to_rad pulse op cl p_open p_closed) op cl p_open p_closed = pulse
    \<and> p_open \<le> rad_to_pulse angle op cl p_open p_closed
    \<and> rad_to_pulse angle op cl p_open p_closed \<le> p_closed"
proof -
  let ?span = "real_of_int (p_closed - p_open)"
  let ?t = "real_of_int (pulse - p_open) / ?span"
  have t: "0 \<le> ?t" "?t \<le> 1" using assms(2-4) by (simp_all add: divide_le_eq)
  have "pulse_to_rad pulse op cl p_open p_closed = op + ?t * (cl - op)"
    using assms(2) t by (simp add: pulse_to_rad_def clamp_def Let_def)
  then have "normalized_closure (pulse_to_rad pulse op cl p_open p_closed) op cl = ?t"
    using assms(1) t by (simp add: normalized_closure_def clamp_def)
  moreover have "?t * ?span = real_of_int (pulse - p_open)" using assms(2) by simp
  ultimately have "rad_to_pulse (pulse_to_rad pulse op cl p_open p_closed) op cl p_open p_closed = pulse"
    unfolding rad_to_pulse_def by (metis add.commute diff_add_cancel of_int_add py_round_int)
  moreover have "p_open \<le> rad_to_pulse angle op cl p_open p_closed
      \<and> rad_to_pulse angle op cl p_open p_closed \<le> p_closed"
    unfolding rad_to_pulse_def
  proof (rule py_round_mono_bounds)
    note c = closure_bounds [of angle op cl]
    have s: "0 \<le> ?span" using assms(2) by simp
    show "real_of_int p_open \<le> real_of_int p_open + normalized_closure angle op cl * ?span"
      using c s by simp
    have "normalized_closure angle op cl * ?span \<le> 1 * ?span"
      using c s by (intro mult_right_mono) simp_all
    then show "real_of_int p_open + normalized_closure angle op cl * ?span \<le> real_of_int p_closed" by simp
  qed
  ultimately show ?thesis by blast
qed

section \<open>Witnesses\<close>

definition no_json :: json_env where
  "no_json = \<lparr>js_ping = [], js_cmd = \<lambda>_ _. [], js_loads = \<lambda>_. None\<rparr>"

definition linked :: "int \<Rightarrow> gripper_node" where
  "linked k = gripper_init\<lparr>gn_active := True, gn_hello := True, gn_next_id := k\<rparr>"

definition answered :: "bytes \<Rightarrow> wait_env" where
  "answered reply = \<lparr>we_ping_ok = True, we_handshake = [], we_send_ok = True, we_arrivals = [(0, reply)]\<rparr>"

lemma command_end_to_end_witness:
  "fst (send_cmd_and_wait_ack deployed_cfg no_json
      (answered (fst (controller (\<lambda>_. None) [packet_bytes (TCP_T_CMD, 7, [0, 1, 0, 1, 9])]))) [[9]] (linked 7))
     = (True, Reported [])
   \<and> fst (send_cmd_and_wait_ack deployed_cfg no_json
      (answered (fst (controller (\<lambda>_. None) [packet_bytes (TCP_T_CMD, 0, [0, 1, 0, 1, 9])]))) [[9]] (linked 65536))
     = (False, Ack_Timeout)
   \<and> snd (controller (\<lambda>_. None) [packet_bytes (TCP_T_CMD, 0, [0, 1, 0, 1, 9])]) = [[9]]"
proof -
  have p: "cmd_payload [[9]] = Inr [0, 1, 0, 1, 9]" by (simp add: cmd_payload_iff frame_part_def be16_def)
  have w: "written (\<lambda>_. None) [[9]] = (True, [], [[9]])" by (simp add: written_def)
  have plain: "\<forall>c\<in>set [packet_bytes (TCP_T_CMD, k, [0, 1, 0, 1, 9])]. c \<noteq> [] \<and> \<not> has_stop c"
    if "k = 0 \<or> k = 7" for k
    using that by (auto simp: packet_bytes_def hdr_start_def TCP_T_CMD_def be16_def stop_text_def)
  have reply: "fst (controller (\<lambda>_. None) [packet_bytes (TCP_T_CMD, k, [0, 1, 0, 1, 9])]) \<noteq> []"
    if "k = 0 \<or> k = 7" for k
    using controller_command [OF plain [OF that] _ _ _ _ p, of k] that
    by (auto simp: packet_bytes_def hdr_start_def)
  have c: "gc_binary deployed_cfg" "gc_rx_max deployed_cfg \<le> 0 \<or> 256 \<le> gc_rx_max deployed_cfg"
    by (simp_all add: deployed_cfg_def)
  have 1: "fst (send_cmd_and_wait_ack deployed_cfg no_json
      (answered (fst (controller (\<lambda>_. None) [packet_bytes (TCP_T_CMD, 7, [0, 1, 0, 1, 9])]))) [[9]] (linked 7))
     = (True, Reported [])"
    using command_end_to_end [OF c _ _ _ _ p _ _ _ plain [of 7], of "linked 7"
        "answered (fst (controller (\<lambda>_. None) [packet_bytes (TCP_T_CMD, 7, [0, 1, 0, 1, 9])]))"
        "\<lambda>_. None" no_json] reply [of 7] w
    by (simp add: linked_def gripper_init_def answered_def)
  have 2: "fst (send_cmd_and_wait_ack deployed_cfg no_json
      (answered (fst (controller (\<lambda>_. None) [packet_bytes (TCP_T_CMD, 0, [0, 1, 0, 1, 9])]))) [[9]] (linked 65536))
     = (False, Ack_Timeout)
   \<and> snd (controller (\<lambda>_. None) [packet_bytes (TCP_T_CMD, 0, [0, 1, 0, 1, 9])]) = [[9]]"
    using command_end_to_end [OF c _ _ _ _ p _ _ _ plain [of 0], of "linked 65536"
        "answered (fst (controller (\<lambda>_. None) [packet_bytes (TCP_T_CMD, 0, [0, 1, 0, 1, 9])]))"
        "\<lambda>_. None" no_json] reply [of 0] w
    by (simp add: linked_def gripper_init_def answered_def)
  from 1 2 show ?thesis by simp
qed

lemma repeated_direct_command_dropped_witness:
  "\<exists>s1. on_direct_cmd deployed_cfg no_json True ''close'' (linked 1) = (Inr (), s1) \<and> gn_out s1 \<noteq> []
     \<and> on_direct_cmd deployed_cfg no_json True ''close'' (snd (set_position deployed_cfg no_json (answered []) 0 [] 0 0 s1))
         = (Inr (), snd (set_position deployed_cfg no_json (answered []) 0 [] 0 0 s1))"
proof -
  let ?s = "linked 1"
  have t: "direct_target deployed_cfg ''close'' = Inr (Some (''close'', 700, 300))"
    by (simp add: direct_target_def py_strip_def py_lstrip_def py_space_def Let_def resolve_preset_action_def
        deployed_cfg_def)
  obtain pos where pos: "direct_cmd_pos_frames deployed_cfg 700 = Inr [pos]" "length pos < 100"
    by (simp add: direct_cmd_pos_frames_def deployed_cfg_def fc06_def fc16_def with_crc_def one_byte_def
        pack_H_def pack_B_def Let_def crc16_def)
  obtain cf where cf: "cur_frame deployed_cfg 300 = Inr cf" "length cf < 100"
    by (simp add: cur_frame_def deployed_cfg_def fc06_def with_crc_def one_byte_def pack_H_def crc16_def Let_def)
  obtain p where p: "cmd_payload [cf, pos] = Inr p" "length p < 65536"
    using cf(2) pos(2) by (simp add: cmd_payload_iff frame_part_def)
  have b: "command_bytes deployed_cfg no_json 1 [cf, pos] = Inr (packet_bytes (TCP_T_CMD, 1, p))"
    using p send_bin_masked [of TCP_T_CMD p 1] by (simp add: command_bytes_def deployed_cfg_def TCP_T_CMD_def)
  have c: "gc_streaming deployed_cfg" "gc_no_ack deployed_cfg" "gc_transport deployed_cfg = ''tcp''"
    by (simp_all add: deployed_cfg_def)
  have "\<exists>s1. on_direct_cmd deployed_cfg no_json True ''close'' ?s = (Inr (), s1) \<and> gn_out s1 = [packet_bytes (TCP_T_CMD, 1, p)]"
    using b by (simp add: on_direct_cmd_def t c direct_cmd_streaming_inline_def pos cf
        send_cmd_fire_and_forget_def sock_send_def linked_def gripper_init_def)
  then obtain s1 where s1: "on_direct_cmd deployed_cfg no_json True ''close'' ?s = (Inr (), s1)"
    "gn_out s1 = [packet_bytes (TCP_T_CMD, 1, p)]" by blast
  then have "gn_out s1 \<noteq> gn_out ?s" by (simp add: linked_def gripper_init_def)
  from repeated_direct_command_dropped [OF c s1(1) this] s1 show ?thesis by auto
qed

lemma pulse_conversion_witness:
  "rad_to_pulse (pulse_to_rad 420 0 (1101 / 1000) 0 700) 0 (1101 / 1000) 0 700 = 420
   \<and> rad_to_pulse 5 0 (1101 / 1000) 0 700 \<le> 700"
  using pulse_conversion [of 0 "1101 / 1000" 0 700 420 5] by simp

end
