(* ===== verification/SeqRunner.thy ===== *)
theory SeqRunner imports ToolActionServer DbServices PlcStates begin

text \<open>
  \<open>ros2_ws/src/motion/motion/toolbox_seq_runner.py\<close>: the node that runs one sequence of
  \<open>toolbox_motion.py\<close>, chosen by a parameter, and shuts down. The node asks the DB Gate itself,
  watches \<open>/plc/e_stop\<close> and runs the visual servo loops.

  As in the tool action server, the subscriptions are served by other threads: at every point
  where the code reads shared flags, sleeps or waits for a reply, the events that have arrived are
  delivered (\<open>rn_observe\<close>), and time passes. The environment chooses the events, the fate of each
  request, which services are ready, and what SQLite does. Messages published, requests sent and
  the log line of the E-stop callback are appended to \<open>rn_outs\<close>, in order.
\<close>

section \<open>Messages\<close>

datatype runner_out =
    RnMoving bool
  | RnLatch
  | RnLine move_line_req
  | RnJoint move_joint_req
  | RnGrip gripper_req
  | RnStop
  | RnCreateTcp string "real list"
  | RnSetTcp string
  | RnGetPosx
  | RnShutdown

datatype runner_exc = RuntimeErr string | OtherErr string

text \<open>
  The fate of a request: \<open>call_async\<close> raises; no reply; or after \<open>k\<close> polls of a tenth of a second
  the future is done and holds an exception, or a result, \<open>None\<close> or a success flag with the
  positions a position query returns. Only the calls that poll look at \<open>k\<close>.
\<close>

datatype runner_fate =
    CallFails runner_exc
  | Silent
  | HoldsExc nat runner_exc
  | Holds nat "(bool \<times> real list list) option"

datatype runner_event =
    SeesEstop bool
  | SeesMoving bool
  | SeesHandle real real
  | SeesTool pose_msg
  | SeesSlotTop real real real

section \<open>Configuration\<close>

text \<open>The parts of \<open>config/toolbox.yaml\<close> the runner reads; a missing key is \<open>None\<close>.\<close>

record runner_tool =
  rt_tool_id :: "string option"
  rt_grasp_z :: "real option"
  rt_return_z :: "real option"
  rt_staging_z :: "real option"
  rt_grip_stroke :: "int option"
  rt_grasp_pose :: "(real option \<times> real option) option"

record runner_yaml =
  ry_approach_z :: "real option"
  ry_approach_ori :: "real list option"
  ry_descent_ori :: "real list option"
  ry_x :: "real list option"
  ry_y :: "real list option"
  ry_z :: "real list option"
  ry_tools :: "runner_tool list"

record runner_toolbox =
  tb_approach_z :: real
  tb_approach_ori :: "real list"
  tb_descent_ori :: "real list"
  tb_x :: "real \<times> real"
  tb_y :: "real \<times> real"
  tb_z :: "real \<times> real"
  tb_grasp_z :: "(string \<times> real) list"
  tb_return_z :: "(string \<times> real) list"
  tb_staging_z :: "(string \<times> real) list"
  tb_grip_stroke :: "(string \<times> int) list"
  tb_slot_xy :: "(string \<times> real \<times> real) list"

text \<open>The values of the \<open>except\<close> branch.\<close>

definition default_toolbox :: runner_toolbox where
  "default_toolbox =
     \<lparr>tb_approach_z = 234.0, tb_approach_ori = [180.0, 180.0, 90.0],
      tb_descent_ori = [180.0, 180.0, 90.0],
      tb_x = (50.0, 800.0), tb_y = (-600.0, 600.0), tb_z = (-31.0, 700.0),
      tb_grasp_z = [], tb_return_z = [], tb_staging_z = [], tb_grip_stroke = [], tb_slot_xy = []\<rparr>"

text \<open>\<open>v = lim.get(axis, d)\<close> and \<open>float(v[0]), float(v[1])\<close>; a short list raises (\<open>None\<close>).\<close>

definition runner_axis :: "real list option \<Rightarrow> real \<times> real \<Rightarrow> (real \<times> real) option" where
  "runner_axis v d = (case v of None \<Rightarrow> Some d | Some (lo # hi # _) \<Rightarrow> Some (lo, hi) | Some _ \<Rightarrow> None)"

text \<open>
  A dictionary over the entries that have a field; an entry without \<open>tool_id\<close> raises, among
  entries with one \<open>tool_id\<close> the last wins.
\<close>

fun keyed_entries :: "(runner_tool \<Rightarrow> 'v option) \<Rightarrow> runner_tool list \<Rightarrow> (string \<times> 'v) list option" where
  "keyed_entries f [] = Some []"
| "keyed_entries f (t # ts) =
     (case f t of
        None \<Rightarrow> keyed_entries f ts
      | Some v \<Rightarrow>
          (case rt_tool_id t of
             None \<Rightarrow> None
           | Some i \<Rightarrow>
               map_option (\<lambda>d. if i \<in> fst ` set d then d else (i, v) # d) (keyed_entries f ts)))"

text \<open>\<open>grasp_pose_base\<close> in metres to millimetres; a pose without \<open>x\<close> or \<open>y\<close> raises.\<close>

definition slot_entries :: "runner_tool list \<Rightarrow> (string \<times> real \<times> real) list option" where
  "slot_entries ts =
     Option.bind
       (keyed_entries (\<lambda>t. map_option (\<lambda>(x, y). Option.bind x (\<lambda>x. map_option (\<lambda>y. (x * 1000.0, y * 1000.0)) y))
                             (rt_grasp_pose t)) ts)
       (\<lambda>d. if \<exists>t\<in>set ts. case rt_grasp_pose t of Some (Some _, Some _) \<Rightarrow> False | Some _ \<Rightarrow> True | None \<Rightarrow> False
            then None else Some (map (\<lambda>(i, p). (i, the p)) d))"

text \<open>
  \<open>_load_toolbox_config\<close>: any exception replaces everything by the defaults. The file is
  unreadable if the argument is \<open>None\<close>.
\<close>

definition load_toolbox_config :: "runner_yaml option \<Rightarrow> runner_toolbox" where
  "load_toolbox_config f =
     (case Option.bind f (\<lambda>y.
        Option.bind (runner_axis (ry_x y) (50.0, 800.0)) (\<lambda>lx.
        Option.bind (runner_axis (ry_y y) (-600.0, 600.0)) (\<lambda>ly.
        Option.bind (runner_axis (ry_z y) (-31.0, 700.0)) (\<lambda>lz.
        Option.bind (keyed_entries rt_grasp_z (ry_tools y)) (\<lambda>grasp.
        Option.bind (keyed_entries rt_return_z (ry_tools y)) (\<lambda>return.
        Option.bind (keyed_entries rt_staging_z (ry_tools y)) (\<lambda>staging.
        Option.bind (keyed_entries rt_grip_stroke (ry_tools y)) (\<lambda>stroke.
        Option.bind (slot_entries (ry_tools y)) (\<lambda>slot.
        Some \<lparr>tb_approach_z = (case ry_approach_z y of None \<Rightarrow> 234.0 | Some z \<Rightarrow> z),
              tb_approach_ori = (case ry_approach_ori y of None \<Rightarrow> [180.0, 180.0, 90.0] | Some l \<Rightarrow> l),
              tb_descent_ori = (case ry_descent_ori y of None \<Rightarrow> [180.0, 180.0, 90.0] | Some l \<Rightarrow> l),
              tb_x = lx, tb_y = ly, tb_z = lz, tb_grasp_z = grasp, tb_return_z = return,
              tb_staging_z = staging, tb_grip_stroke = stroke, tb_slot_xy = slot\<rparr>))))))))) of
        None \<Rightarrow> default_toolbox
      | Some t \<Rightarrow> t)"

text \<open>The node's parameters that the run depends on, and the loaded configuration.\<close>

record runner_cfg =
  rc_seq_name :: string
  rc_mode :: string
  rc_tcp_name :: string
  rc_tool_id :: string
  rc_vel_l :: real
  rc_acc_l :: real
  rc_vel_r :: real
  rc_acc_r :: real
  rc_vel_j :: real
  rc_acc_j :: real
  rc_toolbox :: runner_toolbox

section \<open>State and environment\<close>

text \<open>
  \<open>_estop_triggered\<close> and \<open>_estop_event\<close> are set together and never cleared: one field.
\<close>

record runner =
  rn_estop :: bool
  rn_prev_moving :: bool
  rn_handle :: handle_pose
  rn_tool :: tool_pose
  rn_slot_top :: tool_pose
  rn_db :: "db_client option"
  rn_plc :: mock_client
  rn_done :: bool
  rn_outs :: "runner_out list"
  rn_now :: real
  rn_tick :: nat

record runner_env =
  re_cfg :: runner_cfg
  re_events :: "nat \<Rightarrow> runner_event list"
  re_elapsed :: "nat \<Rightarrow> real"
  re_fate :: "nat \<Rightarrow> runner_fate"
  re_ready :: "nat \<Rightarrow> service \<Rightarrow> bool"
  re_io :: "nat \<Rightarrow> io"
  re_clock :: "nat \<Rightarrow> clock"
  re_servo_yaml :: "servo_yaml option"

type_synonym 'a runner_op = "(runner, runner_exc, 'a) op"

definition no_handle_pose :: handle_pose where
  "no_handle_pose = \<lparr>hp_x = 0, hp_z = 0, hp_valid = False\<rparr>"

definition runner_init :: "db_client option \<Rightarrow> mock_client \<Rightarrow> real \<Rightarrow> runner" where
  "runner_init db plc t =
     \<lparr>rn_estop = False, rn_prev_moving = False, rn_handle = no_handle_pose, rn_tool = no_tool_pose,
      rn_slot_top = no_tool_pose, rn_db = db, rn_plc = plc, rn_done = False, rn_outs = [],
      rn_now = t, rn_tick = 0\<rparr>"

text \<open>
  The constructor. \<open>connects\<close> is \<open>None\<close> if \<open>DBClient(db_path)\<close> raises, else the outcome of
  \<open>connect()\<close>: when that raises, \<open>_db\<close> has already been assigned. The \<open>set_error\<close> of the
  \<open>except\<close> branch runs before \<open>_plc\<close> exists: its \<open>AttributeError\<close> is dropped.
\<close>

definition runner_start ::
  "(string \<times> bool) list \<Rightarrow> database \<Rightarrow> outcome option \<Rightarrow> string \<Rightarrow> int \<Rightarrow> real \<Rightarrow> (runner_exc, runner) result" where
  "runner_start services d connects port baudrate t =
     (case List.find (\<lambda>sv. \<not> snd sv) services of
        Some sv \<Rightarrow> Inl (RuntimeErr (fst sv))
      | None \<Rightarrow>
          Inr (runner_init (map_option (\<lambda>q. snd (client_connect q (client_new d))) connects)
                 (snd (mock_connect (mock_init port baudrate))) t))"

definition rn_emit :: "runner_out \<Rightarrow> unit runner_op" where
  "rn_emit x = modify_op (\<lambda>s. s\<lparr>rn_outs := rn_outs s @ [x]\<rparr>)"

section \<open>Callbacks\<close>

definition runner_on_is_moving :: "bool \<Rightarrow> runner \<Rightarrow> runner" where
  "runner_on_is_moving b s = s\<lparr>rn_prev_moving := b\<rparr>"

text \<open>The first E-stop is logged, latched and passed on to the controller if it listens.\<close>

definition runner_on_estop :: "bool \<Rightarrow> bool \<Rightarrow> runner \<Rightarrow> runner" where
  "runner_on_estop stop_ready b s =
     (if b \<and> \<not> rn_estop s
      then s\<lparr>rn_estop := True, rn_outs := rn_outs s @ [RnLatch] @ (if stop_ready then [RnStop] else [])\<rparr>
      else s)"

definition runner_on_handle_pose :: "real \<Rightarrow> real \<Rightarrow> runner \<Rightarrow> runner" where
  "runner_on_handle_pose x z s =
     s\<lparr>rn_handle := \<lparr>hp_x = x * 1000.0, hp_z = z * 1000.0, hp_valid = True\<rparr>\<rparr>"

definition runner_on_tool_gripper_pose :: "pose_msg \<Rightarrow> runner \<Rightarrow> runner" where
  "runner_on_tool_gripper_pose m s =
     (case pm_quat m of (qx, qy, qz, qw) \<Rightarrow>
      let siny_cosp = 2.0 * (qw * qz + qx * qy);
          cosy_cosp = 1.0 - 2.0 * (qy * qy + qz * qz);
          pca_theta = py_degrees (py_atan2 siny_cosp cosy_cosp);
          rz = pca_theta - 90.0;
          rz = (if rz < -180.0 then rz + 360.0 else rz)
      in s\<lparr>rn_tool := \<lparr>tp_x = pm_x m * 1000.0, tp_y = pm_y m * 1000.0, tp_z = pm_z m * 1000.0,
                      tp_rz = rz, tp_valid = True\<rparr>\<rparr>)"

definition runner_on_slot_top_pose :: "real \<Rightarrow> real \<Rightarrow> real \<Rightarrow> runner \<Rightarrow> runner" where
  "runner_on_slot_top_pose x y z s =
     s\<lparr>rn_slot_top := \<lparr>tp_x = x * 1000.0, tp_y = y * 1000.0, tp_z = z * 1000.0, tp_rz = 0,
                      tp_valid = True\<rparr>\<rparr>"

definition runner_event_step :: "bool \<Rightarrow> runner_event \<Rightarrow> runner \<Rightarrow> runner" where
  "runner_event_step stop_ready ev s =
     (case ev of
        SeesEstop b \<Rightarrow> runner_on_estop stop_ready b s
      | SeesMoving b \<Rightarrow> runner_on_is_moving b s
      | SeesHandle x z \<Rightarrow> runner_on_handle_pose x z s
      | SeesTool m \<Rightarrow> runner_on_tool_gripper_pose m s
      | SeesSlotTop x y z \<Rightarrow> runner_on_slot_top_pose x y z s)"

definition rn_observe :: "runner_env \<Rightarrow> unit runner_op" where
  "rn_observe env =
     modify_op (\<lambda>s. fold (runner_event_step (re_ready env (rn_tick s) MoveStop)) (re_events env (rn_tick s))
       (s\<lparr>rn_tick := Suc (rn_tick s), rn_now := rn_now s + max 0 (re_elapsed env (rn_tick s))\<rparr>))"

text \<open>Read a shared field.\<close>

definition rn_read :: "runner_env \<Rightarrow> (runner \<Rightarrow> 'a) \<Rightarrow> 'a runner_op" where
  "rn_read env f = seq_op (rn_observe env) (gets_op f)"

definition rn_sleep :: "runner_env \<Rightarrow> real \<Rightarrow> unit runner_op" where
  "rn_sleep env d =
     (if d < 0 then fail_op (OtherErr ''sleep length must be non-negative'')
      else seq_op (modify_op (\<lambda>s. s\<lparr>rn_now := rn_now s + d\<rparr>)) (rn_observe env))"

text \<open>\<open>self._plc.set_error()\<close>: the client of \<open>plc_core.client\<close>.\<close>

definition rn_plc_error :: "unit runner_op" where
  "rn_plc_error = modify_op (\<lambda>s. s\<lparr>rn_plc := snd (mock_set_error (rn_plc s))\<rparr>)"

section \<open>Requests\<close>

text \<open>
  \<open>call_async\<close> and one \<open>spin_until_future_complete\<close>, then \<open>result()\<close>: \<open>None\<close> without a reply.
\<close>

definition call_once :: "runner_env \<Rightarrow> runner_out \<Rightarrow> (bool \<times> real list list) option runner_op" where
  "call_once env x =
     seq_op (rn_observe env)
    (bind_op (gets_op (\<lambda>s. re_fate env (rn_tick s))) (\<lambda>q.
     case q of
       CallFails e \<Rightarrow> fail_op e
     | Silent \<Rightarrow> seq_op (rn_emit x) (seq_op (rn_observe env) (ret_op None))
     | HoldsExc _ e \<Rightarrow> seq_op (rn_emit x) (seq_op (rn_observe env) (fail_op e))
     | Holds _ r \<Rightarrow> seq_op (rn_emit x) (seq_op (rn_observe env) (ret_op r))))"

text \<open>The same without looking at the future.\<close>

definition call_ignored :: "runner_env \<Rightarrow> runner_out \<Rightarrow> unit runner_op" where
  "call_ignored env x =
     seq_op (rn_observe env)
    (bind_op (gets_op (\<lambda>s. re_fate env (rn_tick s))) (\<lambda>q.
     case q of
       CallFails e \<Rightarrow> fail_op e
     | _ \<Rightarrow> seq_op (rn_emit x) (rn_observe env)))"

text \<open>
  \<open>while not fut.done() and elapsed < timeout\<close>: at most \<open>n\<close> polls, left with \<open>True\<close> as soon as the
  E-stop is seen; \<open>left\<close> polls remain until the future is done, \<open>None\<close> if it never is.
\<close>

primrec await_done :: "nat \<Rightarrow> runner_env \<Rightarrow> nat option \<Rightarrow> bool runner_op" where
  "await_done 0 env left = ret_op False"
| "await_done (Suc n) env left =
     (if left = Some 0 then ret_op False
      else seq_op (rn_observe env)
        (bind_op (gets_op rn_estop) (\<lambda>latched.
         if latched then ret_op True
         else await_done n env (map_option (\<lambda>k. k - 1) left))))"

text \<open>
  A polled request: \<open>None\<close> if the E-stop was seen or there is no result, else its success flag.
  A future that is not done after \<open>n\<close> polls has the result \<open>None\<close>.
\<close>

definition call_polled :: "runner_env \<Rightarrow> nat \<Rightarrow> runner_out \<Rightarrow> bool option runner_op" where
  "call_polled env n x =
     seq_op (rn_observe env)
    (bind_op (gets_op (\<lambda>s. re_fate env (rn_tick s))) (\<lambda>q.
     case q of
       CallFails e \<Rightarrow> fail_op e
     | Silent \<Rightarrow> seq_op (rn_emit x) (seq_op (await_done n env None) (ret_op None))
     | HoldsExc k e \<Rightarrow>
         seq_op (rn_emit x) (bind_op (await_done n env (Some k)) (\<lambda>stopped.
         if stopped \<or> n < k then ret_op None else fail_op e))
     | Holds k r \<Rightarrow>
         seq_op (rn_emit x) (bind_op (await_done n env (Some k)) (\<lambda>stopped.
         if stopped \<or> n < k then ret_op None else ret_op (map_option fst r)))))"

definition LINE_POLLS :: nat where
  "LINE_POLLS = poll_rounds 30.0 0.1"

definition JOINT_POLLS :: nat where
  "JOINT_POLLS = poll_rounds 20.0 0.1"

text \<open>\<open>min(v, limit) if v is not None else limit\<close>\<close>

definition capped :: "real option \<Rightarrow> real \<Rightarrow> real" where
  "capped v limit = (case v of None \<Rightarrow> limit | Some x \<Rightarrow> min x limit)"

definition runner_line_req :: "runner_cfg \<Rightarrow> motion_step \<Rightarrow> real list \<Rightarrow> int \<Rightarrow> move_line_req" where
  "runner_line_req c st p mode =
     line_req p [capped (vel st) (rc_vel_l c), capped (vel st) (rc_vel_r c)]
                [capped (acc st) (rc_acc_l c), capped (acc st) (rc_acc_r c)] mode 0"

definition runner_movel :: "runner_env \<Rightarrow> motion_step \<Rightarrow> int \<Rightarrow> bool runner_op" where
  "runner_movel env st mode =
     (case pose st of
        None \<Rightarrow> fail_op (OtherErr '''NoneType' object is not iterable'')
      | Some p \<Rightarrow>
          bind_op (call_polled env LINE_POLLS (RnLine (runner_line_req (re_cfg env) st p mode))) (\<lambda>r.
          case r of
            None \<Rightarrow> ret_op False
          | Some ok \<Rightarrow> seq_op (rn_sleep env 0.2) (ret_op ok)))"

definition runner_joint_req :: "runner_cfg \<Rightarrow> motion_step \<Rightarrow> real list \<Rightarrow> move_joint_req" where
  "runner_joint_req c st p =
     \<lparr>jr_pos = p, jr_vel = capped (vel st) (rc_vel_j c), jr_acc = capped (acc st) (rc_acc_j c),
      jr_time = 0.0, jr_radius = 0.0, jr_mode = DR_MV_MOD_ABS, jr_blend_type = 0, jr_sync_type = 0\<rparr>"

definition runner_movej :: "runner_env \<Rightarrow> motion_step \<Rightarrow> bool runner_op" where
  "runner_movej env st =
     (case pose st of
        None \<Rightarrow> fail_op (OtherErr '''NoneType' object is not iterable'')
      | Some p \<Rightarrow>
          bind_op (call_polled env JOINT_POLLS (RnJoint (runner_joint_req (re_cfg env) st p))) (\<lambda>r.
          case r of
            None \<Rightarrow> ret_op False
          | Some ok \<Rightarrow> seq_op (rn_sleep env 0.2) (ret_op ok)))"

definition runner_grip_req :: "runner_cfg \<Rightarrow> motion_step \<Rightarrow> gripper_req" where
  "runner_grip_req c st =
     (let p = (case pulse st of None \<Rightarrow> 0 | Some p \<Rightarrow> p);
          p = (if p = PULSE_GRIP_TOOL
               then (case map_of (tb_grip_stroke (rc_toolbox c)) (rc_tool_id c) of None \<Rightarrow> p | Some k \<Rightarrow> k)
               else p)
      in \<lparr>gr_position = p, gr_current = (if p > 450 then 400 else 0), gr_timeout_sec = 0.0\<rparr>)"

definition runner_grip :: "runner_env \<Rightarrow> motion_step \<Rightarrow> bool runner_op" where
  "runner_grip env st =
     bind_op (call_once env (RnGrip (runner_grip_req (re_cfg env) st))) (\<lambda>r.
     case r of
       Some (True, _) \<Rightarrow> seq_op (rn_sleep env 0.1) (ret_op True)
     | _ \<Rightarrow> ret_op False)"

definition TCP_POS :: "real list" where
  "TCP_POS = [0.0, 0.0, 160.0, 0.0, 0.0, 0.0]"

text \<open>Any exception means \<open>False\<close>; in virtual mode a refusal of the controller does not.\<close>

definition runner_set_tcp :: "runner_env \<Rightarrow> string \<Rightarrow> bool runner_op" where
  "runner_set_tcp env tcp =
     catch_op
       (seq_op
         (bind_op (rn_read env (\<lambda>s. re_ready env (rn_tick s) CreateTcp)) (\<lambda>up.
          if up then call_ignored env (RnCreateTcp tcp TCP_POS) else ret_op ()))
         (bind_op (rn_read env (\<lambda>s. re_ready env (rn_tick s) SetTcp)) (\<lambda>up.
          if \<not> up then ret_op False
          else bind_op (call_once env (RnSetTcp tcp)) (\<lambda>r.
            case r of
              Some (True, _) \<Rightarrow> ret_op True
            | _ \<Rightarrow> ret_op (rc_mode (re_cfg env) = ''virtual'')))))
       (\<lambda>exc. ret_op False)"

section \<open>Moves to what the gripper camera sees\<close>

definition runner_check_coords :: "runner_toolbox \<Rightarrow> real \<Rightarrow> real \<Rightarrow> real \<Rightarrow> bool" where
  "runner_check_coords t x y z =
     (if x = 0.0 \<and> y = 0.0 \<and> z = 0.0 then False
      else inside (tb_x t) x \<and> inside (tb_y t) y \<and> inside (tb_z t) z)"

text \<open>
  \<open>while time.time() < deadline\<close>; each round sleeps 0.05 s, so \<open>poll_rounds timeout 0.05\<close> rounds
  reach the deadline.
\<close>

primrec await_tool :: "nat \<Rightarrow> runner_env \<Rightarrow> real \<Rightarrow> bool runner_op" where
  "await_tool 0 env deadline = ret_op False"
| "await_tool (Suc n) env deadline =
     bind_op (gets_op rn_now) (\<lambda>now.
     if now < deadline
     then bind_op (rn_read env rn_tool) (\<lambda>p.
       if tp_valid p then ret_op True
       else seq_op (rn_sleep env 0.05) (await_tool n env deadline))
     else ret_op False)"

definition runner_wait_gripper_xy :: "runner_env \<Rightarrow> real \<Rightarrow> bool runner_op" where
  "runner_wait_gripper_xy env timeout =
     seq_op (modify_op (\<lambda>s. s\<lparr>rn_tool := no_tool_pose\<rparr>))
    (bind_op (gets_op rn_now) (\<lambda>now.
     await_tool (poll_rounds timeout 0.05) env (now + timeout)))"

text \<open>\<open>ori = list(base); ori[2] = rz\<close>\<close>

definition turned :: "real list \<Rightarrow> real \<Rightarrow> real list runner_op" where
  "turned base rz =
     (if length base \<le> 2 then fail_op (OtherErr ''list assignment index out of range'')
      else ret_op (base[2 := rz]))"

definition rz_sane :: "tool_pose \<Rightarrow> bool" where
  "rz_sane p \<longleftrightarrow> - 185.0 \<le> tp_rz p \<and> tp_rz p \<le> 185.0"

definition runner_line_step :: "runner_cfg \<Rightarrow> real list \<Rightarrow> motion_step" where
  "runner_line_step c p =
     (bare_step MOVE_L_ABS)\<lparr>pose := Some p, vel := Some (rc_vel_l c), acc := Some (rc_acc_l c)\<rparr>"

definition runner_move_to :: "runner_env \<Rightarrow> real list \<Rightarrow> bool runner_op" where
  "runner_move_to env p = runner_movel env (runner_line_step (re_cfg env) p) DR_MV_MOD_ABS"

definition runner_top_xy :: "runner_env \<Rightarrow> bool runner_op" where
  "runner_top_xy env =
     (let t = rc_toolbox (re_cfg env) in
      bind_op (rn_read env rn_tool) (\<lambda>p.
      if \<not> tp_valid p then ret_op False
      else if \<not> rz_sane p then ret_op False
      else if \<not> runner_check_coords t (tp_x p) (tp_y p) (tb_approach_z t) then ret_op False
      else bind_op (turned (tb_approach_ori t) (tp_rz p)) (\<lambda>ori.
        runner_move_to env ([tp_x p, tp_y p, tb_approach_z t] @ ori))))"

definition runner_tool_xyz :: "runner_env \<Rightarrow> bool runner_op" where
  "runner_tool_xyz env =
     (let t = rc_toolbox (re_cfg env) in
      bind_op (rn_read env rn_tool) (\<lambda>p.
      if \<not> tp_valid p then ret_op False
      else let z = (case map_of (tb_grasp_z t) (rc_tool_id (re_cfg env)) of
                      Some grasp_z \<Rightarrow> grasp_z | None \<Rightarrow> tp_z p)
      in if \<not> rz_sane p then ret_op False
      else if \<not> runner_check_coords t (tp_x p) (tp_y p) z then ret_op False
      else bind_op (turned (tb_descent_ori t) (tp_rz p)) (\<lambda>ori.
        runner_move_to env ([tp_x p, tp_y p, z] @ ori))))"

definition runner_staging_xyz :: "runner_env \<Rightarrow> bool runner_op" where
  "runner_staging_xyz env =
     (let t = rc_toolbox (re_cfg env) in
      bind_op (rn_read env rn_tool) (\<lambda>p.
      if \<not> tp_valid p then ret_op False
      else if \<not> rz_sane p then ret_op False
      else (case map_of (tb_staging_z t) (rc_tool_id (re_cfg env)) of
        None \<Rightarrow> ret_op False
      | Some z \<Rightarrow>
          if \<not> runner_check_coords t (tp_x p) (tp_y p) z then ret_op False
          else bind_op (turned (tb_descent_ori t) (tp_rz p)) (\<lambda>ori.
            runner_move_to env ([tp_x p, tp_y p, z] @ ori)))))"

definition runner_slot_xyz :: "runner_env \<Rightarrow> bool runner_op" where
  "runner_slot_xyz env =
     (let t = rc_toolbox (re_cfg env) in
      case map_of (tb_slot_xy t) (rc_tool_id (re_cfg env)) of
        None \<Rightarrow> ret_op False
      | Some (x, y) \<Rightarrow>
          (case map_of (tb_return_z t) (rc_tool_id (re_cfg env)) of
             None \<Rightarrow> ret_op False
           | Some z \<Rightarrow>
               if \<not> runner_check_coords t x y z then ret_op False
               else runner_move_to env ([x, y, z] @ tb_descent_ori t)))"

definition runner_slot_xy :: "runner_env \<Rightarrow> bool runner_op" where
  "runner_slot_xy env =
     (let t = rc_toolbox (re_cfg env) in
      case map_of (tb_slot_xy t) (rc_tool_id (re_cfg env)) of
        None \<Rightarrow> ret_op False
      | Some (x, y) \<Rightarrow>
          if \<not> runner_check_coords t x y (tb_approach_z t) then ret_op False
          else runner_move_to env ([x, y, tb_approach_z t] @ tb_approach_ori t))"

section \<open>Visual servoing\<close>

text \<open>\<open>_get_ee_pose_mm\<close>: no answer or a refusal is a \<open>RuntimeError\<close>.\<close>

definition runner_ee_pose :: "runner_env \<Rightarrow> (real \<times> real \<times> real) runner_op" where
  "runner_ee_pose env =
     bind_op (call_once env RnGetPosx) (\<lambda>r.
     case r of
       Some (True, task_pos_info) \<Rightarrow>
         (case task_pos_info of
            (x # y # z # _) # _ \<Rightarrow> ret_op (x, y, z)
          | _ \<Rightarrow> fail_op (OtherErr ''list index out of range''))
     | _ \<Rightarrow> fail_op (RuntimeErr ''get_current_posx failed''))"

text \<open>
  What a tick reads: the E-stop, the clock, the latest target, and, only where \<open>tick\<close> gets that
  far, the end effector.
\<close>

definition servo_reading ::
  "runner_env \<Rightarrow> servo_config \<Rightarrow> servo_state \<Rightarrow> (runner \<Rightarrow> 'p) \<Rightarrow> ('p \<Rightarrow> bool) \<Rightarrow> servo_ctl \<Rightarrow>
   'p servo_in runner_op" where
  "servo_reading env cfg align target valid c =
     bind_op (rn_read env (\<lambda>s. \<lparr>si_estop = rn_estop s, si_now = rn_now s, si_target = target s,
                               si_ee = (0, 0, 0)\<rparr>)) (\<lambda>i.
     if \<not> si_estop i \<and> \<not> si_now i - sv_start c > sc_timeout cfg \<and> sv_state c = align \<and> valid (si_target i)
     then bind_op (runner_ee_pose env) (\<lambda>p. ret_op (i\<lparr>si_ee := p\<rparr>))
     else ret_op i)"

definition runner_delta_req :: "runner_cfg \<Rightarrow> real list \<Rightarrow> move_line_req" where
  "runner_delta_req c p =
     line_req p [rc_vel_l c, rc_vel_r c] [rc_acc_l c, rc_acc_r c] DR_MV_MOD_REL 0"

definition SERVO_DT :: real where
  "SERVO_DT = 0.033"

definition runner_movel_delta :: "runner_env \<Rightarrow> real \<Rightarrow> real \<Rightarrow> real \<Rightarrow> bool runner_op" where
  "runner_movel_delta env vx vz dt =
     bind_op (call_once env (RnLine (runner_delta_req (re_cfg env) [vx * dt, 0.0, vz * dt, 0.0, 0.0, 0.0])))
       (\<lambda>r. ret_op (case r of None \<Rightarrow> False | Some (ok, _) \<Rightarrow> ok))"

definition runner_movel_delta_xy :: "runner_env \<Rightarrow> real \<Rightarrow> real \<Rightarrow> real \<Rightarrow> bool runner_op" where
  "runner_movel_delta_xy env vx vy dt =
     bind_op (call_once env (RnLine (runner_delta_req (re_cfg env) [vx * dt, vy * dt, 0.0, 0.0, 0.0, 0.0])))
       (\<lambda>r. ret_op (case r of None \<Rightarrow> False | Some (ok, _) \<Rightarrow> ok))"

definition handle_step :: "runner_env \<Rightarrow> servo_config \<Rightarrow> servo_ctl \<Rightarrow> (servo_ctl \<times> velocity_command) runner_op" where
  "handle_step env cfg c =
     bind_op (servo_reading env cfg ALIGN_XZ rn_handle hp_valid c) (\<lambda>i. ret_op (handle_tick cfg i c))"

text \<open>\<open>_get_latest_gripper_tool\<close> copies the position; \<open>rz\<close> keeps its default.\<close>

definition latest_gripper_tool :: "runner \<Rightarrow> tool_pose" where
  "latest_gripper_tool s = (rn_tool s)\<lparr>tp_rz := 0\<rparr>"

definition tool_step :: "runner_env \<Rightarrow> servo_config \<Rightarrow> servo_ctl \<Rightarrow> (servo_ctl \<times> velocity_command) runner_op" where
  "tool_step env cfg c =
     bind_op (servo_reading env cfg ALIGN_XY latest_gripper_tool tp_valid c) (\<lambda>i. ret_op (tool_tick cfg i c))"

definition drive_handle :: "runner_env \<Rightarrow> velocity_command \<Rightarrow> bool runner_op" where
  "drive_handle env v =
     (if vc_x v \<noteq> 0.0 \<or> vc_z v \<noteq> 0.0 then runner_movel_delta env (vc_x v) (vc_z v) SERVO_DT
      else ret_op True)"

definition drive_tool :: "runner_env \<Rightarrow> velocity_command \<Rightarrow> bool runner_op" where
  "drive_tool env v =
     (if vc_x v \<noteq> 0.0 \<or> vc_y v \<noteq> 0.0 then runner_movel_delta_xy env (vc_x v) (vc_y v) SERVO_DT
      else ret_op True)"

text \<open>\<open>except RuntimeError\<close>: the loop is left.\<close>

definition unless_runtime :: "'a runner_op \<Rightarrow> 'a option runner_op" where
  "unless_runtime m =
     catch_op (bind_op m (\<lambda>a. ret_op (Some a)))
       (\<lambda>e. case e of RuntimeErr _ \<Rightarrow> ret_op None | OtherErr t \<Rightarrow> fail_op (OtherErr t))"

text \<open>
  The loop of both servo steps. Every round sleeps for \<open>SERVO_DT\<close>, and the first round that reads
  the clock after the time limit ends in \<open>ERROR\<close>: \<open>vs_rounds\<close> rounds are enough
  (\<open>servo_loop_enough\<close>).
\<close>

primrec servo_loop ::
  "nat \<Rightarrow> runner_env \<Rightarrow> (servo_ctl \<Rightarrow> bool) \<Rightarrow> (servo_ctl \<Rightarrow> (servo_ctl \<times> velocity_command) runner_op) \<Rightarrow>
   (velocity_command \<Rightarrow> bool runner_op) \<Rightarrow> servo_ctl \<Rightarrow> bool runner_op" where
  "servo_loop 0 env fin step drive c = ret_op False"
| "servo_loop (Suc n) env fin step drive c =
     (if fin c then ret_op (sv_state c = DONE)
      else bind_op (rn_read env rn_estop) (\<lambda>latched.
        if latched then ret_op False
        else bind_op (unless_runtime (step c)) (\<lambda>r.
          case r of
            None \<Rightarrow> ret_op False
          | Some (c', v) \<Rightarrow>
              if vc_stop v
              then seq_op (rn_sleep env SERVO_DT) (servo_loop n env fin step drive c')
              else bind_op (drive v) (\<lambda>ok.
                if \<not> ok then ret_op False
                else seq_op (rn_sleep env SERVO_DT) (servo_loop n env fin step drive c')))))"

definition vs_rounds :: "servo_config \<Rightarrow> nat" where
  "vs_rounds cfg = nat \<lfloor>max 0 (sc_timeout cfg) / SERVO_DT\<rfloor> + 3"

definition runner_visual_servo :: "runner_env \<Rightarrow> bool runner_op" where
  "runner_visual_servo env =
     (case re_servo_yaml env of
        None \<Rightarrow> ret_op False
      | Some raw \<Rightarrow>
          (let cfg = load_servo_config raw ''handle'' in
           bind_op (gets_op rn_now) (\<lambda>now.
           servo_loop (vs_rounds cfg) env handle_is_terminal (handle_step env cfg) (drive_handle env)
             (handle_servo_init now))))"

definition runner_visual_servo_xy :: "runner_env \<Rightarrow> bool runner_op" where
  "runner_visual_servo_xy env =
     (case re_servo_yaml env of
        None \<Rightarrow> ret_op False
      | Some raw \<Rightarrow>
          (let cfg = load_servo_config raw ''tool'' in
           bind_op (gets_op rn_now) (\<lambda>now.
           servo_loop (vs_rounds cfg) env tool_is_terminal (tool_step env cfg) (drive_tool env)
             (tool_servo_init now))))"

section \<open>Sequences\<close>

definition runner_exec_step :: "runner_env \<Rightarrow> motion_step \<Rightarrow> bool runner_op" where
  "runner_exec_step env st =
     (case kind st of
        MOVE_L_ABS \<Rightarrow> runner_movel env st DR_MV_MOD_ABS
      | MOVE_L_REL \<Rightarrow> runner_movel env st DR_MV_MOD_REL
      | MOVE_J_ABS \<Rightarrow> runner_movej env st
      | MOVE_J_REL \<Rightarrow> runner_movej env st
      | GRIP \<Rightarrow> runner_grip env st
      | WAIT \<Rightarrow> seq_op (rn_sleep env (or_num (sec st) 0.5)) (ret_op True)
      | VISUAL_SERVO_XZ \<Rightarrow> runner_visual_servo env
      | MOVE_L_TOP_XY \<Rightarrow> runner_top_xy env
      | VISUAL_SERVO_XY \<Rightarrow> runner_visual_servo_xy env
      | MOVE_L_TOOL_XYZ \<Rightarrow> runner_tool_xyz env
      | MOVE_L_SLOT_XY \<Rightarrow> runner_slot_xy env
      | WAIT_VISION_TOP_XY \<Rightarrow> runner_wait_gripper_xy env 5.0
      | WAIT_VISION_RETURN_XY \<Rightarrow> runner_wait_gripper_xy env 5.0
      | MOVE_L_SLOT_XYZ \<Rightarrow> runner_slot_xyz env
      | MOVE_L_STAGING_XYZ \<Rightarrow> runner_staging_xyz env
      | _ \<Rightarrow> ret_op False)"

definition runner_run_step :: "runner_env \<Rightarrow> motion_step \<Rightarrow> bool runner_op" where
  "runner_run_step env st =
     bind_op (rn_read env rn_estop) (\<lambda>latched.
     if latched then ret_op False else runner_exec_step env st)"

definition runner_run_sequence :: "runner_env \<Rightarrow> motion_step list \<Rightarrow> bool runner_op" where
  "runner_run_sequence env = all_op (runner_run_step env)"

definition resolve_sequence :: "string \<Rightarrow> (motion_error, motion_step list option) result" where
  "resolve_sequence nm =
     (if nm = ''vision_fetch'' then Inr (Some vision_fetch_seq)
      else if nm = ''vision_return'' then Inr (Some vision_return_seq)
      else if nm \<in> {''vision_open_0'', ''vision_open_1''}
        then map_sum id Some (vision_drawer_open_seq (if nm = ''vision_open_0'' then 0 else 1))
      else if nm \<in> {''vision_close_0'', ''vision_close_1''}
        then map_sum id Some (vision_drawer_close_seq (if nm = ''vision_close_0'' then 0 else 1))
      else (case map_of
          [(''home'', Inr home_seq),
           (''open_0'', drawer_open_seq 0 None),
           (''close_0'', drawer_close_seq 0 None),
           (''open_1'', drawer_open_seq 1 None),
           (''close_1'', drawer_close_seq 1 None),
           (''open_0v2'', drawer_open_seq_v2 0),
           (''close_0v2'', drawer_close_seq_v2 0),
           (''open_1v2'', drawer_open_seq_v2 1),
           (''close_1v2'', drawer_close_seq_v2 1),
           (''socket_fetch'', Inr socket_fetch_seq),
           (''socket_return'', Inr socket_return_seq)] nm of
          None \<Rightarrow> Inr None
        | Some fn \<Rightarrow> map_sum id Some fn))"

section \<open>The run\<close>

definition FETCH_SEQS :: "string list" where
  "FETCH_SEQS = [''vision_fetch'', ''socket_fetch'']"

definition RETURN_SEQS :: "string list" where
  "RETURN_SEQS = [''vision_return'', ''socket_return'']"

definition DRAWER_SEQS :: "string list" where
  "DRAWER_SEQS = [''vision_open_0'', ''vision_open_1'', ''vision_close_0'', ''vision_close_1'']"

text \<open>A call of \<open>self._db\<close>; its exceptions are values, for the \<open>except\<close> clauses that follow.\<close>

definition with_db ::
  "runner_env \<Rightarrow> (io \<Rightarrow> clock \<Rightarrow> 'a client_op) \<Rightarrow> (client_error, 'a) result runner_op" where
  "with_db env f =
     seq_op (rn_observe env) (\<lambda>s.
       case rn_db s of
         None \<Rightarrow> (Inl (OtherErr ''NoneType has no such attribute''), s)
       | Some c \<Rightarrow>
           (case f (re_io env (rn_tick s)) (re_clock env (rn_tick s)) c of
              (r, c') \<Rightarrow> (Inr r, s\<lparr>rn_db := Some c'\<rparr>)))"

text \<open>A refusal: the lamp, then the node stops.\<close>

definition refuse :: "bool runner_op" where
  "refuse = seq_op rn_plc_error (seq_op (rn_emit RnShutdown) (ret_op False))"

definition runner_tool_gate :: "runner_env \<Rightarrow> bool runner_op" where
  "runner_tool_gate env =
     (let nm = rc_seq_name (re_cfg env); tool = rc_tool_id (re_cfg env) in
      if nm \<notin> set (FETCH_SEQS @ RETURN_SEQS) then ret_op True
      else if tool = [] then seq_op (rn_emit RnShutdown) (ret_op False)
      else bind_op (gets_op rn_db) (\<lambda>db.
        if db = None then refuse
        else let intent = (if nm \<in> set FETCH_SEQS then ''fetch'' else ''return'') in
          bind_op (with_db env (\<lambda>io clk. client_check_feasibility io clk intent tool)) (\<lambda>r.
          case r of
            Inl (DBCacheExpiredError _) \<Rightarrow> refuse
          | Inl (DBError _) \<Rightarrow> refuse
          | Inl (SqliteRaised m) \<Rightarrow> fail_op (OtherErr m)
          | Inr (ok, _) \<Rightarrow> if ok then ret_op True else refuse)))"

text \<open>\<open>'open' if 'open' in name else 'close'\<close> and \<open>int(name[-1])\<close>, for the four drawer names.\<close>

fun py_contains :: "string \<Rightarrow> string \<Rightarrow> bool" where
  "py_contains k [] = (k = [])"
| "py_contains k (c # cs) = (py_startswith (c # cs) k \<or> py_contains k cs)"

definition drawer_intent :: "string \<Rightarrow> string" where
  "drawer_intent nm = (if py_contains ''open'' nm then ''open'' else ''close'')"

definition drawer_layer :: "string \<Rightarrow> int" where
  "drawer_layer nm = of_char (last nm) - 48"

definition runner_drawer_gate :: "runner_env \<Rightarrow> bool runner_op" where
  "runner_drawer_gate env =
     (let nm = rc_seq_name (re_cfg env) in
      if nm \<notin> set DRAWER_SEQS then ret_op True
      else bind_op (gets_op rn_db) (\<lambda>db.
        if db = None then refuse
        else bind_op (with_db env (\<lambda>io clk. client_check_drawer io (drawer_intent nm) (drawer_layer nm))) (\<lambda>r.
          case r of
            Inl (DBCacheExpiredError _) \<Rightarrow> refuse
          | Inl (DBError _) \<Rightarrow> refuse
          | Inl (SqliteRaised m) \<Rightarrow> fail_op (OtherErr m)
          | Inr (ok, why) \<Rightarrow>
              if ok then ret_op True
              else if why = ''already_open''
                then seq_op (rn_emit (RnMoving False)) (seq_op (rn_emit RnShutdown) (ret_op False))
              else refuse)))"

definition failure_notes :: "runner_cfg \<Rightarrow> bool \<Rightarrow> string" where
  "failure_notes c estop =
     ''sequence='' @ rc_seq_name c @ '' tool_id='' @ (if rc_tool_id c = [] then ''N/A'' else rc_tool_id c)
     @ '' estop='' @ (if estop then ''True'' else ''False'')"

definition on_sequence_failure :: "runner_env \<Rightarrow> unit runner_op" where
  "on_sequence_failure env =
     seq_op
       (bind_op (rn_read env (\<lambda>s. re_ready env (rn_tick s) MoveStop)) (\<lambda>up.
        if up
        then catch_op (seq_op (call_ignored env RnStop) (rn_sleep env 0.3)) (\<lambda>exc. ret_op ())
        else ret_op ()))
    (seq_op rn_plc_error
       (bind_op (rn_read env (\<lambda>s. (rn_db s, rn_estop s))) (\<lambda>(db, estop).
        if db = None then ret_op ()
        else bind_op (with_db env (\<lambda>io clk. client_log_system_event io clk ''error'' ''error'' (Some ''B'')
                (failure_notes (re_cfg env) estop))) (\<lambda>r. ret_op ()))))"

text \<open>After a complete sequence the new drawer state is stored; any exception only lights the lamp.\<close>

definition runner_record_drawer :: "runner_env \<Rightarrow> unit runner_op" where
  "runner_record_drawer env =
     (let nm = rc_seq_name (re_cfg env) in
      bind_op (gets_op rn_db) (\<lambda>db.
      if nm \<notin> set DRAWER_SEQS \<or> db = None then ret_op ()
      else bind_op (with_db env (\<lambda>io clk. client_update_drawer io clk (drawer_layer nm) (drawer_intent nm))) (\<lambda>r.
        case r of Inl _ \<Rightarrow> rn_plc_error | Inr _ \<Rightarrow> ret_op ())))"

text \<open>
  The call of \<open>log_event\<close> after an E-stop leaves out two required arguments: a \<open>TypeError\<close>,
  caught like any exception.
\<close>

definition log_estop_abort :: "runner_env \<Rightarrow> unit runner_op" where
  "log_estop_abort env =
     catch_op
       (bind_op (gets_op rn_db) (\<lambda>db.
        if db = None then ret_op ()
        else fail_op (OtherErr ''log_event() missing 2 required positional arguments'')))
       (\<lambda>exc. ret_op ())"

text \<open>After a failed sequence: stop and report; without E-stop, drive home.\<close>

definition runner_recover :: "runner_env \<Rightarrow> unit runner_op" where
  "runner_recover env =
     seq_op (on_sequence_failure env)
    (bind_op (rn_read env rn_estop) (\<lambda>latched.
     if latched then seq_op rn_plc_error (log_estop_abort env)
     else bind_op (runner_run_sequence env home_seq) (\<lambda>home_ok. ret_op ())))"

definition runner_finish :: "unit runner_op" where
  "runner_finish = seq_op (rn_emit (RnMoving False)) (rn_emit RnShutdown)"

definition runner_start_sequence :: "runner_env \<Rightarrow> motion_step list \<Rightarrow> unit runner_op" where
  "runner_start_sequence env sq =
     seq_op (rn_emit (RnMoving True))
    (bind_op (runner_set_tcp env (rc_tcp_name (re_cfg env))) (\<lambda>tcp.
     if \<not> tcp then seq_op (on_sequence_failure env) runner_finish
     else bind_op (runner_run_sequence env sq) (\<lambda>ok.
       seq_op (if ok then runner_record_drawer env else runner_recover env) runner_finish)))"

definition run_once :: "runner_env \<Rightarrow> unit runner_op" where
  "run_once env =
     bind_op (gets_op rn_done) (\<lambda>d.
     if d then ret_op ()
     else seq_op (modify_op (\<lambda>s. s\<lparr>rn_done := True\<rparr>))
      (bind_op (rn_read env rn_prev_moving) (\<lambda>busy.
       if busy then rn_emit RnShutdown
       else case resolve_sequence (rc_seq_name (re_cfg env)) of
         Inl e \<Rightarrow> fail_op (OtherErr ''ValueError'')
       | Inr None \<Rightarrow> rn_emit RnShutdown
       | Inr (Some sq) \<Rightarrow>
           bind_op (runner_tool_gate env) (\<lambda>go.
           if \<not> go then ret_op ()
           else bind_op (runner_drawer_gate env) (\<lambda>go.
             if \<not> go then ret_op () else runner_start_sequence env sq)))))"

end
