(* ===== verification/SeqSafety.thy ===== *)
theory SeqSafety imports SeqRunner begin

text \<open>
  Properties of the sequence runner: what may still be sent after an E-stop, which runs move the
  robot at all, where and how fast it is sent, what the database keeps of a run, and what the
  other nodes are told when it is over. The relations between the states before and after an
  operation are \<open>step_order\<close>s; the composition rules lift them from the requests to the run.
\<close>

section \<open>What an operation may do to the state\<close>

text \<open>
  A relation that the primitive effects keep: sending an output that is \<open>ok\<close>, the latch with the
  stop request, changes of the fields that are neither outputs, latch nor database while time
  does not run backwards, and database changes that are \<open>dbok\<close>. The operations that send only \<open>ok\<close> outputs keep it.
\<close>

locale runner_order = step_order R for R :: "runner \<Rightarrow> runner \<Rightarrow> bool" +
  fixes ok :: "runner_out \<Rightarrow> bool"
    and dbok :: "db_client \<Rightarrow> db_client \<Rightarrow> bool"
  assumes R_emit: "ok x \<Longrightarrow> x \<noteq> RnLatch \<Longrightarrow> R s (s\<lparr>rn_outs := rn_outs s @ [x]\<rparr>)"
    and R_latch: "\<not> rn_estop s \<Longrightarrow>
      R s (s\<lparr>rn_estop := True, rn_outs := rn_outs s @ [RnLatch] @ (if b then [RnStop] else [])\<rparr>)"
    and R_same: "rn_outs t = rn_outs s \<Longrightarrow> rn_estop t = rn_estop s \<Longrightarrow> rn_db t = rn_db s \<Longrightarrow>
      rn_now s \<le> rn_now t \<Longrightarrow> R s t"
    and R_db: "rn_db s = Some c \<Longrightarrow> dbok c c' \<Longrightarrow> R s (s\<lparr>rn_db := Some c'\<rparr>)"
begin

lemma stays_emit [intro]: "ok x \<Longrightarrow> x \<noteq> RnLatch \<Longrightarrow> stays (rn_emit x)"
  unfolding rn_emit_def by (intro stays_modify R_emit)

lemma R_event: "R s (runner_event_step b ev s)"
proof (cases ev)
  case (SeesEstop x)
  then show ?thesis
    using R_latch [of s b] by (simp add: runner_event_step_def runner_on_estop_def refl)
qed (auto intro!: R_same simp: runner_event_step_def runner_on_is_moving_def
    runner_on_handle_pose_def runner_on_tool_gripper_pose_def runner_on_slot_top_pose_def Let_def
    split: prod.splits)

lemma R_events: "R s (fold (runner_event_step b) evs s)"
proof (induction evs arbitrary: s)
  case (Cons e evs)
  have "R s (runner_event_step b e s)" by (rule R_event)
  then show ?case using Cons.IH [of "runner_event_step b e s"] by (simp add: trans)
qed (simp add: refl)

lemma stays_observe [intro]: "stays (rn_observe env)"
  unfolding rn_observe_def by (intro stays_modify trans [OF R_same R_events]) simp_all

lemma stays_read [intro]: "stays (rn_read env f)"
  unfolding rn_read_def by (intro stays_rules stays_observe)

lemma stays_sleep [intro]: "stays (rn_sleep env d)"
proof (cases "d < 0")
  case True
  then show ?thesis by (simp only: rn_sleep_def if_True stays_fail)
next
  case False
  then show ?thesis
    unfolding rn_sleep_def if_not_P [OF False] by (intro stays_seq stays_observe stays_modify R_same) simp_all
qed

lemma stays_plc_error [intro]: "stays rn_plc_error"
  unfolding rn_plc_error_def by (intro stays_modify R_same) simp_all

lemma stays_await_done [intro]: "stays (await_done n env k)"
proof (induction n arbitrary: k)
  case (Suc n)
  show ?case unfolding await_done.simps by (intro stays_rules stays_observe Suc.IH)
qed (simp only: await_done.simps stays_ret)

lemma stays_await_tool [intro]: "stays (await_tool n env dl)"
proof (induction n)
  case (Suc n)
  show ?case unfolding await_tool.simps by (intro stays_rules stays_read stays_sleep Suc.IH)
qed (simp only: await_tool.simps stays_ret)

lemma stays_fate:
  assumes "\<And>e. stays (a e)" "stays b" "\<And>k e. stays (c k e)" "\<And>k r. stays (d k r)"
  shows "stays (case q of CallFails e \<Rightarrow> a e | Silent \<Rightarrow> b | HoldsExc k e \<Rightarrow> c k e | Holds k r \<Rightarrow> d k r)"
  using assms by (cases q) simp_all

lemma stays_call_once [intro]: "stays (rn_emit x) \<Longrightarrow> stays (call_once env x)"
  unfolding call_once_def by (intro stays_rules stays_observe stays_fate)

lemma stays_call_ignored [intro]: "stays (rn_emit x) \<Longrightarrow> stays (call_ignored env x)"
  unfolding call_ignored_def by (intro stays_rules stays_observe stays_fate)

lemma stays_call_polled [intro]: "stays (rn_emit x) \<Longrightarrow> stays (call_polled env k x)"
  unfolding call_polled_def by (intro stays_rules stays_observe stays_fate stays_await_done)

lemma stays_prod: "(\<And>a b. stays (f a b)) \<Longrightarrow> stays (case x of (a, b) \<Rightarrow> f a b)"
  by (cases x) simp

lemma stays_turned: "stays (turned base rz)"
  unfolding turned_def by (intro stays_rules)

lemma stays_wait_gripper: "stays (runner_wait_gripper_xy env t)"
  unfolding runner_wait_gripper_xy_def
  by (intro stays_rules stays_modify stays_await_tool R_same) simp_all

lemma stays_ee_pose: "ok RnGetPosx \<Longrightarrow> stays (runner_ee_pose env)"
proof -
  have "stays (case r of Some (True, x) \<Rightarrow> (case x of (a # b # c # _) # _ \<Rightarrow> ret_op (a, b, c)
          | _ \<Rightarrow> fail_op (OtherErr ''list index out of range''))
        | _ \<Rightarrow> fail_op (RuntimeErr ''get_current_posx failed''))"
    for r :: "(bool \<times> real list list) option"
    by (auto intro!: stays_rules split: option.split bool.split list.split)
  then show "ok RnGetPosx \<Longrightarrow> stays (runner_ee_pose env)"
    unfolding runner_ee_pose_def by (intro stays_bind stays_call_once stays_emit) simp_all
qed

lemma stays_reading: "ok RnGetPosx \<Longrightarrow> stays (servo_reading env cfg al target valid c)"
  unfolding servo_reading_def by (intro stays_rules stays_read stays_ee_pose)

lemma stays_unless: "stays m \<Longrightarrow> stays (unless_runtime m)"
proof -
  have "stays (case e of RuntimeErr _ \<Rightarrow> ret_op None | OtherErr t \<Rightarrow> fail_op (OtherErr t))" for e
    by (cases e) (auto intro: stays_rules)
  then show "stays m \<Longrightarrow> stays (unless_runtime m)"
    unfolding unless_runtime_def by (intro stays_rules)
qed

lemma stays_handle_step: "ok RnGetPosx \<Longrightarrow> stays (handle_step env cfg c)"
  unfolding handle_step_def by (intro stays_rules stays_reading)

lemma stays_tool_step: "ok RnGetPosx \<Longrightarrow> stays (tool_step env cfg c)"
  unfolding tool_step_def by (intro stays_rules stays_reading)

lemma stays_set_tcp:
  assumes "ok (RnCreateTcp tcp TCP_POS)" "ok (RnSetTcp tcp)"
  shows "stays (runner_set_tcp env tcp)"
proof -
  have "stays (case r of Some (True, _) \<Rightarrow> ret_op True | _ \<Rightarrow> ret_op b)"
    for r :: "(bool \<times> real list list) option" and b
    by (auto intro!: stays_rules split: option.split bool.split)
  with assms show ?thesis
    unfolding runner_set_tcp_def
    by (intro stays_catch stays_ret stays_seq stays_bind stays_if stays_read
        stays_call_ignored stays_call_once stays_emit) simp_all
qed

lemma stays_with_db:
  assumes "\<And>io clk c. dbok c (snd (f io clk c))"
  shows "stays (with_db env f)"
proof -
  have "stays (\<lambda>s. case rn_db s of
         None \<Rightarrow> (Inl (OtherErr ''NoneType has no such attribute''), s)
       | Some c \<Rightarrow>
           (case f (re_io env (rn_tick s)) (re_clock env (rn_tick s)) c of
              (r, c') \<Rightarrow> (Inr r, s\<lparr>rn_db := Some c'\<rparr>)))"
  proof (rule staysI)
    fix s
    show "R s (snd (case rn_db s of
         None \<Rightarrow> (Inl (OtherErr ''NoneType has no such attribute''), s)
       | Some c \<Rightarrow>
           (case f (re_io env (rn_tick s)) (re_clock env (rn_tick s)) c of
              (r, c') \<Rightarrow> (Inr r, s\<lparr>rn_db := Some c'\<rparr>))))"
      using assms [of _ "re_io env (rn_tick s)" "re_clock env (rn_tick s)"]
      by (auto simp: refl split: option.split prod.split intro!: R_db) (metis snd_conv)
  qed
  then show ?thesis unfolding with_db_def by (intro stays_seq stays_observe)
qed

lemma stays_failure:
  assumes "ok RnStop"
    and db: "\<And>io clk c nts. dbok c (snd (client_log_system_event io clk ''error'' ''error'' (Some ''B'') nts c))"
  shows "stays (on_sequence_failure env)"
proof -
  have "stays (case x of (db, estop) \<Rightarrow> if db = None then ret_op ()
      else bind_op (with_db env (\<lambda>io clk. client_log_system_event io clk ''error'' ''error'' (Some ''B'')
                (failure_notes (re_cfg env) estop))) (\<lambda>r. ret_op ()))"
    for x :: "db_client option \<times> bool"
    by (cases x) (simp only: prod.case, intro stays_rules stays_with_db db)
  with assms(1) show ?thesis
    unfolding on_sequence_failure_def
    by (intro stays_rules stays_read stays_call_ignored stays_emit stays_sleep stays_plc_error) simp_all
qed

lemma stays_record_drawer:
  assumes "\<And>io clk l i c. dbok c (snd (client_update_drawer io clk l i c))"
  shows "stays (runner_record_drawer env)"
  unfolding runner_record_drawer_def Let_def by (intro stays_rules stays_with_db stays_plc_error assms)

lemma stays_refuse: "ok RnShutdown \<Longrightarrow> stays refuse"
  unfolding refuse_def by (intro stays_rules stays_plc_error stays_emit) simp_all

lemma stays_db_answer:
  assumes "ok RnShutdown" "\<And>a. stays (f a)"
  shows "stays (case r of Inl (DBCacheExpiredError _) \<Rightarrow> refuse | Inl (DBError _) \<Rightarrow> refuse
          | Inl (SqliteRaised m) \<Rightarrow> fail_op (OtherErr m) | Inr a \<Rightarrow> f a)"
  using assms by (auto intro: stays_fail stays_refuse split: sum.split client_error.split)

lemma stays_tool_gate:
  assumes "ok RnShutdown" "\<And>io clk i t c. dbok c (snd (client_check_feasibility io clk i t c))"
  shows "stays (runner_tool_gate env)"
  unfolding runner_tool_gate_def Let_def
  by (intro stays_if stays_ret stays_seq stays_bind stays_gets stays_with_db stays_refuse
      stays_db_answer stays_emit stays_prod assms) simp_all

lemma stays_drawer_gate:
  assumes "ok RnShutdown" "ok (RnMoving False)" "\<And>io i l c. dbok c (snd (client_check_drawer io i l c))"
  shows "stays (runner_drawer_gate env)"
proof -
  have "stays (seq_op (rn_emit (RnMoving False)) (seq_op (rn_emit RnShutdown) (ret_op False)))"
    using assms by (intro stays_rules stays_emit) simp_all
  then show ?thesis
    unfolding runner_drawer_gate_def Let_def
    by (intro stays_if stays_ret stays_bind stays_gets stays_with_db stays_refuse
        stays_db_answer stays_prod assms)
qed

lemma stays_finish: "ok RnShutdown \<Longrightarrow> ok (RnMoving False) \<Longrightarrow> stays runner_finish"
  unfolding runner_finish_def by (intro stays_rules stays_emit) simp_all

lemma stays_log_abort: "stays (log_estop_abort env)"
  unfolding log_estop_abort_def by (intro stays_rules)

text \<open>The run, from its sequences.\<close>

lemma stays_recover:
  assumes "ok RnStop" "\<And>io clk c nts. dbok c (snd (client_log_system_event io clk ''error'' ''error'' (Some ''B'') nts c))"
    "stays (runner_run_sequence env home_seq)"
  shows "stays (runner_recover env)"
  unfolding runner_recover_def
  by (intro stays_rules assms stays_failure stays_read stays_plc_error stays_log_abort)

end

text \<open>A relation that no request breaks, whatever it asks for.\<close>

locale runner_free = runner_order +
  assumes ok_all: "(\<And>b. x \<noteq> RnMoving b) \<Longrightarrow> x \<noteq> RnLatch \<Longrightarrow> ok x"
begin

lemma stays_movel: "stays (runner_movel env st mode)"
  unfolding runner_movel_def
  by (intro stays_rules stays_call_polled stays_emit stays_sleep ok_all) simp_all

lemma stays_movej: "stays (runner_movej env st)"
  unfolding runner_movej_def
  by (intro stays_rules stays_call_polled stays_emit stays_sleep ok_all) simp_all

lemma stays_grip: "stays (runner_grip env st)"
proof -
  have "stays (case r of Some (True, _) \<Rightarrow> seq_op (rn_sleep env 0.1) (ret_op True) | _ \<Rightarrow> ret_op False)"
    for r :: "(bool \<times> real list list) option"
    by (auto intro!: stays_rules stays_sleep split: option.split bool.split)
  then show ?thesis
    unfolding runner_grip_def by (intro stays_bind stays_call_once stays_emit ok_all) simp_all
qed

lemmas stays_move_rules = stays_rules stays_read stays_turned stays_movel stays_prod

lemma stays_moves:
  "stays (runner_top_xy env)" "stays (runner_tool_xyz env)" "stays (runner_staging_xyz env)"
  "stays (runner_slot_xyz env)" "stays (runner_slot_xy env)"
  unfolding runner_top_xy_def runner_tool_xyz_def runner_staging_xyz_def runner_slot_xyz_def
    runner_slot_xy_def Let_def runner_move_to_def
  by (intro stays_move_rules)+

lemma stays_drives: "stays (drive_handle env v)" "stays (drive_tool env v)"
  unfolding drive_handle_def drive_tool_def runner_movel_delta_def runner_movel_delta_xy_def
  by (intro stays_rules stays_call_once stays_emit ok_all; simp)+

lemma stays_loop: "(\<And>c. stays (step c)) \<Longrightarrow> (\<And>v. stays (drive v)) \<Longrightarrow> stays (servo_loop n env fin step drive c)"
proof (induction n arbitrary: c)
  case (Suc n)
  show ?case
    unfolding servo_loop.simps
    by (intro stays_rules stays_read stays_unless stays_sleep stays_prod Suc)
qed (simp only: servo_loop.simps stays_ret)

lemma stays_servos: "stays (runner_visual_servo env)" "stays (runner_visual_servo_xy env)"
  unfolding runner_visual_servo_def runner_visual_servo_xy_def Let_def
  by (intro stays_rules stays_loop stays_handle_step stays_tool_step stays_drives ok_all; simp)+

lemma stays_sequence: "stays (runner_run_sequence env sq)"
proof -
  have wait: "stays (seq_op (rn_sleep env d) (ret_op True))" for d
    by (intro stays_rules stays_sleep)
  have "stays (runner_exec_step env st)" for st
    unfolding runner_exec_step_def
    by (cases "kind st"; simp only: step_kind.case)
      (rule stays_movel stays_movej stays_grip wait stays_servos stays_moves stays_wait_gripper stays_ret)+
  then show ?thesis
    unfolding runner_run_sequence_def runner_run_step_def by (intro stays_all stays_rules stays_read)
qed

end

section \<open>Motion requests and the E-stop\<close>

fun is_motion :: "runner_out \<Rightarrow> bool" where
  "is_motion (RnLine q) = True"
| "is_motion (RnJoint q) = True"
| "is_motion (RnGrip q) = True"
| "is_motion x = False"

definition motions :: "runner_out list \<Rightarrow> nat" where
  "motions xs = length (filter is_motion xs)"

definition after_latch :: "runner_out list \<Rightarrow> runner_out list" where
  "after_latch xs = dropWhile (\<lambda>x. x \<noteq> RnLatch) xs"

text \<open>The outputs since \<open>s\<close> hold at most \<open>n\<close> motion requests, and the latch where it was set.\<close>

definition does :: "nat \<Rightarrow> runner \<Rightarrow> runner \<Rightarrow> bool" where
  "does n s s' \<longleftrightarrow>
     (\<exists>ext. rn_outs s' = rn_outs s @ ext \<and> (rn_estop s' \<longleftrightarrow> rn_estop s \<or> RnLatch \<in> set ext)
            \<and> motions ext \<le> n)"

text \<open>At most one motion request follows the latch, none if it was set before.\<close>

definition careful :: "runner \<Rightarrow> runner \<Rightarrow> bool" where
  "careful s s' \<longleftrightarrow>
     (\<exists>ext. rn_outs s' = rn_outs s @ ext \<and> (rn_estop s' \<longleftrightarrow> rn_estop s \<or> RnLatch \<in> set ext)
            \<and> (rn_estop s \<longrightarrow> motions ext = 0) \<and> motions (after_latch ext) \<le> 1)"

lemma motions_simps [simp]:
  "motions [] = 0" "motions (x # xs) = (if is_motion x then Suc (motions xs) else motions xs)"
  "motions (xs @ ys) = motions xs + motions ys"
  by (simp_all add: motions_def)

lemma after_latch_append:
  "after_latch (xs @ ys) = (if RnLatch \<in> set xs then after_latch xs @ ys else after_latch ys)"
  by (induction xs) (auto simp: after_latch_def)

lemma after_latch_le: "motions (after_latch xs) \<le> motions xs"
  by (induction xs) (auto simp: after_latch_def)

lemma does_trans: "does n s t \<Longrightarrow> does k t u \<Longrightarrow> does (n + k) s u"
  unfolding does_def by (elim exE) (rename_tac e f, rule_tac x = "e @ f" in exI, auto)

lemma does_refl [simp]: "does n s s"
  by (auto simp: does_def intro: exI [of _ "[]"])

lemma does_mono: "does n s t \<Longrightarrow> n \<le> k \<Longrightarrow> does k s t"
  by (auto simp: does_def)

lemma does0_same: "rn_outs t = rn_outs s \<Longrightarrow> rn_estop t = rn_estop s \<Longrightarrow> does 0 s t"
  by (auto simp: does_def intro: exI [of _ "[]"])

interpretation idle: runner_order "does 0" "\<lambda>x. \<not> is_motion x" "\<lambda>c c'. True"
proof
  show "does 0 s u" if "does 0 s t" "does 0 t u" for s t u
    using does_trans [OF that] by simp
qed (auto simp: does_def)

lemma careful_trans: "careful s t \<Longrightarrow> careful t u \<Longrightarrow> careful s u"
  unfolding careful_def
  by (elim exE) (rename_tac e f, rule_tac x = "e @ f" in exI, auto simp: after_latch_append)

interpretation careful: step_order careful
proof
  show "careful s s" for s by (auto simp: careful_def after_latch_def intro: exI [of _ "[]"])
qed (rule careful_trans)

lemma does0_careful: "does 0 s t \<Longrightarrow> careful s t"
  unfolding does_def careful_def using after_latch_le le_trans by (metis le_zero_eq zero_le)

lemma does1_careful: "does 1 s t \<Longrightarrow> \<not> rn_estop s \<Longrightarrow> careful s t"
  unfolding does_def careful_def using after_latch_le le_trans by metis

lemma idle_careful: "idle.stays m \<Longrightarrow> careful.stays m"
  by (simp add: idle.stays_def careful.stays_def does0_careful)

definition at_most :: "nat \<Rightarrow> 'a runner_op \<Rightarrow> bool" where
  "at_most n m \<longleftrightarrow> (\<forall>s. does n s (snd (m s)))"

lemma at_mostD: "at_most n m \<Longrightarrow> does n s (snd (m s))"
  by (simp add: at_most_def)

lemma at_most_idle: "idle.stays m \<Longrightarrow> at_most n m"
  by (auto simp: at_most_def idle.stays_def elim: does_mono)

lemma at_most_bind:
  assumes "at_most n m" "\<And>a. at_most k (f a)"
  shows "at_most (n + k) (bind_op m f)"
  unfolding at_most_def
proof
  fix s
  obtain r t where e: "m s = (r, t)" by (cases "m s")
  have "does n s t" using at_mostD [OF assms(1), of s] e by simp
  moreover have "does k t (snd (f a t))" for a using assms(2) by (rule at_mostD)
  ultimately show "does (n + k) s (snd (bind_op m f s))"
    by (cases r) (auto simp: bind_op_def e intro: does_trans elim: does_mono)
qed

lemma at_most_0_idle: "at_most 0 m \<longleftrightarrow> idle.stays m"
  by (simp add: at_most_def idle.stays_def)

lemma at_most_idle_bind: "idle.stays m \<Longrightarrow> (\<And>a. at_most n (f a)) \<Longrightarrow> at_most n (bind_op m f)"
  using at_most_bind [of 0 m n f] by (simp add: at_most_0_idle)

lemma at_most_bind_idle: "at_most n m \<Longrightarrow> (\<And>a. idle.stays (f a)) \<Longrightarrow> at_most n (bind_op m f)"
  using at_most_bind [of n m 0 f] by (simp add: at_most_0_idle)

lemma at_most_seq_idle: "at_most n m \<Longrightarrow> idle.stays k \<Longrightarrow> at_most n (seq_op m k)"
  unfolding seq_op_def by (rule at_most_bind_idle)

lemma at_most_idle_seq: "idle.stays m \<Longrightarrow> at_most n k \<Longrightarrow> at_most n (seq_op m k)"
  unfolding seq_op_def by (rule at_most_idle_bind)

lemma motion_emit: "is_motion x \<Longrightarrow> at_most 1 (rn_emit x)"
  by (auto simp: at_most_def rn_emit_def does_def)

subsection \<open>Steps that send one motion request\<close>

lemma at_most_ret: "at_most n (ret_op a)"
  by (intro at_most_idle idle.stays_ret)

lemma at_most_fail: "at_most n (fail_op e)"
  by (intro at_most_idle idle.stays_fail)

text \<open>A request: what follows the sending sends nothing.\<close>

lemma at_most_fate:
  assumes "\<And>e. q = CallFails e \<Longrightarrow> at_most n (a e)" "q = Silent \<Longrightarrow> at_most n b"
    "\<And>k e. q = HoldsExc k e \<Longrightarrow> at_most n (c k e)" "\<And>k r. q = Holds k r \<Longrightarrow> at_most n (d k r)"
  shows "at_most n (case q of CallFails e \<Rightarrow> a e | Silent \<Rightarrow> b | HoldsExc k e \<Rightarrow> c k e | Holds k r \<Rightarrow> d k r)"
  using assms by (cases q) simp_all

lemma at_most_call_once: "at_most n (rn_emit x) \<Longrightarrow> at_most n (call_once env x)"
  unfolding call_once_def
  by (intro at_most_idle_seq idle.stays_observe at_most_idle_bind idle.stays_gets at_most_fate at_most_fail
      at_most_seq_idle idle.stays_rules)

lemma at_most_call_ignored: "at_most n (rn_emit x) \<Longrightarrow> at_most n (call_ignored env x)"
  unfolding call_ignored_def
  by (intro at_most_idle_seq idle.stays_observe at_most_idle_bind idle.stays_gets at_most_fate at_most_fail
      at_most_seq_idle)

lemma at_most_call_polled: "at_most n (rn_emit x) \<Longrightarrow> at_most n (call_polled env k x)"
  unfolding call_polled_def
  by (intro at_most_idle_seq idle.stays_observe at_most_idle_bind idle.stays_gets at_most_fate at_most_fail
      at_most_seq_idle idle.stays_await_done idle.stays_rules)

lemma at_most_if: "at_most n m \<Longrightarrow> at_most n k \<Longrightarrow> at_most n (if b then m else k)"
  by simp

lemma at_most_option:
  "at_most n m \<Longrightarrow> (\<And>a. at_most n (f a)) \<Longrightarrow> at_most n (case x of None \<Rightarrow> m | Some a \<Rightarrow> f a)"
  by (cases x) simp_all

lemma sends_motion: "is_motion (RnLine l)" "is_motion (RnJoint j)" "is_motion (RnGrip g)"
  by simp_all

lemma one_movel: "at_most 1 (runner_movel env st mode)"
  unfolding runner_movel_def
  by (intro at_most_option at_most_fail at_most_bind_idle at_most_call_polled motion_emit sends_motion
      idle.stays_rules idle.stays_sleep)

lemma one_movej: "at_most 1 (runner_movej env st)"
  unfolding runner_movej_def
  by (intro at_most_option at_most_fail at_most_bind_idle at_most_call_polled motion_emit sends_motion
      idle.stays_rules idle.stays_sleep)

lemma one_grip: "at_most 1 (runner_grip env st)"
proof -
  have "idle.stays (case r of Some (True, _) \<Rightarrow> seq_op (rn_sleep env 0.1) (ret_op True) | _ \<Rightarrow> ret_op False)"
    for r :: "(bool \<times> real list list) option"
    by (cases r rule: option.exhaust) (auto intro!: idle.stays_rules split: bool.splits)
  then show ?thesis
    unfolding runner_grip_def
    by (intro sends_motion at_most_bind_idle at_most_call_once motion_emit sends_motion)
qed

lemma one_delta: "at_most 1 (runner_movel_delta env vx vz dt)"
  unfolding runner_movel_delta_def
  by (intro at_most_bind_idle at_most_call_once motion_emit sends_motion idle.stays_rules)

lemma one_delta_xy: "at_most 1 (runner_movel_delta_xy env vx vy dt)"
  unfolding runner_movel_delta_xy_def
  by (intro at_most_bind_idle at_most_call_once motion_emit sends_motion idle.stays_rules)

lemma one_drive_handle: "at_most 1 (drive_handle env v)"
  unfolding drive_handle_def by (intro at_most_if one_delta at_most_ret)

lemma one_drive_tool: "at_most 1 (drive_tool env v)"
  unfolding drive_tool_def by (intro at_most_if one_delta_xy at_most_ret)

lemmas one_rules =
  at_most_idle_bind idle.stays_read idle.stays_turned at_most_if at_most_option at_most_ret one_movel

lemma one_top_xy: "at_most 1 (runner_top_xy env)"
  unfolding runner_top_xy_def Let_def runner_move_to_def by (intro one_rules)

lemma one_tool_xyz: "at_most 1 (runner_tool_xyz env)"
  unfolding runner_tool_xyz_def Let_def runner_move_to_def by (intro one_rules)

lemma one_staging_xyz: "at_most 1 (runner_staging_xyz env)"
  unfolding runner_staging_xyz_def Let_def runner_move_to_def by (intro one_rules)

lemma one_slot_xyz: "at_most 1 (runner_slot_xyz env)"
  unfolding runner_slot_xyz_def Let_def runner_move_to_def
  by (auto simp del: One_nat_def intro!: one_rules split: option.splits)

lemma one_slot_xy: "at_most 1 (runner_slot_xy env)"
  unfolding runner_slot_xy_def Let_def runner_move_to_def
  by (auto simp del: One_nat_def intro!: one_rules split: option.splits)

subsection \<open>The servo loop\<close>

text \<open>What follows a check of the E-stop may assume that it was not set.\<close>

lemma careful_guard:
  assumes "\<And>t. \<not> rn_estop t \<Longrightarrow> careful t (snd (m t))"
  shows "careful.stays (bind_op (rn_read env rn_estop) (\<lambda>l. if l then ret_op b else m))"
proof (rule careful.staysI)
  fix s
  let ?t = "snd (rn_observe env s)"
  have "does 0 s ?t" using idle.stays_observe by (rule idle.staysD)
  then have "careful s ?t" by (rule does0_careful)
  moreover have "bind_op (rn_read env rn_estop) (\<lambda>l. if l then ret_op b else m) s
      = (if rn_estop ?t then (Inr b, ?t) else m ?t)"
    by (simp add: rn_read_def rn_observe_def bind_op_def seq_op_def)
  ultimately show "careful s (snd (bind_op (rn_read env rn_estop) (\<lambda>l. if l then ret_op b else m) s))"
    using assms by (auto intro: careful_trans)
qed

lemma careful_after:
  assumes "at_most 1 m" "\<And>a. careful.stays (f a)" "does 0 s t" "\<not> rn_estop s"
  shows "careful s (snd (bind_op m f t))"
proof -
  obtain r u where e: "m t = (r, u)" by (cases "m t")
  have "does 1 t u" using at_mostD [OF assms(1), of t] e by simp
  then have "does 1 s u" using does_trans [OF assms(3)] by force
  then have "careful s u" using assms(4) by (rule does1_careful)
  then show ?thesis
    by (cases r) (auto simp: bind_op_def e intro: careful_trans careful.staysD [OF assms(2)])
qed

lemma careful_servo_loop:
  assumes step: "\<And>c. idle.stays (step c)" and drive: "\<And>v. at_most 1 (drive v)"
  shows "careful.stays (servo_loop n env fin step drive c)"
proof (induction n arbitrary: c)
  case (Suc n)
  let ?next = "\<lambda>c'. seq_op (rn_sleep env SERVO_DT) (servo_loop n env fin step drive c')"
  have nxt: "careful.stays (?next c')" for c'
    by (intro careful.stays_rules Suc.IH idle_careful idle.stays_sleep)
  have "careful t (snd (bind_op (unless_runtime (step c)) (\<lambda>r. case r of None \<Rightarrow> ret_op False
      | Some (c', v) \<Rightarrow> if vc_stop v then ?next c'
          else bind_op (drive v) (\<lambda>ok. if \<not> ok then ret_op False else ?next c')) t))"
    if off: "\<not> rn_estop t" for t
  proof -
    obtain r u where e: "unless_runtime (step c) t = (r, u)" by (cases "unless_runtime (step c) t")
    have tu: "does 0 t u"
      using idle.staysD [OF idle.stays_unless [OF step], of t c] e by simp
    have other: "careful t (snd (bind_op (drive v) (\<lambda>ok. if \<not> ok then ret_op False else ?next c') u))" for v c'
      by (rule careful_after [OF drive _ tu off]) (auto intro: careful.stays_ret nxt)
    have stopped: "careful t (snd (?next c' u))" for c'
      using does0_careful [OF tu] careful.staysD [OF nxt] by (rule careful_trans)
    show ?thesis
      using other stopped does0_careful [OF tu]
      by (auto simp: bind_op_def [of "unless_runtime (step c)"] e split: sum.split option.split)
  qed
  then show ?case
    unfolding servo_loop.simps by (intro careful.stays_if careful.stays_ret careful_guard)
qed (simp only: servo_loop.simps careful.stays_ret)

lemma careful_visual_servo: "careful.stays (runner_visual_servo env)"
  unfolding runner_visual_servo_def Let_def
  by (intro careful.stays_rules careful_servo_loop idle.stays_handle_step one_drive_handle) simp

lemma careful_visual_servo_xy: "careful.stays (runner_visual_servo_xy env)"
  unfolding runner_visual_servo_xy_def Let_def
  by (intro careful.stays_rules careful_servo_loop idle.stays_tool_step one_drive_tool) simp

subsection \<open>Sequences and the run\<close>

lemma careful_exec_step:
  assumes "\<not> rn_estop s"
  shows "careful s (snd (runner_exec_step env st s))"
proof -
  have one: "careful s (snd (m s))" if "at_most 1 m" for m :: "bool runner_op"
    using at_mostD [OF that] assms by (rule does1_careful)
  have none: "careful s (snd (m s))" if "idle.stays m" for m :: "bool runner_op"
    using idle.staysD [OF that] by (rule does0_careful)
  have wait: "idle.stays (seq_op (rn_sleep env d) (ret_op True))" for d
    by (intro idle.stays_rules idle.stays_sleep)
  note rules = one_movel one_movej one_grip one_top_xy one_tool_xyz one_staging_xyz one_slot_xyz one_slot_xy
  show ?thesis
    unfolding runner_exec_step_def
    by (cases "kind st"; simp only: step_kind.case)
      (rule rules [THEN one] none [OF wait] none [OF idle.stays_wait_gripper] none [OF idle.stays_ret]
         careful.staysD [OF careful_visual_servo] careful.staysD [OF careful_visual_servo_xy])+
qed

lemma careful_run_step: "careful.stays (runner_run_step env st)"
  unfolding runner_run_step_def by (intro careful_guard careful_exec_step)

lemma careful_run_sequence: "careful.stays (runner_run_sequence env sq)"
  unfolding runner_run_sequence_def by (intro careful.stays_all careful_run_step)

lemma careful_recover: "careful.stays (runner_recover env)"
  unfolding runner_recover_def
  by (intro careful.stays_rules careful_run_sequence idle_careful [OF idle.stays_failure]
      idle_careful [OF idle.stays_read] idle_careful [OF idle.stays_plc_error] idle_careful [OF idle.stays_log_abort]) simp_all

lemma careful_start: "careful.stays (runner_start_sequence env sq)"
  unfolding runner_start_sequence_def
  by (intro careful.stays_rules careful_run_sequence careful_recover idle_careful [OF idle.stays_failure]
      idle_careful [OF idle.stays_set_tcp] idle_careful [OF idle.stays_emit] idle_careful [OF idle.stays_finish]
      idle_careful [OF idle.stays_record_drawer]) simp_all

lemma careful_run_once: "careful.stays (run_once env)"
proof -
  have set: "careful.stays (modify_op (\<lambda>s. s\<lparr>rn_done := True\<rparr>))"
    by (intro careful.stays_modify does0_careful does0_same) simp_all
  show ?thesis
    unfolding run_once_def
    by (intro careful.stays_rules set careful_start idle_careful [OF idle.stays_read]
        idle_careful [OF idle.stays_tool_gate] idle_careful [OF idle.stays_drawer_gate] idle_careful [OF idle.stays_emit])
      (auto intro: idle_careful idle.stays_emit)
qed


section \<open>Only gated runs move the robot\<close>

definition starts :: "runner_out \<Rightarrow> bool" where
  "starts x \<longleftrightarrow> is_motion x \<or> x = RnMoving True"

interpretation hush: runner_order "extends_by rn_outs (\<lambda>x. \<not> starts x)" "\<lambda>x. \<not> starts x" "\<lambda>c c'. True"
  by unfold_locales (auto simp: extends_by_def starts_def)

lemma bind_read: "bind_op (rn_read env g) f s = f (g (snd (rn_observe env s))) (snd (rn_observe env s))"
  by (simp add: rn_read_def rn_observe_def bind_op_def seq_op_def)

lemma seq_modify: "seq_op (modify_op f) m s = m (f s)"
  by (simp add: seq_op_def bind_op_def)

lemma bind_gets: "bind_op (gets_op g) f s = f (g s) s"
  by (simp add: bind_op_def)

interpretation same_db: runner_order "\<lambda>s t. rn_db t = rn_db s" "\<lambda>x. True" "\<lambda>c c'. False"
  by unfold_locales auto

text \<open>The gates: \<open>True\<close> only if the database said so.\<close>

lemma with_db_some:
  "rn_db s = Some c \<Longrightarrow> \<exists>n. fst (with_db env f s) = Inr (fst (f (re_io env n) (re_clock env n) c))"
proof -
  assume "rn_db s = Some c"
  then have "rn_db (snd (rn_observe env s)) = Some c"
    using same_db.staysD [OF same_db.stays_observe, of env s] by simp
  then have "fst (with_db env f s) = Inr (fst (f (re_io env (rn_tick (snd (rn_observe env s))))
      (re_clock env (rn_tick (snd (rn_observe env s)))) c))"
    by (simp add: with_db_def seq_op_def bind_op_def rn_observe_def split: prod.split)
  then show ?thesis by blast
qed

lemma client_gate:
  assumes "fst (client_check_feasibility io clk i tool c) = Inr (True, why)"
    and "i \<in> {''fetch'', ''return''}"
  shows "gate_view io clk (py_strip tool) (dc_repo c) = Some (if i = ''fetch'' then In_slot else Staged)"
proof -
  obtain res r' where res: "check_feasibility io DEFAULT_OPERATOR_ID clk i tool (dc_repo c) = (Inr res, r')"
    "feasible res \<longleftrightarrow> py_strip tool \<noteq> []
        \<and> (\<exists>st. gate_view io clk (py_strip tool) (dc_repo c) = Some st \<and> gate_allows (py_strip i) st)"
    using gate_answer [of io DEFAULT_OPERATOR_ID clk i tool "dc_repo c"] by blast
  have "feasible res"
    using assms(1) by (simp add: client_check_feasibility_def on_repo_def bind_op_def res(1) split: if_splits)
  with res(2) show ?thesis using assms(2) strip_intents [OF assms(2)] by auto
qed

lemma client_drawer_gate:
  assumes "fst (client_check_drawer io ''open'' l c) = Inr (True, why)"
    and "db_drawers (rp_db (dc_repo c)) l = Some dr"
  shows "\<not> is_open dr"
proof -
  have "py_strip ''open'' = ''open''" by code_simp
  then show ?thesis
    using assms
    by (cases "io (rp_transactions (dc_repo c))")
      (auto simp: client_check_drawer_def on_repo_def check_drawer_feasibility_def
        VALID_DRAWER_INTENTS_def bind_op_def catch_op_def transact_def Let_def)
qed

lemma bind_with_db_true:
  assumes "bind_op (with_db env f) g s = (Inr True, t)" "rn_db s = Some c"
  obtains n u where "g (fst (f (re_io env n) (re_clock env n) c)) u = (Inr True, t)"
proof -
  obtain r u where w: "with_db env f s = (Inr r, u)" "g r u = (Inr True, t)"
    using bind_op_okD [OF assms(1)] by blast
  obtain n where "fst (with_db env f s) = Inr (fst (f (re_io env n) (re_clock env n) c))"
    using with_db_some [OF assms(2)] by blast
  with w that show ?thesis by simp
qed

lemma not_refused: "refuse s \<noteq> (Inr True, t)"
  by (simp add: refuse_def seq_op_def bind_op_def rn_plc_error_def rn_emit_def)

lemma tool_gate_true:
  assumes go: "runner_tool_gate env s = (Inr True, t)"
    and nm: "rc_seq_name (re_cfg env) \<in> set (FETCH_SEQS @ RETURN_SEQS)"
  shows "\<exists>c n. rn_db s = Some c \<and> gate_view (re_io env n) (re_clock env n)
      (py_strip (rc_tool_id (re_cfg env))) (dc_repo c)
      = Some (if rc_seq_name (re_cfg env) \<in> set FETCH_SEQS then In_slot else Staged)"
proof -
  let ?i = "if rc_seq_name (re_cfg env) \<in> set FETCH_SEQS then ''fetch'' else ''return''"
  let ?t = "rc_tool_id (re_cfg env)"
  let ?g = "\<lambda>r. case r of Inl (DBCacheExpiredError _) \<Rightarrow> refuse | Inl (DBError _) \<Rightarrow> refuse
          | Inl (SqliteRaised m) \<Rightarrow> fail_op (OtherErr m)
          | Inr (ok, _) \<Rightarrow> if ok then ret_op True else refuse"
  have t: "?t \<noteq> []"
    using go nm by (auto simp: runner_tool_gate_def Let_def seq_op_def bind_op_def rn_emit_def)
  have some: "rn_db s \<noteq> None"
  proof
    assume "rn_db s = None"
    then have "refuse s = (Inr True, t)"
      using go nm t unfolding runner_tool_gate_def Let_def by (auto simp: bind_gets)
    then show False using not_refused by blast
  qed
  then obtain c where c: "rn_db s = Some c" by blast
  have "bind_op (with_db env (\<lambda>io clk. client_check_feasibility io clk ?i ?t)) ?g s = (Inr True, t)"
    using go nm t c unfolding runner_tool_gate_def Let_def by (auto simp: bind_gets)
  then obtain n u where n: "?g (fst (client_check_feasibility (re_io env n) (re_clock env n) ?i ?t c)) u = (Inr True, t)"
    using c by (rule bind_with_db_true)
  then have "\<exists>why. fst (client_check_feasibility (re_io env n) (re_clock env n) ?i ?t c) = Inr (True, why)"
    using not_refused by (auto split: sum.splits client_error.splits prod.splits if_splits)
  then have "gate_view (re_io env n) (re_clock env n) (py_strip ?t) (dc_repo c)
      = Some (if ?i = ''fetch'' then In_slot else Staged)"
    by (elim exE) (rule client_gate, auto)
  with c show ?thesis by (auto split: if_splits)
qed

lemma drawer_gate_true:
  assumes go: "runner_drawer_gate env s = (Inr True, t)"
    and nm: "rc_seq_name (re_cfg env) \<in> set DRAWER_SEQS"
    and open_it: "drawer_intent (rc_seq_name (re_cfg env)) = ''open''"
  shows "\<exists>c. rn_db s = Some c \<and> (\<forall>dr. db_drawers (rp_db (dc_repo c))
      (drawer_layer (rc_seq_name (re_cfg env))) = Some dr \<longrightarrow> \<not> is_open dr)"
proof -
  let ?l = "drawer_layer (rc_seq_name (re_cfg env))"
  let ?g = "\<lambda>r. case r of Inl (DBCacheExpiredError _) \<Rightarrow> refuse | Inl (DBError _) \<Rightarrow> refuse
          | Inl (SqliteRaised m) \<Rightarrow> fail_op (OtherErr m)
          | Inr (ok, why) \<Rightarrow>
              if ok then ret_op True
              else if why = ''already_open''
                then seq_op (rn_emit (RnMoving False)) (seq_op (rn_emit RnShutdown) (ret_op False))
              else refuse"
  have "rn_db s \<noteq> None"
  proof
    assume "rn_db s = None"
    then have "refuse s = (Inr True, t)"
      using go nm unfolding runner_drawer_gate_def Let_def by (auto simp: bind_gets)
    then show False using not_refused by blast
  qed
  then obtain c where c: "rn_db s = Some c" by blast
  have "bind_op (with_db env (\<lambda>io clk. client_check_drawer io ''open'' ?l)) ?g s = (Inr True, t)"
    using go nm c open_it unfolding runner_drawer_gate_def Let_def by (auto simp: bind_gets)
  then obtain n u where n: "?g (fst (client_check_drawer (re_io env n) ''open'' ?l c)) u = (Inr True, t)"
    using c by (rule bind_with_db_true)
  then have "\<exists>why. fst (client_check_drawer (re_io env n) ''open'' ?l c) = Inr (True, why)"
    using not_refused
    by (auto simp: seq_op_def bind_op_def rn_emit_def split: sum.splits client_error.splits prod.splits if_splits)
  with c show ?thesis using client_drawer_gate by blast
qed

text \<open>What happens before the sequence: nothing is sent, and the run ends there or both gates opened.\<close>

definition begun :: "runner_env \<Rightarrow> runner \<Rightarrow> motion_step list \<Rightarrow> runner \<Rightarrow> bool" where
  "begun env s sq v \<longleftrightarrow>
     resolve_sequence (rc_seq_name (re_cfg env)) = Inr (Some sq)
     \<and> extends_by rn_outs (\<lambda>x. \<not> starts x) s v
     \<and> (\<exists>t u. rn_db t = rn_db s \<and> \<not> rn_prev_moving t \<and> runner_tool_gate env t = (Inr True, u)
           \<and> runner_drawer_gate env u = (Inr True, v))"

lemma run_once_cases:
  obtains (idle) "extends_by rn_outs (\<lambda>x. \<not> starts x) s (snd (run_once env s))"
  | (begun) sq v where "begun env s sq v" "run_once env s = runner_start_sequence env sq v"
proof (cases "rn_done s")
  case True
  then show thesis by (intro idle) (simp add: run_once_def bind_gets grows.refl)
next
  case False
  let ?nm = "rc_seq_name (re_cfg env)"
  define t where "t = snd (rn_observe env (s\<lparr>rn_done := True\<rparr>))"
  have st: "extends_by rn_outs (\<lambda>x. \<not> starts x) s t"
    using grows.trans [OF hush.R_same grows.staysD [OF hush.stays_observe]] unfolding t_def by simp
  have db: "rn_db t = rn_db s"
    using same_db.staysD [OF same_db.stays_observe, of env "s\<lparr>rn_done := True\<rparr>"] unfolding t_def by simp
  have run: "run_once env s = (if rn_prev_moving t then rn_emit RnShutdown t
      else case resolve_sequence ?nm of Inl e \<Rightarrow> (Inl (OtherErr ''ValueError''), t)
       | Inr None \<Rightarrow> rn_emit RnShutdown t
       | Inr (Some sq) \<Rightarrow> bind_op (runner_tool_gate env) (\<lambda>go. if \<not> go then ret_op ()
           else bind_op (runner_drawer_gate env) (\<lambda>go.
             if \<not> go then ret_op () else runner_start_sequence env sq)) t)"
    using False
    unfolding run_once_def bind_gets seq_modify bind_read t_def
    by (simp split: sum.split option.split)
  have emit: "extends_by rn_outs (\<lambda>x. \<not> starts x) s (snd (rn_emit RnShutdown t))"
    using grows.trans [OF st grows.staysD [OF hush.stays_emit]] by (simp add: starts_def)
  have tool: "step_order.stays (extends_by rn_outs (\<lambda>x. \<not> starts x)) (runner_tool_gate env)"
    and drawer: "step_order.stays (extends_by rn_outs (\<lambda>x. \<not> starts x)) (runner_drawer_gate env)"
    by (intro hush.stays_tool_gate hush.stays_drawer_gate; simp add: starts_def)+
  show thesis
  proof (cases "rn_prev_moving t \<or> \<not> (\<exists>sq. resolve_sequence ?nm = Inr (Some sq))")
    case True
    then show thesis
      using st emit by (intro idle) (auto simp: run split: sum.split option.split)
  next
    case False
    then obtain sq where sq: "resolve_sequence ?nm = Inr (Some sq)" and still: "\<not> rn_prev_moving t" by blast
    obtain r u where u: "runner_tool_gate env t = (r, u)" by (cases "runner_tool_gate env t")
    obtain q v where v: "runner_drawer_gate env u = (q, v)" by (cases "runner_drawer_gate env u")
    have su: "extends_by rn_outs (\<lambda>x. \<not> starts x) s u"
      using grows.trans [OF st grows.staysD' [OF tool u]] .
    have sv: "extends_by rn_outs (\<lambda>x. \<not> starts x) s v"
      using grows.trans [OF su grows.staysD' [OF drawer v]] .
    show thesis
    proof (cases "r = Inr True \<and> q = Inr True")
      case True
      then have "begun env s sq v" using sq sv db still u v unfolding begun_def by blast
      moreover have "run_once env s = runner_start_sequence env sq v"
        using still sq True unfolding run by (simp add: bind_op_def u v)
      ultimately show thesis by (rule begun)
    next
      case False
      then show thesis
        using still sq su sv by (intro idle) (cases r; cases q; auto simp: run bind_op_def u v)
    qed
  qed
qed

lemma begun_fetch:
  assumes "begun env s sq v" "rc_seq_name (re_cfg env) \<in> set (FETCH_SEQS @ RETURN_SEQS)"
  shows "\<exists>c n. rn_db s = Some c \<and> gate_view (re_io env n) (re_clock env n)
      (py_strip (rc_tool_id (re_cfg env))) (dc_repo c)
      = Some (if rc_seq_name (re_cfg env) \<in> set FETCH_SEQS then In_slot else Staged)"
proof -
  obtain t u where "rn_db t = rn_db s" "runner_tool_gate env t = (Inr True, u)"
    using assms(1) unfolding begun_def by blast
  then show ?thesis using tool_gate_true [OF _ assms(2)] by metis
qed

lemma begun_open:
  assumes "begun env s sq v" "rc_seq_name (re_cfg env) \<in> set DRAWER_SEQS"
    and "drawer_intent (rc_seq_name (re_cfg env)) = ''open''"
  shows "\<exists>c. rn_db s = Some c \<and> (\<forall>dr. db_drawers (rp_db (dc_repo c))
      (drawer_layer (rc_seq_name (re_cfg env))) = Some dr \<longrightarrow> \<not> is_open dr)"
proof -
  obtain t u where t: "rn_db t = rn_db s" "runner_tool_gate env t = (Inr True, u)"
      "runner_drawer_gate env u = (Inr True, v)"
    using assms(1) unfolding begun_def by blast
  have "rc_seq_name (re_cfg env) \<notin> set (FETCH_SEQS @ RETURN_SEQS)"
    using assms(2) by (auto simp: DRAWER_SEQS_def FETCH_SEQS_def RETURN_SEQS_def)
  then have "u = t" using t(2) by (auto simp: runner_tool_gate_def)
  then show ?thesis using drawer_gate_true [OF t(3) assms(2,3)] t(1) by metis
qed

lemma drawer_intents:
  "drawer_intent ''vision_open_0'' = ''open''" "drawer_intent ''vision_open_1'' = ''open''"
  "drawer_intent ''vision_close_0'' = ''close''" "drawer_intent ''vision_close_1'' = ''close''"
  "drawer_layer ''vision_open_0'' = 0" "drawer_layer ''vision_open_1'' = 1"
  "drawer_layer ''vision_close_0'' = 0" "drawer_layer ''vision_close_1'' = 1"
  by code_simp+

text \<open>
  C15: The robot moves in a \<open>vision_fetch\<close> or \<open>socket_fetch\<close> run only if the DB Gate saw the tool in
  its slot, in a \<open>vision_return\<close> or \<open>socket_return\<close> run only if it saw the tool staged, and in an
  opening run only if the database does not have that drawer open; without a database none of
  them moves.
\<close>
theorem runner_moves_gated:
  assumes "rn_outs (snd (run_once env s)) = rn_outs s @ ext" and "x \<in> set ext" and "is_motion x"
  defines "nm \<equiv> rc_seq_name (re_cfg env)"
  shows "(nm \<in> {''vision_fetch'', ''socket_fetch''} \<longrightarrow>
          (\<exists>c n. rn_db s = Some c \<and> gate_view (re_io env n) (re_clock env n)
             (py_strip (rc_tool_id (re_cfg env))) (dc_repo c) = Some In_slot))
    \<and> (nm \<in> {''vision_return'', ''socket_return''} \<longrightarrow>
          (\<exists>c n. rn_db s = Some c \<and> gate_view (re_io env n) (re_clock env n)
             (py_strip (rc_tool_id (re_cfg env))) (dc_repo c) = Some Staged))
    \<and> (nm \<in> {''vision_open_0'', ''vision_open_1''} \<longrightarrow>
          (\<exists>c. rn_db s = Some c \<and> (\<forall>dr. db_drawers (rp_db (dc_repo c))
             (if nm = ''vision_open_0'' then 0 else 1) = Some dr \<longrightarrow> \<not> is_open dr)))"
proof (cases rule: run_once_cases [where env = env and s = s])
  case idle
  then show ?thesis using assms(1-3) by (auto simp: extends_by_def list_all_iff starts_def)
next
  case (begun sq v)
  from begun(1) show ?thesis
    using begun_fetch [OF begun(1)] begun_open [OF begun(1)] unfolding nm_def
    by (auto simp: FETCH_SEQS_def RETURN_SEQS_def DRAWER_SEQS_def drawer_intents)
qed

section \<open>What the database keeps of a run\<close>

definition client_calm :: "db_client \<Rightarrow> db_client \<Rightarrow> bool" where
  "client_calm c c' \<longleftrightarrow> calm (rp_db (dc_repo c)) (rp_db (dc_repo c'))"

definition db_calm :: "runner \<Rightarrow> runner \<Rightarrow> bool" where
  "db_calm s t \<longleftrightarrow>
     (case rn_db s of None \<Rightarrow> rn_db t = None | Some c \<Rightarrow> \<exists>c'. rn_db t = Some c' \<and> client_calm c c')"

lemma client_calm_refl [simp]: "client_calm c c"
  by (simp add: client_calm_def)

interpretation db_calm: runner_free db_calm "\<lambda>x. True" client_calm
proof
  show "db_calm s u" if "db_calm s t" "db_calm t u" for s t u
    using that calm_trans unfolding db_calm_def client_calm_def by (fastforce split: option.splits)
qed (auto simp: db_calm_def split: option.splits)

lemma on_repo_calm: "calm.stays m \<Longrightarrow> client_calm c (snd (on_repo m c))"
  using calm.staysD [of m "dc_repo c"]
  by (auto simp: on_repo_def client_calm_def split: sum.split prod.split)

lemma client_calm_bind:
  assumes "client_calm c (snd (m c))" "\<And>a d. client_calm d (snd (f a d))"
  shows "client_calm c (snd (bind_op m f c))"
proof -
  have tr: "client_calm x z" if "client_calm x y" "client_calm y z" for x y z
    using that unfolding client_calm_def by (rule calm_trans)
  show ?thesis
    using assms tr by (cases "m c"; cases "fst (m c)") (auto simp: bind_op_def)
qed

lemma calm_check_drawer: "calm.stays (check_drawer_feasibility io i l)"
proof -
  have "calm.stays (case e of SchemaValidationError m \<Rightarrow> ret_op (feas False (''database schema error: '' @ m))
         | SqliteError m \<Rightarrow> ret_op (feas False (''database unavailable: '' @ m))
         | ValueErr m \<Rightarrow> fail_op e)" for e
    by (cases e) (auto intro: calm.stays_rules)
  then show ?thesis
    unfolding check_drawer_feasibility_def Let_def
    by (intro calm.stays_rules calm_transact) auto
qed

lemma calm_update_drawer: "calm.stays (update_drawer_state io clk l i)"
proof -
  have "calm d (upsert_drawer l b now d)" for l b now d
    by (simp add: calm_def upsert_drawer_def find_tool_def)
  then show ?thesis
    unfolding update_drawer_state_def Let_def
    by (intro calm.stays_rules calm_catch_sqlite calm_transact) auto
qed

lemma client_ops_calm:
  "client_calm c (snd (client_check_feasibility io clk i t c))"
  "client_calm c (snd (client_check_drawer io i l c))"
  "client_calm c (snd (client_update_drawer io clk l i c))"
  "client_calm c (snd (client_log_system_event io clk ev sv tr nts c))"
  unfolding client_check_feasibility_def client_check_drawer_def client_update_drawer_def
    client_log_system_event_def
  by (intro client_calm_bind on_repo_calm calm_check_feasibility calm_check_drawer calm_update_drawer
      calm_log_system_event; simp)+

lemma db_calm_run_once: "db_calm.stays (run_once env)"
  unfolding run_once_def runner_start_sequence_def
  by (intro db_calm.stays_rules db_calm.stays_modify db_calm.R_same db_calm.stays_read db_calm.stays_emit
      db_calm.stays_tool_gate db_calm.stays_drawer_gate db_calm.stays_set_tcp db_calm.stays_failure
      db_calm.stays_recover db_calm.stays_record_drawer db_calm.stays_finish db_calm.stays_sequence
      client_ops_calm) simp_all

text \<open>
  A failed sequence is not recorded: the event type \<open>error\<close> is none of the repository's, so the
  report of \<open>_on_sequence_failure\<close> is refused before SQLite is asked.
\<close>

interpretation kept: runner_free "\<lambda>s t. rn_db t = rn_db s" "\<lambda>x. True" "\<lambda>c c'. c' = c"
  by unfold_locales auto

lemma failure_report_refused:
  "snd (client_log_system_event io clk ''error'' sv tr nts c) = c"
proof -
  have "py_strip ''error'' = ''error''" "''error'' \<notin> set VALID_SYSTEM_EVENT_TYPES" by code_simp+
  then show ?thesis
    by (simp add: client_log_system_event_def log_system_event_def on_repo_def bind_op_def)
qed

lemma recover_keeps_db: "rn_db (snd (runner_recover env s)) = rn_db s"
proof -
  have "step_order.stays (\<lambda>s t. rn_db t = rn_db s) (runner_recover env)"
    by (intro kept.stays_recover kept.stays_sequence failure_report_refused) simp
  from same_db.staysD [OF this] show ?thesis .
qed


section \<open>What the other nodes are told\<close>

text \<open>The run between the two \<open>is_moving\<close> messages.\<close>

definition play :: "runner_env \<Rightarrow> motion_step list \<Rightarrow> unit runner_op" where
  "play env sq =
     bind_op (runner_set_tcp env (rc_tcp_name (re_cfg env))) (\<lambda>tcp.
     if \<not> tcp then on_sequence_failure env
     else bind_op (runner_run_sequence env sq) (\<lambda>ok.
       if ok then runner_record_drawer env else runner_recover env))"

lemma start_sequence_eq:
  "runner_start_sequence env sq = seq_op (rn_emit (RnMoving True)) (seq_op (play env sq) runner_finish)"
  unfolding runner_start_sequence_def play_def
  by (rule arg_cong [where f = "seq_op (rn_emit (RnMoving True))"])
    (auto simp: fun_eq_iff seq_op_def bind_op_def split: prod.split sum.split)

interpretation on_air: runner_free "extends_by rn_outs (\<lambda>x. x \<noteq> RnMoving False \<and> x \<noteq> RnMoving True)"
    "\<lambda>x. x \<noteq> RnMoving False \<and> x \<noteq> RnMoving True" "\<lambda>c c'. True"
  by unfold_locales (auto simp: extends_by_def)

lemma on_air_play:
  "extends_by rn_outs (\<lambda>x. x \<noteq> RnMoving False \<and> x \<noteq> RnMoving True) s (snd (play env sq s))"
proof -
  have "step_order.stays (extends_by rn_outs (\<lambda>x. x \<noteq> RnMoving False \<and> x \<noteq> RnMoving True)) (play env sq)"
    unfolding play_def
    by (intro grows.stays_bind grows.stays_if on_air.stays_set_tcp on_air.stays_failure
        on_air.stays_sequence on_air.stays_record_drawer on_air.stays_recover) simp_all
  then show ?thesis by (rule grows.staysD)
qed

text \<open>
  A run that tells the other nodes that it moves says so once, and says that it has stopped
  as its last message before it shuts down, if it returns; if one of its requests raises, it says
  nothing more: \<open>is_moving\<close> stays true.
\<close>
theorem runner_moving_flag:
  assumes "rn_outs (snd (run_once env s)) = rn_outs s @ ext" and "RnMoving True \<in> set ext"
  shows "\<exists>pre post. RnMoving True \<notin> set (pre @ post) \<and> RnMoving False \<notin> set post
    \<and> ext = pre @ RnMoving True # post
        @ (if is_ok (fst (run_once env s)) then [RnMoving False, RnShutdown] else [])"
proof (cases rule: run_once_cases [where env = env and s = s])
  case idle
  then show ?thesis using assms by (auto simp: extends_by_def list_all_iff starts_def)
next
  case (begun sq v)
  let ?v = "v\<lparr>rn_outs := rn_outs v @ [RnMoving True]\<rparr>"
  obtain pre where pre: "rn_outs v = rn_outs s @ pre" "list_all (\<lambda>x. \<not> starts x) pre"
    using begun(1) unfolding begun_def extends_by_def by blast
  obtain r w where w: "play env sq ?v = (r, w)" by (cases "play env sq ?v")
  obtain post where post: "rn_outs w = rn_outs v @ RnMoving True # post"
      "list_all (\<lambda>x. x \<noteq> RnMoving False \<and> x \<noteq> RnMoving True) post"
    using on_air_play [of ?v env sq] w unfolding extends_by_def by auto
  have "run_once env s = seq_op (play env sq) runner_finish ?v"
    unfolding begun(2) start_sequence_eq by (simp add: seq_op_def bind_op_def rn_emit_def)
  then have "run_once env s = (case r of Inl e \<Rightarrow> (Inl e, w) | Inr _ \<Rightarrow>
      (Inr (), w\<lparr>rn_outs := rn_outs w @ [RnMoving False, RnShutdown]\<rparr>))"
    by (simp add: seq_op_def bind_op_def w runner_finish_def rn_emit_def split: sum.split)
  then have "ext = pre @ RnMoving True # post
        @ (if is_ok (fst (run_once env s)) then [RnMoving False, RnShutdown] else [])"
    using assms(1) pre(1) post(1) by (auto simp: is_ok_def split: sum.splits)
  moreover have "RnMoving True \<notin> set (pre @ post)" "RnMoving False \<notin> set post"
    using pre(2) post(2) by (auto simp: list_all_iff starts_def)
  ultimately show ?thesis by blast
qed

section \<open>Where and how fast\<close>

definition step_poses :: "motion_step list \<Rightarrow> real list list" where
  "step_poses sts = List.map_filter pose sts"

text \<open>The first three coordinates are inside the workspace of the configuration.\<close>

definition in_workspace :: "runner_toolbox \<Rightarrow> real list \<Rightarrow> bool" where
  "in_workspace t p \<longleftrightarrow>
     (case p of x # y # z # _ \<Rightarrow> inside (tb_x t) x \<and> inside (tb_y t) y \<and> inside (tb_z t) z | _ \<Rightarrow> False)"

definition servo_limit :: "runner_env \<Rightarrow> real" where
  "servo_limit env =
     (case re_servo_yaml env of None \<Rightarrow> 0
      | Some raw \<Rightarrow> max \<bar>sc_vel_limit (load_servo_config raw ''handle'')\<bar> \<bar>sc_vel_limit (load_servo_config raw ''tool'')\<bar>)"

text \<open>A relative move of the servo: a translation of at most \<open>l\<close> times one period on each axis.\<close>

definition nudge :: "real \<Rightarrow> real list \<Rightarrow> bool" where
  "nudge l p \<longleftrightarrow>
     (\<exists>x y z. p = [x, y, z, 0.0, 0.0, 0.0] \<and> \<bar>x\<bar> \<le> l * SERVO_DT \<and> \<bar>y\<bar> \<le> l * SERVO_DT \<and> \<bar>z\<bar> \<le> l * SERVO_DT)"

text \<open>
  What a motion request of a run may ask for, given the steps of its sequence: no faster than the
  configured limits, and to a measured pose of a step, to a pose inside the workspace, or, relative
  to the present pose, a nudge; the gripper never closes with more than 400 mA.
\<close>

fun sane_out :: "runner_env \<Rightarrow> motion_step list \<Rightarrow> runner_out \<Rightarrow> bool" where
  "sane_out env sts (RnLine q) =
     ((\<exists>v w. lr_vel q = [v, w] \<and> v \<le> rc_vel_l (re_cfg env) \<and> w \<le> rc_vel_r (re_cfg env))
      \<and> (\<exists>a b. lr_acc q = [a, b] \<and> a \<le> rc_acc_l (re_cfg env) \<and> b \<le> rc_acc_r (re_cfg env))
      \<and> (lr_pos q \<in> set (step_poses sts)
         \<or> lr_mode q = DR_MV_MOD_ABS \<and> in_workspace (rc_toolbox (re_cfg env)) (lr_pos q)
         \<or> lr_mode q = DR_MV_MOD_REL \<and> nudge (servo_limit env) (lr_pos q)))"
| "sane_out env sts (RnJoint q) =
     (jr_vel q \<le> rc_vel_j (re_cfg env) \<and> jr_acc q \<le> rc_acc_j (re_cfg env)
      \<and> jr_mode q = DR_MV_MOD_ABS \<and> jr_pos q \<in> set (step_poses sts))"
| "sane_out env sts (RnGrip q) = (gr_current q \<le> 400 \<and> (gr_position q \<le> 450 \<longrightarrow> gr_current q = 0))"
| "sane_out env sts x = True"

interpretation sane: runner_order "extends_by rn_outs (sane_out env sts)" "sane_out env sts" "\<lambda>c c'. True"
  for env :: runner_env and sts :: "motion_step list"
  by unfold_locales (auto simp: extends_by_def)

abbreviation sanely :: "runner_env \<Rightarrow> motion_step list \<Rightarrow> 'a runner_op \<Rightarrow> bool" where
  "sanely env sts \<equiv> step_order.stays (extends_by rn_outs (sane_out env sts))"

lemma capped_le: "capped v l \<le> l"
  by (cases v) (simp_all add: capped_def)

lemma pose_mem: "st \<in> set sts \<Longrightarrow> pose st = Some p \<Longrightarrow> p \<in> set (step_poses sts)"
  by (force simp: step_poses_def map_filter_def)

lemma sane_movel:
  assumes "\<And>p. pose st = Some p \<Longrightarrow> p \<in> set (step_poses sts)
      \<or> mode = DR_MV_MOD_ABS \<and> in_workspace (rc_toolbox (re_cfg env)) p"
  shows "sanely env sts (runner_movel env st mode)"
proof (cases "pose st")
  case None
  then show ?thesis by (simp only: runner_movel_def option.case grows.stays_fail)
next
  case (Some p)
  have "sane_out env sts (RnLine (runner_line_req (re_cfg env) st p mode))"
    using assms [OF Some] by (auto simp: runner_line_req_def line_req_def capped_le)
  then show ?thesis
    unfolding runner_movel_def Some option.case
    by (intro grows.stays_bind sane.stays_call_polled sane.stays_emit grows.stays_option grows.stays_ret
        grows.stays_seq sane.stays_sleep) simp_all
qed

lemma sane_movej:
  assumes "st \<in> set sts"
  shows "sanely env sts (runner_movej env st)"
proof (cases "pose st")
  case None
  then show ?thesis by (simp only: runner_movej_def option.case grows.stays_fail)
next
  case (Some p)
  have "sane_out env sts (RnJoint (runner_joint_req (re_cfg env) st p))"
    using pose_mem [OF assms Some] by (simp add: runner_joint_req_def capped_le)
  then show ?thesis
    unfolding runner_movej_def Some option.case
    by (intro grows.stays_bind sane.stays_call_polled sane.stays_emit grows.stays_option grows.stays_ret
        grows.stays_seq sane.stays_sleep) simp_all
qed

lemma sane_grip: "sanely env sts (runner_grip env st)"
proof -
  have "sane_out env sts (RnGrip (runner_grip_req (re_cfg env) st))"
    by (simp add: runner_grip_req_def Let_def)
  moreover have "sanely env sts (case r of Some (True, _) \<Rightarrow> seq_op (rn_sleep env 0.1) (ret_op True) | _ \<Rightarrow> ret_op False)"
    for r :: "(bool \<times> real list list) option"
    by (auto intro!: grows.stays_rules sane.stays_sleep split: option.split bool.split)
  ultimately show ?thesis
    unfolding runner_grip_def by (intro grows.stays_bind sane.stays_call_once sane.stays_emit) simp_all
qed

lemma sane_move_to: "runner_check_coords (rc_toolbox (re_cfg env)) x y z \<Longrightarrow> sanely env sts (runner_move_to env ([x, y, z] @ ori))"
  unfolding runner_move_to_def
  by (rule sane_movel) (auto simp: runner_line_step_def bare_step_def in_workspace_def runner_check_coords_def split: if_splits)

lemma sane_turned:
  "runner_check_coords (rc_toolbox (re_cfg env)) x y z \<Longrightarrow>
   sanely env sts (bind_op (turned base rz) (\<lambda>ori. runner_move_to env ([x, y, z] @ ori)))"
  by (intro grows.stays_bind sane.stays_turned sane_move_to)

lemma sane_cond: "(\<not> b \<Longrightarrow> sanely env sts m) \<Longrightarrow> sanely env sts (if b then ret_op False else m)"
  using grows.stays_ret by auto

lemma sane_moves:
  "sanely env sts (runner_top_xy env)" "sanely env sts (runner_tool_xyz env)"
  "sanely env sts (runner_staging_xyz env)" "sanely env sts (runner_slot_xyz env)"
  "sanely env sts (runner_slot_xy env)"
  unfolding runner_top_xy_def runner_tool_xyz_def runner_staging_xyz_def runner_slot_xyz_def
    runner_slot_xy_def Let_def
  by (intro grows.stays_bind sane.stays_read grows.stays_option grows.stays_ret sane.stays_prod
      sane_cond sane_turned sane_move_to; simp)+

subsection \<open>The servo commands\<close>

lemma clamp_abs: "\<bar>servo_clamp v l\<bar> \<le> \<bar>l\<bar>"
  by (auto simp: servo_clamp_def min_def max_def)

lemma handle_tick_small: "\<bar>vc_x (snd (handle_tick cfg i c))\<bar> \<le> \<bar>sc_vel_limit cfg\<bar>
    \<and> \<bar>vc_z (snd (handle_tick cfg i c))\<bar> \<le> \<bar>sc_vel_limit cfg\<bar>"
  by (auto simp: handle_tick_def handle_to_error_def handle_tick_detect_def handle_tick_align_def
      stop_command_def velocity_def Let_def clamp_abs split: prod.split)

lemma tool_tick_small: "\<bar>vc_x (snd (tool_tick cfg i c))\<bar> \<le> \<bar>sc_vel_limit cfg\<bar>
    \<and> \<bar>vc_y (snd (tool_tick cfg i c))\<bar> \<le> \<bar>sc_vel_limit cfg\<bar>"
  by (auto simp: tool_tick_def tool_to_error_def tool_tick_detect_def tool_tick_align_def
      stop_command_def velocity_def Let_def clamp_abs split: prod.split)

lemma sane_delta:
  assumes "\<bar>a\<bar> \<le> servo_limit env" "\<bar>b\<bar> \<le> servo_limit env"
  shows "sanely env sts (runner_movel_delta env a b SERVO_DT)" "sanely env sts (runner_movel_delta_xy env a b SERVO_DT)"
proof -
  have le: "\<bar>a * SERVO_DT\<bar> \<le> servo_limit env * SERVO_DT" "\<bar>b * SERVO_DT\<bar> \<le> servo_limit env * SERVO_DT"
    using assms by (simp_all add: SERVO_DT_def abs_mult)
  moreover have "0 \<le> servo_limit env * SERVO_DT" using le by linarith
  ultimately have "sane_out env sts (RnLine (runner_delta_req (re_cfg env) [a * SERVO_DT, 0.0, b * SERVO_DT, 0.0, 0.0, 0.0]))"
    "sane_out env sts (RnLine (runner_delta_req (re_cfg env) [a * SERVO_DT, b * SERVO_DT, 0.0, 0.0, 0.0, 0.0]))"
    by (auto simp: runner_delta_req_def line_req_def nudge_def)
  then show "sanely env sts (runner_movel_delta env a b SERVO_DT)" "sanely env sts (runner_movel_delta_xy env a b SERVO_DT)"
    unfolding runner_movel_delta_def runner_movel_delta_xy_def
    by (intro grows.stays_bind sane.stays_call_once sane.stays_emit grows.stays_ret; simp)+
qed

lemma unless_value: "unless_runtime m s = (Inr (Some a), t) \<Longrightarrow> m s = (Inr a, t)"
  by (cases "m s"; cases "fst (m s)")
    (auto simp: unless_runtime_def catch_op_def bind_op_def split: runner_exc.splits)

lemma sane_servo_loop:
  assumes step: "\<And>c. sanely env sts (step c)"
    and drive: "\<And>c s c' v t. step c s = (Inr (c', v), t) \<Longrightarrow> sanely env sts (drive v)"
  shows "sanely env sts (servo_loop n env fin step drive c)"
proof (induction n arbitrary: c)
  case (Suc n)
  have next_round: "sanely env sts (seq_op (rn_sleep env SERVO_DT) (servo_loop n env fin step drive c'))" for c'
    by (intro grows.stays_seq sane.stays_sleep Suc.IH)
  have "sanely env sts (case r of None \<Rightarrow> ret_op False
      | Some (c', v) \<Rightarrow> if vc_stop v then seq_op (rn_sleep env SERVO_DT) (servo_loop n env fin step drive c')
          else bind_op (drive v) (\<lambda>ok. if \<not> ok then ret_op False
            else seq_op (rn_sleep env SERVO_DT) (servo_loop n env fin step drive c')))"
    if r: "unless_runtime (step c) s = (Inr r, t)" for r s t
  proof (cases r)
    case None
    then show ?thesis by (simp only: option.case grows.stays_ret)
  next
    case (Some cv)
    obtain c' v where cv: "cv = (c', v)" by (cases cv)
    have "step c s = (Inr (c', v), t)" using r unfolding Some cv by (rule unless_value)
    from drive [OF this] show ?thesis
      unfolding Some cv option.case prod.case
      by (intro grows.stays_if grows.stays_bind grows.stays_ret next_round)
  qed
  note steps = grows.stays_bind_post [OF sane.stays_unless [OF step] this]
  show ?case
    unfolding servo_loop.simps
    by (intro grows.stays_if grows.stays_ret grows.stays_bind sane.stays_read steps)
qed (simp only: servo_loop.simps grows.stays_ret)

lemma handle_step_value: "handle_step env cfg c s = (Inr (c', v), t) \<Longrightarrow> \<exists>i. handle_tick cfg i c = (c', v)"
  unfolding handle_step_def by (drule bind_op_okD) auto

lemma tool_step_value: "tool_step env cfg c s = (Inr (c', v), t) \<Longrightarrow> \<exists>i. tool_tick cfg i c = (c', v)"
  unfolding tool_step_def by (drule bind_op_okD) auto

lemma sane_drive_handle:
  assumes "handle_step env cfg c s = (Inr (c', v), t)" "\<bar>sc_vel_limit cfg\<bar> \<le> servo_limit env"
  shows "sanely env sts (drive_handle env v)"
proof -
  obtain i where "handle_tick cfg i c = (c', v)" using handle_step_value [OF assms(1)] by blast
  then have "\<bar>vc_x v\<bar> \<le> servo_limit env" "\<bar>vc_z v\<bar> \<le> servo_limit env"
    using handle_tick_small [of cfg i c] assms(2) by auto
  then show ?thesis unfolding drive_handle_def by (intro grows.stays_if grows.stays_ret sane_delta)
qed

lemma sane_drive_tool:
  assumes "tool_step env cfg c s = (Inr (c', v), t)" "\<bar>sc_vel_limit cfg\<bar> \<le> servo_limit env"
  shows "sanely env sts (drive_tool env v)"
proof -
  obtain i where "tool_tick cfg i c = (c', v)" using tool_step_value [OF assms(1)] by blast
  then have "\<bar>vc_x v\<bar> \<le> servo_limit env" "\<bar>vc_y v\<bar> \<le> servo_limit env"
    using tool_tick_small [of cfg i c] assms(2) by auto
  then show ?thesis unfolding drive_tool_def by (intro grows.stays_if grows.stays_ret sane_delta)
qed

lemma sane_visual_servo: "sanely env sts (runner_visual_servo env)"
proof (cases "re_servo_yaml env")
  case None
  then show ?thesis by (simp only: runner_visual_servo_def option.case grows.stays_ret)
next
  case (Some raw)
  have "sanely env sts (servo_loop n env handle_is_terminal (handle_step env (load_servo_config raw ''handle''))
      (drive_handle env) c)" for n c
    by (rule sane_servo_loop [OF sane.stays_handle_step sane_drive_handle])
      (auto simp: servo_limit_def Some)
  then show ?thesis
    unfolding runner_visual_servo_def Some option.case Let_def by (intro grows.stays_bind grows.stays_gets)
qed

lemma sane_visual_servo_xy: "sanely env sts (runner_visual_servo_xy env)"
proof (cases "re_servo_yaml env")
  case None
  then show ?thesis by (simp only: runner_visual_servo_xy_def option.case grows.stays_ret)
next
  case (Some raw)
  have "sanely env sts (servo_loop n env tool_is_terminal (tool_step env (load_servo_config raw ''tool''))
      (drive_tool env) c)" for n c
    by (rule sane_servo_loop [OF sane.stays_tool_step sane_drive_tool])
      (auto simp: servo_limit_def Some)
  then show ?thesis
    unfolding runner_visual_servo_xy_def Some option.case Let_def by (intro grows.stays_bind grows.stays_gets)
qed

lemma sane_run_step:
  assumes "st \<in> set sts"
  shows "sanely env sts (runner_run_step env st)"
proof -
  have wait: "sanely env sts (seq_op (rn_sleep env d) (ret_op True))" for d
    by (intro grows.stays_rules sane.stays_sleep)
  have line: "sanely env sts (runner_movel env st mode)" for mode
    using pose_mem [OF assms] by (intro sane_movel) simp
  have "sanely env sts (runner_exec_step env st)"
    unfolding runner_exec_step_def
    by (cases "kind st"; simp only: step_kind.case)
      (rule line sane_movej [OF assms] sane_grip wait sane_moves sane_visual_servo sane_visual_servo_xy
        sane.stays_wait_gripper grows.stays_ret)+
  then show ?thesis
    unfolding runner_run_step_def by (intro grows.stays_rules sane.stays_read)
qed

lemma sane_run_sequence: "set sq \<subseteq> set sts \<Longrightarrow> sanely env sts (runner_run_sequence env sq)"
  unfolding runner_run_sequence_def by (intro grows.stays_all_set sane_run_step) blast

lemma sane_start: "sanely env (sq @ home_seq) (runner_start_sequence env sq)"
  unfolding runner_start_sequence_def
  by (intro grows.stays_seq grows.stays_bind grows.stays_if sane.stays_emit sane.stays_set_tcp
      sane.stays_failure sane.stays_finish sane.stays_recover sane.stays_record_drawer
      sane_run_sequence) simp_all

text \<open>
  C16: Every motion request of a run is sane: lines and joint moves no faster than the node's
  limits; every absolute target a measured pose of the chosen sequence or of the way home, or, for
  a target the camera or the tool table gave, inside the configured workspace; every servo
  correction at most the servo's velocity limit times one period on each axis; and the gripper
  never asked for more than 400 mA.
\<close>
theorem runner_requests_sane:
  "\<exists>ext. rn_outs (snd (run_once env s)) = rn_outs s @ ext
    \<and> (case resolve_sequence (rc_seq_name (re_cfg env)) of
         Inr (Some sq) \<Rightarrow> list_all (sane_out env (sq @ home_seq)) ext
       | _ \<Rightarrow> list_all (\<lambda>x. \<not> is_motion x) ext)"
proof (cases rule: run_once_cases [where env = env and s = s])
  case idle
  then obtain ext where "rn_outs (snd (run_once env s)) = rn_outs s @ ext" "list_all (\<lambda>x. \<not> starts x) ext"
    by (auto simp: extends_by_def)
  moreover have "sane_out env sts x" if "\<not> starts x" for sts x
    using that by (cases x) (simp_all add: starts_def)
  ultimately show ?thesis
    by (auto simp: list_all_iff starts_def split: sum.split option.split)
next
  case (begun sq v)
  let ?R = "extends_by rn_outs (sane_out env (sq @ home_seq))"
  have "sane_out env (sq @ home_seq) x" if "\<not> starts x" for x
    using that by (cases x) (simp_all add: starts_def)
  then have "?R s v" using begun(1) unfolding begun_def by (blast intro: extends_by_mono)
  moreover have "?R v (snd (runner_start_sequence env sq v))"
    by (rule grows.staysD [OF sane_start])
  ultimately have "?R s (snd (run_once env s))" unfolding begun(2) by (rule grows.trans)
  then show ?thesis using begun(1) by (simp add: begun_def extends_by_def)
qed

section \<open>The servo loops end\<close>

interpretation clocked: runner_free "\<lambda>s t. rn_now s \<le> rn_now t" "\<lambda>x. True" "\<lambda>c c'. True"
  by unfold_locales auto

lemma bind_op_cong:
  "(\<And>a t. m s = (Inr a, t) \<Longrightarrow> f a t = g a t) \<Longrightarrow> bind_op m f s = bind_op m g s"
  by (auto simp: bind_op_def split: prod.split sum.split)

lemma sleep_now: "seq_op (rn_sleep env SERVO_DT) m s = m (snd (rn_sleep env SERVO_DT s))
    \<and> rn_now s + SERVO_DT \<le> rn_now (snd (rn_sleep env SERVO_DT s))"
proof -
  let ?s = "s\<lparr>rn_now := rn_now s + SERVO_DT\<rparr>"
  have "rn_sleep env SERVO_DT s = (Inr (), snd (rn_observe env ?s))"
    by (simp add: rn_sleep_def SERVO_DT_def seq_op_def bind_op_def rn_observe_def)
  moreover have "rn_now ?s \<le> rn_now (snd (rn_observe env ?s))"
    by (rule clocked.staysD [OF clocked.stays_observe])
  ultimately show ?thesis by (simp add: seq_op_def bind_op_def)
qed

lemma servo_round:
  "servo_loop (Suc n) env fin step drive c s =
     (if fin c then (Inr (sv_state c = DONE), s)
      else if rn_estop (snd (rn_observe env s)) then (Inr False, snd (rn_observe env s))
      else bind_op (unless_runtime (step c)) (\<lambda>r. case r of
            None \<Rightarrow> ret_op False
          | Some (c', v) \<Rightarrow>
              if vc_stop v
              then seq_op (rn_sleep env SERVO_DT) (servo_loop n env fin step drive c')
              else bind_op (drive v) (\<lambda>ok.
                if \<not> ok then ret_op False
                else seq_op (rn_sleep env SERVO_DT) (servo_loop n env fin step drive c')))
          (snd (rn_observe env s)))"
  by (simp add: bind_read)

text \<open>
  Two rounds after the time limit the loop has ended, so more rounds give the same result. A step
  keeps the start of the loop, and ends in \<open>ERROR\<close> when it starts after the limit \<open>l\<close>.
\<close>

lemma servo_loop_enough:
  assumes fin: "\<And>c. sv_state c = servo_state.ERROR \<Longrightarrow> fin c"
    and step: "\<And>c s c' v t. step c s = (Inr (c', v), t) \<Longrightarrow>
      sv_start c' = sv_start c \<and> rn_now s \<le> rn_now t \<and> (l < rn_now s - sv_start c \<longrightarrow> sv_state c' = servo_state.ERROR)"
    and drive: "\<And>v s. rn_now s \<le> rn_now (snd (drive v s))"
    and "l < rn_now s - sv_start c + SERVO_DT * real m"
  shows "servo_loop (Suc (Suc m) + k) env fin step drive c s = servo_loop (Suc (Suc m)) env fin step drive c s"
  using assms(4)
proof (induction m arbitrary: c s rule: less_induct)
  case (less m)
  note le = less.prems
  have IH: "servo_loop (Suc m + k) env fin step drive c' s' = servo_loop (Suc m) env fin step drive c' s'"
    if "m \<noteq> 0" "l < rn_now s' - sv_start c' + SERVO_DT * real (m - 1)" for c' s'
    using less.IH [of "m - 1" s' c'] that by (cases m) simp_all
  have next_round: "servo_loop (Suc m + k) env fin step drive c' w = servo_loop (Suc m) env fin step drive c' w"
    if st: "step c t = (Inr (c', v), u)" and "rn_now s \<le> rn_now t" "rn_now u + SERVO_DT \<le> rn_now w" for t c' v u w
  proof (cases "l < rn_now t - sv_start c")
    case True
    then have "fin c'" using step [OF st] by (intro fin) simp
    then show ?thesis by simp
  next
    case False
    then have "m \<noteq> 0" using le that(2) by (cases m) auto
    moreover have "l < rn_now w - sv_start c' + SERVO_DT * real (m - 1)"
    proof -
      have "rn_now s + SERVO_DT \<le> rn_now w" using step [OF st] that(2,3) by linarith
      moreover have "SERVO_DT * real m = SERVO_DT * real (m - 1) + SERVO_DT"
        using \<open>m \<noteq> 0\<close> by (cases m) (simp_all add: algebra_simps)
      ultimately show ?thesis using le step [OF st] by linarith
    qed
    ultimately show ?thesis by (rule IH)
  qed
  have after: "seq_op (rn_sleep env SERVO_DT) (servo_loop (Suc m + k) env fin step drive c') u'
      = seq_op (rn_sleep env SERVO_DT) (servo_loop (Suc m) env fin step drive c') u'"
    if "step c t = (Inr (c', v), u)" "rn_now s \<le> rn_now t" "rn_now u \<le> rn_now u'" for t c' v u u'
  proof -
    have "rn_now u + SERVO_DT \<le> rn_now (snd (rn_sleep env SERVO_DT u'))"
      using sleep_now [of env "ret_op ()" u'] that(3) by linarith
    from next_round [OF that(1,2) this] show ?thesis by (metis sleep_now)
  qed
  let ?t = "snd (rn_observe env s)"
  have t: "rn_now s \<le> rn_now ?t" by (rule clocked.staysD [OF clocked.stays_observe])
  define go where "go = (\<lambda>n r. case r of None \<Rightarrow> ret_op False
      | Some (c', v) \<Rightarrow>
          if vc_stop v then seq_op (rn_sleep env SERVO_DT) (servo_loop n env fin step drive c')
          else bind_op (drive v) (\<lambda>ok. if \<not> ok then ret_op False
            else seq_op (rn_sleep env SERVO_DT) (servo_loop n env fin step drive c')))"
  have eq: "go (Suc m + k) r u = go (Suc m) r u" if u: "unless_runtime (step c) ?t = (Inr r, u)" for r u
  proof (cases r)
    case None
    then show ?thesis by (simp add: go_def)
  next
    case (Some cv)
    obtain c' v where cv: "cv = (c', v)" by (cases cv)
    have st: "step c ?t = (Inr (c', v), u)" using u unfolding Some cv by (rule unless_value)
    have "rn_now u \<le> rn_now u'" if "drive v u = (q, u')" for q u'
      using drive [of u v] that by simp
    then have "bind_op (drive v) (\<lambda>ok. if \<not> ok then ret_op False
            else seq_op (rn_sleep env SERVO_DT) (servo_loop (Suc m + k) env fin step drive c')) u
        = bind_op (drive v) (\<lambda>ok. if \<not> ok then ret_op False
            else seq_op (rn_sleep env SERVO_DT) (servo_loop (Suc m) env fin step drive c')) u"
      by (intro bind_op_cong) (simp del: servo_loop.simps add_Suc add: after [OF st t])
    with after [OF st t order_refl] show ?thesis
      by (simp del: servo_loop.simps add_Suc add: go_def Some cv)
  qed
  have "bind_op (unless_runtime (step c)) (go (Suc m + k)) ?t = bind_op (unless_runtime (step c)) (go (Suc m)) ?t"
    by (intro bind_op_cong eq)
  moreover have "Suc (Suc m) + k = Suc (Suc m + k)" by simp
  ultimately show "servo_loop (Suc (Suc m) + k) env fin step drive c s = servo_loop (Suc (Suc m)) env fin step drive c s"
    unfolding go_def by (simp only: servo_round)
qed

lemma reading_facts:
  assumes "servo_reading env cfg al target valid c s = (Inr i, t)"
  shows "rn_now s \<le> si_now i \<and> rn_now s \<le> rn_now t"
proof -
  have "rn_now s \<le> rn_now t"
    using clocked.staysD' [OF clocked.stays_reading assms] by simp
  moreover have "rn_now s \<le> rn_now (snd (rn_observe env s))"
    by (rule clocked.staysD [OF clocked.stays_observe])
  ultimately show ?thesis
    using assms
    by (auto simp: servo_reading_def bind_read split: if_splits dest!: bind_op_okD)
qed

lemma handle_tick_start: "sv_start (fst (handle_tick cfg i c)) = sv_start c"
  by (auto simp: handle_tick_def handle_to_error_def handle_tick_detect_def handle_tick_align_def
      Let_def split: prod.split)

lemma tool_tick_start: "sv_start (fst (tool_tick cfg i c)) = sv_start c"
  by (auto simp: tool_tick_def tool_to_error_def tool_tick_detect_def tool_tick_align_def
      Let_def split: prod.split)

lemma handle_step_facts:
  assumes "handle_step env cfg c s = (Inr (c', v), t)"
  shows "sv_start c' = sv_start c \<and> rn_now s \<le> rn_now t
    \<and> (sc_timeout cfg < rn_now s - sv_start c \<longrightarrow> sv_state c' = servo_state.ERROR)"
proof -
  obtain i where i: "servo_reading env cfg ALIGN_XZ rn_handle hp_valid c s = (Inr i, t)" "handle_tick cfg i c = (c', v)"
    using assms unfolding handle_step_def by (auto dest!: bind_op_okD)
  note facts = reading_facts [OF i(1)]
  have "sv_start c' = sv_start c" using handle_tick_start [of cfg i c] i(2) by simp
  moreover have "sv_state c' = servo_state.ERROR" if "sc_timeout cfg < rn_now s - sv_start c"
    using i(2) that facts by (auto simp: handle_tick_def handle_to_error_def split: if_splits)
  ultimately show ?thesis using facts by blast
qed

lemma tool_step_facts:
  assumes "tool_step env cfg c s = (Inr (c', v), t)"
  shows "sv_start c' = sv_start c \<and> rn_now s \<le> rn_now t
    \<and> (sc_timeout cfg < rn_now s - sv_start c \<longrightarrow> sv_state c' = servo_state.ERROR)"
proof -
  obtain i where i: "servo_reading env cfg ALIGN_XY latest_gripper_tool tp_valid c s = (Inr i, t)" "tool_tick cfg i c = (c', v)"
    using assms unfolding tool_step_def by (auto dest!: bind_op_okD)
  note facts = reading_facts [OF i(1)]
  have "sv_start c' = sv_start c" using tool_tick_start [of cfg i c] i(2) by simp
  moreover have "sv_state c' = servo_state.ERROR" if "sc_timeout cfg < rn_now s - sv_start c"
    using i(2) that facts by (auto simp: tool_tick_def tool_to_error_def split: if_splits)
  ultimately show ?thesis using facts by blast
qed

lemma vs_rounds_enough: "sc_timeout cfg < SERVO_DT * real (vs_rounds cfg - 2)"
proof -
  let ?x = "max 0 (sc_timeout cfg) / SERVO_DT"
  have pos: "0 < SERVO_DT" by (simp add: SERVO_DT_def)
  have "0 \<le> ?x" using pos by simp
  then have "?x < real (vs_rounds cfg - 2)" by (simp add: vs_rounds_def) linarith
  then have "max 0 (sc_timeout cfg) < SERVO_DT * real (vs_rounds cfg - 2)"
    using pos by (simp add: divide_less_eq mult.commute)
  then show ?thesis by simp
qed

text \<open>
  The servo loops of the runner end: started at the present time, \<open>vs_rounds\<close> rounds are
  enough, whatever the camera, the robot and the E-stop do; more rounds give the same result.
\<close>
theorem runner_servo_ends:
  "servo_loop (vs_rounds cfg + k) env handle_is_terminal (handle_step env cfg) (drive_handle env)
     (handle_servo_init (rn_now s)) s
   = servo_loop (vs_rounds cfg) env handle_is_terminal (handle_step env cfg) (drive_handle env)
     (handle_servo_init (rn_now s)) s
   \<and> servo_loop (vs_rounds cfg + k) env tool_is_terminal (tool_step env cfg) (drive_tool env)
     (tool_servo_init (rn_now s)) s
   = servo_loop (vs_rounds cfg) env tool_is_terminal (tool_step env cfg) (drive_tool env)
     (tool_servo_init (rn_now s)) s"
proof -
  obtain m where m: "vs_rounds cfg = Suc (Suc m)"
    unfolding vs_rounds_def by (metis add_Suc_right numeral_3_eq_3)
  then have l: "sc_timeout cfg < SERVO_DT * real m" using vs_rounds_enough [of cfg] by simp
  have "servo_loop (Suc (Suc m) + k) env handle_is_terminal (handle_step env cfg) (drive_handle env)
     (handle_servo_init (rn_now s)) s
   = servo_loop (Suc (Suc m)) env handle_is_terminal (handle_step env cfg) (drive_handle env)
     (handle_servo_init (rn_now s)) s"
    by (rule servo_loop_enough [OF _ handle_step_facts clocked.staysD [OF clocked.stays_drives(1)]])
      (use l in \<open>simp_all add: handle_is_terminal_def handle_servo_init_def\<close>)
  moreover have "servo_loop (Suc (Suc m) + k) env tool_is_terminal (tool_step env cfg) (drive_tool env)
     (tool_servo_init (rn_now s)) s
   = servo_loop (Suc (Suc m)) env tool_is_terminal (tool_step env cfg) (drive_tool env)
     (tool_servo_init (rn_now s)) s"
    by (rule servo_loop_enough [OF _ tool_step_facts clocked.staysD [OF clocked.stays_drives(2)]])
      (use l in \<open>simp_all add: tool_is_terminal_def tool_servo_init_def\<close>)
  ultimately show ?thesis unfolding m by blast
qed

section \<open>A run at a concrete input\<close>

text \<open>A socket fetch whose second request to the robot raises.\<close>

definition demo_cfg :: runner_cfg where
  "demo_cfg = \<lparr>rc_seq_name = ''socket_fetch'', rc_mode = ''real'', rc_tcp_name = ''GripperDA_v1'',
     rc_tool_id = ''hex'', rc_vel_l = VEL_L, rc_acc_l = ACC_L, rc_vel_r = VEL_R, rc_acc_r = ACC_R,
     rc_vel_j = VEL_J, rc_acc_j = ACC_J, rc_toolbox = default_toolbox\<rparr>"

definition demo_env :: runner_env where
  "demo_env = \<lparr>re_cfg = demo_cfg, re_events = (\<lambda>_. []), re_elapsed = (\<lambda>_. 0),
     re_fate = (\<lambda>n. if n < 6 then Holds 0 (Some (True, [])) else HoldsExc 0 (OtherErr ''lost'')),
     re_ready = (\<lambda>_ sv. sv = SetTcp), re_io = (\<lambda>_. working), re_clock = (\<lambda>_. clock_at 5),
     re_servo_yaml = None\<rparr>"

definition demo_start :: runner where
  "demo_start = runner_init (Some (client_new two_tools)) (snd (mock_connect (mock_init [] 9600))) 0"

lemma demo_gate:
  "fst (client_check_feasibility working (clock_at 5) ''fetch'' ''hex'' (client_new two_tools)) = Inr (True, [])"
  by code_simp

lemma demo_observe:
  "rn_observe demo_env s = (Inr (), s\<lparr>rn_tick := Suc (rn_tick s), rn_now := rn_now s\<rparr>)"
  by (simp add: rn_observe_def demo_env_def)

lemma demo_sequence: "resolve_sequence ''socket_fetch'' = Inr (Some socket_fetch_seq)"
  by (simp add: resolve_sequence_def)

lemma demo_cfg_simps:
  "rc_seq_name (re_cfg demo_env) = ''socket_fetch''" "rc_tool_id (re_cfg demo_env) = ''hex''"
  "rc_tcp_name (re_cfg demo_env) = ''GripperDA_v1''" "re_io demo_env n = working"
  "re_clock demo_env n = clock_at 5" "re_ready demo_env n sv = (sv = SetTcp)"
  "re_fate demo_env n = (if n < 6 then Holds 0 (Some (True, [])) else HoldsExc 0 (OtherErr ''lost''))"
  "rn_db demo_start = Some (client_new two_tools)" "rn_tick demo_start = 0" "\<not> rn_estop demo_start"
  "\<not> rn_prev_moving demo_start" "\<not> rn_done demo_start" "rn_outs demo_start = []"
  by (simp_all add: demo_env_def demo_cfg_def demo_start_def runner_init_def)

lemma await_done_now: "await_done n env (Some 0) s = (Inr False, s)"
  by (cases n) simp_all

lemma demo_step:
  assumes "5 \<le> rn_tick s"
  shows "runner_exec_step demo_env JOINT_HOME s
    = (Inl (OtherErr ''lost''), s\<lparr>rn_outs := rn_outs s
        @ [RnJoint (runner_joint_req (re_cfg demo_env) JOINT_HOME JOINT_HOME_DEG)], rn_tick := Suc (rn_tick s)\<rparr>)"
proof -
  have "kind JOINT_HOME = MOVE_J_ABS" "pose JOINT_HOME = Some JOINT_HOME_DEG"
    by (simp_all add: JOINT_HOME_def mj_abs_def bare_step_def)
  then show ?thesis
    using assms
    by (simp add: runner_exec_step_def runner_movej_def call_polled_def seq_op_def bind_op_def
        demo_observe demo_cfg_simps rn_emit_def await_done_now)
qed

lemma demo_run:
  "\<exists>j. rn_outs (snd (run_once demo_env demo_start))
     = rn_outs demo_start @ [RnMoving True, RnSetTcp ''GripperDA_v1'', j] \<and> is_motion j
   \<and> \<not> is_ok (fst (run_once demo_env demo_start))"
  by (simp add: run_once_def bind_gets seq_modify bind_read demo_observe demo_cfg_simps demo_sequence
      runner_tool_gate_def FETCH_SEQS_def RETURN_SEQS_def DRAWER_SEQS_def runner_drawer_gate_def with_db_def seq_op_def
      bind_op_def case_prod_beta demo_gate runner_start_sequence_def rn_emit_def runner_set_tcp_def
      catch_op_def call_once_def runner_run_sequence_def runner_run_step_def rn_read_def
      socket_fetch_seq_def demo_step)

lemma runner_moves_gated_witness:
  "\<exists>c n. rn_db demo_start = Some c \<and> gate_view (re_io demo_env n) (re_clock demo_env n)
     (py_strip ''hex'') (dc_repo c) = Some In_slot"
proof -
  obtain j where j: "rn_outs (snd (run_once demo_env demo_start))
     = rn_outs demo_start @ [RnMoving True, RnSetTcp ''GripperDA_v1'', j]" "is_motion j"
    using demo_run by blast
  have "j \<in> set [RnMoving True, RnSetTcp ''GripperDA_v1'', j]" by simp
  from runner_moves_gated [OF j(1) this j(2)] show ?thesis by (simp add: demo_cfg_simps)
qed


lemma runner_moving_flag_witness:
  "\<exists>j. rn_outs (snd (run_once demo_env demo_start)) = [RnMoving True, RnSetTcp ''GripperDA_v1'', j]
     \<and> (\<exists>pre post. RnMoving False \<notin> set post
           \<and> [RnMoving True, RnSetTcp ''GripperDA_v1'', j] = pre @ RnMoving True # post)"
proof -
  obtain j where j: "rn_outs (snd (run_once demo_env demo_start))
     = rn_outs demo_start @ [RnMoving True, RnSetTcp ''GripperDA_v1'', j]"
      "\<not> is_ok (fst (run_once demo_env demo_start))"
    using demo_run by blast
  have "RnMoving True \<in> set [RnMoving True, RnSetTcp ''GripperDA_v1'', j]" by simp
  from runner_moving_flag [OF j(1) this] j show ?thesis by (auto simp: demo_cfg_simps)
qed

end
