(* ===== verification/VisionGeometry.thy ===== *)
theory VisionGeometry imports Prelude begin

text \<open>
  The geometry the vision nodes share: \<open>vision/hand_eye_loader.py\<close> and the depth sampling and
  deprojection helpers of \<open>vision/pose_node.py\<close> and \<open>vision/hand_node.py\<close>.

  An array of three floats is a \<open>vec3\<close>, a depth image a height, a width and the \<open>uint16\<close>
  pixels in millimetres. numpy slices keep Python's rule for negative bounds: they count from the
  end. scipy's \<open>Rotation.from_quat(q).as_matrix()\<close> is the argument \<open>rot_of\<close>. Floats are reals, so the
  NaN that \<open>np.median\<close> returns for an empty selection (a configured minimum of zero valid pixels)
  is outside the model.
\<close>

section \<open>Vectors\<close>

datatype vec3 = V3 (vx: real) (vy: real) (vz: real)

definition vadd :: "vec3 \<Rightarrow> vec3 \<Rightarrow> vec3" where
  "vadd a b = V3 (vx a + vx b) (vy a + vy b) (vz a + vz b)"

definition vsub :: "vec3 \<Rightarrow> vec3 \<Rightarrow> vec3" where
  "vsub a b = V3 (vx a - vx b) (vy a - vy b) (vz a - vz b)"

definition vscale :: "real \<Rightarrow> vec3 \<Rightarrow> vec3" where
  "vscale k a = V3 (k * vx a) (k * vy a) (k * vz a)"

definition vdiv :: "vec3 \<Rightarrow> real \<Rightarrow> vec3" where
  "vdiv a k = V3 (vx a / k) (vy a / k) (vz a / k)"

definition vdot :: "vec3 \<Rightarrow> vec3 \<Rightarrow> real" where
  "vdot a b = vx a * vx b + vy a * vy b + vz a * vz b"

definition vcross :: "vec3 \<Rightarrow> vec3 \<Rightarrow> vec3" where
  "vcross a b = V3 (vy a * vz b - vz a * vy b) (vz a * vx b - vx a * vz b) (vx a * vy b - vy a * vx b)"

definition vnorm :: "vec3 \<Rightarrow> real" where
  "vnorm a = sqrt (vdot a a)"

lemmas vec_defs = vadd_def vsub_def vscale_def vdiv_def vdot_def vcross_def

lemma vec3_eq_iff: "a = b \<longleftrightarrow> vx a = vx b \<and> vy a = vy b \<and> vz a = vz b"
  by (cases a; cases b) simp

lemma vdot_self_nonneg [simp]: "0 \<le> vdot a a"
  by (simp add: vdot_def)

lemma vnorm_nonneg [simp]: "0 \<le> vnorm a"
  by (simp add: vnorm_def)

lemma vnorm_square: "vnorm a * vnorm a = vdot a a"
  by (simp add: vnorm_def)

lemma vnorm_zero_iff: "vnorm a = 0 \<longleftrightarrow> a = V3 0 0 0"
  by (cases a) (auto simp: vnorm_def vdot_def add_nonneg_eq_0_iff)

lemma vdot_commute: "vdot a b = vdot b a"
  by (simp add: vdot_def)

lemma vnorm_minus_self [simp]: "vnorm (vsub a a) = 0"
  by (simp add: vnorm_def vdot_def vsub_def)

section \<open>The hand-eye transform\<close>

type_synonym mat3 = "vec3 \<times> vec3 \<times> vec3"

text \<open>The rows of the upper 3 by 4 block of the homogeneous matrix; its last row is that of \<open>np.eye(4)\<close>.\<close>

record transform =
  tf_rot :: mat3
  tf_trans :: vec3

fun mat_vec :: "mat3 \<Rightarrow> vec3 \<Rightarrow> vec3" where
  "mat_vec (a, b, c) p = V3 (vdot a p) (vdot b p) (vdot c p)"

definition camera_to_base :: "vec3 \<Rightarrow> transform \<Rightarrow> vec3" where
  "camera_to_base p T = vadd (mat_vec (tf_rot T) p) (tf_trans T)"

datatype hand_eye_error = HandEyeNotCalibrated | FileNotFound | KeyError

text \<open>
  The parsed \<open>hand_eye.yaml\<close>. An absent \<open>metadata\<close> section, and an absent or null
  \<open>calibration_date\<close> in it, both read as no date.
\<close>

record hand_eye_yaml =
  he_calibration_date :: "string option"
  he_transformation :: "((real \<times> real \<times> real \<times> real) \<times> vec3) option"

definition load_transform ::
  "(real \<times> real \<times> real \<times> real \<Rightarrow> mat3) \<Rightarrow> hand_eye_yaml option \<Rightarrow> (hand_eye_error, transform) result" where
  "load_transform rot_of file =
     (case file of None \<Rightarrow> Inl FileNotFound
      | Some cfg \<Rightarrow>
         (if he_calibration_date cfg = None then Inl HandEyeNotCalibrated
          else (case he_transformation cfg of None \<Rightarrow> Inl KeyError
                | Some (q, t) \<Rightarrow> Inr \<lparr>tf_rot = rot_of q, tf_trans = t\<rparr>)))"

lemma load_transform_ok_iff:
  "load_transform rot_of file = Inr T \<longleftrightarrow>
     (\<exists>cfg d q t. file = Some cfg \<and> he_calibration_date cfg = Some d \<and>
        he_transformation cfg = Some (q, t) \<and> T = \<lparr>tf_rot = rot_of q, tf_trans = t\<rparr>)"
  by (auto simp: load_transform_def split: option.splits)

definition is_rotation :: "mat3 \<Rightarrow> bool" where
  "is_rotation R = (case R of (a, b, c) \<Rightarrow>
     vdot a a = 1 \<and> vdot b b = 1 \<and> vdot c c = 1 \<and> vdot a b = 0 \<and> vdot b c = 0 \<and> vcross a b = c)"

section \<open>Depth sampling\<close>

record depth_img =
  di_h :: nat
  di_w :: nat
  di_px :: "nat \<Rightarrow> nat \<Rightarrow> nat"

text \<open>\<open>int(x)\<close> truncates toward zero.\<close>

definition trunc :: "real \<Rightarrow> int" where
  "trunc x = (if 0 \<le> x then \<lfloor>x\<rfloor> else \<lceil>x\<rceil>)"

text \<open>The indices of \<open>a[i:j]\<close> along an axis of length n.\<close>

definition slice_bound :: "nat \<Rightarrow> int \<Rightarrow> nat" where
  "slice_bound n j = (if j < 0 then nat (int n + j) else min (nat j) n)"

definition slice :: "nat \<Rightarrow> int \<Rightarrow> int \<Rightarrow> nat list" where
  "slice n i j = [slice_bound n i ..< slice_bound n j]"

definition roi_px :: "depth_img \<Rightarrow> int \<Rightarrow> int \<Rightarrow> int \<Rightarrow> int \<Rightarrow> nat list" where
  "roi_px img y0 y1 x0 x1 =
     concat (map (\<lambda>r. map (di_px img r) (slice (di_w img) x0 x1)) (slice (di_h img) y0 y1))"

definition median :: "real list \<Rightarrow> real" where
  "median xs =
     (let ys = sort xs; n = length ys
      in if odd n then ys ! (n div 2) else (ys ! (n div 2 - 1) + ys ! (n div 2)) / 2)"

definition DEPTH_SCALE :: real where
  "DEPTH_SCALE = 1 / 1000"

definition median_depth :: "int \<Rightarrow> nat list \<Rightarrow> real option" where
  "median_depth min_valid roi =
     (let valid = filter (\<lambda>p. 0 < p) roi
      in if int (length valid) < min_valid then None
         else Some (median (map real valid) * DEPTH_SCALE))"

definition BBOX_INNER_RATIO :: real where
  "BBOX_INNER_RATIO = 1 / 2"

definition MIN_VALID_DEPTH_PX :: int where
  "MIN_VALID_DEPTH_PX = 10"

text \<open>\<open>pose_node._sample_depth\<close>: the inner half of a bounding box.\<close>

definition sample_depth_bbox :: "depth_img \<Rightarrow> real \<Rightarrow> real \<Rightarrow> real \<Rightarrow> real \<Rightarrow> real option" where
  "sample_depth_bbox img cx cy w h =
     (let iw = w * BBOX_INNER_RATIO / 2;
          ih = h * BBOX_INNER_RATIO / 2;
          x0 = max 0 (trunc (cx - iw));
          x1 = min (int (di_w img)) (trunc (cx + iw));
          y0 = max 0 (trunc (cy - ih));
          y1 = min (int (di_h img)) (trunc (cy + ih))
      in median_depth MIN_VALID_DEPTH_PX (roi_px img y0 y1 x0 x1))"

text \<open>\<open>hand_node._sample_depth\<close>: the square around a landmark.\<close>

definition sample_depth_mark :: "depth_img \<Rightarrow> int \<Rightarrow> int \<Rightarrow> int \<Rightarrow> int \<Rightarrow> real option" where
  "sample_depth_mark img u v radius min_valid =
     (let u0 = max 0 (u - radius);
          u1 = min (int (di_w img)) (u + radius + 1);
          v0 = max 0 (v - radius);
          v1 = min (int (di_h img)) (v + radius + 1)
      in median_depth min_valid (roi_px img v0 v1 u0 u1))"

record intrinsics =
  k_fx :: real
  k_fy :: real
  k_cx :: real
  k_cy :: real

definition deproject :: "real \<Rightarrow> real \<Rightarrow> real \<Rightarrow> intrinsics \<Rightarrow> vec3" where
  "deproject u v d K = V3 ((u - k_cx K) * d / k_fx K) ((v - k_cy K) * d / k_fy K) d"

section \<open>Python's \<open>max\<close> with a key and numpy's \<open>argmin\<close>\<close>

text \<open>Both return the first extremal element.\<close>

definition max_by :: "('a \<Rightarrow> real) \<Rightarrow> 'a \<Rightarrow> 'a list \<Rightarrow> 'a" where
  "max_by key x xs = foldl (\<lambda>b y. if key b < key y then y else b) x xs"

fun argmin :: "real list \<Rightarrow> nat" where
  "argmin [] = 0"
| "argmin (x # xs) =
     (if xs = [] then 0 else let k = argmin xs in if xs ! k < x then Suc k else 0)"

lemma max_by_in: "max_by key x xs \<in> set (x # xs)"
proof (induction xs arbitrary: x)
  case (Cons y ys)
  show ?case using Cons [of x] Cons [of y] by (auto simp: max_by_def)
qed (simp add: max_by_def)

lemma max_by_ge: "y \<in> set (x # xs) \<Longrightarrow> key y \<le> key (max_by key x xs)"
proof (induction xs arbitrary: x y)
  case (Cons z zs)
  have head: "\<And>b. key b \<le> key (max_by key b zs)" by (rule Cons.IH) simp
  have rest: "\<And>b. y \<in> set zs \<Longrightarrow> key y \<le> key (max_by key b zs)" by (rule Cons.IH) simp
  from Cons.prems head [of x] head [of z] rest show ?case
    by (auto simp: max_by_def)
qed (simp add: max_by_def)

lemma argmin_less: "xs \<noteq> [] \<Longrightarrow> argmin xs < length xs"
  by (induction xs) (auto simp: Let_def)

lemma argmin_le: "i < length xs \<Longrightarrow> xs ! argmin xs \<le> xs ! i"
proof (induction xs arbitrary: i)
  case (Cons x xs)
  show ?case
  proof (cases "xs = []")
    case False
    have low: "\<And>j. j < length xs \<Longrightarrow> xs ! argmin xs \<le> xs ! j" by (rule Cons.IH)
    show ?thesis
    proof (cases i)
      case 0
      then show ?thesis using False by (auto simp: Let_def)
    next
      case (Suc j)
      with Cons.prems have "xs ! argmin xs \<le> xs ! j" by (intro low) simp
      then show ?thesis using Suc False by (auto simp: Let_def)
    qed
  qed (use Cons.prems in simp)
qed simp

lemma argmin_unique:
  assumes "i < length xs" "\<And>j. j < length xs \<Longrightarrow> j \<noteq> i \<Longrightarrow> xs ! i < xs ! j"
  shows "argmin xs = i"
proof (rule ccontr)
  assume "argmin xs \<noteq> i"
  moreover have "argmin xs < length xs" using assms(1) by (intro argmin_less) auto
  ultimately have "xs ! i < xs ! argmin xs" by (intro assms(2))
  with argmin_le [OF assms(1)] show False by simp
qed

section \<open>What the depth samples are worth\<close>

lemma slice_bound_le [simp]: "slice_bound n j \<le> n"
  by (auto simp: slice_bound_def)

lemma slice_subset: "i \<in> set (slice n a b) \<Longrightarrow> i < n"
  using slice_bound_le [of n b] by (auto simp: slice_def simp del: slice_bound_le)

lemma slice_in_range:
  assumes "0 \<le> a" "0 \<le> b" "i \<in> set (slice n a b)"
  shows "a \<le> int i \<and> int i < b"
  using assms by (auto simp: slice_def slice_bound_def min_def split: if_splits)

text \<open>A negative end counts from the end of the axis: only that many are cut off.\<close>

lemma slice_negative_end: "0 < k \<Longrightarrow> slice n 0 (- int k) = [0 ..< n - k]"
  by (simp add: slice_def slice_bound_def nat_minus_as_int)

lemma roi_px_inside:
  "p \<in> set (roi_px img y0 y1 x0 x1) \<Longrightarrow> \<exists>r c. r < di_h img \<and> c < di_w img \<and> p = di_px img r c"
  by (auto simp: roi_px_def dest!: slice_subset)

lemma median_bounds:
  assumes "xs \<noteq> []" "\<And>x. x \<in> set xs \<Longrightarrow> lo \<le> x \<and> x \<le> hi"
  shows "lo \<le> median xs \<and> median xs \<le> hi"
proof -
  let ?ys = "sort xs" let ?k = "length xs div 2"
  have len: "0 < length xs" using assms(1) by simp
  have elem: "\<And>i. i < length xs \<Longrightarrow> lo \<le> ?ys ! i \<and> ?ys ! i \<le> hi"
    using assms(2) by (metis length_sort nth_mem set_sort)
  have "?k < length xs" "?k - 1 < length xs" using len by linarith+
  then have "lo \<le> ?ys ! ?k \<and> ?ys ! ?k \<le> hi" "lo \<le> ?ys ! (?k - 1) \<and> ?ys ! (?k - 1) \<le> hi"
    using elem by blast+
  then show ?thesis by (simp add: median_def Let_def field_simps)
qed

lemma median_depth_bounds:
  assumes "median_depth m roi = Some d" "1 \<le> m"
  shows "m \<le> int (length (filter (\<lambda>p. 0 < p) roi)) \<and>
    (\<exists>lo hi. lo \<in> set roi \<and> hi \<in> set roi \<and> 0 < lo \<and>
       real lo * DEPTH_SCALE \<le> d \<and> d \<le> real hi * DEPTH_SCALE)"
proof -
  let ?v = "filter (\<lambda>p. 0 < p) roi"
  have count: "m \<le> int (length ?v)" and d: "d = median (map real ?v) * DEPTH_SCALE"
    using assms(1) by (auto simp: median_depth_def Let_def split: if_splits)
  with assms(2) have some: "?v \<noteq> []" by auto
  have ends: "Min (set ?v) \<in> set ?v" "Max (set ?v) \<in> set ?v"
    using some by (metis List.finite_set Min_in set_empty, metis List.finite_set Max_in set_empty)
  have "real (Min (set ?v)) \<le> median (map real ?v) \<and> median (map real ?v) \<le> real (Max (set ?v))"
    using some by (intro median_bounds) (auto intro!: Min_le Max_ge)
  then have "real (Min (set ?v)) * DEPTH_SCALE \<le> d \<and> d \<le> real (Max (set ?v)) * DEPTH_SCALE"
    unfolding d DEPTH_SCALE_def by simp
  moreover have "Min (set ?v) \<in> set roi" "Max (set ?v) \<in> set roi" "0 < Min (set ?v)"
    using ends by (auto simp del: Min_gr_iff)
  ultimately show ?thesis using count by blast
qed

lemma median_depth_positive:
  assumes "median_depth m roi = Some d" "1 \<le> m" shows "0 < d"
proof -
  obtain lo where "0 < (lo::nat)" "real lo * DEPTH_SCALE \<le> d"
    using median_depth_bounds [OF assms] by blast
  moreover have "0 < real lo * DEPTH_SCALE" using \<open>0 < lo\<close> by (simp add: DEPTH_SCALE_def)
  ultimately show ?thesis by linarith
qed

lemma sample_bbox_positive: "sample_depth_bbox img cx cy w h = Some d \<Longrightarrow> 0 < d"
  unfolding sample_depth_bbox_def Let_def
  by (erule median_depth_positive) (simp add: MIN_VALID_DEPTH_PX_def)

lemma sample_mark_positive: "sample_depth_mark img u v r m = Some d \<Longrightarrow> 1 \<le> m \<Longrightarrow> 0 < d"
  unfolding sample_depth_mark_def Let_def by (erule median_depth_positive)

text \<open>
  A landmark more than a radius to the left of the image makes the end of the slice negative, and
  the sample is taken over almost the whole rows instead of being refused.
\<close>

lemma mark_outside_samples_rows:
  assumes "u + radius + 1 = - int k" "0 < k" "0 \<le> radius"
  shows "sample_depth_mark img u v radius m =
    median_depth m (concat (map (\<lambda>r. map (di_px img r) [0 ..< di_w img - k])
      (slice (di_h img) (max 0 (v - radius)) (min (int (di_h img)) (v + radius + 1)))))"
proof -
  have "max 0 (u - radius) = 0" "min (int (di_w img)) (u + radius + 1) = - int k"
    using assms by auto
  then show ?thesis
    using assms(2) by (simp add: sample_depth_mark_def Let_def roi_px_def slice_negative_end)
qed

lemma deproject_depth [simp]: "vz (deproject u v d K) = d"
  by (simp add: deproject_def)

lemma deproject_projects:
  assumes "k_fx K \<noteq> 0" "k_fy K \<noteq> 0" "d \<noteq> 0"
  shows "k_fx K * vx (deproject u v d K) / vz (deproject u v d K) + k_cx K = u"
    and "k_fy K * vy (deproject u v d K) / vz (deproject u v d K) + k_cy K = v"
  using assms by (simp_all add: deproject_def)

end
