(* ===== verification/PoseNode.thy ===== *)
theory PoseNode imports VisionGeometry begin

text \<open>
  \<open>vision/pose_node.py\<close>: from bounding boxes and an aligned depth image to tool poses.

  A message header is shared by reference, so setting \<open>frame_id\<close> on the outgoing array also sets it
  on the header the detections carry; all of them get the same frame here. \<open>results[0]\<close> of a
  detection without results raises IndexError, the value \<open>None\<close>.
\<close>

record msg_header =
  hd_stamp :: real
  hd_frame :: string

record det2d =
  d2_results :: "(string \<times> real) list"
  d2_cx :: real
  d2_cy :: real
  d2_w :: real
  d2_h :: real

record hypothesis =
  hy_class :: string
  hy_score :: real
  hy_pos :: vec3

record det3d =
  d3_header :: msg_header
  d3_results :: "hypothesis list"
  d3_center :: vec3
  d3_size :: vec3

datatype pose_out =
    ToolPoses msg_header "det3d list"
  | ToolTop msg_header vec3

record pose_node =
  pn_K :: intrinsics
  pn_T :: "transform option"

text \<open>Any other exception of the loader ends the constructor.\<close>

definition try_load_hand_eye :: "(hand_eye_error, transform) result \<Rightarrow> (hand_eye_error, transform option) result" where
  "try_load_hand_eye r =
     (case r of Inr T \<Rightarrow> Inr (Some T)
      | Inl HandEyeNotCalibrated \<Rightarrow> Inr None
      | Inl FileNotFound \<Rightarrow> Inr None
      | Inl KeyError \<Rightarrow> Inl KeyError)"

definition pose_frame :: "pose_node \<Rightarrow> string" where
  "pose_frame s = (if pn_T s = None then ''camera_optical_frame'' else ''base_link'')"

definition build_detection3d ::
  "intrinsics \<Rightarrow> msg_header \<Rightarrow> string \<Rightarrow> real \<Rightarrow> vec3 \<Rightarrow> real \<Rightarrow> real \<Rightarrow> real \<Rightarrow> det3d" where
  "build_detection3d K hdr tool_id score pos bw bh depth_m =
     \<lparr>d3_header = hdr,
      d3_results = [\<lparr>hy_class = tool_id, hy_score = score, hy_pos = pos\<rparr>],
      d3_center = pos,
      d3_size = V3 (bw * depth_m / k_fx K) (bh * depth_m / k_fy K) (5 / 100)\<rparr>"

definition to_base :: "pose_node \<Rightarrow> vec3 \<Rightarrow> vec3" where
  "to_base s p = (case pn_T s of None \<Rightarrow> p | Some T \<Rightarrow> camera_to_base p T)"

text \<open>One round of the loop: \<open>Some None\<close> when the depth sample fails and the detection is skipped.\<close>

definition pose_detection :: "pose_node \<Rightarrow> msg_header \<Rightarrow> depth_img \<Rightarrow> det2d \<Rightarrow> det3d option option" where
  "pose_detection s hdr img det =
     (case d2_results det of [] \<Rightarrow> None
      | (tool_id, score) # _ \<Rightarrow>
          Some (case sample_depth_bbox img (d2_cx det) (d2_cy det) (d2_w det) (d2_h det) of
                  None \<Rightarrow> None
                | Some depth_m \<Rightarrow>
                    let point_cam = deproject (d2_cx det) (d2_cy det) depth_m (pn_K s);
                        point_base = to_base s point_cam
                    in Some (build_detection3d (pn_K s) hdr tool_id score point_base
                              (d2_w det) (d2_h det) depth_m)))"

fun pose_loop :: "pose_node \<Rightarrow> msg_header \<Rightarrow> depth_img \<Rightarrow> det2d list \<Rightarrow> det3d list option" where
  "pose_loop s hdr img [] = Some []"
| "pose_loop s hdr img (det # dets) =
     (case pose_detection s hdr img det of None \<Rightarrow> None
      | Some r \<Rightarrow>
         (case pose_loop s hdr img dets of None \<Rightarrow> None
          | Some ds \<Rightarrow> Some (case r of None \<Rightarrow> ds | Some d \<Rightarrow> d # ds)))"

definition det3d_hyp :: "det3d \<Rightarrow> hypothesis option" where
  "det3d_hyp d = (case d3_results d of [] \<Rightarrow> None | h # _ \<Rightarrow> Some h)"

definition det3d_score :: "det3d \<Rightarrow> real" where
  "det3d_score d = hy_score (hd (d3_results d))"

definition publish_tool_top_pose :: "msg_header \<Rightarrow> det3d list \<Rightarrow> pose_out list" where
  "publish_tool_top_pose hdr ds =
     (case ds of [] \<Rightarrow> []
      | d # rest \<Rightarrow> [ToolTop hdr (hy_pos (hd (d3_results (max_by det3d_score d rest))))])"

definition on_detections_depth ::
  "pose_node \<Rightarrow> msg_header \<Rightarrow> det2d list \<Rightarrow> depth_img \<Rightarrow> pose_out list option" where
  "on_detections_depth s hdr dets img =
     (let hdr = hdr\<lparr>hd_frame := pose_frame s\<rparr>
      in case pose_loop s hdr img dets of None \<Rightarrow> None
         | Some ds \<Rightarrow> Some (ToolPoses hdr ds # publish_tool_top_pose hdr ds))"

section \<open>What is published\<close>

lemma pose_detection_some:
  assumes "pose_detection s hdr img det = Some (Some d)"
  obtains cls score rest depth_m where
    "d2_results det = (cls, score) # rest"
    "sample_depth_bbox img (d2_cx det) (d2_cy det) (d2_w det) (d2_h det) = Some depth_m"
    "d = build_detection3d (pn_K s) hdr cls score
           (to_base s (deproject (d2_cx det) (d2_cy det) depth_m (pn_K s))) (d2_w det) (d2_h det) depth_m"
  using assms by (auto simp: pose_detection_def Let_def split: list.splits option.splits)

lemma pose_loop_filter:
  "pose_loop s hdr img dets = Some ds \<Longrightarrow>
     ds = List.map_filter (\<lambda>det. case pose_detection s hdr img det of None \<Rightarrow> None | Some r \<Rightarrow> r) dets"
  by (induction dets arbitrary: ds)
     (auto simp: map_filter_simps split: option.splits)

lemma pose_loop_elem:
  assumes "pose_loop s hdr img dets = Some ds" "d \<in> set ds"
  shows "\<exists>det \<in> set dets. pose_detection s hdr img det = Some (Some d)"
  using assms
  by (induction dets arbitrary: ds) (fastforce split: option.splits)+

lemma pose_loop_none_iff:
  "pose_loop s hdr img dets = None \<longleftrightarrow> (\<exists>det \<in> set dets. d2_results det = [])"
  by (induction dets) (auto simp: pose_detection_def split: option.splits list.splits)

text \<open>A published pose and the detection it was computed from.\<close>

definition seen_at :: "pose_node \<Rightarrow> depth_img \<Rightarrow> det2d \<Rightarrow> det3d \<Rightarrow> bool" where
  "seen_at s img det d \<longleftrightarrow>
     (\<exists>cls score rest depth_m r c r' c'.
        d2_results det = (cls, score) # rest \<and>
        r < di_h img \<and> c < di_w img \<and> r' < di_h img \<and> c' < di_w img \<and>
        0 < di_px img r c \<and> real (di_px img r c) * DEPTH_SCALE \<le> depth_m \<and>
        depth_m \<le> real (di_px img r' c') * DEPTH_SCALE \<and>
        d3_results d = [\<lparr>hy_class = cls, hy_score = score, hy_pos = d3_center d\<rparr>] \<and>
        d3_center d = to_base s (deproject (d2_cx det) (d2_cy det) depth_m (pn_K s)))"

lemma pose_detection_seen:
  assumes "pose_detection s hdr img det = Some (Some d)"
  shows "seen_at s img det d"
proof -
  obtain cls score rest depth_m where res: "d2_results det = (cls, score) # rest"
    and smp: "sample_depth_bbox img (d2_cx det) (d2_cy det) (d2_w det) (d2_h det) = Some depth_m"
    and d: "d = build_detection3d (pn_K s) hdr cls score
           (to_base s (deproject (d2_cx det) (d2_cy det) depth_m (pn_K s))) (d2_w det) (d2_h det) depth_m"
    using assms by (rule pose_detection_some)
  obtain y0 y1 x0 x1 where "median_depth MIN_VALID_DEPTH_PX (roi_px img y0 y1 x0 x1) = Some depth_m"
    using smp unfolding sample_depth_bbox_def Let_def by blast
  from median_depth_bounds [OF this] obtain lo hi where
    "lo \<in> set (roi_px img y0 y1 x0 x1)" "hi \<in> set (roi_px img y0 y1 x0 x1)" "0 < lo"
    "real lo * DEPTH_SCALE \<le> depth_m" "depth_m \<le> real hi * DEPTH_SCALE"
    by (auto simp: MIN_VALID_DEPTH_PX_def)
  moreover obtain r c where "r < di_h img" "c < di_w img" "lo = di_px img r c"
    using roi_px_inside calculation(1) by blast
  moreover obtain r' c' where "r' < di_h img" "c' < di_w img" "hi = di_px img r' c'"
    using roi_px_inside calculation(2) by blast
  ultimately show ?thesis
    unfolding seen_at_def d build_detection3d_def
    using res by (intro exI [of _ cls] exI [of _ score] exI [of _ rest] exI [of _ depth_m]
      exI [of _ r] exI [of _ c] exI [of _ r'] exI [of _ c']) simp
qed

lemma tool_top_cases:
  "publish_tool_top_pose hdr ds =
     (if ds = [] then [] else [ToolTop hdr (hy_pos (hd (d3_results (max_by det3d_score (hd ds) (tl ds)))))])"
  by (cases ds) (simp_all add: publish_tool_top_pose_def)

text \<open>
  Every pose the node publishes comes from a detection of the message whose
  depth lies between two valid pixels of the image, at the deprojected box centre taken to the
  announced frame; the tool-top pose is one of highest score, and is not sent when nothing was located.
\<close>
theorem pose_published:
  assumes "on_detections_depth s hdr dets img = Some outs"
  shows "\<exists>h ds tops. outs = ToolPoses h ds # tops \<and> hd_frame h = pose_frame s \<and>
    (\<forall>d \<in> set ds. \<exists>det \<in> set dets. seen_at s img det d) \<and>
    (if ds = [] then tops = []
     else \<exists>best \<in> set ds. tops = [ToolTop h (d3_center best)] \<and>
       (\<forall>d \<in> set ds. det3d_score d \<le> det3d_score best))"
proof -
  let ?h = "hdr\<lparr>hd_frame := pose_frame s\<rparr>"
  obtain ds where ds: "pose_loop s ?h img dets = Some ds"
    and outs: "outs = ToolPoses ?h ds # publish_tool_top_pose ?h ds"
    using assms by (auto simp: on_detections_depth_def Let_def split: option.splits)
  have seen: "\<forall>d \<in> set ds. \<exists>det \<in> set dets. seen_at s img det d"
    using pose_loop_elem [OF ds] pose_detection_seen by blast
  show ?thesis
  proof (cases "ds = []")
    case True
    then show ?thesis using outs seen by (auto simp: publish_tool_top_pose_def)
  next
    case False
    let ?best = "max_by det3d_score (hd ds) (tl ds)"
    have list: "hd ds # tl ds = ds" using False by simp
    have best: "?best \<in> set ds" "\<forall>d \<in> set ds. det3d_score d \<le> det3d_score ?best"
      using max_by_in [of det3d_score "hd ds" "tl ds"] max_by_ge [of _ "hd ds" "tl ds" det3d_score]
      unfolding list by auto
    then have "hy_pos (hd (d3_results ?best)) = d3_center ?best"
      using seen by (auto simp: seen_at_def)
    then show ?thesis using outs seen best False by (auto simp: tool_top_cases)
  qed
qed

definition demo_node :: pose_node where
  "demo_node = \<lparr>pn_K = \<lparr>k_fx = 600, k_fy = 600, k_cx = 10, k_cy = 10\<rparr>, pn_T = None\<rparr>"

definition demo_box :: det2d where
  "demo_box = \<lparr>d2_results = [(''spanner_16mm'', 9 / 10)], d2_cx = 10, d2_cy = 10, d2_w = 16, d2_h = 16\<rparr>"

definition demo_depth :: depth_img where
  "demo_depth = \<lparr>di_h = 20, di_w = 20, di_px = (\<lambda>r c. 500)\<rparr>"

lemma demo_sample: "sample_depth_bbox demo_depth 10 10 16 16 = Some (1 / 2)"
proof -
  have "roi_px demo_depth 6 14 6 14 = replicate 64 500"
    by (simp add: roi_px_def demo_depth_def slice_def slice_bound_def upt_conv_Cons numeral_eq_Suc)
  moreover have "sort (replicate 64 (500::real)) = replicate 64 500"
    by (intro sorted_sort_id) (simp add: sorted_replicate)
  ultimately show ?thesis
    by (simp add: sample_depth_bbox_def Let_def BBOX_INNER_RATIO_def trunc_def demo_depth_def
      median_depth_def median_def MIN_VALID_DEPTH_PX_def DEPTH_SCALE_def)
qed

theorem pose_published_witness:
  "\<exists>outs. on_detections_depth demo_node \<lparr>hd_stamp = 0, hd_frame = ''''\<rparr> [demo_box] demo_depth = Some outs \<and>
     (\<exists>h d. outs = [ToolPoses h [d], ToolTop h (d3_center d)] \<and> vz (d3_center d) = 1 / 2)"
proof -
  let ?run = "on_detections_depth demo_node \<lparr>hd_stamp = 0, hd_frame = ''''\<rparr> [demo_box] demo_depth"
  have res: "\<exists>h d. ?run = Some (ToolPoses h [d] # publish_tool_top_pose h [d]) \<and> vz (d3_center d) = 1 / 2"
    using demo_sample
    by (simp add: on_detections_depth_def Let_def pose_detection_def demo_box_def demo_node_def
      to_base_def build_detection3d_def)
  then obtain h d where run: "?run = Some (ToolPoses h [d] # publish_tool_top_pose h [d])"
    and z: "vz (d3_center d) = 1 / 2" by blast
  from pose_published [OF run] z run show ?thesis by auto
qed

end
