(* ===== verification/Tracker.thy ===== *)
theory Tracker imports PoseNode begin

text \<open>
  \<open>vision/tracker_node.py\<close>: the class-aware tracker between the pose node and the scene context.

  The tracks are a dictionary from tool to list in insertion order. The code writes the smoothed
  position into the stored detection when it publishes it; since that detection is only read
  after such a write, the write is part of \<open>smooth_det\<close> here (\<open>smooth_det_again\<close>).
\<close>

section \<open>The node\<close>

record tool_track =
  tk_tool :: string
  tk_pos :: vec3
  tk_score :: real
  tk_hits :: int
  tk_misses :: int
  tk_confirmed :: bool
  tk_det :: "det3d option"

record tracker_cfg =
  tc_min_hits :: int
  tc_max_misses :: int
  tc_max_dist :: real
  tc_alpha :: real

type_synonym tracks = "(string \<times> tool_track list) list"

definition track_update :: "vec3 \<Rightarrow> real \<Rightarrow> real \<Rightarrow> det3d \<Rightarrow> tool_track \<Rightarrow> tool_track" where
  "track_update pos score alpha det t =
     t\<lparr>tk_pos := vadd (vscale alpha pos) (vscale (1 - alpha) (tk_pos t)),
       tk_score := score, tk_hits := tk_hits t + 1, tk_misses := 0, tk_det := Some det\<rparr>"

definition mark_missed :: "tool_track \<Rightarrow> tool_track" where
  "mark_missed t = t\<lparr>tk_misses := tk_misses t + 1, tk_hits := 0\<rparr>"

definition new_track :: "string \<Rightarrow> vec3 \<Rightarrow> real \<Rightarrow> det3d \<Rightarrow> tool_track" where
  "new_track tool pos score det =
     \<lparr>tk_tool = tool, tk_pos = pos, tk_score = score, tk_hits = 1, tk_misses = 0,
      tk_confirmed = False, tk_det = Some det\<rparr>"

definition find_closest :: "tool_track list \<Rightarrow> vec3 \<Rightarrow> (nat \<times> real) option" where
  "find_closest ts pos =
     (if ts = [] then None
      else let dists = map (\<lambda>t. vnorm (vsub (tk_pos t) pos)) ts;
               idx = argmin dists
           in Some (idx, dists ! idx))"

definition confirm :: "tracker_cfg \<Rightarrow> tool_track \<Rightarrow> tool_track" where
  "confirm cfg t =
     (if \<not> tk_confirmed t \<and> tc_min_hits cfg \<le> tk_hits t then t\<lparr>tk_confirmed := True\<rparr> else t)"

text \<open>The loop body on the track list of the detection's tool, with the indices matched so far.\<close>

definition match_track ::
  "tracker_cfg \<Rightarrow> string \<Rightarrow> real \<Rightarrow> det3d \<Rightarrow> tool_track list \<times> nat set \<Rightarrow> tool_track list \<times> nat set" where
  "match_track cfg tool score det st =
     (let ts = fst st; matched = snd st; pos = d3_center det;
          fresh = (ts @ [new_track tool pos score det], insert (length ts) matched)
      in case find_closest ts pos of
           None \<Rightarrow> fresh
         | Some (i, gap) \<Rightarrow>
             if gap < tc_max_dist cfg
             then (ts[i := confirm cfg (track_update pos score (tc_alpha cfg) det (ts ! i))], insert i matched)
             else fresh)"

definition tracks_of :: "tracks \<Rightarrow> string \<Rightarrow> tool_track list" where
  "tracks_of d tool = (case map_of d tool of None \<Rightarrow> [] | Some ts \<Rightarrow> ts)"

type_synonym matches = "string \<Rightarrow> nat set"

definition track_detection ::
  "tracker_cfg \<Rightarrow> det3d \<Rightarrow> tracks \<times> matches \<Rightarrow> (tracks \<times> matches) option" where
  "track_detection cfg det st =
     (case det3d_hyp det of None \<Rightarrow> None
      | Some h \<Rightarrow>
          (let tool = hy_class h;
               r = match_track cfg tool (hy_score h) det (tracks_of (fst st) tool, snd st tool)
           in Some (dict_set tool (fst r) (fst st), (snd st)(tool := snd r))))"

fun track_loop :: "tracker_cfg \<Rightarrow> det3d list \<Rightarrow> tracks \<times> matches \<Rightarrow> (tracks \<times> matches) option" where
  "track_loop cfg [] st = Some st"
| "track_loop cfg (det # dets) st =
     (case track_detection cfg det st of None \<Rightarrow> None | Some st' \<Rightarrow> track_loop cfg dets st')"

definition miss_unmatched :: "nat set \<Rightarrow> tool_track list \<Rightarrow> tool_track list" where
  "miss_unmatched matched ts =
     map (\<lambda>(i, t). if i \<in> matched then t else mark_missed t) (enumerate 0 ts)"

definition drop_lost :: "tracker_cfg \<Rightarrow> tool_track list \<Rightarrow> tool_track list" where
  "drop_lost cfg ts = filter (\<lambda>t. tk_misses t \<le> tc_max_misses cfg) ts"

definition age_tracks :: "tracker_cfg \<Rightarrow> matches \<Rightarrow> tracks \<Rightarrow> tracks" where
  "age_tracks cfg matched d =
     filter (\<lambda>(tool, ts). ts \<noteq> [])
       (map (\<lambda>(tool, ts). (tool, drop_lost cfg (miss_unmatched (matched tool) ts))) d)"

definition smooth_det :: "tool_track \<Rightarrow> det3d \<Rightarrow> det3d" where
  "smooth_det t det =
     det\<lparr>d3_center := tk_pos t,
         d3_results := (case d3_results det of [] \<Rightarrow> []
           | h # hs \<Rightarrow> h\<lparr>hy_pos := tk_pos t, hy_score := tk_score t\<rparr> # hs)\<rparr>"

definition track_out :: "tool_track \<Rightarrow> det3d option" where
  "track_out t =
     (if tk_confirmed t then (case tk_det t of None \<Rightarrow> None | Some det \<Rightarrow> Some (smooth_det t det)) else None)"

definition tracker_out :: "tracks \<Rightarrow> det3d list" where
  "tracker_out d = List.map_filter track_out (concat (map snd d))"

definition on_poses :: "tracker_cfg \<Rightarrow> det3d list \<Rightarrow> tracks \<Rightarrow> (tracks \<times> det3d list) option" where
  "on_poses cfg dets d =
     (case track_loop cfg dets (d, \<lambda>tool. {}) of None \<Rightarrow> None
      | Some (d', matched) \<Rightarrow>
          (let d'' = age_tracks cfg matched d' in Some (d'', tracker_out d'')))"

text \<open>The messages of a run, with what each of them made the node publish.\<close>

fun tracker_run :: "tracker_cfg \<Rightarrow> det3d list list \<Rightarrow> tracks \<Rightarrow> (tracks \<times> det3d list list) option" where
  "tracker_run cfg [] d = Some (d, [])"
| "tracker_run cfg (f # fs) d =
     (case on_poses cfg f d of None \<Rightarrow> None
      | Some (d', out) \<Rightarrow>
         (case tracker_run cfg fs d' of None \<Rightarrow> None | Some (d'', outs) \<Rightarrow> Some (d'', out # outs)))"

lemma smooth_det_again: "smooth_det t (smooth_det u det) = smooth_det t det"
  by (simp add: smooth_det_def split: list.splits)

section \<open>One tool at a time\<close>

text \<open>
  The specification: a tracker for a single tool, which knows nothing of the dictionary. Every
  tool's tracks evolve as if the others were not there.
\<close>

definition is_of :: "string \<Rightarrow> det3d \<Rightarrow> bool" where
  "is_of tool det \<longleftrightarrow> (\<exists>h. det3d_hyp det = Some h \<and> hy_class h = tool)"

definition the_score :: "det3d \<Rightarrow> real" where
  "the_score det = (case det3d_hyp det of None \<Rightarrow> 0 | Some h \<Rightarrow> hy_score h)"

definition one_tool :: "tracker_cfg \<Rightarrow> string \<Rightarrow> det3d list \<Rightarrow> tool_track list \<Rightarrow> tool_track list" where
  "one_tool cfg tool dets ts =
     (let r = fold (\<lambda>det. match_track cfg tool (the_score det) det) dets (ts, {})
      in drop_lost cfg (miss_unmatched (snd r) (fst r)))"

lemma tracks_of_dict_set [simp]:
  "tracks_of (dict_set k ts d) tool = (if tool = k then ts else tracks_of d tool)"
  by (simp add: tracks_of_def)

lemma track_loop_one_tool:
  "track_loop cfg dets (d, m) = Some (d', m') \<Longrightarrow>
     (tracks_of d' tool, m' tool) =
     fold (\<lambda>det. match_track cfg tool (the_score det) det) (filter (is_of tool) dets) (tracks_of d tool, m tool)"
proof (induction dets arbitrary: d m)
  case (Cons det dets)
  obtain h where h: "det3d_hyp det = Some h"
    using Cons.prems by (auto simp: track_detection_def split: option.splits)
  let ?r = "match_track cfg (hy_class h) (hy_score h) det (tracks_of d (hy_class h), m (hy_class h))"
  have "track_loop cfg dets (dict_set (hy_class h) (fst ?r) d, m(hy_class h := snd ?r)) = Some (d', m')"
    using Cons.prems h by (simp add: track_detection_def Let_def)
  from Cons.IH [OF this] show ?case
    using h by (auto simp: is_of_def the_score_def)
qed simp

lemma track_loop_keys:
  "track_loop cfg dets (d, m) = Some (d', m') \<Longrightarrow> distinct (map fst d) \<Longrightarrow> distinct (map fst d')"
proof (induction dets arbitrary: d m)
  case (Cons det dets)
  then obtain k ts m2 where "track_loop cfg dets (dict_set k ts d, m2) = Some (d', m')"
    by (auto simp: track_detection_def Let_def split: option.splits)
  then show ?case
    by (rule Cons.IH) (use Cons.prems(2) in \<open>auto simp: keys_dict_set\<close>)
qed simp

lemma age_tracks_subset: "fst ` set (age_tracks cfg m d) \<subseteq> fst ` set d"
  by (force simp: age_tracks_def)

lemma age_tracks_Cons:
  "age_tracks cfg m ((k, ts) # d) =
     (let ts' = drop_lost cfg (miss_unmatched (m k) ts)
      in if ts' = [] then age_tracks cfg m d else (k, ts') # age_tracks cfg m d)"
  by (simp add: age_tracks_def Let_def)

lemma age_tracks_keys: "distinct (map fst d) \<Longrightarrow> distinct (map fst (age_tracks cfg m d))"
proof (induction d)
  case (Cons p d)
  with age_tracks_subset [of cfg m d] show ?case
    by (cases p) (auto simp: age_tracks_Cons Let_def)
qed (simp add: age_tracks_def)

lemma tracks_of_age:
  "distinct (map fst d) \<Longrightarrow> tracks_of (age_tracks cfg m d) tool = drop_lost cfg (miss_unmatched (m tool) (tracks_of d tool))"
proof (induction d)
  case Nil
  show ?case by (simp add: tracks_of_def age_tracks_def miss_unmatched_def drop_lost_def)
next
  case (Cons p d)
  obtain k ts where p: "p = (k, ts)" by (cases p)
  have rest: "map_of (age_tracks cfg m d) k = None"
    using Cons.prems age_tracks_subset [of cfg m d] by (auto simp: p map_of_eq_None_iff)
  show ?case
  proof (cases "tool = k")
    case True
    with rest show ?thesis
      by (auto simp: p age_tracks_Cons tracks_of_def Let_def)
  next
    case False
    then have "tracks_of (age_tracks cfg m (p # d)) tool = tracks_of (age_tracks cfg m d) tool"
      by (simp add: p age_tracks_Cons tracks_of_def Let_def)
    with False Cons show ?thesis by (simp add: p tracks_of_def)
  qed
qed

lemma on_poses_cases:
  assumes "on_poses cfg dets d = Some (d', out)"
  obtains e m where "track_loop cfg dets (d, \<lambda>tool. {}) = Some (e, m)"
    "d' = age_tracks cfg m e" "out = tracker_out d'"
  using assms by (auto simp: on_poses_def Let_def split: option.splits)

lemma on_poses_keys: "on_poses cfg dets d = Some (d', out) \<Longrightarrow> distinct (map fst d) \<Longrightarrow> distinct (map fst d')"
  by (erule on_poses_cases) (simp add: age_tracks_keys track_loop_keys)

lemma on_poses_one_tool:
  assumes "on_poses cfg dets d = Some (d', out)" "distinct (map fst d)"
  shows "tracks_of d' tool = one_tool cfg tool (filter (is_of tool) dets) (tracks_of d tool)"
proof -
  obtain e m where loop: "track_loop cfg dets (d, \<lambda>tool. {}) = Some (e, m)" and d': "d' = age_tracks cfg m e"
    using assms(1) by (rule on_poses_cases)
  have "distinct (map fst e)" using loop assms(2) by (rule track_loop_keys)
  then show ?thesis
    using track_loop_one_tool [OF loop, of tool]
    by (simp add: d' tracks_of_age one_tool_def Let_def flip: fst_conv snd_conv)
       (metis fst_conv snd_conv)
qed

section \<open>Properties of single tracks\<close>

lemma find_closest_some:
  assumes "find_closest ts pos = Some (i, gap)"
  shows "i < length ts" "gap = vnorm (vsub (tk_pos (ts ! i)) pos)"
proof -
  let ?ds = "map (\<lambda>t. vnorm (vsub (tk_pos t) pos)) ts"
  have "i = argmin ?ds" "gap = ?ds ! argmin ?ds" "ts \<noteq> []"
    using assms by (auto simp: find_closest_def Let_def split: if_splits)
  moreover have "argmin ?ds < length ?ds" using \<open>ts \<noteq> []\<close> by (intro argmin_less) simp
  ultimately show "i < length ts" "gap = vnorm (vsub (tk_pos (ts ! i)) pos)" by simp_all
qed

text \<open>
  What a new track has, a matched detection keeps and a miss keeps, every track of every tool has,
  as long as the detections are admissible.
\<close>

locale track_property =
  fixes cfg :: tracker_cfg
    and P :: "string \<Rightarrow> tool_track \<Rightarrow> bool"
    and Q :: "det3d \<Rightarrow> bool"
  assumes new: "\<And>tool det. is_of tool det \<Longrightarrow> Q det \<Longrightarrow> P tool (new_track tool (d3_center det) (the_score det) det)"
    and hit: "\<And>tool det t. is_of tool det \<Longrightarrow> Q det \<Longrightarrow> P tool t \<Longrightarrow>
      P tool (confirm cfg (track_update (d3_center det) (the_score det) (tc_alpha cfg) det t))"
    and miss: "\<And>tool t. P tool t \<Longrightarrow> P tool (mark_missed t)"
begin

lemma match:
  assumes "\<forall>t \<in> set (fst st). P tool t" "is_of tool det" "Q det"
  shows "\<forall>t \<in> set (fst (match_track cfg tool (the_score det) det st)). P tool t"
proof (cases "find_closest (fst st) (d3_center det)")
  case (Some q)
  obtain i gap where q: "q = (i, gap)" by (cases q)
  have "i < length (fst st)"
    using Some find_closest_some by (simp add: q)
  then have "P tool (fst st ! i)" using assms(1) by simp
  then show ?thesis
    using assms Some new hit
    by (auto simp: match_track_def Let_def q dest!: set_update_subset_insert [THEN subsetD])
qed (use assms new in \<open>auto simp: match_track_def Let_def\<close>)

lemma matches:
  assumes "\<forall>t \<in> set (fst st). P tool t" "\<forall>det \<in> set dets. is_of tool det \<and> Q det"
  shows "\<forall>t \<in> set (fst (fold (\<lambda>det. match_track cfg tool (the_score det) det) dets st)). P tool t"
  using assms
proof (induction dets arbitrary: st)
  case (Cons det dets)
  have "\<forall>t \<in> set (fst (match_track cfg tool (the_score det) det st)). P tool t"
    by (rule match) (use Cons.prems in auto)
  from Cons.IH [OF this] Cons.prems(2) show ?case by simp
qed simp

lemma missed: "\<forall>t \<in> set ts. P tool t \<Longrightarrow> \<forall>t \<in> set (drop_lost cfg (miss_unmatched m ts)). P tool t"
  using miss by (auto simp: drop_lost_def miss_unmatched_def in_set_enumerate_eq)

lemma frame:
  assumes "\<forall>t \<in> set ts. P tool t" "\<forall>det \<in> set dets. Q det"
  shows "\<forall>t \<in> set (one_tool cfg tool (filter (is_of tool) dets) ts). P tool t"
  unfolding one_tool_def Let_def
  by (intro missed matches) (use assms in auto)

lemma run:
  assumes "tracker_run cfg fs d = Some (d', outs)" "distinct (map fst d)"
    "\<forall>t \<in> set (tracks_of d tool). P tool t" "\<forall>f \<in> set fs. \<forall>det \<in> set f. Q det"
  shows "\<forall>t \<in> set (tracks_of d' tool). P tool t"
  using assms
proof (induction fs arbitrary: d outs)
  case (Cons f fs)
  then obtain e out outs' where step: "on_poses cfg f d = Some (e, out)"
    and rest: "tracker_run cfg fs e = Some (d', outs')"
    by (auto split: option.splits)
  have "\<forall>t \<in> set (tracks_of e tool). P tool t"
    unfolding on_poses_one_tool [OF step Cons.prems(2)]
    by (rule frame) (use Cons.prems in auto)
  then show ?case
    using Cons.IH [OF rest on_poses_keys [OF step Cons.prems(2)]] Cons.prems(4) by simp
qed simp

end

text \<open>What the code's tracks are: under their tool, seen, never missed more than allowed.\<close>

definition track_ok :: "string \<Rightarrow> tool_track \<Rightarrow> bool" where
  "track_ok tool t \<longleftrightarrow>
     tk_tool t = tool \<and> 0 \<le> tk_misses t \<and> (\<exists>det. tk_det t = Some det \<and> is_of tool det)"

lemmas track_ops = new_track_def confirm_def track_update_def mark_missed_def

interpretation sound: track_property cfg track_ok "\<lambda>det. True" for cfg
  by unfold_locales (auto simp: track_ok_def track_ops)

definition in_box :: "vec3 \<Rightarrow> vec3 \<Rightarrow> vec3 \<Rightarrow> bool" where
  "in_box lo hi p \<longleftrightarrow> vx lo \<le> vx p \<and> vx p \<le> vx hi \<and> vy lo \<le> vy p \<and> vy p \<le> vy hi \<and> vz lo \<le> vz p \<and> vz p \<le> vz hi"

lemma mix_between:
  assumes "0 \<le> a" "a \<le> 1" "lo \<le> x" "x \<le> hi" "lo \<le> y" "y \<le> (hi::real)"
  shows "lo \<le> a * x + (1 - a) * y" "a * x + (1 - a) * y \<le> hi"
proof -
  have "a * lo + (1 - a) * lo \<le> a * x + (1 - a) * y" "a * x + (1 - a) * y \<le> a * hi + (1 - a) * hi"
    using assms by (intro add_mono mult_left_mono; simp)+
  then show "lo \<le> a * x + (1 - a) * y" "a * x + (1 - a) * y \<le> hi" by (simp_all add: algebra_simps)
qed

lemma in_box_mix:
  assumes "0 \<le> a" "a \<le> 1" "in_box lo hi p" "in_box lo hi q"
  shows "in_box lo hi (vadd (vscale a p) (vscale (1 - a) q))"
  using assms unfolding in_box_def vadd_def vscale_def vec3.sel
  by (elim conjE) (intro conjI mix_between)

definition box_track :: "tracker_cfg \<Rightarrow> string \<Rightarrow> vec3 \<Rightarrow> vec3 \<Rightarrow> string \<Rightarrow> tool_track \<Rightarrow> bool" where
  "box_track cfg tool lo hi tool' t \<longleftrightarrow>
     (tool' = tool \<and> 0 \<le> tc_alpha cfg \<and> tc_alpha cfg \<le> 1 \<longrightarrow> in_box lo hi (tk_pos t))"

definition box_det :: "string \<Rightarrow> vec3 \<Rightarrow> vec3 \<Rightarrow> det3d \<Rightarrow> bool" where
  "box_det tool lo hi det \<longleftrightarrow> (is_of tool det \<longrightarrow> in_box lo hi (d3_center det))"

interpretation boxed: track_property cfg "box_track cfg tool lo hi" "box_det tool lo hi" for cfg tool lo hi
  by unfold_locales (auto simp: box_track_def box_det_def track_ops in_box_mix)

section \<open>What a run publishes\<close>

definition wf_tracks :: "tracks \<Rightarrow> bool" where
  "wf_tracks d \<longleftrightarrow> distinct (map fst d) \<and> (\<forall>tool. \<forall>t \<in> set (tracks_of d tool). track_ok tool t)"

lemma wf_tracks_Nil [simp]: "wf_tracks []"
  by (simp add: wf_tracks_def tracks_of_def)

lemma on_poses_wf:
  assumes "on_poses cfg f d = Some (d', out)" "wf_tracks d" shows "wf_tracks d'"
  unfolding wf_tracks_def
proof (intro conjI allI)
  show "distinct (map fst d')" using on_poses_keys assms by (auto simp: wf_tracks_def)
  fix tool
  show "\<forall>t \<in> set (tracks_of d' tool). track_ok tool t"
    using assms on_poses_one_tool [OF assms(1), of tool] sound.frame [of "tracks_of d tool" tool f cfg]
    by (auto simp: wf_tracks_def)
qed

lemma tracker_run_wf: "tracker_run cfg fs d = Some (d', outs) \<Longrightarrow> wf_tracks d \<Longrightarrow> wf_tracks d'"
proof (induction fs arbitrary: d outs)
  case (Cons f fs)
  then obtain e out outs' where "on_poses cfg f d = Some (e, out)" "tracker_run cfg fs e = Some (d', outs')"
    by (auto split: option.splits)
  then show ?case using Cons.IH on_poses_wf Cons.prems(2) by blast
qed simp

lemma is_of_smooth [simp]: "is_of tool (smooth_det t det) = is_of tool det"
  by (auto simp: is_of_def smooth_det_def det3d_hyp_def split: list.splits)

lemma tracks_of_mem: "distinct (map fst d) \<Longrightarrow> (tool, ts) \<in> set d \<Longrightarrow> tracks_of d tool = ts"
  by (simp add: tracks_of_def)

text \<open>The published detections of a tool are those of its confirmed tracks.\<close>

lemma is_of_unique: "is_of a det \<Longrightarrow> is_of b det \<longleftrightarrow> a = b"
  by (auto simp: is_of_def)

lemma track_out_tool: "track_ok tool t \<Longrightarrow> track_out t = Some det \<Longrightarrow> is_of tool' det \<longleftrightarrow> tool' = tool"
  by (auto simp: track_ok_def track_out_def is_of_unique split: if_splits)

lemma tracker_out_tool:
  assumes "wf_tracks d"
  shows "filter (is_of tool) (tracker_out d) = List.map_filter track_out (tracks_of d tool)"
proof -
  have "distinct (map fst d)" using assms by (simp add: wf_tracks_def)
  moreover have "\<forall>(k, ts) \<in> set d. \<forall>t \<in> set ts. track_ok k t"
    using assms tracks_of_mem by (fastforce simp: wf_tracks_def)
  ultimately show ?thesis
  proof (induction d)
    case Nil
    show ?case by (simp add: tracker_out_def tracks_of_def map_filter_simps)
  next
    case (Cons p d)
    obtain k ts where p: "p = (k, ts)" by (cases p)
    have out: "tracker_out (p # d) = List.map_filter track_out ts @ tracker_out d"
      by (simp add: p tracker_out_def List.map_filter_def)
    have own: "\<forall>t \<in> set ts. track_ok k t" using Cons.prems by (simp add: p)
    have ih: "filter (is_of tool) (tracker_out d) = List.map_filter track_out (tracks_of d tool)"
      using Cons by simp
    show ?case
    proof (cases "tool = k")
      case True
      then have "tracks_of d tool = []"
        using Cons.prems by (force simp: p tracks_of_def split: option.split dest: map_of_SomeD)
      moreover have "filter (is_of tool) (List.map_filter track_out ts) = List.map_filter track_out ts"
        using own True track_out_tool by (fastforce simp: filter_id_conv map_filter_def)
      ultimately show ?thesis using ih True
        by (simp add: out [unfolded p] p tracks_of_def map_filter_simps)
    next
      case False
      then have "filter (is_of tool) (List.map_filter track_out ts) = []"
        using own track_out_tool by (fastforce simp: filter_empty_conv map_filter_def)
      with False ih show ?thesis by (simp add: out [unfolded p] p tracks_of_def)
    qed
  qed
qed

lemma tracker_out_elem:
  assumes "wf_tracks d" "det \<in> set (tracker_out d)" "is_of tool det"
  obtains t where "t \<in> set (tracks_of d tool)" "tk_confirmed t" "d3_center det = tk_pos t"
proof -
  have "det \<in> set (List.map_filter track_out (tracks_of d tool))"
    using assms by (simp flip: tracker_out_tool)
  then obtain t where "t \<in> set (tracks_of d tool)" "track_out t = Some det"
    by (auto simp: map_filter_def)
  then show thesis
    by (intro that) (auto simp: track_out_def smooth_det_def split: if_splits option.splits)
qed

lemma tracker_run_out:
  assumes "tracker_run cfg fs d = Some (d', outs)" "wf_tracks d" "i < length fs"
  shows "\<exists>e. tracker_run cfg (take (Suc i) fs) d = Some (e, take (Suc i) outs) \<and>
    wf_tracks e \<and> outs ! i = tracker_out e"
  using assms
proof (induction fs arbitrary: d outs i)
  case (Cons f fs)
  then obtain e out outs' where step: "on_poses cfg f d = Some (e, out)"
    and rest: "tracker_run cfg fs e = Some (d', outs')" and outs: "outs = out # outs'"
    by (auto split: option.splits)
  have e: "wf_tracks e" using on_poses_wf [OF step] Cons.prems(2) by simp
  have out: "out = tracker_out e" using step by (rule on_poses_cases) simp
  show ?case
  proof (cases i)
    case 0
    then show ?thesis using step e out by (simp add: outs)
  next
    case (Suc j)
    then show ?thesis
      using Cons.IH [OF rest e, of j] Cons.prems(3) step by (auto simp: outs)
  qed
qed simp

lemma tracker_run_length: "tracker_run cfg fs d = Some (d', outs) \<Longrightarrow> length outs = length fs"
  by (induction fs arbitrary: d outs) (auto split: option.splits)

text \<open>
  C34: With a smoothing weight between 0 and 1, every position the tracker publishes
  for a tool lies in any box that contains all the positions at which the tool was detected:
  smoothing never invents a place.
\<close>
theorem tracked_in_hull:
  assumes "tracker_run cfg fs [] = Some (d, outs)"
    and "0 \<le> tc_alpha cfg" "tc_alpha cfg \<le> 1"
    and "\<And>f det. f \<in> set fs \<Longrightarrow> det \<in> set f \<Longrightarrow> is_of tool det \<Longrightarrow> in_box lo hi (d3_center det)"
    and "out \<in> set outs" "det \<in> set out" "is_of tool det"
  shows "in_box lo hi (d3_center det)"
proof -
  obtain i where i: "i < length fs" "out = outs ! i"
    using assms(1,5) tracker_run_length by (metis in_set_conv_nth)
  obtain e where run: "tracker_run cfg (take (Suc i) fs) [] = Some (e, take (Suc i) outs)"
    and e: "wf_tracks e" "out = tracker_out e"
    using tracker_run_out [OF assms(1) wf_tracks_Nil i(1)] i(2) by blast
  obtain t where t: "t \<in> set (tracks_of e tool)" "d3_center det = tk_pos t"
    using tracker_out_elem assms(6,7) e by metis
  have "\<forall>t \<in> set (tracks_of e tool). box_track cfg tool lo hi tool t"
    by (rule boxed.run [OF run])
      (use assms(4) in \<open>auto simp: box_det_def tracks_of_def dest!: in_set_takeD\<close>)
  then show ?thesis using t assms(2,3) by (auto simp: box_track_def)
qed

section \<open>A hidden tool\<close>

definition hides :: "string \<Rightarrow> det3d list \<Rightarrow> bool" where
  "hides tool f \<longleftrightarrow> (\<forall>det \<in> set f. \<not> is_of tool det)"

fun miss_times :: "nat \<Rightarrow> tool_track \<Rightarrow> tool_track" where
  "miss_times 0 t = t"
| "miss_times (Suc k) t = miss_times k (mark_missed t)"

lemma miss_times_simps [simp]:
  "tk_pos (miss_times k t) = tk_pos t" "tk_misses (miss_times k t) = tk_misses t + int k"
  "tk_confirmed (miss_times k t) = tk_confirmed t" "tk_det (miss_times k t) = tk_det t"
  by (induction k arbitrary: t) (simp_all add: mark_missed_def)

lemma one_tool_hidden: "one_tool cfg tool [] ts = drop_lost cfg (map mark_missed ts)"
  by (simp add: one_tool_def miss_unmatched_def)
     (metis (no_types, lifting) case_prod_unfold map_map enumerate_map_upt map_eq_conv map_snd_enumerate comp_apply)

lemma tracker_run_hidden:
  assumes "tracker_run cfg fs d = Some (d', outs)" "distinct (map fst d)" "\<forall>f \<in> set fs. hides tool f" "fs \<noteq> []"
  shows "tracks_of d' tool =
    map (miss_times (length fs)) (filter (\<lambda>t. tk_misses t + int (length fs) \<le> tc_max_misses cfg) (tracks_of d tool))"
  using assms
proof (induction fs arbitrary: d outs)
  case (Cons f fs)
  then obtain e out outs' where step: "on_poses cfg f d = Some (e, out)"
    and rest: "tracker_run cfg fs e = Some (d', outs')"
    by (auto split: option.splits)
  have "filter (is_of tool) f = []" using Cons.prems(3) by (auto simp: hides_def filter_empty_conv)
  then have e: "tracks_of e tool = drop_lost cfg (map mark_missed (tracks_of d tool))"
    using on_poses_one_tool [OF step Cons.prems(2), of tool] by (simp add: one_tool_hidden)
  have now: "drop_lost cfg (map mark_missed ts) =
      map mark_missed (filter (\<lambda>t. tk_misses t + 1 \<le> tc_max_misses cfg) ts)" for ts
    by (simp add: drop_lost_def filter_map comp_def mark_missed_def)
  show ?case
  proof (cases "fs = []")
    case True
    then have "d' = e" using rest by simp
    then show ?thesis using True by (simp add: e now)
  next
    case False
    have "\<forall>f \<in> set fs. hides tool f" using Cons.prems(3) by simp
    from Cons.IH [OF rest on_poses_keys [OF step Cons.prems(2)] this False]
    moreover have "(\<lambda>t. tk_misses t + 1 \<le> tc_max_misses cfg \<and> tk_misses (mark_missed t) + int (length fs) \<le> tc_max_misses cfg) =
        (\<lambda>t. tk_misses t + int (length (f # fs)) \<le> tc_max_misses cfg)"
      by (auto simp: mark_missed_def fun_eq_iff)
    ultimately show ?thesis by (simp add: e now filter_map comp_def)
  qed
qed simp

lemma tracker_run_append:
  "tracker_run cfg (fs @ gs) d =
     (case tracker_run cfg fs d of None \<Rightarrow> None
      | Some (e, outs) \<Rightarrow>
         (case tracker_run cfg gs e of None \<Rightarrow> None | Some (e', outs') \<Rightarrow> Some (e', outs @ outs')))"
  by (induction fs arbitrary: d) (auto split: option.splits)

lemma tracker_run_last:
  assumes "tracker_run cfg fs d = Some (d', outs)" "wf_tracks d" "fs \<noteq> []"
  shows "last outs = tracker_out d'"
proof -
  have len: "length outs = length fs" using assms(1) by (rule tracker_run_length)
  obtain e where "tracker_run cfg fs d = Some (e, outs)" "outs ! (length fs - 1) = tracker_out e"
    using tracker_run_out [OF assms(1,2), of "length fs - 1"] assms(3) len by (cases fs) auto
  moreover have "outs \<noteq> []" using len assms(3) by auto
  ultimately show ?thesis using assms(1) len by (simp add: last_conv_nth)
qed

text \<open>
  C31: A tool that is no longer detected (hidden by the arm, or taken) stays in the
  published scene, each confirmed track at its last smoothed position, for exactly the frames its
  miss counter has left, and is gone afterwards.
\<close>
theorem hidden_tool_published:
  assumes "tracker_run cfg fs [] = Some (d, outs)"
    and "tracker_run cfg hidden d = Some (d', outs')"
    and "\<forall>f \<in> set hidden. hides tool f" "hidden \<noteq> []"
  shows "map d3_center (filter (is_of tool) (last outs')) =
    map tk_pos (filter (\<lambda>t. tk_confirmed t \<and> tk_misses t + int (length hidden) \<le> tc_max_misses cfg)
      (tracks_of d tool))"
proof -
  let ?n = "length hidden"
  have wf: "wf_tracks d" using tracker_run_wf [OF assms(1)] by simp
  then have ok: "\<forall>t \<in> set (tracks_of d tool). track_ok tool t" "distinct (map fst d)"
    by (simp_all add: wf_tracks_def)
  have out: "map d3_center (List.map_filter track_out (map (miss_times ?n) ts)) = map tk_pos (filter tk_confirmed ts)"
    if "\<forall>t \<in> set ts. track_ok tool t" for ts
    using that by (induction ts) (auto simp: map_filter_simps track_out_def track_ok_def smooth_det_def)
  have "last outs' = tracker_out d'"
    using assms(2) wf assms(4) by (rule tracker_run_last)
  moreover have "wf_tracks d'" using assms(2) wf by (rule tracker_run_wf)
  ultimately have "filter (is_of tool) (last outs') = List.map_filter track_out (tracks_of d' tool)"
    by (simp add: tracker_out_tool)
  also have "tracks_of d' tool = map (miss_times ?n) (filter (\<lambda>t. tk_misses t + int ?n \<le> tc_max_misses cfg) (tracks_of d tool))"
    using assms(2) ok(2) assms(3,4) by (rule tracker_run_hidden)
  finally show ?thesis using ok(1) by (simp add: out conj_commute)
qed

section \<open>A steadily detected tool\<close>

lemma box_distance:
  assumes "in_box lo hi p" "in_box lo hi q" shows "vnorm (vsub p q) \<le> vnorm (vsub hi lo)"
proof -
  have sq: "(a - b) * (a - b) \<le> (h - l) * (h - l)" if "l \<le> a" "a \<le> h" "l \<le> b" "b \<le> h" for a b h l :: real
  proof -
    have "\<bar>a - b\<bar> \<le> \<bar>h - l\<bar>" using that by linarith
    then have "\<bar>a - b\<bar> * \<bar>a - b\<bar> \<le> \<bar>h - l\<bar> * \<bar>h - l\<bar>" by (intro mult_mono) auto
    then show ?thesis by simp
  qed
  show ?thesis
    using assms unfolding in_box_def vnorm_def vdot_def vsub_def vec3.sel
    by (intro real_sqrt_le_mono add_mono) (auto intro: sq)
qed

lemma find_closest_single [simp]: "find_closest [t] pos = Some (0, vnorm (vsub (tk_pos t) pos))"
  by (simp add: find_closest_def)

text \<open>The state of the only track of a tool after n detections in a box.\<close>

definition steady :: "tracker_cfg \<Rightarrow> vec3 \<Rightarrow> vec3 \<Rightarrow> nat \<Rightarrow> tool_track \<Rightarrow> bool" where
  "steady cfg lo hi n t \<longleftrightarrow>
     in_box lo hi (tk_pos t) \<and> tk_hits t = int n \<and> tk_misses t = 0 \<and>
     (2 \<le> n \<and> tc_min_hits cfg \<le> int n \<longrightarrow> tk_confirmed t)"

definition steady_cfg :: "tracker_cfg \<Rightarrow> vec3 \<Rightarrow> vec3 \<Rightarrow> bool" where
  "steady_cfg cfg lo hi \<longleftrightarrow>
     0 \<le> tc_alpha cfg \<and> tc_alpha cfg \<le> 1 \<and> 0 \<le> tc_max_misses cfg \<and> vnorm (vsub hi lo) < tc_max_dist cfg"

lemma steady_first:
  assumes "steady_cfg cfg lo hi" "in_box lo hi (d3_center det)"
  shows "\<exists>t. one_tool cfg tool [det] [] = [t] \<and> steady cfg lo hi 1 t"
  using assms
  by (simp add: one_tool_def match_track_def find_closest_def Let_def miss_unmatched_def drop_lost_def
      new_track_def steady_def steady_cfg_def)

lemma steady_next:
  assumes "steady_cfg cfg lo hi" "in_box lo hi (d3_center det)" "steady cfg lo hi n t" "1 \<le> n"
  shows "\<exists>t'. one_tool cfg tool [det] [t] = [t'] \<and> steady cfg lo hi (Suc n) t'"
proof -
  have "vnorm (vsub (tk_pos t) (d3_center det)) < tc_max_dist cfg"
    using box_distance [of lo hi "tk_pos t" "d3_center det"] assms by (simp add: steady_def steady_cfg_def)
  then show ?thesis
    using assms
    by (auto simp: one_tool_def match_track_def Let_def miss_unmatched_def drop_lost_def
      steady_def steady_cfg_def confirm_def track_update_def intro!: in_box_mix)
qed

text \<open>Every frame holds exactly one detection of the tool, and it is in the box.\<close>

definition seen_once :: "string \<Rightarrow> vec3 \<Rightarrow> vec3 \<Rightarrow> det3d list \<Rightarrow> bool" where
  "seen_once tool lo hi f \<longleftrightarrow> (\<exists>det. filter (is_of tool) f = [det] \<and> in_box lo hi (d3_center det))"

lemma tracker_run_steady:
  assumes "tracker_run cfg fs d = Some (d', outs)" "distinct (map fst d)" "steady_cfg cfg lo hi"
    and "\<forall>f \<in> set fs. seen_once tool lo hi f"
    and "tracks_of d tool = [t]" "steady cfg lo hi n t" "1 \<le> n"
  shows "\<exists>t'. tracks_of d' tool = [t'] \<and> steady cfg lo hi (n + length fs) t'"
  using assms
proof (induction fs arbitrary: d outs t n)
  case (Cons f fs)
  then obtain e out outs' where step: "on_poses cfg f d = Some (e, out)"
    and rest: "tracker_run cfg fs e = Some (d', outs')"
    by (auto split: option.splits)
  obtain det where det: "filter (is_of tool) f = [det]" "in_box lo hi (d3_center det)"
    using Cons.prems(4) by (auto simp: seen_once_def)
  obtain t' where t': "tracks_of e tool = [t']" "steady cfg lo hi (Suc n) t'"
    using steady_next [OF Cons.prems(3) det(2) Cons.prems(6,7)]
      on_poses_one_tool [OF step Cons.prems(2), of tool] det(1) Cons.prems(5) by metis
  have "\<exists>t''. tracks_of d' tool = [t''] \<and> steady cfg lo hi (Suc n + length fs) t''"
    by (rule Cons.IH [OF rest on_poses_keys [OF step Cons.prems(2)] Cons.prems(3) _ t'])
      (use Cons.prems(4) in auto)
  then show ?case by simp
qed simp

lemma tracker_run_steady_new:
  assumes "tracker_run cfg fs d = Some (d', outs)" "wf_tracks d" "steady_cfg cfg lo hi"
    and "\<forall>f \<in> set fs. seen_once tool lo hi f" "fs \<noteq> []" "tracks_of d tool = []"
  shows "\<exists>t'. tracks_of d' tool = [t'] \<and> steady cfg lo hi (length fs) t'"
proof -
  obtain f gs where fs: "fs = f # gs" using assms(5) by (cases fs) auto
  obtain e out outs' where step: "on_poses cfg f d = Some (e, out)"
    and rest: "tracker_run cfg gs e = Some (d', outs')"
    using assms(1) by (auto simp: fs split: option.splits)
  have dist: "distinct (map fst d)" using assms(2) by (simp add: wf_tracks_def)
  obtain det where det: "filter (is_of tool) f = [det]" "in_box lo hi (d3_center det)"
    using assms(4) by (auto simp: fs seen_once_def)
  obtain t where "tracks_of e tool = [t]" "steady cfg lo hi 1 t"
    using steady_first [OF assms(3) det(2), of tool] on_poses_one_tool [OF step dist, of tool] det(1) assms(6)
    by metis
  from tracker_run_steady [OF rest on_poses_keys [OF step dist] assms(3) _ this] assms(4)
  show ?thesis by (simp add: fs)
qed

section \<open>Concrete runs\<close>

text \<open>The values of \<open>config/vision.yaml\<close>.\<close>

definition demo_tracker :: tracker_cfg where
  "demo_tracker = \<lparr>tc_min_hits = 3, tc_max_misses = 5, tc_max_dist = 5 / 100, tc_alpha = 3 / 10\<rparr>"

definition demo_det :: det3d where
  "demo_det = \<lparr>d3_header = \<lparr>hd_stamp = 0, hd_frame = ''base_link''\<rparr>,
     d3_results = [\<lparr>hy_class = ''screwdriver'', hy_score = 9 / 10, hy_pos = V3 0 0 0\<rparr>],
     d3_center = V3 0 0 0, d3_size = V3 0 0 0\<rparr>"

definition demo_track :: "int \<Rightarrow> bool \<Rightarrow> tool_track" where
  "demo_track n confirmed =
     \<lparr>tk_tool = ''screwdriver'', tk_pos = V3 0 0 0, tk_score = 9 / 10, tk_hits = n, tk_misses = 0,
      tk_confirmed = confirmed, tk_det = Some demo_det\<rparr>"

lemmas frame_ops = on_poses_def track_detection_def match_track_def find_closest_def Let_def tracks_of_def
  age_tracks_def miss_unmatched_def drop_lost_def tracker_out_def track_out_def map_filter_simps

lemma demo_det_simps [simp]:
  "det3d_hyp demo_det = Some \<lparr>hy_class = ''screwdriver'', hy_score = 9 / 10, hy_pos = V3 0 0 0\<rparr>"
  "d3_center demo_det = V3 0 0 0" "is_of ''screwdriver'' demo_det"
  by (simp_all add: demo_det_def det3d_hyp_def is_of_def)

lemma demo_first: "on_poses demo_tracker [demo_det] [] = Some ([(''screwdriver'', [demo_track 1 False])], [])"
  by (simp add: frame_ops new_track_def demo_track_def demo_tracker_def)

lemma demo_next:
  "on_poses demo_tracker [demo_det] [(''screwdriver'', [demo_track n False])] =
     (let t = demo_track (n + 1) (3 \<le> n + 1) in Some ([(''screwdriver'', [t])], if 3 \<le> n + 1 then [smooth_det t demo_det] else []))"
  by (simp add: frame_ops confirm_def track_update_def demo_track_def demo_tracker_def vec_defs vnorm_def)

lemma tracker_demo_run:
  "tracker_run demo_tracker [[demo_det], [demo_det], [demo_det]] [] =
     Some ([(''screwdriver'', [demo_track 3 True])], [[], [], [smooth_det (demo_track 3 True) demo_det]])"
  by (simp add: demo_first demo_next Let_def)

theorem tracked_in_hull_witness:
  "in_box (V3 0 0 0) (V3 0 0 0) (d3_center (smooth_det (demo_track 3 True) demo_det))"
proof (rule tracked_in_hull [OF tracker_demo_run])
  show "smooth_det (demo_track 3 True) demo_det \<in> set [smooth_det (demo_track 3 True) demo_det]" by simp
  show "is_of ''screwdriver'' (smooth_det (demo_track 3 True) demo_det)" by simp
qed (auto simp: demo_tracker_def in_box_def)

theorem hidden_tool_published_witness:
  "\<exists>d' outs'. tracker_run demo_tracker [[], []] [(''screwdriver'', [demo_track 3 True])] = Some (d', outs') \<and>
     map d3_center (filter (is_of ''screwdriver'') (last outs')) = [V3 0 0 0]"
proof -
  let ?d = "[(''screwdriver'', [demo_track 3 True])]"
  obtain d' outs' where run: "tracker_run demo_tracker [[], []] ?d = Some (d', outs')"
    by (simp add: on_poses_def Let_def split_beta)
  have "map d3_center (filter (is_of ''screwdriver'') (last outs')) =
      map tk_pos (filter (\<lambda>t. tk_confirmed t \<and> tk_misses t + int (length ([[], []] :: det3d list list)) \<le> tc_max_misses demo_tracker)
        (tracks_of ?d ''screwdriver''))"
    by (rule hidden_tool_published [OF tracker_demo_run run]) (simp_all add: hides_def)
  also have "\<dots> = [V3 0 0 0]"
    by (simp add: demo_track_def demo_tracker_def tracks_of_def)
  finally show ?thesis using run by (intro exI conjI)
qed

text \<open>
  Detections are counted, not frames: three boxes of one tool in a single message confirm and
  publish a track at once.
\<close>

lemma one_frame_confirms:
  "on_poses demo_tracker [demo_det, demo_det, demo_det] [] =
     Some ([(''screwdriver'', [demo_track 3 True])], [smooth_det (demo_track 3 True) demo_det])"
  by (simp add: frame_ops new_track_def confirm_def track_update_def demo_track_def demo_tracker_def vec_defs vnorm_def)

end
