(* ===== verification/SceneContext.thy ===== *)
theory SceneContext imports Tracker begin

text \<open>
  \<open>vision/context_builder.py\<close>: from tracked poses to the scene the intent classifier and the
  behaviour tree read, and to the first empty slot for the motion side.

  The JSON text is the record \<open>scene\<close>, whose fields are the keys of the dictionary; the
  ISO time stamp is the argument \<open>now\<close>. The summary line is the datatype \<open>summary\<close>. Rounding is
  that of the decimal value.
\<close>

record slot_info =
  sl_row :: int
  sl_col :: int
  sl_center :: vec3
  sl_half_w :: real
  sl_half_h :: real

record toolbox_grid =
  tg_origin :: vec3
  tg_slot_x :: real
  tg_slot_y :: real
  tg_rows :: int
  tg_cols :: int

definition load_slots :: "toolbox_grid \<Rightarrow> slot_info list" where
  "load_slots g =
     concat (map (\<lambda>r. map (\<lambda>c.
       \<lparr>sl_row = r, sl_col = c,
        sl_center = V3 (vx (tg_origin g) + of_int c * tg_slot_x g + tg_slot_x g / 2)
                       (vy (tg_origin g) + of_int r * tg_slot_y g + tg_slot_y g / 2)
                       (vz (tg_origin g)),
        sl_half_w = tg_slot_x g / 2, sl_half_h = tg_slot_y g / 2\<rparr>) [0 .. tg_cols g - 1]) [0 .. tg_rows g - 1])"

definition SLOT_ASSIGN_MARGIN :: real where
  "SLOT_ASSIGN_MARGIN = 3 / 2"

definition flat_distance :: "vec3 \<Rightarrow> vec3 \<Rightarrow> real" where
  "flat_distance p q = sqrt ((vx p - vx q) * (vx p - vx q) + (vy p - vy q) * (vy p - vy q))"

type_synonym slot_id = "int \<times> int"

definition assign_slot :: "vec3 \<Rightarrow> slot_info list \<Rightarrow> slot_id option" where
  "assign_slot pos slots =
     (if slots = [] then None
      else let dists = map (\<lambda>s. flat_distance pos (sl_center s)) slots;
               idx = argmin dists;
               s = slots ! idx;
               threshold = SLOT_ASSIGN_MARGIN * max (sl_half_w s) (sl_half_h s)
           in if dists ! idx \<le> threshold then Some (sl_row s, sl_col s) else None)"

text \<open>\<open>round\<close> to n decimal places: half to even.\<close>

definition round_half_even :: "real \<Rightarrow> int" where
  "round_half_even x =
     (let f = \<lfloor>x\<rfloor>; d = x - of_int f
      in if d < 1 / 2 then f else if 1 / 2 < d then f + 1 else if even f then f else f + 1)"

definition round_to :: "nat \<Rightarrow> real \<Rightarrow> real" where
  "round_to n x = of_int (round_half_even (x * 10 ^ n)) / 10 ^ n"

record visible_tool =
  vt_tool :: string
  vt_confidence :: real
  vt_position :: vec3
  vt_slot :: "slot_id option"

datatype summary =
    BoxEmpty nat
  | ToolsAt "(string \<times> slot_id option) list"

record scene =
  sc_stamp :: string
  sc_calibrated :: bool
  sc_tools :: "visible_tool list"
  sc_occupied :: "slot_id list"
  sc_empty :: "slot_id list"
  sc_summary :: summary

datatype context_out =
    SlotTop msg_header vec3
  | SceneOut scene

record context_builder =
  cb_slots :: "slot_info list"
  cb_all_slots :: "slot_id list"
  cb_calibrated :: bool

text \<open>A configured file without a transformation raises KeyError, which ends the constructor.\<close>

definition check_calibration :: "(hand_eye_error, transform) result \<Rightarrow> (hand_eye_error, bool) result" where
  "check_calibration r =
     (case r of Inr T \<Rightarrow> Inr True
      | Inl HandEyeNotCalibrated \<Rightarrow> Inr False
      | Inl FileNotFound \<Rightarrow> Inr False
      | Inl KeyError \<Rightarrow> Inl KeyError)"

definition context_builder_init ::
  "toolbox_grid \<Rightarrow> (hand_eye_error, transform) result \<Rightarrow> (hand_eye_error, context_builder) result" where
  "context_builder_init g hand_eye =
     (case check_calibration hand_eye of Inl e \<Rightarrow> Inl e
      | Inr ok \<Rightarrow>
          Inr \<lparr>cb_slots = load_slots g,
               cb_all_slots = map (\<lambda>s. (sl_row s, sl_col s)) (load_slots g),
               cb_calibrated = ok\<rparr>)"

text \<open>The loop of \<open>_on_poses\<close>: the visible tools and the occupied slots.\<close>

definition visible_of :: "hypothesis \<Rightarrow> slot_id option \<Rightarrow> visible_tool" where
  "visible_of h slot =
     \<lparr>vt_tool = hy_class h, vt_confidence = round_to 3 (hy_score h),
      vt_position = V3 (round_to 4 (vx (hy_pos h))) (round_to 4 (vy (hy_pos h))) (round_to 4 (vz (hy_pos h))),
      vt_slot = slot\<rparr>"

definition occupy :: "slot_id option \<Rightarrow> slot_id list \<Rightarrow> slot_id list" where
  "occupy slot occupied =
     (case slot of None \<Rightarrow> occupied | Some s \<Rightarrow> if s \<in> set occupied then occupied else occupied @ [s])"

fun context_loop ::
  "slot_info list \<Rightarrow> det3d list \<Rightarrow> visible_tool list \<times> slot_id list \<Rightarrow> (visible_tool list \<times> slot_id list) option" where
  "context_loop slots [] st = Some st"
| "context_loop slots (det # dets) (tools, occupied) =
     (case det3d_hyp det of None \<Rightarrow> None
      | Some h \<Rightarrow>
          (let slot = assign_slot (hy_pos h) slots
           in context_loop slots dets (tools @ [visible_of h slot], occupy slot occupied)))"

definition publish_slot_top_pose :: "context_builder \<Rightarrow> msg_header \<Rightarrow> slot_id list \<Rightarrow> context_out list" where
  "publish_slot_top_pose s hdr free =
     (case free of [] \<Rightarrow> []
      | (row, col) # _ \<Rightarrow>
         (case List.find (\<lambda>i. sl_row i = row \<and> sl_col i = col) (cb_slots s) of None \<Rightarrow> []
          | Some i \<Rightarrow> [SlotTop (hdr\<lparr>hd_frame := ''base_link''\<rparr>) (sl_center i)]))"

definition build_summary :: "visible_tool list \<Rightarrow> slot_id list \<Rightarrow> summary" where
  "build_summary tools free =
     (if tools = [] then BoxEmpty (length free)
      else ToolsAt (map (\<lambda>t. (vt_tool t, vt_slot t)) tools))"

definition on_tracked ::
  "context_builder \<Rightarrow> string \<Rightarrow> msg_header \<Rightarrow> det3d list \<Rightarrow> context_out list option" where
  "on_tracked s now hdr dets =
     (case context_loop (cb_slots s) dets ([], []) of None \<Rightarrow> None
      | Some (tools, occupied) \<Rightarrow>
          (let free = filter (\<lambda>i. i \<notin> set occupied) (cb_all_slots s);
               summary = build_summary tools free
           in Some (publish_slot_top_pose s hdr free @
                [SceneOut \<lparr>sc_stamp = now, sc_calibrated = cb_calibrated s, sc_tools = tools,
                  sc_occupied = occupied, sc_empty = free, sc_summary = summary\<rparr>])))"

section \<open>The grid\<close>

definition slot_center :: "toolbox_grid \<Rightarrow> slot_id \<Rightarrow> vec3" where
  "slot_center g i =
     V3 (vx (tg_origin g) + of_int (snd i) * tg_slot_x g + tg_slot_x g / 2)
        (vy (tg_origin g) + of_int (fst i) * tg_slot_y g + tg_slot_y g / 2) (vz (tg_origin g))"

definition slot_at :: "toolbox_grid \<Rightarrow> slot_id \<Rightarrow> slot_info" where
  "slot_at g i =
     \<lparr>sl_row = fst i, sl_col = snd i, sl_center = slot_center g i,
      sl_half_w = tg_slot_x g / 2, sl_half_h = tg_slot_y g / 2\<rparr>"

definition in_grid :: "toolbox_grid \<Rightarrow> slot_id \<Rightarrow> bool" where
  "in_grid g i \<longleftrightarrow> 0 \<le> fst i \<and> fst i < tg_rows g \<and> 0 \<le> snd i \<and> snd i < tg_cols g"

lemma set_load_slots: "set (load_slots g) = slot_at g ` {i. in_grid g i}"
  by (auto simp: load_slots_def slot_at_def slot_center_def in_grid_def image_iff)

definition slot_ids :: "toolbox_grid \<Rightarrow> slot_id list" where
  "slot_ids g = concat (map (\<lambda>r. map (\<lambda>c. (r, c)) [0 .. tg_cols g - 1]) [0 .. tg_rows g - 1])"

lemma slot_ids_load_slots: "map (\<lambda>s. (sl_row s, sl_col s)) (load_slots g) = slot_ids g"
  by (simp add: load_slots_def slot_ids_def map_concat comp_def)

lemma slot_ids_set [simp]: "set (slot_ids g) = {i. in_grid g i}"
  by (auto simp: slot_ids_def in_grid_def)

lemma slot_ids_distinct [simp]: "distinct (slot_ids g)"
proof -
  have "slot_ids g = List.product [0 .. tg_rows g - 1] [0 .. tg_cols g - 1]"
    by (simp add: slot_ids_def product_concat_map)
  then show ?thesis by (simp add: distinct_product)
qed

lemma assign_slot_sound:
  assumes "assign_slot p (load_slots g) = Some i" shows "in_grid g i"
proof -
  let ?ds = "map (\<lambda>s. flat_distance p (sl_center s)) (load_slots g)"
  have ne: "load_slots g \<noteq> []" and i: "i = (sl_row (load_slots g ! argmin ?ds), sl_col (load_slots g ! argmin ?ds))"
    using assms by (auto simp: assign_slot_def Let_def split: if_splits)
  have "argmin ?ds < length (load_slots g)" using argmin_less [of ?ds] ne by simp
  then have "load_slots g ! argmin ?ds \<in> set (load_slots g)" by simp
  then show ?thesis by (auto simp: i set_load_slots slot_at_def)
qed

text \<open>A position strictly inside a cell, at any height.\<close>

definition in_cell :: "toolbox_grid \<Rightarrow> slot_id \<Rightarrow> vec3 \<Rightarrow> bool" where
  "in_cell g i p \<longleftrightarrow>
     \<bar>vx p - vx (slot_center g i)\<bar> < tg_slot_x g / 2 \<and> \<bar>vy p - vy (slot_center g i)\<bar> < tg_slot_y g / 2"

lemma cell_axis:
  fixes c c' :: int and w x o' :: real
  assumes "\<bar>x - (o' + of_int c * w + w / 2)\<bar> < w / 2" "c' \<noteq> c"
  shows "\<bar>x - (o' + of_int c * w + w / 2)\<bar> < \<bar>x - (o' + of_int c' * w + w / 2)\<bar>"
proof -
  have "0 < w" using assms(1) by linarith
  have "1 \<le> \<bar>of_int (c' - c) :: real\<bar>" using assms(2) by (simp flip: of_int_abs)
  then have "w \<le> \<bar>of_int (c' - c)\<bar> * w" using \<open>0 < w\<close> by simp
  also have "\<dots> = \<bar>(o' + of_int c' * w + w / 2) - (o' + of_int c * w + w / 2)\<bar>"
    using abs_mult [of "of_int (c' - c)" w] \<open>0 < w\<close> by (simp add: left_diff_distrib)
  finally show ?thesis using assms(1) by linarith
qed

lemma square_less: "\<bar>a\<bar> < \<bar>b\<bar> \<Longrightarrow> a * a < b * (b::real)"
  using abs_le_square_iff [of b a] by (simp add: power2_eq_square)

lemma nearest_cell:
  assumes "in_cell g i p" "j \<noteq> i"
  shows "flat_distance p (slot_center g i) < flat_distance p (slot_center g j)"
proof -
  let ?dx = "\<lambda>i. vx p - vx (slot_center g i)" and ?dy = "\<lambda>i. vy p - vy (slot_center g i)"
  have x: "snd j \<noteq> snd i \<Longrightarrow> \<bar>?dx i\<bar> < \<bar>?dx j\<bar>"
    using assms(1) unfolding in_cell_def slot_center_def vec3.sel by (intro cell_axis) auto
  have y: "fst j \<noteq> fst i \<Longrightarrow> \<bar>?dy i\<bar> < \<bar>?dy j\<bar>"
    using assms(1) unfolding in_cell_def slot_center_def vec3.sel by (intro cell_axis) auto
  have x': "snd j = snd i \<Longrightarrow> ?dx i = ?dx j" and y': "fst j = fst i \<Longrightarrow> ?dy i = ?dy j"
    by (simp_all add: slot_center_def)
  have "?dx i * ?dx i + ?dy i * ?dy i < ?dx j * ?dx j + ?dy j * ?dy j"
  proof (cases "snd j = snd i")
    case True
    with assms(2) have "fst j \<noteq> fst i" by (metis prod.collapse)
    with y x' [OF True] show ?thesis using square_less by simp
  next
    case False
    moreover have "?dy i * ?dy i \<le> ?dy j * ?dy j"
      using y y' square_less by (cases "fst j = fst i") (auto intro: less_imp_le)
    ultimately show ?thesis using x square_less by (intro add_less_le_mono) auto
  qed
  then show ?thesis unfolding flat_distance_def by (rule real_sqrt_less_mono)
qed

lemma cell_within_margin:
  assumes "in_cell g i p"
  shows "flat_distance p (slot_center g i) \<le> SLOT_ASSIGN_MARGIN * max (tg_slot_x g / 2) (tg_slot_y g / 2)"
proof -
  let ?dx = "vx p - vx (slot_center g i)" and ?dy = "vy p - vy (slot_center g i)"
  let ?m = "max (tg_slot_x g / 2) (tg_slot_y g / 2)"
  have "\<bar>?dx\<bar> \<le> ?m" "\<bar>?dy\<bar> \<le> ?m" using assms unfolding in_cell_def by linarith+
  then have "\<bar>?dx\<bar> * \<bar>?dx\<bar> \<le> ?m * ?m" "\<bar>?dy\<bar> * \<bar>?dy\<bar> \<le> ?m * ?m" by (intro mult_mono; linarith)+
  then have sq: "?dx * ?dx \<le> ?m * ?m" "?dy * ?dy \<le> ?m * ?m" by simp_all
  have "(3 / 2 * ?m)\<^sup>2 = 9 / 4 * (?m * ?m)" by (simp add: power2_eq_square)
  moreover have "0 \<le> ?m * ?m" by (rule zero_le_square)
  ultimately have "?dx * ?dx + ?dy * ?dy \<le> (3 / 2 * ?m)\<^sup>2" using sq by linarith
  moreover have "0 \<le> 3 / 2 * ?m" using \<open>\<bar>?dx\<bar> \<le> ?m\<close> by linarith
  ultimately show ?thesis
    unfolding flat_distance_def SLOT_ASSIGN_MARGIN_def by (metis real_sqrt_le_iff real_sqrt_unique)
qed

lemma assign_slot_cell:
  assumes "in_grid g i" "in_cell g i p" shows "assign_slot p (load_slots g) = Some i"
proof -
  let ?ds = "map (\<lambda>s. flat_distance p (sl_center s)) (load_slots g)"
  have mem: "slot_at g i \<in> set (load_slots g)" using assms(1) by (simp add: set_load_slots)
  then obtain k where k: "k < length (load_slots g)" "load_slots g ! k = slot_at g i"
    by (metis in_set_conv_nth)
  then have "?ds \<noteq> []" by auto
  then have least: "argmin ?ds < length (load_slots g)" using argmin_less [of ?ds] by simp
  then obtain j where j: "load_slots g ! argmin ?ds = slot_at g j"
    using nth_mem set_load_slots by blast
  have "?ds ! argmin ?ds \<le> ?ds ! k" using k(1) by (intro argmin_le) simp
  then have "flat_distance p (slot_center g j) \<le> flat_distance p (slot_center g i)"
    using least k by (simp add: j slot_at_def)
  then have "j = i" using nearest_cell [OF assms(2)] by fastforce
  then show ?thesis
    using least mem cell_within_margin [OF assms(2)]
    by (auto simp: assign_slot_def Let_def j slot_at_def)
qed

section \<open>The published scene\<close>

definition occupied_by :: "visible_tool list \<Rightarrow> slot_id list \<Rightarrow> bool" where
  "occupied_by tools occupied \<longleftrightarrow>
     distinct occupied \<and> set occupied = {i. \<exists>t \<in> set tools. vt_slot t = Some i}"

lemma context_loop_occupied:
  assumes "context_loop slots dets (tools, occupied) = Some (tools', occupied')" "occupied_by tools occupied"
  shows "occupied_by tools' occupied'"
  using assms
proof (induction dets arbitrary: tools occupied)
  case (Cons det dets)
  obtain h where h: "det3d_hyp det = Some h" using Cons.prems(1) by (auto split: option.splits)
  let ?slot = "assign_slot (hy_pos h) slots"
  show ?case
  proof (rule Cons.IH)
    show "context_loop slots dets (tools @ [visible_of h ?slot], occupy ?slot occupied) = Some (tools', occupied')"
      using Cons.prems(1) h by (simp add: Let_def)
    show "occupied_by (tools @ [visible_of h ?slot]) (occupy ?slot occupied)"
      using Cons.prems(2) by (auto simp: occupied_by_def occupy_def visible_of_def split: option.split)
  qed
qed simp

text \<open>The tools of a scene are the detections of the message, in order, each with its slot.\<close>

definition tool_of :: "slot_info list \<Rightarrow> det3d \<Rightarrow> visible_tool" where
  "tool_of slots det =
     (case det3d_hyp det of None \<Rightarrow> undefined | Some h \<Rightarrow> visible_of h (assign_slot (hy_pos h) slots))"

lemma context_loop_tools:
  "context_loop slots dets (tools, occupied) = Some (tools', occupied') \<Longrightarrow> tools' = tools @ map (tool_of slots) dets"
proof (induction dets arbitrary: tools occupied)
  case (Cons det dets)
  obtain h where h: "det3d_hyp det = Some h" using Cons.prems by (auto split: option.splits)
  with Cons.prems have "context_loop slots dets (tools @ [tool_of slots det], occupy (assign_slot (hy_pos h) slots) occupied) =
      Some (tools', occupied')"
    by (simp add: Let_def tool_of_def)
  from Cons.IH [OF this] show ?case by simp
qed simp

lemma slot_at_simps [simp]:
  "sl_row (slot_at g i) = fst i" "sl_col (slot_at g i) = snd i" "sl_center (slot_at g i) = slot_center g i"
  by (simp_all add: slot_at_def)

lemma find_slot:
  assumes "in_grid g i"
  shows "List.find (\<lambda>s. sl_row s = fst i \<and> sl_col s = snd i) (load_slots g) = Some (slot_at g i)"
proof (cases "List.find (\<lambda>s. sl_row s = fst i \<and> sl_col s = snd i) (load_slots g)")
  case None
  then have "\<not> (\<exists>s. s \<in> set (load_slots g) \<and> sl_row s = fst i \<and> sl_col s = snd i)"
    by (simp add: find_None_iff)
  moreover have "slot_at g i \<in> set (load_slots g)" using assms by (simp add: set_load_slots)
  ultimately have False using slot_at_simps(1,2) by blast
  then show ?thesis ..
next
  case (Some s)
  then obtain k where "k < length (load_slots g)" "s = load_slots g ! k" "sl_row s = fst i" "sl_col s = snd i"
    by (auto simp: find_Some_iff)
  then have "s \<in> slot_at g ` {i. in_grid g i}" by (simp flip: set_load_slots)
  with \<open>sl_row s = fst i\<close> \<open>sl_col s = snd i\<close> Some show ?thesis
    by (auto simp: slot_at_def intro: prod_eqI)
qed

text \<open>What a scene over a grid has to look like.\<close>

definition scene_ok :: "toolbox_grid \<Rightarrow> scene \<Rightarrow> bool" where
  "scene_ok g sc \<longleftrightarrow>
     distinct (sc_occupied sc @ sc_empty sc) \<and>
     set (sc_occupied sc) \<union> set (sc_empty sc) = {i. in_grid g i} \<and>
     set (sc_occupied sc) = {i. \<exists>t \<in> set (sc_tools sc). vt_slot t = Some i} \<and>
     sc_summary sc =
       (if sc_tools sc = [] then BoxEmpty (length (slot_ids g)) else ToolsAt (map (\<lambda>t. (vt_tool t, vt_slot t)) (sc_tools sc)))"

definition slot_top_ok :: "toolbox_grid \<Rightarrow> slot_id list \<Rightarrow> context_out list \<Rightarrow> bool" where
  "slot_top_ok g free outs \<longleftrightarrow>
     (case free of [] \<Rightarrow> outs = [] | i # _ \<Rightarrow> \<exists>h. hd_frame h = ''base_link'' \<and> outs = [SlotTop h (slot_center g i)])"

lemma on_tracked_cases:
  assumes "context_builder_init g he = Inr s" "on_tracked s now hdr dets = Some outs"
  obtains occupied where
    "context_loop (load_slots g) dets ([], []) = Some (map (tool_of (load_slots g)) dets, occupied)"
    "outs = publish_slot_top_pose s hdr (filter (\<lambda>i. i \<notin> set occupied) (slot_ids g)) @
       [SceneOut \<lparr>sc_stamp = now, sc_calibrated = cb_calibrated s, sc_tools = map (tool_of (load_slots g)) dets,
          sc_occupied = occupied, sc_empty = filter (\<lambda>i. i \<notin> set occupied) (slot_ids g),
          sc_summary = build_summary (map (tool_of (load_slots g)) dets) (filter (\<lambda>i. i \<notin> set occupied) (slot_ids g))\<rparr>]"
    "cb_slots s = load_slots g"
proof -
  have s: "cb_slots s = load_slots g" "cb_all_slots s = slot_ids g"
    using assms(1) by (auto simp: context_builder_init_def slot_ids_load_slots split: sum.splits)
  obtain tools occupied where loop: "context_loop (load_slots g) dets ([], []) = Some (tools, occupied)"
    and outs: "outs = publish_slot_top_pose s hdr (filter (\<lambda>i. i \<notin> set occupied) (slot_ids g)) @
       [SceneOut \<lparr>sc_stamp = now, sc_calibrated = cb_calibrated s, sc_tools = tools,
          sc_occupied = occupied, sc_empty = filter (\<lambda>i. i \<notin> set occupied) (slot_ids g),
          sc_summary = build_summary tools (filter (\<lambda>i. i \<notin> set occupied) (slot_ids g))\<rparr>]"
    using assms(2) by (auto simp: on_tracked_def Let_def s split: option.splits)
  have "tools = map (tool_of (load_slots g)) dets" using context_loop_tools [OF loop] by simp
  with loop outs s that show thesis by simp
qed

lemma slot_top_published:
  assumes "cb_slots s = load_slots g" "\<forall>i \<in> set free. in_grid g i"
  shows "slot_top_ok g free (publish_slot_top_pose s hdr free)"
proof (cases free)
  case (Cons i rest)
  with assms(2) have "in_grid g i" by simp
  from find_slot [OF this] Cons show ?thesis
    by (auto simp: slot_top_ok_def publish_slot_top_pose_def assms(1) slot_at_def split: prod.split)
qed (simp add: slot_top_ok_def publish_slot_top_pose_def)

text \<open>
  C28: Every message makes the node publish exactly one scene, whose occupied and
  empty slots split the grid without overlap, the occupied ones being those of the visible tools;
  before it comes the centre of the first empty slot, and nothing when the box is full.
\<close>
theorem scene_well_formed:
  assumes "context_builder_init g he = Inr s" "on_tracked s now hdr dets = Some outs"
  shows "\<exists>tops sc. outs = tops @ [SceneOut sc] \<and> scene_ok g sc \<and> slot_top_ok g (sc_empty sc) tops \<and>
    length (sc_tools sc) = length dets"
proof -
  obtain occupied where
    loop: "context_loop (load_slots g) dets ([], []) = Some (map (tool_of (load_slots g)) dets, occupied)"
    and outs: "outs = publish_slot_top_pose s hdr (filter (\<lambda>i. i \<notin> set occupied) (slot_ids g)) @
       [SceneOut \<lparr>sc_stamp = now, sc_calibrated = cb_calibrated s, sc_tools = map (tool_of (load_slots g)) dets,
          sc_occupied = occupied, sc_empty = filter (\<lambda>i. i \<notin> set occupied) (slot_ids g),
          sc_summary = build_summary (map (tool_of (load_slots g)) dets) (filter (\<lambda>i. i \<notin> set occupied) (slot_ids g))\<rparr>]"
    and slots: "cb_slots s = load_slots g"
    using assms by (rule on_tracked_cases)
  let ?tools = "map (tool_of (load_slots g)) dets"
  have occ: "occupied_by ?tools occupied"
    using loop by (rule context_loop_occupied) (simp add: occupied_by_def)
  have grid: "in_grid g i" if mem: "i \<in> set occupied" for i
  proof -
    obtain det where "det \<in> set dets" "vt_slot (tool_of (load_slots g) det) = Some i"
      using mem occ by (auto simp: occupied_by_def)
    moreover have "det3d_hyp det \<noteq> None"
    proof -
      have "\<forall>det \<in> set ds. det3d_hyp det \<noteq> None" if "context_loop sl ds st = Some r" for sl ds st r
        using that by (induction sl ds st rule: context_loop.induct) (auto split: option.splits simp: Let_def)
      with loop calculation(1) show ?thesis by blast
    qed
    ultimately show ?thesis by (auto simp: tool_of_def visible_of_def intro: assign_slot_sound)
  qed
  let ?sc = "\<lparr>sc_stamp = now, sc_calibrated = cb_calibrated s, sc_tools = ?tools, sc_occupied = occupied,
    sc_empty = filter (\<lambda>i. i \<notin> set occupied) (slot_ids g),
    sc_summary = build_summary ?tools (filter (\<lambda>i. i \<notin> set occupied) (slot_ids g))\<rparr>"
  have "scene_ok g ?sc"
    using occ grid by (auto simp: scene_ok_def occupied_by_def build_summary_def)
  moreover have "slot_top_ok g (sc_empty ?sc) (publish_slot_top_pose s hdr (sc_empty ?sc))"
    using slots by (rule slot_top_published) simp
  ultimately show ?thesis using outs by (intro exI [of _ ?sc] exI conjI) simp_all
qed

definition demo_grid :: toolbox_grid where
  "demo_grid = \<lparr>tg_origin = V3 (- 3 / 100) (- 3 / 100) 0, tg_slot_x = 6 / 100, tg_slot_y = 6 / 100, tg_rows = 1, tg_cols = 3\<rparr>"

theorem scene_well_formed_witness:
  "\<exists>s outs tops sc. context_builder_init demo_grid (Inl FileNotFound) = Inr s \<and>
     on_tracked s ''t'' \<lparr>hd_stamp = 0, hd_frame = ''''\<rparr> [] = Some outs \<and>
     outs = tops @ [SceneOut sc] \<and> scene_ok demo_grid sc \<and> sc_tools sc = []"
proof -
  obtain s where s: "context_builder_init demo_grid (Inl FileNotFound) = Inr s"
    by (simp add: context_builder_init_def check_calibration_def)
  obtain outs where outs: "on_tracked s ''t'' \<lparr>hd_stamp = 0, hd_frame = ''''\<rparr> [] = Some outs"
    by (simp add: on_tracked_def Let_def)
  from scene_well_formed [OF s outs] s outs show ?thesis by auto
qed

section \<open>From detections to the scene\<close>

lemma filter_single: "filter P xs = [x] \<Longrightarrow> x \<in> set xs \<and> P x"
  by (drule arg_cong [of _ _ set]) auto

text \<open>
  C23: A tool detected once in every message of a run, always within a box smaller
  than the matching distance, is from its second detection (or the minimum number of hits, when
  that is more) reported in the cell that contains the box: the cell is occupied, and the empty-slot
  pose does not point at it.
\<close>
theorem steady_tool_reported:
  assumes tracked: "tracker_run cfg fs [] = Some (d, outs)"
    and cfg: "steady_cfg cfg lo hi" "2 \<le> length fs" "tc_min_hits cfg \<le> int (length fs)"
    and seen: "\<forall>f \<in> set fs. seen_once tool lo hi f"
    and cell: "in_grid g i" "\<And>p. in_box lo hi p \<Longrightarrow> in_cell g i p"
    and builder: "context_builder_init g he = Inr s" "on_tracked s now hdr (last outs) = Some msgs"
  shows "\<exists>tops sc. msgs = tops @ [SceneOut sc] \<and>
    (\<exists>t \<in> set (sc_tools sc). vt_tool t = tool \<and> vt_slot t = Some i) \<and>
    i \<in> set (sc_occupied sc) \<and> i \<notin> set (sc_empty sc)"
proof -
  have ne: "fs \<noteq> []" using cfg(2) by auto
  obtain t where t: "tracks_of d tool = [t]" "steady cfg lo hi (length fs) t"
    using tracker_run_steady_new [OF tracked wf_tracks_Nil cfg(1) seen ne] by (auto simp: tracks_of_def)
  have wf: "wf_tracks d" using tracked wf_tracks_Nil by (rule tracker_run_wf)
  have last: "last outs = tracker_out d" using tracked wf_tracks_Nil ne by (rule tracker_run_last)
  have conf: "tk_confirmed t" "in_box lo hi (tk_pos t)" using t(2) cfg(2,3) by (auto simp: steady_def)
  have "track_ok tool t" using wf t(1) by (auto simp: wf_tracks_def)
  then obtain det where det: "tk_det t = Some det" "is_of tool det" by (auto simp: track_ok_def)
  have "filter (is_of tool) (last outs) = [smooth_det t det]"
    using tracker_out_tool [OF wf, of tool] conf det by (simp add: last t track_out_def map_filter_simps)
  then have mem: "smooth_det t det \<in> set (last outs)" using filter_single by fastforce
  have hyp: "\<exists>h. det3d_hyp (smooth_det t det) = Some h \<and> hy_class h = tool \<and> hy_pos h = tk_pos t"
    using det(2) by (auto simp: is_of_def det3d_hyp_def smooth_det_def split: list.splits)
  have slot: "assign_slot (tk_pos t) (load_slots g) = Some i"
    using cell conf(2) by (intro assign_slot_cell) auto
  obtain occupied where
    loop: "context_loop (load_slots g) (last outs) ([], []) = Some (map (tool_of (load_slots g)) (last outs), occupied)"
    and msgs: "msgs = publish_slot_top_pose s hdr (filter (\<lambda>i. i \<notin> set occupied) (slot_ids g)) @
       [SceneOut \<lparr>sc_stamp = now, sc_calibrated = cb_calibrated s, sc_tools = map (tool_of (load_slots g)) (last outs),
          sc_occupied = occupied, sc_empty = filter (\<lambda>i. i \<notin> set occupied) (slot_ids g),
          sc_summary = build_summary (map (tool_of (load_slots g)) (last outs)) (filter (\<lambda>i. i \<notin> set occupied) (slot_ids g))\<rparr>]"
    using builder by (rule on_tracked_cases)
  let ?t = "tool_of (load_slots g) (smooth_det t det)"
  have vis: "?t \<in> set (map (tool_of (load_slots g)) (last outs))" using mem by simp
  have at: "vt_tool ?t = tool" "vt_slot ?t = Some i"
    using hyp slot by (auto simp: tool_of_def visible_of_def)
  have "occupied_by (map (tool_of (load_slots g)) (last outs)) occupied"
    using loop by (rule context_loop_occupied) (simp add: occupied_by_def)
  then have occ: "i \<in> set occupied" using vis at(2) unfolding occupied_by_def by blast
  show ?thesis
    using msgs vis at occ by (intro exI conjI) (auto simp del: set_map)
qed

theorem steady_tool_reported_witness:
  "\<exists>s msgs tops sc. context_builder_init demo_grid (Inl FileNotFound) = Inr s \<and>
     on_tracked s ''t'' \<lparr>hd_stamp = 0, hd_frame = ''''\<rparr> [smooth_det (demo_track 3 True) demo_det] = Some msgs \<and>
     msgs = tops @ [SceneOut sc] \<and> (0, 0) \<in> set (sc_occupied sc)"
proof -
  let ?out = "[smooth_det (demo_track 3 True) demo_det]" and ?hdr = "\<lparr>hd_stamp = 0, hd_frame = ''''\<rparr>"
  obtain s where s: "context_builder_init demo_grid (Inl FileNotFound) = Inr s"
    by (simp add: context_builder_init_def check_calibration_def)
  obtain msgs where msgs: "on_tracked s ''t'' ?hdr (last [[], [], ?out]) = Some msgs"
    by (simp add: on_tracked_def Let_def smooth_det_def demo_det_def det3d_hyp_def split: prod.split)
  have "\<exists>tops sc. msgs = tops @ [SceneOut sc] \<and>
      (\<exists>t \<in> set (sc_tools sc). vt_tool t = ''screwdriver'' \<and> vt_slot t = Some (0, 0)) \<and>
      (0, 0) \<in> set (sc_occupied sc) \<and> (0, 0) \<notin> set (sc_empty sc)"
  proof (rule steady_tool_reported [OF tracker_demo_run _ _ _ _ _ _ s msgs])
    show "steady_cfg demo_tracker (V3 0 0 0) (V3 0 0 0)"
      by (simp add: steady_cfg_def demo_tracker_def)
    show "\<forall>f \<in> set [[demo_det], [demo_det], [demo_det]]. seen_once ''screwdriver'' (V3 0 0 0) (V3 0 0 0) f"
      by (auto simp: seen_once_def in_box_def)
    show "in_cell demo_grid (0, 0) p" if "in_box (V3 0 0 0) (V3 0 0 0) p" for p
      using that by (simp add: in_box_def in_cell_def slot_center_def demo_grid_def)
  qed (simp_all add: demo_tracker_def in_grid_def demo_grid_def)
  with s msgs show ?thesis by auto
qed

end
