(* ===== verification/HandNode.thy ===== *)
theory HandNode imports VisionGeometry begin

text \<open>
  \<open>vision/hand_node.py\<close>: from hand landmarks and the latest depth image to the pose of an open,
  upturned palm (\<open>/hand/pose\<close>) and the permission to approach it (\<open>/hand/ready\<close>).

  The callbacks run under one mutex and are the steps of the model. \<open>time.monotonic()\<close> is the time
  an event carries; scipy's \<open>Rotation.from_matrix(R).as_quat()\<close> is the argument \<open>quat_of\<close> on the
  columns of R. Landmark lists of another length than 63 raise ValueError in \<open>reshape\<close>: the value
  \<open>None\<close>. Debug lines are reduced to their tag. A \<open>stable_frames\<close> of 0 (numpy statistics of an
  empty array) is outside the model.
\<close>

section \<open>Data\<close>

type_synonym quat4 = "real \<times> real \<times> real \<times> real"

record hand_landmarks =
  hl_label :: string
  hl_score :: real
  hl_canon :: "real list"
  hl_world :: "real list"
  hl_stamp :: real

record handover_yaml =
  ho_min_score :: real
  ho_palm_up :: real
  ho_stable_frames :: nat
  ho_stable_thresh :: real
  ho_finger_ratio :: real
  ho_min_fingers :: int
  ho_lock_keep :: "real option"
  ho_lock_update :: "real option"
  ho_lock_break :: "real option"
  ho_lock_break_z :: "real option"
  ho_depth_radius :: int
  ho_min_depth_px :: int
  ho_roi_enabled :: "bool option"
  ho_roi_x_min :: "real option"
  ho_roi_x_max :: "real option"
  ho_roi_y_min :: "real option"
  ho_roi_y_max :: "real option"

record handover_cfg =
  hv_min_score :: real
  hv_palm_up :: real
  hv_stable_frames :: nat
  hv_stable_thresh :: real
  hv_finger_ratio :: real
  hv_min_fingers :: int
  hv_lock_keep :: real
  hv_lock_update :: real
  hv_lock_break :: real
  hv_lock_break_z :: real
  hv_depth_radius :: int
  hv_min_depth_px :: int
  hv_roi_enabled :: bool
  hv_roi :: "int \<times> int \<times> int \<times> int"

definition get_or :: "'a \<Rightarrow> 'a option \<Rightarrow> 'a" where
  "get_or d v = (case v of None \<Rightarrow> d | Some x \<Rightarrow> x)"

definition load_handover_cfg :: "handover_yaml \<Rightarrow> handover_cfg" where
  "load_handover_cfg y =
     \<lparr>hv_min_score = ho_min_score y, hv_palm_up = ho_palm_up y, hv_stable_frames = ho_stable_frames y,
      hv_stable_thresh = ho_stable_thresh y, hv_finger_ratio = ho_finger_ratio y,
      hv_min_fingers = ho_min_fingers y, hv_lock_keep = get_or 5 (ho_lock_keep y),
      hv_lock_update = get_or (3 / 100) (ho_lock_update y), hv_lock_break = get_or (15 / 100) (ho_lock_break y),
      hv_lock_break_z = get_or (8 / 100) (ho_lock_break_z y), hv_depth_radius = ho_depth_radius y,
      hv_min_depth_px = ho_min_depth_px y, hv_roi_enabled = get_or False (ho_roi_enabled y),
      hv_roi = (trunc (get_or 0 (ho_roi_x_min y)), trunc (get_or 1280 (ho_roi_x_max y)),
                trunc (get_or 0 (ho_roi_y_min y)), trunc (get_or 720 (ho_roi_y_max y)))\<rparr>"

datatype hand_debug = NoDepth | CondFail | Accumulating | Unstable | LockedTag

datatype hand_out =
    HandPose "real option" vec3 quat4
  | HandReady bool
  | HandDebug hand_debug

record hand_node =
  hn_history :: "vec3 list"
  hn_locked :: bool
  hn_locked_pos :: "vec3 option"
  hn_locked_quat :: "quat4 option"
  hn_no_detect :: "real option"
  hn_depth :: "depth_img option"
  hn_depth_count :: nat
  hn_hand_count :: nat

text \<open>What is fixed at start-up.\<close>

record hand_setup =
  hs_cfg :: handover_cfg
  hs_K :: intrinsics
  hs_T :: transform

definition hand_node_init ::
  "handover_yaml \<Rightarrow> intrinsics \<Rightarrow> (hand_eye_error, transform) result \<Rightarrow> (hand_eye_error, hand_setup \<times> hand_node) result" where
  "hand_node_init y K hand_eye =
     (case hand_eye of Inl e \<Rightarrow> Inl e
      | Inr T \<Rightarrow>
          Inr (\<lparr>hs_cfg = load_handover_cfg y, hs_K = K, hs_T = T\<rparr>,
               \<lparr>hn_history = [], hn_locked = False, hn_locked_pos = None, hn_locked_quat = None,
                hn_no_detect = None, hn_depth = None, hn_depth_count = 0, hn_hand_count = 0\<rparr>))"

fun triples :: "real list \<Rightarrow> vec3 list" where
  "triples (x # y # z # r) = V3 x y z # triples r"
| "triples _ = []"

definition reshape_landmarks :: "real list \<Rightarrow> vec3 list option" where
  "reshape_landmarks flat = (if length flat = 63 then Some (triples flat) else None)"

definition WRIST :: nat where "WRIST = 0"
definition INDEX_MCP :: nat where "INDEX_MCP = 5"
definition MIDDLE_MCP :: nat where "MIDDLE_MCP = 9"
definition PINKY_MCP :: nat where "PINKY_MCP = 17"

definition FINGER_PAIRS :: "(nat \<times> nat) list" where
  "FINGER_PAIRS = [(8, 5), (12, 9), (16, 13), (20, 17)]"

section \<open>Geometry of the palm\<close>

definition vmean :: "vec3 list \<Rightarrow> vec3" where
  "vmean ps = V3 (sum_list (map vx ps) / real (length ps)) (sum_list (map vy ps) / real (length ps))
                 (sum_list (map vz ps) / real (length ps))"

definition std :: "real list \<Rightarrow> real" where
  "std xs = (let m = sum_list xs / real (length xs)
             in sqrt (sum_list (map (\<lambda>x. (x - m) * (x - m)) xs) / real (length xs)))"

definition spread :: "vec3 list \<Rightarrow> real" where
  "spread ps = max (max (std (map vx ps)) (std (map vy ps))) (std (map vz ps))"

definition palm_axes :: "vec3 \<Rightarrow> vec3 \<Rightarrow> vec3 \<times> vec3 \<times> vec3" where
  "palm_axes normal finger =
     (let z = vdiv normal (vnorm normal);
          y_raw = vdiv finger (vnorm finger + 1 / 10 ^ 9);
          y0 = vsub y_raw (vscale (vdot y_raw z) z);
          norm_y = vnorm y0;
          y = (if norm_y < 1 / 10 ^ 6
               then let ref = V3 0 1 0;
                        ref = (if \<bar>vdot z ref\<bar> > 99 / 100 then V3 1 0 0 else ref);
                        c = vcross z ref
                    in vdiv c (vnorm c)
               else vdiv y0 norm_y);
          x = vcross y z;
          x = vdiv x (vnorm x)
      in (x, y, z))"

definition palm_normal_to_quat :: "(vec3 \<times> vec3 \<times> vec3 \<Rightarrow> quat4) \<Rightarrow> vec3 \<Rightarrow> vec3 \<Rightarrow> quat4" where
  "palm_normal_to_quat quat_of normal finger = quat_of (palm_axes normal finger)"

definition mark_px :: "vec3 list \<Rightarrow> nat \<Rightarrow> int \<times> int" where
  "mark_px canon i = (trunc (vx (canon ! i)), trunc (vy (canon ! i)))"

definition mark_point :: "hand_setup \<Rightarrow> vec3 list \<Rightarrow> depth_img \<Rightarrow> nat \<Rightarrow> vec3 option" where
  "mark_point su canon img i =
     (let u = fst (mark_px canon i); v = snd (mark_px canon i)
      in case sample_depth_mark img u v (hv_depth_radius (hs_cfg su)) (hv_min_depth_px (hs_cfg su)) of
           None \<Rightarrow> None
         | Some d \<Rightarrow> if d \<le> 0 then None else Some (deproject (of_int u) (of_int v) d (hs_K su)))"

definition compute_palm :: "hand_setup \<Rightarrow> vec3 list \<Rightarrow> depth_img \<Rightarrow> string \<Rightarrow> (vec3 \<times> vec3 \<times> vec3) option" where
  "compute_palm su canon img label =
     (case (mark_point su canon img WRIST, mark_point su canon img INDEX_MCP,
            mark_point su canon img PINKY_MCP, mark_point su canon img MIDDLE_MCP) of
        (Some p0, Some p5, Some p17, Some p9) \<Rightarrow>
          (let cr = vcross (vsub p5 p0) (vsub p17 p0);
               norm_len = vnorm cr;
               finger_vec = vsub p9 p0;
               finger_len = vnorm finger_vec
           in if norm_len < 1 / 10 ^ 6 then None
              else if finger_len < 1 / 10 ^ 6 then None
              else let flip = (if py_lower label = ''left'' then 1 else - 1);
                       normal_cam = vscale flip (vdiv cr norm_len);
                       finger_cam = vdiv finger_vec finger_len;
                       center_cam = vmean [p0, p5, p17, p9]
                   in Some (mat_vec (tf_rot (hs_T su)) normal_cam, camera_to_base center_cam (hs_T su),
                            mat_vec (tf_rot (hs_T su)) finger_cam))
      | _ \<Rightarrow> None)"

definition is_hand_open :: "handover_cfg \<Rightarrow> vec3 list \<Rightarrow> bool" where
  "is_hand_open cfg world =
     (let wrist = world ! WRIST;
          extended = filter (\<lambda>(tip, mcp). vnorm (vsub (world ! tip) wrist)
            > vnorm (vsub (world ! mcp) wrist) * hv_finger_ratio cfg) FINGER_PAIRS
      in hv_min_fingers cfg \<le> int (length extended))"

section \<open>Choosing a hand\<close>

definition palm_center_px :: "vec3 list \<Rightarrow> real \<times> real" where
  "palm_center_px canon =
     (let ps = map (\<lambda>i. canon ! i) [0, 5, 9, 13, 17] in (vx (vmean ps), vy (vmean ps)))"

definition inside_roi :: "handover_cfg \<Rightarrow> vec3 list \<Rightarrow> bool" where
  "inside_roi cfg canon =
     (case hv_roi cfg of (x_min, x_max, y_min, y_max) \<Rightarrow>
      case palm_center_px canon of (px, py) \<Rightarrow>
        of_int x_min \<le> px \<and> px \<le> of_int x_max \<and> of_int y_min \<le> py \<and> py \<le> of_int y_max)"

fun roi_filter :: "handover_cfg \<Rightarrow> hand_landmarks list \<Rightarrow> hand_landmarks list option" where
  "roi_filter cfg [] = Some []"
| "roi_filter cfg (h # hs) =
     (case reshape_landmarks (hl_canon h) of None \<Rightarrow> None
      | Some canon \<Rightarrow>
         (case roi_filter cfg hs of None \<Rightarrow> None
          | Some ks \<Rightarrow> Some (if inside_roi cfg canon then h # ks else ks)))"

text \<open>The running best of \<open>_pick_highest_z\<close>: no hand yet stands for the depth infinity.\<close>

fun highest_z ::
  "hand_setup \<Rightarrow> depth_img \<Rightarrow> hand_landmarks list \<Rightarrow> (hand_landmarks \<times> real) option \<Rightarrow>
     (hand_landmarks \<times> real) option option" where
  "highest_z su img [] best = Some best"
| "highest_z su img (h # hs) best =
     (case reshape_landmarks (hl_canon h) of None \<Rightarrow> None
      | Some canon \<Rightarrow>
         (let u = fst (mark_px canon WRIST); v = snd (mark_px canon WRIST)
          in highest_z su img hs
               (case sample_depth_mark img u v (hv_depth_radius (hs_cfg su)) (hv_min_depth_px (hs_cfg su)) of
                  None \<Rightarrow> best
                | Some d \<Rightarrow>
                    if 0 < d \<and> (case best of None \<Rightarrow> True | Some (b, bd) \<Rightarrow> d < bd) then Some (h, d) else best)))"

definition pick_highest_z :: "hand_setup \<Rightarrow> hand_landmarks list \<Rightarrow> depth_img \<Rightarrow> hand_landmarks option" where
  "pick_highest_z su hands img =
     (case highest_z su img hands None of None \<Rightarrow> None
      | Some (Some (h, d)) \<Rightarrow> Some h
      | Some None \<Rightarrow> Some (max_by hl_score (hd hands) (tl hands)))"

text \<open>\<open>None\<close> when a landmark list is malformed, \<open>Some None\<close> when there is no hand to follow.\<close>

definition select_hand ::
  "hand_setup \<Rightarrow> hand_landmarks list \<Rightarrow> depth_img \<Rightarrow> hand_landmarks option option" where
  "select_hand su hands img =
     (if hands = [] then Some None
      else case (if hv_roi_enabled (hs_cfg su) then roi_filter (hs_cfg su) hands else Some hands) of
             None \<Rightarrow> None
           | Some [] \<Rightarrow> Some None
           | Some [h] \<Rightarrow> Some (Some h)
           | Some candidates \<Rightarrow>
               if hv_roi_enabled (hs_cfg su)
               then Some (Some (max_by hl_score (hd candidates) (tl candidates)))
               else (case pick_highest_z su candidates img of None \<Rightarrow> None | Some h \<Rightarrow> Some (Some h)))"

section \<open>The state machine\<close>

definition reset_state :: "hand_node \<Rightarrow> hand_node" where
  "reset_state s =
     s\<lparr>hn_history := [], hn_locked := False, hn_locked_pos := None, hn_locked_quat := None,
       hn_no_detect := None\<rparr>"

definition publish_pose :: "real option \<Rightarrow> hand_node \<Rightarrow> hand_out list" where
  "publish_pose stamp s =
     (case hn_locked_pos s of None \<Rightarrow> []
      | Some p \<Rightarrow> [HandPose stamp p (the (hn_locked_quat s))])"

definition handle_no_detection :: "handover_cfg \<Rightarrow> real \<Rightarrow> hand_node \<Rightarrow> hand_node \<times> hand_out list" where
  "handle_no_detection cfg now s =
     (if hn_locked s
      then let start = (case hn_no_detect s of None \<Rightarrow> now | Some t \<Rightarrow> t);
               s = s\<lparr>hn_no_detect := Some start\<rparr>
           in if now - start \<le> hv_lock_keep cfg then (s, publish_pose None s @ [HandReady True])
              else (reset_state s, [HandReady False])
      else (reset_state s, [HandReady False]))"

text \<open>The palm was seen but faces down, or the hand is closed.\<close>

definition cond_fail :: "hand_node \<Rightarrow> hand_node \<times> hand_out list" where
  "cond_fail s = (if hn_locked s then reset_state s else s, [HandDebug CondFail, HandReady False])"

text \<open>\<open>deque.append\<close> with \<open>maxlen\<close>.\<close>

definition push_max :: "nat \<Rightarrow> 'a list \<Rightarrow> 'a \<Rightarrow> 'a list" where
  "push_max n xs x = (let ys = xs @ [x] in drop (length ys - n) ys)"

definition publish_locked :: "real \<Rightarrow> hand_node \<Rightarrow> hand_node \<times> hand_out list" where
  "publish_locked stamp s = (s, HandDebug LockedTag # publish_pose (Some stamp) s @ [HandReady True])"

text \<open>Phase 3 of the callback: an upturned open palm at \<open>pos\<close>.\<close>

definition track_palm ::
  "(vec3 \<times> vec3 \<times> vec3 \<Rightarrow> quat4) \<Rightarrow> handover_cfg \<Rightarrow> real \<Rightarrow> vec3 \<Rightarrow> vec3 \<Rightarrow> vec3 \<Rightarrow> hand_node \<Rightarrow>
     hand_node \<times> hand_out list" where
  "track_palm quat_of cfg stamp normal pos finger s =
     (let s = s\<lparr>hn_history := push_max (hv_stable_frames cfg) (hn_history s) pos, hn_no_detect := None\<rparr>
      in if length (hn_history s) < hv_stable_frames cfg then (s, [HandDebug Accumulating, HandReady False])
         else if hv_stable_thresh cfg < spread (hn_history s) then (s, [HandDebug Unstable, HandReady False])
         else if \<not> hn_locked s
         then publish_locked stamp
                (s\<lparr>hn_locked := True, hn_locked_pos := Some (vmean (hn_history s)),
                   hn_locked_quat := Some (palm_normal_to_quat quat_of normal finger)\<rparr>)
         else let diff = vsub pos (the (hn_locked_pos s));
                  dist_3d = vnorm diff;
                  dist_z = \<bar>vz diff\<bar>
              in if hv_lock_break cfg \<le> dist_3d \<or> hv_lock_break_z cfg \<le> dist_z
                 then (reset_state s, [HandReady False])
                 else if hv_lock_update cfg \<le> dist_3d
                 then (s\<lparr>hn_locked_pos := Some pos,
                         hn_locked_quat := Some (palm_normal_to_quat quat_of normal finger),
                         hn_locked := False, hn_history := []\<rparr>, [HandReady False])
                 else publish_locked stamp s)"

definition on_hand_depth ::
  "(vec3 \<times> vec3 \<times> vec3 \<Rightarrow> quat4) \<Rightarrow> hand_setup \<Rightarrow> real \<Rightarrow> hand_landmarks list \<Rightarrow> depth_img \<Rightarrow> hand_node \<Rightarrow>
     (hand_node \<times> hand_out list) option" where
  "on_hand_depth quat_of su now hands img s =
     (case select_hand su hands img of None \<Rightarrow> None
      | Some None \<Rightarrow> Some (handle_no_detection (hs_cfg su) now s)
      | Some (Some h) \<Rightarrow>
          if hl_score h < hv_min_score (hs_cfg su) then Some (handle_no_detection (hs_cfg su) now s)
          else case (reshape_landmarks (hl_canon h), reshape_landmarks (hl_world h)) of
                 (Some canon, Some world) \<Rightarrow>
                   Some (case compute_palm su canon img (hl_label h) of
                           None \<Rightarrow> handle_no_detection (hs_cfg su) now s
                         | Some (normal, pos, finger) \<Rightarrow>
                             if vz normal > hv_palm_up (hs_cfg su) \<and> is_hand_open (hs_cfg su) world
                             then track_palm quat_of (hs_cfg su) (hl_stamp h) normal pos finger s
                             else cond_fail s)
               | _ \<Rightarrow> None)"

definition on_hands_msg ::
  "(vec3 \<times> vec3 \<times> vec3 \<Rightarrow> quat4) \<Rightarrow> hand_setup \<Rightarrow> real \<Rightarrow> hand_landmarks list \<Rightarrow> hand_node \<Rightarrow>
     (hand_node \<times> hand_out list) option" where
  "on_hands_msg quat_of su now hands s =
     (let s = s\<lparr>hn_hand_count := hn_hand_count s + 1\<rparr>
      in case hn_depth s of None \<Rightarrow> Some (s, [HandDebug NoDepth])
         | Some img \<Rightarrow> on_hand_depth quat_of su now hands img s)"

definition on_depth :: "depth_img \<Rightarrow> hand_node \<Rightarrow> hand_node" where
  "on_depth img s = s\<lparr>hn_depth := Some img, hn_depth_count := hn_depth_count s + 1\<rparr>"

datatype hand_event = DepthMsg depth_img | HandsMsg real "hand_landmarks list"

definition hand_step ::
  "(vec3 \<times> vec3 \<times> vec3 \<Rightarrow> quat4) \<Rightarrow> hand_setup \<Rightarrow> hand_event \<Rightarrow> hand_node \<Rightarrow> (hand_node \<times> hand_out list) option" where
  "hand_step quat_of su ev s =
     (case ev of DepthMsg img \<Rightarrow> Some (on_depth img s, [])
      | HandsMsg now hands \<Rightarrow> on_hands_msg quat_of su now hands s)"

text \<open>The states the node can be in: from the start, one callback after another.\<close>

inductive hand_reach :: "(vec3 \<times> vec3 \<times> vec3 \<Rightarrow> quat4) \<Rightarrow> hand_setup \<Rightarrow> hand_node \<Rightarrow> bool"
  for quat_of :: "vec3 \<times> vec3 \<times> vec3 \<Rightarrow> quat4" where
  start: "hand_node_init y K hand_eye = Inr (su, s) \<Longrightarrow> hand_reach quat_of su s"
| callback: "hand_reach quat_of su s \<Longrightarrow> hand_step quat_of su ev s = Some (s', outs) \<Longrightarrow> hand_reach quat_of su s'"

section \<open>The chosen hand\<close>

lemma roi_filter_sound:
  "roi_filter cfg hs = Some ks \<Longrightarrow> h \<in> set ks \<Longrightarrow>
     h \<in> set hs \<and> (\<exists>canon. reshape_landmarks (hl_canon h) = Some canon \<and> inside_roi cfg canon)"
  by (induction hs arbitrary: ks) (auto split: option.splits if_splits)

lemma highest_z_in:
  "highest_z su img hs best = Some (Some (h, d)) \<Longrightarrow> h \<in> set hs \<or> best = Some (h, d)"
proof (induction hs arbitrary: best)
  case (Cons k hs)
  then obtain best' where "highest_z su img hs best' = Some (Some (h, d))"
    and "best' = best \<or> (\<exists>d. best' = Some (k, d))"
    by (auto simp: Let_def split: option.splits if_splits)
  with Cons.IH show ?case by fastforce
qed simp

lemma pick_highest_z_in: "pick_highest_z su hs img = Some h \<Longrightarrow> hs \<noteq> [] \<Longrightarrow> h \<in> set hs"
  using max_by_in [of hl_score "hd hs" "tl hs"]
  by (auto simp: pick_highest_z_def split: option.splits dest: highest_z_in)

lemma select_hand_sound:
  assumes "select_hand su hands img = Some (Some h)"
  shows "h \<in> set hands \<and>
    (hv_roi_enabled (hs_cfg su) \<longrightarrow>
       (\<exists>canon. reshape_landmarks (hl_canon h) = Some canon \<and> inside_roi (hs_cfg su) canon))"
proof -
  let ?roi = "hv_roi_enabled (hs_cfg su)"
  obtain ks where ks: "(if ?roi then roi_filter (hs_cfg su) hands else Some hands) = Some ks" "ks \<noteq> []"
    using assms by (auto simp: select_hand_def split: option.splits list.splits if_splits)
  have best: "max_by hl_score (hd ks) (tl ks) \<in> set ks"
    using max_by_in [of hl_score "hd ks" "tl ks"] ks(2) by simp
  have "h \<in> set ks"
    using assms ks best pick_highest_z_in
    by (fastforce simp: select_hand_def split: option.splits list.splits if_splits)
  then show ?thesis using ks(1) roi_filter_sound by (auto split: if_splits)
qed

text \<open>An upturned open palm of sufficient score, as the callback establishes it.\<close>

definition offered ::
  "hand_setup \<Rightarrow> hand_landmarks list \<Rightarrow> depth_img \<Rightarrow> hand_landmarks \<Rightarrow> vec3 \<Rightarrow> vec3 \<Rightarrow> vec3 \<Rightarrow> bool" where
  "offered su hands img h normal pos finger \<longleftrightarrow>
     h \<in> set hands \<and> hv_min_score (hs_cfg su) \<le> hl_score h \<and>
     (\<exists>canon world. reshape_landmarks (hl_canon h) = Some canon \<and> reshape_landmarks (hl_world h) = Some world \<and>
        (hv_roi_enabled (hs_cfg su) \<longrightarrow> inside_roi (hs_cfg su) canon) \<and>
        compute_palm su canon img (hl_label h) = Some (normal, pos, finger) \<and>
        hv_palm_up (hs_cfg su) < vz normal \<and> is_hand_open (hs_cfg su) world)"

lemma on_hand_depth_cases:
  assumes "on_hand_depth quat_of su now hands img s = Some r"
  obtains (lost) "r = handle_no_detection (hs_cfg su) now s"
  | (bad) "r = cond_fail s"
  | (palm) h normal pos finger where
      "offered su hands img h normal pos finger"
      "r = track_palm quat_of (hs_cfg su) (hl_stamp h) normal pos finger s"
proof -
  have "r = handle_no_detection (hs_cfg su) now s \<or> r = cond_fail s \<or>
    (\<exists>h normal pos finger. offered su hands img h normal pos finger \<and>
      r = track_palm quat_of (hs_cfg su) (hl_stamp h) normal pos finger s)"
    using assms select_hand_sound [of su hands img]
    by (fastforce simp: on_hand_depth_def offered_def not_less split: option.splits prod.splits if_splits)
  then show thesis using lost bad palm by blast
qed

section \<open>Invariant\<close>

definition hand_ok :: "handover_cfg \<Rightarrow> hand_node \<Rightarrow> bool" where
  "hand_ok cfg s \<longleftrightarrow>
     length (hn_history s) \<le> hv_stable_frames cfg \<and>
     (hn_locked s \<longrightarrow> hn_locked_pos s \<noteq> None \<and> hn_locked_quat s \<noteq> None \<and>
        length (hn_history s) = hv_stable_frames cfg) \<and>
     (hn_no_detect s \<noteq> None \<longrightarrow> hn_locked s)"

lemma length_push_max [simp]: "length (push_max n xs x) = min n (Suc (length xs))"
  by (auto simp: push_max_def Let_def)

lemma reset_ok [simp]: "hand_ok cfg (reset_state s)"
  by (simp add: hand_ok_def reset_state_def)

lemma no_detection_ok: "hand_ok cfg s \<Longrightarrow> hand_ok cfg (fst (handle_no_detection cfg now s))"
  by (simp add: handle_no_detection_def Let_def) (simp add: hand_ok_def)

lemma cond_fail_ok: "hand_ok cfg s \<Longrightarrow> hand_ok cfg (fst (cond_fail s))"
  by (simp add: cond_fail_def)

lemma track_palm_ok: "hand_ok cfg s \<Longrightarrow> hand_ok cfg (fst (track_palm quat_of cfg stamp normal pos finger s))"
  by (auto simp: track_palm_def publish_locked_def Let_def) (auto simp: hand_ok_def)

lemma hand_step_ok:
  assumes "hand_step quat_of su ev s = Some (s', outs)" "hand_ok (hs_cfg su) s"
  shows "hand_ok (hs_cfg su) s'"
proof (cases ev)
  case (DepthMsg img)
  then show ?thesis using assms by (auto simp: hand_step_def on_depth_def hand_ok_def)
next
  case (HandsMsg now hands)
  let ?s = "s\<lparr>hn_hand_count := hn_hand_count s + 1\<rparr>"
  have ok: "hand_ok (hs_cfg su) ?s" using assms(2) by (simp add: hand_ok_def)
  show ?thesis
  proof (cases "hn_depth s")
    case None
    then show ?thesis using assms(1) ok HandsMsg by (auto simp: hand_step_def on_hands_msg_def)
  next
    case (Some img)
    then have run: "on_hand_depth quat_of su now hands img ?s = Some (s', outs)"
      using assms(1) HandsMsg by (simp add: hand_step_def on_hands_msg_def)
    show ?thesis
      using run
    proof (cases rule: on_hand_depth_cases)
      case lost
      with no_detection_ok [OF ok, of now] show ?thesis by (metis fst_conv)
    next
      case bad
      with cond_fail_ok [OF ok] show ?thesis by (metis fst_conv)
    next
      case (palm h normal pos finger)
      with track_palm_ok [OF ok, of quat_of "hl_stamp h" normal pos finger] show ?thesis
        by (metis fst_conv)
    qed
  qed
qed

lemma hand_reach_ok: "hand_reach quat_of su s \<Longrightarrow> hand_ok (hs_cfg su) s"
  by (induction rule: hand_reach.induct)
     (auto simp: hand_node_init_def hand_ok_def split: sum.splits dest: hand_step_ok [unfolded hand_ok_def])

section \<open>When the hand may be approached\<close>

lemma deviation_bound:
  assumes "x \<in> set xs"
  shows "\<bar>x - sum_list xs / real (length xs)\<bar> \<le> sqrt (real (length xs)) * std xs"
proof -
  let ?m = "sum_list xs / real (length xs)" and ?n = "real (length xs)"
  let ?q = "map (\<lambda>x. (x - ?m) * (x - ?m)) xs"
  have n: "0 < ?n" using assms by (cases xs) auto
  have "(x - ?m) * (x - ?m) \<le> sum_list ?q"
    using assms by (intro member_le_sum_list) (auto simp: image_iff)
  then have "sqrt ((x - ?m) * (x - ?m)) \<le> sqrt (sum_list ?q)" by (rule real_sqrt_le_mono)
  also have "\<dots> = sqrt ?n * std xs"
    using n by (simp add: std_def Let_def flip: real_sqrt_mult)
  finally show ?thesis by simp
qed

definition near :: "real \<Rightarrow> vec3 \<Rightarrow> vec3 \<Rightarrow> bool" where
  "near r p q \<longleftrightarrow> \<bar>vx p - vx q\<bar> \<le> r \<and> \<bar>vy p - vy q\<bar> \<le> r \<and> \<bar>vz p - vz q\<bar> \<le> r"

lemma spread_near:
  assumes "spread ps \<le> thresh" "p \<in> set ps"
  shows "near (sqrt (real (length ps)) * thresh) p (vmean ps)"
proof -
  have axis: "\<bar>f p - sum_list (map f ps) / real (length ps)\<bar> \<le> sqrt (real (length ps)) * thresh"
    if "std (map f ps) \<le> thresh" for f :: "vec3 \<Rightarrow> real"
  proof -
    have "\<bar>f p - sum_list (map f ps) / real (length ps)\<bar> \<le> sqrt (real (length ps)) * std (map f ps)"
      using deviation_bound [of "f p" "map f ps"] assms(2) by simp
    also have "\<dots> \<le> sqrt (real (length ps)) * thresh" using that by (intro mult_left_mono) simp_all
    finally show ?thesis .
  qed
  show ?thesis
    using assms(1) unfolding near_def vmean_def vec3.sel spread_def by (intro conjI axis) simp_all
qed

text \<open>
  What stands behind a permission: the palm of this very frame (\<open>granted\<close>), or, while the hand is
  lost, the lock that was held before (\<open>kept\<close>).
\<close>

definition granted :: "hand_setup \<Rightarrow> hand_landmarks list \<Rightarrow> hand_node \<Rightarrow> hand_node \<Rightarrow> vec3 \<Rightarrow> bool" where
  "granted su hands s s' p \<longleftrightarrow>
     (\<exists>img h normal pos finger.
        hn_depth s = Some img \<and> offered su hands img h normal pos finger \<and>
        pos \<in> set (hn_history s') \<and> length (hn_history s') = hv_stable_frames (hs_cfg su) \<and>
        spread (hn_history s') \<le> hv_stable_thresh (hs_cfg su) \<and>
        (if hn_locked s then hn_locked_pos s = Some p \<and> vnorm (vsub pos p) < hv_lock_update (hs_cfg su)
         else \<forall>q \<in> set (hn_history s'). near (sqrt (real (hv_stable_frames (hs_cfg su))) * hv_stable_thresh (hs_cfg su)) q p))"

definition kept :: "hand_setup \<Rightarrow> real \<Rightarrow> hand_node \<Rightarrow> hand_node \<Rightarrow> vec3 \<Rightarrow> bool" where
  "kept su now s s' p \<longleftrightarrow>
     hn_locked s \<and> hn_locked_pos s = Some p \<and>
     (\<exists>t. hn_no_detect s' = Some t \<and> (hn_no_detect s = Some t \<or> hn_no_detect s = None \<and> t = now) \<and>
        now - t \<le> hv_lock_keep (hs_cfg su))"

lemma track_palm_ready:
  assumes "track_palm quat_of cfg stamp normal pos finger s = (s', outs)" "HandReady True \<in> set outs"
    "hand_ok cfg s" "0 < hv_stable_frames cfg"
  shows "\<exists>p q. hn_locked s' \<and> hn_locked_pos s' = Some p \<and> hn_locked_quat s' = Some q \<and>
    outs = [HandDebug LockedTag, HandPose (Some stamp) p q, HandReady True] \<and>
    pos \<in> set (hn_history s') \<and> length (hn_history s') = hv_stable_frames cfg \<and>
    spread (hn_history s') \<le> hv_stable_thresh cfg \<and>
    (if hn_locked s then hn_locked_pos s = Some p \<and> vnorm (vsub pos p) < hv_lock_update cfg
     else p = vmean (hn_history s'))"
proof -
  let ?h = "push_max (hv_stable_frames cfg) (hn_history s) pos"
  have short: "length (hn_history s) \<le> hv_stable_frames cfg"
    using assms(3) by (simp add: hand_ok_def)
  have mem: "pos \<in> set ?h"
    using assms(4) by (auto simp: push_max_def Let_def drop_append)
  have full: "\<not> length ?h < hv_stable_frames cfg" and calm: "\<not> hv_stable_thresh cfg < spread ?h"
    using assms(1,2) by (auto simp: track_palm_def Let_def split: if_splits)
  from full short have len: "length ?h = hv_stable_frames cfg" by auto
  show ?thesis
  proof (cases "hn_locked s")
    case False
    then show ?thesis
      using assms(1) len mem calm full
      by (intro exI [of _ "vmean ?h"] exI [of _ "palm_normal_to_quat quat_of normal finger"])
        (auto simp: track_palm_def Let_def publish_locked_def publish_pose_def)
  next
    case True
    then obtain p q where p: "hn_locked_pos s = Some p" "hn_locked_quat s = Some q"
      using assms(3) by (auto simp: hand_ok_def)
    then show ?thesis
      using assms(1,2) True len mem calm full
      by (intro exI [of _ p] exI [of _ q]) (auto simp: track_palm_def Let_def publish_locked_def publish_pose_def split: if_splits)
  qed
qed

lemma no_detection_ready:
  assumes "handle_no_detection cfg now s = (s', outs)" "HandReady True \<in> set outs" "hand_ok cfg s"
  shows "\<exists>p q t. hn_locked s \<and> hn_locked s' \<and> hn_locked_pos s = Some p \<and> hn_locked_pos s' = Some p \<and>
    hn_locked_quat s' = Some q \<and> outs = [HandPose None p q, HandReady True] \<and>
    hn_no_detect s' = Some t \<and> (hn_no_detect s = Some t \<or> hn_no_detect s = None \<and> t = now) \<and>
    now - t \<le> hv_lock_keep cfg"
  using assms
  by (auto simp: handle_no_detection_def Let_def publish_pose_def hand_ok_def split: if_splits option.splits)

text \<open>
  C22: Whatever happened before, permission to approach is published only right after
  the locked pose, and only if this frame shows an upturned open palm of sufficient score inside the
  region of interest after a full, calm history, within the update distance of the lock (or within
  the spread of the history when the lock is new), or the hand was lost no longer than the keep time.
\<close>
theorem hand_ready_backed:
  assumes "hand_reach quat_of su s" "hand_step quat_of su ev s = Some (s', outs)"
    and "HandReady True \<in> set outs" "0 < hv_stable_frames (hs_cfg su)"
  shows "\<exists>now hands p q st pre. ev = HandsMsg now hands \<and> outs = pre @ [HandPose st p q, HandReady True] \<and>
    hn_locked s' \<and> hn_locked_pos s' = Some p \<and> hn_locked_quat s' = Some q \<and>
    (granted su hands s s' p \<or> kept su now s s' p)"
proof -
  obtain now hands where ev: "ev = HandsMsg now hands"
    using assms(2,3) by (cases ev) (auto simp: hand_step_def)
  let ?s = "s\<lparr>hn_hand_count := hn_hand_count s + 1\<rparr>"
  have ok: "hand_ok (hs_cfg su) ?s" using hand_reach_ok [OF assms(1)] by (simp add: hand_ok_def)
  obtain img where img: "hn_depth s = Some img" and run: "on_hand_depth quat_of su now hands img ?s = Some (s', outs)"
    using assms(2,3) by (auto simp: ev hand_step_def on_hands_msg_def Let_def split: option.splits)
  show ?thesis
    using run
  proof (cases rule: on_hand_depth_cases)
    case lost
    from no_detection_ready [OF lost [symmetric] assms(3) ok]
    obtain p q t where "kept su now s s' p" "hn_locked s'" "hn_locked_pos s' = Some p" "hn_locked_quat s' = Some q"
      "outs = [] @ [HandPose None p q, HandReady True]"
      by (auto simp: kept_def)
    then show ?thesis using ev by blast
  next
    case bad
    then show ?thesis using assms(3) by (simp add: cond_fail_def)
  next
    case (palm h normal pos finger)
    obtain p q where pq: "hn_locked s'" "hn_locked_pos s' = Some p" "hn_locked_quat s' = Some q"
      "outs = [HandDebug LockedTag] @ [HandPose (Some (hl_stamp h)) p q, HandReady True]"
      and frame: "pos \<in> set (hn_history s')" "length (hn_history s') = hv_stable_frames (hs_cfg su)"
        "spread (hn_history s') \<le> hv_stable_thresh (hs_cfg su)"
      and at: "if hn_locked ?s then hn_locked_pos ?s = Some p \<and> vnorm (vsub pos p) < hv_lock_update (hs_cfg su)
        else p = vmean (hn_history s')"
      using track_palm_ready [OF palm(2) [symmetric] assms(3) ok assms(4)] by auto
    have "granted su hands s s' p"
      unfolding granted_def using img palm(1) frame at spread_near [OF frame(3)]
      by (intro exI [of _ img] exI [of _ h] exI [of _ normal] exI [of _ pos] exI [of _ finger]) auto
    then show ?thesis using ev pq by blast
  qed
qed

section \<open>A lost hand\<close>

text \<open>Successive messages without a usable hand, at the given times.\<close>

fun lost_run :: "handover_cfg \<Rightarrow> real list \<Rightarrow> hand_node \<Rightarrow> hand_node \<times> hand_out list list" where
  "lost_run cfg [] s = (s, [])"
| "lost_run cfg (t # ts) s =
     (let r = handle_no_detection cfg t s; rs = lost_run cfg ts (fst r) in (fst rs, snd r # snd rs))"

definition shows_ready :: "hand_out list \<Rightarrow> bool" where
  "shows_ready outs \<longleftrightarrow> HandReady True \<in> set outs"

lemma shows_ready_simps [simp]:
  "shows_ready (xs @ [HandReady True])" "\<not> shows_ready [HandReady False]"
  by (simp_all add: shows_ready_def)

lemma lost_run_unlocked:
  "\<not> hn_locked s \<Longrightarrow> map shows_ready (snd (lost_run cfg ts s)) = map (\<lambda>t. False) ts \<and> \<not> hn_locked (fst (lost_run cfg ts s))"
proof (induction ts arbitrary: s)
  case (Cons t ts)
  have "handle_no_detection cfg t s = (reset_state s, [HandReady False])"
    using Cons.prems by (simp add: handle_no_detection_def)
  moreover have "\<not> hn_locked (reset_state s)" by (simp add: reset_state_def)
  ultimately show ?case using Cons.IH [of "reset_state s"] by (simp add: Let_def)
qed simp

lemma lost_run_locked:
  assumes "hn_locked s" "hn_no_detect s = Some t0" "sorted ts"
  shows "map shows_ready (snd (lost_run cfg ts s)) = map (\<lambda>t. t - t0 \<le> hv_lock_keep cfg) ts"
  using assms
proof (induction ts arbitrary: s)
  case (Cons t ts)
  show ?case
  proof (cases "t - t0 \<le> hv_lock_keep cfg")
    case True
    let ?s = "s\<lparr>hn_no_detect := Some t0\<rparr>"
    have "handle_no_detection cfg t s = (?s, publish_pose None ?s @ [HandReady True])"
      using Cons.prems True by (simp add: handle_no_detection_def Let_def)
    moreover have "map shows_ready (snd (lost_run cfg ts ?s)) = map (\<lambda>t. t - t0 \<le> hv_lock_keep cfg) ts"
      using Cons.prems by (intro Cons.IH) simp_all
    ultimately show ?thesis using True by (simp add: Let_def)
  next
    case False
    then have late: "\<forall>u \<in> set ts. \<not> u - t0 \<le> hv_lock_keep cfg"
      using Cons.prems(3) by fastforce
    have "handle_no_detection cfg t s = (reset_state s, [HandReady False])"
      using Cons.prems False by (simp add: handle_no_detection_def Let_def reset_state_def)
    moreover have "\<not> hn_locked (reset_state s)" by (simp add: reset_state_def)
    ultimately show ?thesis
      using lost_run_unlocked [of "reset_state s" cfg ts] False late by (simp add: Let_def)
  qed
qed simp


text \<open>
  An unstable frame withdraws the permission but keeps the lock: when the moving hand then leaves the
  image, the old pose is published as ready again.
\<close>

lemma stale_lock_returns:
  assumes "hn_locked s" "hand_ok cfg s" "0 \<le> hv_lock_keep cfg"
    and "track_palm quat_of cfg stamp normal pos finger s = (s', [HandDebug Unstable, HandReady False])"
  shows "\<exists>p q. hn_locked_pos s = Some p \<and>
    snd (handle_no_detection cfg now s') = [HandPose None p q, HandReady True]"
  using assms
  by (auto simp: track_palm_def Let_def publish_locked_def publish_pose_def handle_no_detection_def hand_ok_def
    split: if_splits option.splits)

section \<open>The palm frame\<close>

lemma vdiv_unit: "vnorm a \<noteq> 0 \<Longrightarrow> vdot (vdiv a (vnorm a)) (vdiv a (vnorm a)) = 1"
proof -
  assume a: "vnorm a \<noteq> 0"
  have "vdot (vdiv a (vnorm a)) (vdiv a (vnorm a)) = vdot a a / (vnorm a * vnorm a)"
    by (simp add: vdot_def vdiv_def add_divide_distrib)
  moreover have "vdot a a \<noteq> 0" using a by (simp add: vnorm_def)
  ultimately show ?thesis by (simp add: vnorm_square)
qed

lemma vdiv_one: "vdiv a 1 = a"
  by (simp add: vdiv_def)

lemma vdot_vdiv: "vdot (vdiv a k) b = vdot a b / k" "vdot b (vdiv a k) = vdot b a / k"
  by (simp_all add: vdot_def vdiv_def add_divide_distrib)

lemma unit_along:
  "vnorm c \<noteq> 0 \<Longrightarrow> vdot c z = 0 \<Longrightarrow>
     vdot (vdiv c (vnorm c)) (vdiv c (vnorm c)) = 1 \<and> vdot (vdiv c (vnorm c)) z = 0"
  by (intro conjI vdiv_unit) (simp_all add: vdot_vdiv(1))

lemma vdot_cross_self [simp]: "vdot (vcross a b) a = 0" "vdot (vcross a b) b = 0"
  by (simp_all add: vdot_def vcross_def algebra_simps)

text \<open>Lagrange's identity.\<close>

lemma cross_norm: "vdot (vcross a b) (vcross a b) = vdot a a * vdot b b - vdot a b * vdot a b"
  by (simp add: vdot_def vcross_def algebra_simps)

lemma cross_cross: "vcross (vcross a b) a = vsub (vscale (vdot a a) b) (vscale (vdot a b) a)"
  by (simp add: vec3_eq_iff vdot_def vcross_def vsub_def vscale_def algebra_simps)

lemma orthonormal_cross:
  assumes "vdot y y = 1" "vdot z z = 1" "vdot y z = 0"
  shows "vdot (vcross y z) (vcross y z) = 1" "vnorm (vcross y z) = 1" "vcross (vcross y z) y = z"
  using assms cross_cross [of y z] by (simp_all add: cross_norm vnorm_def vec3_eq_iff vsub_def vscale_def)

definition palm_y :: "vec3 \<Rightarrow> vec3 \<Rightarrow> vec3" where
  "palm_y z finger =
     (let y_raw = vdiv finger (vnorm finger + 1 / 10 ^ 9);
          y0 = vsub y_raw (vscale (vdot y_raw z) z);
          norm_y = vnorm y0
      in if norm_y < 1 / 10 ^ 6
         then let ref = (if \<bar>vdot z (V3 0 1 0)\<bar> > 99 / 100 then V3 1 0 0 else V3 0 1 0);
                  c = vcross z ref
              in vdiv c (vnorm c)
         else vdiv y0 norm_y)"

lemma palm_axes_palm_y:
  "palm_axes normal finger =
     (let z = vdiv normal (vnorm normal); y = palm_y z finger; c = vcross y z in (vdiv c (vnorm c), y, z))"
  by (simp only: palm_axes_def palm_y_def Let_def)

lemma palm_y_unit:
  assumes "vdot z z = 1" shows "vdot (palm_y z finger) (palm_y z finger) = 1 \<and> vdot (palm_y z finger) z = 0"
proof -
  let ?r = "vdiv finger (vnorm finger + 1 / 10 ^ 9)"
  let ?y0 = "vsub ?r (vscale (vdot ?r z) z)"
  let ?ref = "if \<bar>vdot z (V3 0 1 0)\<bar> > 99 / 100 then V3 1 0 0 else V3 0 1 0"
  let ?c = "vcross z ?ref"
  show ?thesis
  proof (cases "vnorm ?y0 < 1 / 10 ^ 6")
    case True
    then have y: "palm_y z finger = vdiv ?c (vnorm ?c)" unfolding palm_y_def Let_def by (rule if_P)
    have z1: "vx z * vx z + vy z * vy z + vz z * vz z = 1" using assms by (simp add: vdot_def)
    have "vdot z ?ref * vdot z ?ref < 1"
    proof (cases "\<bar>vdot z (V3 0 1 0)\<bar> > 99 / 100")
      case True
      then have "(99 / 100) * (99 / 100) < \<bar>vy z\<bar> * \<bar>vy z\<bar>" by (intro mult_strict_mono) (simp_all add: vdot_def)
      then have "0 < vy z * vy z" unfolding abs_mult_self_eq by linarith
      moreover have "0 \<le> vz z * vz z" by simp
      ultimately have "vx z * vx z < 1" using z1 by linarith
      with True show ?thesis by (simp add: vdot_def)
    next
      case False
      then have "\<bar>vy z\<bar> * \<bar>vy z\<bar> \<le> (99 / 100) * (99 / 100)" by (intro mult_mono) (simp_all add: vdot_def)
      with False show ?thesis by (simp add: vdot_def)
    qed
    moreover have "vdot ?ref ?ref = 1" by (simp add: vdot_def)
    ultimately have "vdot ?c ?c > 0" using assms by (simp add: cross_norm)
    then have "vnorm ?c \<noteq> 0" by (simp add: vnorm_def)
    then show ?thesis unfolding y by (rule unit_along) simp
  next
    case False
    then have y: "palm_y z finger = vdiv ?y0 (vnorm ?y0)" unfolding palm_y_def Let_def by (rule if_not_P)
    have "vnorm ?y0 \<noteq> 0" using False by (auto simp: field_simps)
    moreover have "vdot (vsub a (vscale (vdot a z) z)) z = vdot a z - vdot a z * vdot z z" for a
      by (simp add: vdot_def vsub_def vscale_def algebra_simps)
    then have "vdot ?y0 z = 0" using assms by simp
    ultimately show ?thesis unfolding y by (rule unit_along)
  qed
qed

text \<open>
  Whatever the finger direction (even none, or along the normal), the three axes
  handed to scipy form a right-handed orthonormal frame whose third axis is the palm normal, so they
  are a rotation.
\<close>
theorem palm_frame_rotation:
  assumes "vnorm normal \<noteq> 0" "palm_axes normal finger = (x, y, z)"
  shows "z = vdiv normal (vnorm normal) \<and> vdot x x = 1 \<and> vdot y y = 1 \<and> vdot z z = 1 \<and>
    vdot x y = 0 \<and> vdot y z = 0 \<and> vdot x z = 0 \<and> vcross x y = z"
proof -
  let ?z = "vdiv normal (vnorm normal)"
  let ?y = "palm_y ?z finger"
  have z: "vdot ?z ?z = 1" using assms(1) by (rule vdiv_unit)
  have y: "vdot ?y ?y = 1" "vdot ?y ?z = 0" using palm_y_unit [OF z] by auto
  note frame = orthonormal_cross [OF y(1) z y(2)]
  have "vdiv (vcross ?y ?z) (vnorm (vcross ?y ?z)) = vcross ?y ?z"
    by (simp only: frame(2) vdiv_one)
  then have "palm_axes normal finger = (vcross ?y ?z, ?y, ?z)"
    unfolding palm_axes_palm_y Let_def by (simp only: prod.inject)
  with assms(2) have "x = vcross ?y ?z" "y = ?y" "z = ?z" by auto
  then show ?thesis using frame y z by simp
qed

theorem palm_frame_rotation_witness:
  "\<exists>x y. palm_axes (V3 0 0 2) (V3 0 0 0) = (x, y, V3 0 0 1) \<and> vcross x y = V3 0 0 1"
proof -
  have n: "vnorm (V3 0 0 2) = 2" by (simp add: vnorm_def vdot_def)
  obtain x y z where f: "palm_axes (V3 0 0 2) (V3 0 0 0) = (x, y, z)" by (metis surj_pair)
  from palm_frame_rotation [OF _ f] n have "z = V3 0 0 1" "vcross x y = z" by (auto simp: vdiv_def)
  with f show ?thesis by auto
qed

section \<open>A concrete node\<close>

definition demo_yaml :: handover_yaml where
  "demo_yaml =
     \<lparr>ho_min_score = 8 / 10, ho_palm_up = 1 / 2, ho_stable_frames = 90, ho_stable_thresh = 2 / 100,
      ho_finger_ratio = 11 / 10, ho_min_fingers = 3, ho_lock_keep = Some 3, ho_lock_update = Some (3 / 100),
      ho_lock_break = Some (15 / 100), ho_lock_break_z = Some (5 / 100), ho_depth_radius = 5,
      ho_min_depth_px = 5, ho_roi_enabled = Some True, ho_roi_x_min = Some 330, ho_roi_x_max = Some 578,
      ho_roi_y_min = Some 140, ho_roi_y_max = Some 441\<rparr>"

definition demo_locked :: hand_node where
  "demo_locked =
     \<lparr>hn_history = [], hn_locked = True, hn_locked_pos = Some (V3 0 0 0), hn_locked_quat = Some (0, 0, 0, 1),
      hn_no_detect = None, hn_depth = None, hn_depth_count = 0, hn_hand_count = 0\<rparr>"


text \<open>A flat hand at half a metre, in a node that locks on the first stable frame.\<close>

definition flat_depth :: depth_img where
  "flat_depth = \<lparr>di_h = 20, di_w = 20, di_px = (\<lambda>r c. 500)\<rparr>"

definition flat_yaml :: handover_yaml where
  "flat_yaml = demo_yaml\<lparr>ho_stable_frames := 1, ho_roi_enabled := None, ho_depth_radius := 1, ho_min_depth_px := 1\<rparr>"

definition flat_K :: intrinsics where
  "flat_K = \<lparr>k_fx = 100, k_fy = 100, k_cx = 10, k_cy = 10\<rparr>"

definition flat_T :: transform where
  "flat_T = \<lparr>tf_rot = (V3 1 0 0, V3 0 1 0, V3 0 0 1), tf_trans = V3 0 0 0\<rparr>"

definition flat_setup :: hand_setup where
  "flat_setup = \<lparr>hs_cfg = load_handover_cfg flat_yaml, hs_K = flat_K, hs_T = flat_T\<rparr>"

definition flat_start :: hand_node where
  "flat_start = \<lparr>hn_history = [], hn_locked = False, hn_locked_pos = None, hn_locked_quat = None,
     hn_no_detect = None, hn_depth = None, hn_depth_count = 0, hn_hand_count = 0\<rparr>"

definition flat_hand :: hand_landmarks where
  "flat_hand =
     \<lparr>hl_label = ''right'', hl_score = 9 / 10,
      hl_canon = [10,10,0, 0,0,0, 0,0,0, 0,0,0, 0,0,0, 12,8,0, 0,0,0, 0,0,0, 0,0,0, 10,8,0, 0,0,0,
        0,0,0, 0,0,0, 0,0,0, 0,0,0, 0,0,0, 0,0,0, 8,8,0, 0,0,0, 0,0,0, 0,0,0],
      hl_world = [0,0,0, 0,0,0, 0,0,0, 0,0,0, 0,0,0, 1,0,0, 0,0,0, 0,0,0, 2,0,0, 1,0,0, 0,0,0,
        0,0,0, 2,0,0, 1,0,0, 0,0,0, 0,0,0, 2,0,0, 1,0,0, 0,0,0, 0,0,0, 2,0,0],
      hl_stamp = 0\<rparr>"

lemma median_const: "xs \<noteq> [] \<Longrightarrow> (\<And>x. x \<in> set xs \<Longrightarrow> x = c) \<Longrightarrow> median xs = c"
  using median_bounds [of xs c c] by force

lemma flat_sample:
  assumes "1 \<le> u" "u \<le> 18" "1 \<le> v" "v \<le> 18"
  shows "sample_depth_mark flat_depth u v 1 1 = Some (1 / 2)"
proof -
  let ?roi = "roi_px flat_depth (v - 1) (v + 2) (u - 1) (u + 2)"
  have all: "p = 500" if "p \<in> set ?roi" for p using roi_px_inside [OF that] by (auto simp: flat_depth_def)
  have "nat (v - 1) \<in> set (slice 20 (v - 1) (v + 2))" "nat (u - 1) \<in> set (slice 20 (u - 1) (u + 2))"
    using assms by (auto simp: slice_def slice_bound_def)
  then have ne: "500 \<in> set ?roi" by (force simp: roi_px_def flat_depth_def)
  have same: "filter (\<lambda>p. 0 < p) ?roi = ?roi" unfolding filter_id_conv by (metis all zero_less_numeral)
  have "?roi \<noteq> []" using ne by auto
  moreover have "median (map real ?roi) = 500" using all ne by (intro median_const) auto
  ultimately have "median_depth 1 ?roi = Some (1 / 2)"
    unfolding median_depth_def same Let_def by (cases ?roi) (simp_all add: DEPTH_SCALE_def)
  moreover have "max 0 (u - 1) = u - 1" "max 0 (v - 1) = v - 1"
    "min (int (di_w flat_depth)) (u + 1 + 1) = u + 2" "min (int (di_h flat_depth)) (v + 1 + 1) = v + 2"
    using assms by (auto simp: flat_depth_def)
  ultimately show ?thesis by (simp only: sample_depth_mark_def Let_def)
qed

lemma flat_points:
  assumes "reshape_landmarks (hl_canon flat_hand) = Some canon"
  shows "mark_point flat_setup canon flat_depth WRIST = Some (V3 0 0 (1 / 2))"
    "mark_point flat_setup canon flat_depth INDEX_MCP = Some (V3 (1 / 100) (- 1 / 100) (1 / 2))"
    "mark_point flat_setup canon flat_depth PINKY_MCP = Some (V3 (- 1 / 100) (- 1 / 100) (1 / 2))"
    "mark_point flat_setup canon flat_depth MIDDLE_MCP = Some (V3 0 (- 1 / 100) (1 / 2))"
  using assms
  by (auto simp: reshape_landmarks_def flat_hand_def mark_point_def mark_px_def Let_def flat_setup_def
    load_handover_cfg_def flat_yaml_def demo_yaml_def trunc_def flat_sample deproject_def flat_K_def
    WRIST_def INDEX_MCP_def PINKY_MCP_def MIDDLE_MCP_def)

lemma flat_open:
  assumes "reshape_landmarks (hl_world flat_hand) = Some world"
  shows "is_hand_open (hs_cfg flat_setup) world"
  using assms
  by (auto simp: reshape_landmarks_def flat_hand_def is_hand_open_def WRIST_def FINGER_PAIRS_def vnorm_def
    vsub_def vdot_def flat_setup_def load_handover_cfg_def flat_yaml_def demo_yaml_def)

lemma vnorm_axis: "vnorm (V3 0 0 k) = \<bar>k\<bar>" "vnorm (V3 0 k 0) = \<bar>k\<bar>"
  by (simp_all add: vnorm_def vdot_def)

lemma flat_palm:
  assumes "reshape_landmarks (hl_canon flat_hand) = Some canon"
  shows "\<exists>pos finger. compute_palm flat_setup canon flat_depth (hl_label flat_hand) = Some (V3 0 0 1, pos, finger)"
proof -
  have "vcross (vsub (V3 (1 / 100) (- 1 / 100) (1 / 2)) (V3 0 0 (1 / 2))) (vsub (V3 (- 1 / 100) (- 1 / 100) (1 / 2)) (V3 0 0 (1 / 2)))
      = V3 0 0 (- 1 / 5000)"
    by (simp add: vcross_def vsub_def)
  moreover have "vsub (V3 0 (- 1 / 100) (1 / 2)) (V3 0 0 (1 / 2)) = V3 0 (- 1 / 100) 0"
    by (simp add: vsub_def)
  moreover have "py_lower (hl_label flat_hand) \<noteq> ''left''"
    by (simp add: flat_hand_def py_lower_def)
  moreover have "hs_T flat_setup = flat_T" by (simp add: flat_setup_def)
  ultimately show ?thesis
    by (simp add: compute_palm_def flat_points [OF assms] Let_def vnorm_axis flat_T_def
      vscale_def vdiv_def vdot_def)
qed

lemma flat_reach:
  "hand_reach quat_of flat_setup (on_depth flat_depth flat_start)"
proof -
  have "hand_node_init flat_yaml flat_K (Inr flat_T) = Inr (flat_setup, flat_start)"
    by (simp add: hand_node_init_def flat_setup_def flat_start_def)
  then have "hand_reach quat_of flat_setup flat_start" by (rule hand_reach.start)
  then show ?thesis by (rule hand_reach.callback [where ev = "DepthMsg flat_depth"]) (simp add: hand_step_def)
qed

lemma flat_step:
  "\<exists>s'. hand_step quat_of flat_setup (HandsMsg 0 [flat_hand]) (on_depth flat_depth flat_start) =
     Some (s', HandDebug LockedTag # publish_pose (Some 0) s' @ [HandReady True])"
proof -
  obtain canon where canon: "reshape_landmarks (hl_canon flat_hand) = Some canon"
    by (simp add: reshape_landmarks_def flat_hand_def)
  obtain world where world: "reshape_landmarks (hl_world flat_hand) = Some world"
    by (simp add: reshape_landmarks_def flat_hand_def)
  obtain pos finger where palm: "compute_palm flat_setup canon flat_depth (hl_label flat_hand) = Some (V3 0 0 1, pos, finger)"
    using flat_palm [OF canon] by blast
  have sel: "select_hand flat_setup [flat_hand] flat_depth = Some (Some flat_hand)"
    by (simp add: select_hand_def flat_setup_def load_handover_cfg_def flat_yaml_def demo_yaml_def get_or_def)
  have num: "hl_score flat_hand = 9 / 10" "hl_stamp flat_hand = 0" "hv_min_score (hs_cfg flat_setup) = 8 / 10"
    "hv_palm_up (hs_cfg flat_setup) = 1 / 2" "hv_stable_frames (hs_cfg flat_setup) = 1"
    "hv_stable_thresh (hs_cfg flat_setup) = 2 / 100"
    by (simp_all add: flat_hand_def flat_setup_def load_handover_cfg_def flat_yaml_def demo_yaml_def)
  have calm: "spread [pos] = 0" by (simp add: spread_def std_def Let_def)
  show ?thesis
    using canon world palm sel num calm flat_open [OF world]
    by (simp add: hand_step_def on_hands_msg_def Let_def on_depth_def flat_start_def on_hand_depth_def
      track_palm_def push_max_def publish_locked_def)
qed

theorem hand_ready_backed_witness:
  "\<exists>s' p q. hand_step (\<lambda>R. (0, 0, 0, 1)) flat_setup (HandsMsg 0 [flat_hand]) (on_depth flat_depth flat_start) =
       Some (s', [HandDebug LockedTag, HandPose (Some 0) p q, HandReady True]) \<and>
     hn_locked s' \<and> granted flat_setup [flat_hand] (on_depth flat_depth flat_start) s' p"
proof -
  let ?q = "\<lambda>R :: vec3 \<times> vec3 \<times> vec3. (0, 0, 0, 1) :: quat4" and ?s = "on_depth flat_depth flat_start"
  obtain s' where step: "hand_step ?q flat_setup (HandsMsg 0 [flat_hand]) ?s =
      Some (s', HandDebug LockedTag # publish_pose (Some 0) s' @ [HandReady True])"
    using flat_step by blast
  have frames: "0 < hv_stable_frames (hs_cfg flat_setup)"
    by (simp add: flat_setup_def load_handover_cfg_def flat_yaml_def)
  have "\<not> kept flat_setup 0 ?s s' p" for p by (simp add: kept_def on_depth_def flat_start_def)
  with hand_ready_backed [OF flat_reach step _ frames]
  obtain p q where "hn_locked s'" "hn_locked_pos s' = Some p" "hn_locked_quat s' = Some q" "granted flat_setup [flat_hand] ?s s' p"
    by auto
  then show ?thesis using step by (intro exI [of _ s'] exI [of _ p] exI [of _ q]) (simp add: publish_pose_def)
qed

end
