(* ===== verification/JointMerger.thy ===== *)
theory JointMerger imports GripperNode begin

text \<open>
  \<open>motion/rviz_joint_state_merger_node.py\<close>: the arm's joint states and the gripper's pulse feedback
  merged into one message for the display.

  \<open>positions[k] = v\<close> raises IndexError when the arm message carries fewer positions than names: the
  publication is then \<open>None\<close>. The periodic log is left out.
\<close>

record joint_state =
  js_name :: "string list"
  js_position :: "real list"
  js_velocity :: "real list"
  js_effort :: "real list"

record merger_cfg =
  mg_open_rad :: real
  mg_closed_rad :: real
  mg_pulse_open :: int
  mg_pulse_closed :: int
  mg_publish_all :: bool

record merger =
  mg_arm :: "joint_state option"
  mg_pulse :: real
  mg_have_gripper :: bool

definition merger_init :: merger where
  "merger_init = \<lparr>mg_arm = None, mg_pulse = 0, mg_have_gripper = False\<rparr>"

definition GRIPPER_JOINTS :: "string list" where
  "GRIPPER_JOINTS = [''rh_r1'', ''rh_l1'', ''rh_r2'', ''rh_l2'']"

definition GRIPPER_FEEDBACK_NAME :: string where
  "GRIPPER_FEEDBACK_NAME = ''gripper_joint''"

definition on_arm :: "joint_state \<Rightarrow> merger \<Rightarrow> merger" where
  "on_arm msg s = s\<lparr>mg_arm := Some msg\<rparr>"

text \<open>The first pair of \<open>zip(msg.name, msg.position)\<close> with the feedback name.\<close>

definition on_gripper :: "joint_state \<Rightarrow> merger \<Rightarrow> merger" where
  "on_gripper msg s =
     (case List.find (\<lambda>p. fst p = GRIPPER_FEEDBACK_NAME) (zip (js_name msg) (js_position msg)) of
        None \<Rightarrow> s
      | Some p \<Rightarrow> s\<lparr>mg_pulse := snd p, mg_have_gripper := True\<rparr>)"

definition master_rad :: "merger_cfg \<Rightarrow> merger \<Rightarrow> real" where
  "master_rad cfg s =
     pulse_to_rad (py_round (mg_pulse s)) (mg_open_rad cfg) (mg_closed_rad cfg) (mg_pulse_open cfg) (mg_pulse_closed cfg)"

text \<open>An absent list is filled with zeros, a short one padded; a long one is kept.\<close>

definition pad_zero :: "nat \<Rightarrow> real list \<Rightarrow> real list" where
  "pad_zero n xs = xs @ replicate (n - length xs) 0"

fun index_in :: "string \<Rightarrow> string list \<Rightarrow> nat option" where
  "index_in x [] = None"
| "index_in x (y # ys) = (if y = x then Some 0 else map_option Suc (index_in x ys))"

definition place_joint :: "real \<Rightarrow> string \<Rightarrow> joint_state \<Rightarrow> joint_state option" where
  "place_joint master gj j =
     (case index_in gj (js_name j) of
        Some k \<Rightarrow>
          if k < length (js_position j) then Some (j\<lparr>js_position := (js_position j)[k := master]\<rparr>) else None
      | None \<Rightarrow>
          Some \<lparr>js_name = js_name j @ [gj], js_position = js_position j @ [master],
                js_velocity = js_velocity j @ [0], js_effort = js_effort j @ [0]\<rparr>)"

fun place_joints :: "real \<Rightarrow> string list \<Rightarrow> joint_state \<Rightarrow> joint_state option" where
  "place_joints master [] j = Some j"
| "place_joints master (g # gs) j =
     (case place_joint master g j of None \<Rightarrow> None | Some j' \<Rightarrow> place_joints master gs j')"

text \<open>\<open>Some None\<close>: nothing is published before the first arm message.\<close>

definition publish_merged :: "merger_cfg \<Rightarrow> merger \<Rightarrow> joint_state option option" where
  "publish_merged cfg s =
     (case mg_arm s of None \<Rightarrow> Some None
      | Some src \<Rightarrow>
          (let n = length (js_name src);
               j = src\<lparr>js_velocity := pad_zero n (js_velocity src), js_effort := pad_zero n (js_effort src)\<rparr>;
               master = (if mg_have_gripper s then master_rad cfg s else 0);
               targets = (if mg_publish_all cfg then GRIPPER_JOINTS else [hd GRIPPER_JOINTS])
           in map_option Some (place_joints master targets j)))"

section \<open>What the display receives\<close>

definition aligned_joints :: "joint_state \<Rightarrow> bool" where
  "aligned_joints j \<longleftrightarrow>
     length (js_position j) = length (js_name j) \<and> length (js_velocity j) = length (js_name j) \<and>
     length (js_effort j) = length (js_name j)"

definition value_of :: "joint_state \<Rightarrow> string \<Rightarrow> real option" where
  "value_of j x = (case index_in x (js_name j) of None \<Rightarrow> None | Some k \<Rightarrow> Some (js_position j ! k))"

lemma index_in_less: "index_in x ys = Some k \<Longrightarrow> k < length ys \<and> ys ! k = x"
  by (induction ys arbitrary: k) (auto split: if_splits)

lemma index_in_append:
  "index_in x (ys @ [z]) =
     (case index_in x ys of Some k \<Rightarrow> Some k | None \<Rightarrow> if z = x then Some (length ys) else None)"
  by (induction ys) (auto split: option.split)

lemma place_joint_aligned:
  assumes "aligned_joints j"
  shows "\<exists>j'. place_joint m g j = Some j' \<and> aligned_joints j' \<and>
    value_of j' x = (if x = g then Some m else value_of j x)"
proof (cases "index_in g (js_name j)")
  case None
  with assms show ?thesis
    by (auto simp: place_joint_def aligned_joints_def value_of_def index_in_append nth_append
      split: option.split dest: index_in_less)
next
  case (Some k)
  with assms have "k < length (js_position j)" by (auto simp: aligned_joints_def dest: index_in_less)
  with Some assms show ?thesis
    by (auto simp: place_joint_def aligned_joints_def value_of_def nth_list_update
      split: option.split dest: index_in_less)
qed

lemma place_joints_aligned:
  "aligned_joints j \<Longrightarrow> \<exists>j'. place_joints m gs j = Some j' \<and> aligned_joints j' \<and>
    (\<forall>x. value_of j' x = (if x \<in> set gs then Some m else value_of j x))"
proof (induction gs arbitrary: j)
  case (Cons g gs)
  then obtain j1 where j1: "place_joint m g j = Some j1" "aligned_joints j1"
    using place_joint_aligned by blast
  have val: "value_of j1 x = (if x = g then Some m else value_of j x)" for x
    using place_joint_aligned [OF Cons.prems, of m g x] j1(1) by auto
  from Cons.IH [OF j1(2)] j1(1) val show ?case by auto
qed simp

lemma merged_display:
  assumes "mg_arm s = Some src" "length (js_position src) = length (js_name src)"
    "length (js_velocity src) \<le> length (js_name src)" "length (js_effort src) \<le> length (js_name src)"
  shows "\<exists>j. publish_merged cfg s = Some (Some j) \<and> aligned_joints j \<and>
    (\<forall>x. value_of j x =
       (if x \<in> set (if mg_publish_all cfg then GRIPPER_JOINTS else [''rh_r1''])
        then Some (if mg_have_gripper s then master_rad cfg s else 0) else value_of src x))"
proof -
  let ?n = "length (js_name src)"
  let ?j = "src\<lparr>js_velocity := pad_zero ?n (js_velocity src), js_effort := pad_zero ?n (js_effort src)\<rparr>"
  have "aligned_joints ?j" using assms(2-4) by (simp add: aligned_joints_def pad_zero_def)
  let ?m = "if mg_have_gripper s then master_rad cfg s else 0"
  let ?gs = "if mg_publish_all cfg then GRIPPER_JOINTS else [''rh_r1'']"
  obtain j where j: "place_joints ?m ?gs ?j = Some j" "aligned_joints j"
    "\<forall>x. value_of j x = (if x \<in> set ?gs then Some ?m else value_of ?j x)"
    using place_joints_aligned [OF \<open>aligned_joints ?j\<close>] by blast
  have "hd GRIPPER_JOINTS = ''rh_r1''" by (simp add: GRIPPER_JOINTS_def)
  then have "publish_merged cfg s = Some (Some j)"
    by (simp only: publish_merged_def assms(1) option.case Let_def j(1) option.map)
  moreover have "value_of ?j x = value_of src x" for x
    by (simp add: value_of_def split: option.split)
  ultimately show ?thesis using j(2,3) by (intro exI [of _ j]) simp
qed

end
