(* ===== verification/GripperStart.thy ===== *)
theory GripperStart imports GripperNode begin

text \<open>
  The remaining parts of \<open>motion/gripper_node.py\<close>: the one-shot DRL programs of drl mode, the
  deployment of the controller program, start-up, re-injection and the parameter callback.

  A generated DRL text is the list of its statements (\<open>drl_stmt\<close>); the polling program is modelled by
  what the controller does with it, reading its serial replies from a list. Whether the DRL service is
  ready and what it answers, and whether a connection attempt succeeds, are arguments.
\<close>

section \<open>Programs of drl mode\<close>

datatype drl_stmt =
    Serial_Open | Serial_Close | Define_Flush | Call_Flush | Drl_Wait real | Serial_Write bytes

definition build_drl_write_packets :: "bytes list \<Rightarrow> real \<Rightarrow> real \<Rightarrow> drl_stmt list" where
  "build_drl_write_packets packets wait_between tail_wait =
     [Serial_Open, Drl_Wait (1 / 10), Define_Flush, Call_Flush]
     @ concat (map (\<lambda>p. [Serial_Write p, Drl_Wait wait_between, Call_Flush]) packets)
     @ (if tail_wait > 0 then [Drl_Wait tail_wait] else []) @ [Serial_Close]"

definition prog_writes :: "drl_stmt list \<Rightarrow> bytes list" where
  "prog_writes prog = concat (map (\<lambda>s. case s of Serial_Write b \<Rightarrow> [b] | _ \<Rightarrow> []) prog)"

text \<open>The readers of the polling program: here the high word comes first.\<close>

definition poll_cur_reply :: "bytes \<Rightarrow> int option" where
  "poll_cur_reply r =
     (if 7 \<le> length r \<and> r ! 1 = 3 then Some (two_compl 16 (get16 (r ! 3) (r ! 4))) else None)"

definition poll_pos_reply :: "bytes \<Rightarrow> int option" where
  "poll_pos_reply r =
     (if 9 \<le> length r \<and> r ! 1 = 3 then Some (get16 (r ! 3) (r ! 4) * 65536 + get16 (r ! 5) (r ! 6)) else None)"

definition poll_read_cur :: "bytes list \<Rightarrow> int \<times> bytes list" where
  "poll_read_cur rs = or_no_value (attempts 3 poll_cur_reply rs)"

definition poll_read_pos :: "bytes list \<Rightarrow> int \<times> bytes list" where
  "poll_read_pos rs = or_no_value (attempts 3 poll_pos_reply rs)"

text \<open>The loop: whether it was left by its break, and the replies left over.\<close>

fun poll_loop :: "nat \<Rightarrow> int \<Rightarrow> int \<Rightarrow> int \<Rightarrow> bytes list \<Rightarrow> bool \<times> bytes list" where
  "poll_loop 0 target threshold tol rs = (False, rs)"
| "poll_loop (Suc n) target threshold tol rs =
     (case poll_read_cur rs of (cur, rs1) \<Rightarrow>
        if cur \<noteq> no_value \<and> \<bar>cur\<bar> > threshold then (True, rs1)
        else (case poll_read_pos rs1 of (pos, rs2) \<Rightarrow>
          if pos \<noteq> no_value \<and> target - tol \<le> pos \<and> pos \<le> target + tol then (True, rs2)
          else poll_loop n target threshold tol rs2))"

text \<open>
  \<open>build_drl_move_and_poll\<close>: its packets are built first and may raise; then the two commands that
  the program writes, and the outcome of its loop.
\<close>

definition drl_move_and_poll ::
  "int \<Rightarrow> int \<Rightarrow> int \<Rightarrow> int \<Rightarrow> int \<Rightarrow> nat \<Rightarrow> bytes list \<Rightarrow> (wire_error, bytes list \<times> bool) result" where
  "drl_move_and_poll slave target cur threshold tol max_loops rs =
     (case fc06 slave 275 cur of Inl e \<Rightarrow> Inl e
      | Inr cur_move \<Rightarrow>
     (case fc16 slave 282 2 [target, 0] of Inl e \<Rightarrow> Inl e
      | Inr pos_move \<Rightarrow>
     (case fc03 slave 284 2 of Inl e \<Rightarrow> Inl e
      | Inr _ \<Rightarrow>
     (case fc03 slave 287 1 of Inl e \<Rightarrow> Inl e
      | Inr _ \<Rightarrow> Inr ([cur_move, pos_move], fst (poll_loop max_loops target threshold tol rs))))))"

text \<open>\<open>None\<close>: no answer before the time-out; \<open>Some None\<close>: the future raised or had no result.\<close>

definition call_drl :: "bool \<Rightarrow> bool option option \<Rightarrow> bool" where
  "call_drl ready answer = (ready \<and> answer = Some (Some True))"

section \<open>Parameters\<close>

datatype pval = PV_int int | PV_float real | PV_bool bool | PV_str string

text \<open>\<open>int(v)\<close>, \<open>float(v)\<close>, \<open>bool(v)\<close>; \<open>cv_float\<close> is Python's reading of a text as a float.\<close>

record py_conv =
  cv_float :: "string \<Rightarrow> real option"
  cv_str :: "pval \<Rightarrow> string"

definition pv_int :: "pval \<Rightarrow> int option" where
  "pv_int v = (case v of PV_int i \<Rightarrow> Some i | PV_float x \<Rightarrow> Some (if 0 \<le> x then \<lfloor>x\<rfloor> else \<lceil>x\<rceil>)
     | PV_bool b \<Rightarrow> Some (if b then 1 else 0) | PV_str s \<Rightarrow> py_int s)"

definition pv_float :: "py_conv \<Rightarrow> pval \<Rightarrow> real option" where
  "pv_float cv v = (case v of PV_int i \<Rightarrow> Some (of_int i) | PV_float x \<Rightarrow> Some x
     | PV_bool b \<Rightarrow> Some (if b then 1 else 0) | PV_str s \<Rightarrow> cv_float cv s)"

definition pv_bool :: "pval \<Rightarrow> bool" where
  "pv_bool v = (case v of PV_int i \<Rightarrow> i \<noteq> 0 | PV_float x \<Rightarrow> x \<noteq> 0 | PV_bool b \<Rightarrow> b | PV_str s \<Rightarrow> s \<noteq> [])"

record live_params =
  lp_present_cur :: int
  lp_present_pos :: int
  lp_present_pos_regs :: int
  lp_goal_cur :: int
  lp_goal_pos :: int
  lp_write_mode :: string
  lp_goal_pos_regs :: int
  lp_goal_scale :: real
  lp_pos_scale :: real
  lp_grip_threshold :: real
  lp_done_tol :: int
  lp_min_motion :: int
  lp_require_reached :: bool
  lp_grip_enabled :: bool
  lp_max_wait :: real
  lp_snap :: bool
  lp_plc_feedback :: bool
  lp_plc_pos :: int
  lp_plc_cur :: int
  lp_plc_code :: int
  lp_ack_timeout :: real
  lp_wd_enabled :: bool
  lp_wd_period :: real
  lp_wd_stale :: real

definition set_int :: "(int \<Rightarrow> live_params) \<Rightarrow> pval \<Rightarrow> live_params option" where
  "set_int f v = map_option f (pv_int v)"

definition set_float :: "py_conv \<Rightarrow> (real \<Rightarrow> live_params) \<Rightarrow> pval \<Rightarrow> live_params option" where
  "set_float cv f v = map_option f (pv_float cv v)"

text \<open>\<open>str(p.value).lower()\<close>; the text of a number or a truth value is left to \<open>cv_str\<close>.\<close>

definition set_mode :: "py_conv \<Rightarrow> (string \<Rightarrow> live_params) \<Rightarrow> pval \<Rightarrow> live_params option" where
  "set_mode cv f v = Some (f (py_lower (case v of PV_str s \<Rightarrow> s | _ \<Rightarrow> cv_str cv v)))"

definition set_param ::
  "py_conv \<Rightarrow> string \<Rightarrow> pval \<Rightarrow> live_params \<Rightarrow> live_params option" where
  "set_param cv n v s =
     (if n = ''present_current_reg'' then set_int (\<lambda>i. s\<lparr>lp_present_cur := i\<rparr>) v
      else if n = ''present_position_reg'' then set_int (\<lambda>i. s\<lparr>lp_present_pos := i\<rparr>) v
      else if n = ''present_position_regs'' then set_int (\<lambda>i. s\<lparr>lp_present_pos_regs := i\<rparr>) v
      else if n = ''goal_current_reg'' then set_int (\<lambda>i. s\<lparr>lp_goal_cur := i\<rparr>) v
      else if n = ''goal_position_reg'' then set_int (\<lambda>i. s\<lparr>lp_goal_pos := i\<rparr>) v
      else if n = ''goal_position_write_mode'' then set_mode cv (\<lambda>m. s\<lparr>lp_write_mode := m\<rparr>) v
      else if n = ''goal_position_regs'' then set_int (\<lambda>i. s\<lparr>lp_goal_pos_regs := i\<rparr>) v
      else if n = ''goal_position_scale'' then set_float cv (\<lambda>x. s\<lparr>lp_goal_scale := x\<rparr>) v
      else if n = ''position_scale'' then set_float cv (\<lambda>x. s\<lparr>lp_pos_scale := x\<rparr>) v
      else if n = ''grip_current_threshold'' then set_float cv (\<lambda>x. s\<lparr>lp_grip_threshold := x\<rparr>) v
      else if n = ''done_pos_tolerance'' then set_int (\<lambda>i. s\<lparr>lp_done_tol := i\<rparr>) v
      else if n = ''done_min_motion'' then set_int (\<lambda>i. s\<lparr>lp_min_motion := i\<rparr>) v
      else if n = ''done_require_reached'' then Some (s\<lparr>lp_require_reached := pv_bool v\<rparr>)
      else if n = ''grip_detect_enabled'' then Some (s\<lparr>lp_grip_enabled := pv_bool v\<rparr>)
      else if n = ''action_max_wait_sec'' then set_float cv (\<lambda>x. s\<lparr>lp_max_wait := x\<rparr>) v
      else if n = ''drl_snap_enabled'' then Some (s\<lparr>lp_snap := pv_bool v\<rparr>)
      else if n = ''plc_feedback_enabled'' then Some (s\<lparr>lp_plc_feedback := pv_bool v\<rparr>)
      else if n = ''plc_addr_pos'' then set_int (\<lambda>i. s\<lparr>lp_plc_pos := i\<rparr>) v
      else if n = ''plc_addr_cur'' then set_int (\<lambda>i. s\<lparr>lp_plc_cur := i\<rparr>) v
      else if n = ''plc_addr_code'' then set_int (\<lambda>i. s\<lparr>lp_plc_code := i\<rparr>) v
      else if n = ''tcp_ack_timeout_sec'' then set_float cv (\<lambda>x. s\<lparr>lp_ack_timeout := x\<rparr>) v
      else if n = ''tcp_watchdog_enabled'' then Some (s\<lparr>lp_wd_enabled := pv_bool v\<rparr>)
      else if n = ''tcp_watchdog_period_sec'' then set_float cv (\<lambda>x. s\<lparr>lp_wd_period := x\<rparr>) v
      else if n = ''tcp_watchdog_stale_sec'' then set_float cv (\<lambda>x. s\<lparr>lp_wd_stale := x\<rparr>) v
      else Some s)"

text \<open>The parameters whose change asks for a new controller program.\<close>

definition REINJECT_PARAMS :: "string list" where
  "REINJECT_PARAMS =
     [''present_current_reg'', ''present_position_reg'', ''present_position_regs'', ''goal_current_reg'',
      ''goal_position_reg'', ''drl_snap_enabled'', ''plc_feedback_enabled'', ''plc_addr_pos'', ''plc_addr_cur'',
      ''plc_addr_code'']"

text \<open>The loop of the callback: the state reached and whether no conversion raised.\<close>

fun set_params ::
  "py_conv \<Rightarrow> (string \<times> pval) list \<Rightarrow> live_params \<Rightarrow> live_params \<times> bool" where
  "set_params cv [] s = (s, True)"
| "set_params cv ((n, v) # ps) s =
     (case set_param cv n v s of None \<Rightarrow> (s, False) | Some s' \<Rightarrow> set_params cv ps s')"

record param_result =
  pr_successful :: bool
  pr_reinject :: bool

definition on_param_set ::
  "py_conv \<Rightarrow> string \<Rightarrow> bool \<Rightarrow> (string \<times> pval) list \<Rightarrow> live_params \<Rightarrow> live_params \<times> param_result" where
  "on_param_set cv transport extern ps s =
     (case set_params cv ps s of (s', ok) \<Rightarrow>
        (s', \<lparr>pr_successful = ok,
              pr_reinject = (ok \<and> (\<exists>p \<in> set ps. fst p \<in> set REINJECT_PARAMS) \<and> transport = ''tcp'' \<and> \<not> extern)\<rparr>))"

section \<open>Start-up and re-injection\<close>

text \<open>The placeholders of \<open>DRL_SERVER_CODE\<close> and what replaces them.\<close>

record drl_program =
  dp_slave :: int
  dp_port :: int
  dp_protocol :: string
  dp_state_period :: real
  dp_stream :: bool
  dp_frame_wait :: real
  dp_present_cur :: int
  dp_present_pos :: int
  dp_present_pos_regs :: int
  dp_goal_pos :: int
  dp_goal_cur :: int
  dp_snap :: bool
  dp_plc_feedback :: bool
  dp_plc_pos :: int
  dp_plc_cur :: int
  dp_plc_code :: int

record deploy_cfg =
  dy_port :: int
  dy_frame_wait :: real
  dy_external :: bool

definition build_drl_server_code :: "gripper_cfg \<Rightarrow> deploy_cfg \<Rightarrow> live_params \<Rightarrow> drl_program" where
  "build_drl_server_code cfg dy lp =
     \<lparr>dp_slave = gc_slave cfg, dp_port = dy_port dy,
      dp_protocol = (if gc_binary cfg then ''binary'' else ''json''),
      dp_state_period = tcp_state_period_sec cfg, dp_stream = gc_stream_enabled cfg,
      dp_frame_wait = dy_frame_wait dy,
      dp_present_cur = lp_present_cur lp, dp_present_pos = lp_present_pos lp,
      dp_present_pos_regs = lp_present_pos_regs lp, dp_goal_pos = lp_goal_pos lp, dp_goal_cur = lp_goal_cur lp,
      dp_snap = lp_snap lp, dp_plc_feedback = lp_plc_feedback lp, dp_plc_pos = lp_plc_pos lp,
      dp_plc_cur = lp_plc_cur lp, dp_plc_code = lp_plc_code lp\<rparr>"

text \<open>What the constructor does with the PLC addresses it reads.\<close>

definition start_params :: "live_params \<Rightarrow> live_params" where
  "start_params lp =
     (if lp_plc_feedback lp
      then lp\<lparr>lp_plc_pos := clamp_plc_out_int_addr (lp_plc_pos lp), lp_plc_cur := clamp_plc_out_int_addr (lp_plc_cur lp),
              lp_plc_code := clamp_plc_out_int_addr (lp_plc_code lp)\<rparr>
      else lp)"

text \<open>One attempt of the external mode connects without resetting anything and without a handshake.\<close>

fun external_attempts :: "bool list \<Rightarrow> gripper_node \<Rightarrow> bool \<times> gripper_node" where
  "external_attempts [] s = (False, s)"
| "external_attempts (ok # tries) s = (if ok then (True, s\<lparr>gn_active := True\<rparr>) else external_attempts tries s)"

text \<open>The attempts of the start-up: as those of a reconnection, but without setting the pong time.\<close>

fun start_attempts ::
  "gripper_cfg \<Rightarrow> json_env \<Rightarrow> (bool \<times> wait_env) list \<Rightarrow> gripper_node \<Rightarrow> bool \<times> gripper_node" where
  "start_attempts cfg js [] s = (False, s)"
| "start_attempts cfg js ((ok, e) # tries) s =
     (if \<not> ok then start_attempts cfg js tries s
      else (case tcp_handshake cfg js e (fresh_socket s) of
          (True, s1) \<Rightarrow> (True, s1)
        | (False, s1) \<Rightarrow> start_attempts cfg js tries (s1\<lparr>gn_active := False\<rparr>)))"

datatype start_result =
    Start_Virtual | Start_External bool | Start_Again | Start_No_Service
  | Start_Drl bool | Start_Drl_Raised wire_error | Start_Tcp drl_program bool

record start_env =
  se_service_ready :: bool
  se_drl_answer :: "bool option option"
  se_external :: "bool list"
  se_tries :: "(bool \<times> wait_env) list"

definition init_packets :: "gripper_cfg \<Rightarrow> (wire_error, bytes list) result" where
  "init_packets cfg =
     (case fc06 (gc_slave cfg) 256 1 of Inl e \<Rightarrow> Inl e
      | Inr torque_on \<Rightarrow>
         (case fc06 (gc_slave cfg) 275 (gc_cur_init cfg) of Inl e \<Rightarrow> Inl e | Inr current \<Rightarrow> Inr [torque_on, current]))"

text \<open>\<open>attempt\<close> counts the rounds in which the DRL service was not ready yet.\<close>

definition init_drl_server ::
  "gripper_cfg \<Rightarrow> deploy_cfg \<Rightarrow> live_params \<Rightarrow> json_env \<Rightarrow> start_env \<Rightarrow> nat \<Rightarrow> gripper_node
   \<Rightarrow> start_result \<times> nat \<times> gripper_node" where
  "init_drl_server cfg dy lp js e attempt s =
     (if gc_mode cfg = ''virtual'' then (Start_Virtual, attempt, s)
      else if gc_transport cfg = ''tcp'' \<and> dy_external dy
      then (case external_attempts (take 15 (se_external e)) s of (ok, s') \<Rightarrow> (Start_External ok, attempt, s'))
      else if \<not> se_service_ready e
      then (if attempt + 1 \<le> 60 then (Start_Again, attempt + 1, s) else (Start_No_Service, attempt + 1, s))
      else if gc_transport cfg = ''drl''
      then (case init_packets cfg of
              Inl w \<Rightarrow> (Start_Drl_Raised w, 0, s)
            | Inr ps \<Rightarrow> (Start_Drl (call_drl True (se_drl_answer e)), 0, s))
      else (case start_attempts cfg js (take 15 (se_tries e)) s of
              (ok, s') \<Rightarrow> (Start_Tcp (build_drl_server_code cfg dy lp) ok, 0, s')))"

text \<open>The rounds of the timer: \<open>init_drl_server\<close> is called again only after \<open>Start_Again\<close>.\<close>

fun start_up ::
  "gripper_cfg \<Rightarrow> deploy_cfg \<Rightarrow> live_params \<Rightarrow> json_env \<Rightarrow> start_env list \<Rightarrow> nat \<Rightarrow> gripper_node
   \<Rightarrow> start_result \<times> gripper_node" where
  "start_up cfg dy lp js [] attempt s = (Start_Again, s)"
| "start_up cfg dy lp js (e # es) attempt s =
     (case init_drl_server cfg dy lp js e attempt s of
        (Start_Again, attempt', s') \<Rightarrow> start_up cfg dy lp js es attempt' s'
      | (r, _, s') \<Rightarrow> (r, s'))"

text \<open>
  \<open>_reinject_tcp_server\<close>; \<open>busy\<close>: another reconnection holds the lock. The stop text on the old
  socket is sent when that socket is up and \<open>stop_ok\<close>. The result names the program sent, if any.
\<close>

definition STOP_FRAME :: bytes where
  "STOP_FRAME = be16 4 @ stop_text"

definition reinject_tcp_server ::
  "gripper_cfg \<Rightarrow> deploy_cfg \<Rightarrow> live_params \<Rightarrow> json_env \<Rightarrow> bool \<Rightarrow> bool \<Rightarrow> bool \<Rightarrow> (bool \<times> wait_env \<times> real) list
   \<Rightarrow> gripper_node \<Rightarrow> (drl_program option \<times> bool) \<times> gripper_node" where
  "reinject_tcp_server cfg dy lp js busy stop_ok ready tries s =
     (if busy then ((None, gn_active s), s)
      else let s1 = (if gn_active s \<and> stop_ok then s\<lparr>gn_out := gn_out s @ [STOP_FRAME]\<rparr> else s);
               s2 = s1\<lparr>gn_active := False, gn_last_state := 0, gn_last_pong := 0\<rparr>
           in if \<not> ready then ((None, False), s2)
              else (case reconnect_attempts cfg js (take 10 tries) s2 of
                      (ok, s3) \<Rightarrow> ((Some (build_drl_server_code cfg dy lp), ok), s3)))"

section \<open>What these operations guarantee\<close>

lemma prog_writes_append [simp]: "prog_writes (a @ b) = prog_writes a @ prog_writes b"
  by (simp add: prog_writes_def)

lemma write_program_sends_packets:
  "prog_writes (build_drl_write_packets ps w t) = ps \<and>
   hd (build_drl_write_packets ps w t) = Serial_Open \<and> last (build_drl_write_packets ps w t) = Serial_Close"
proof -
  have "prog_writes (concat (map (\<lambda>p. [Serial_Write p, Drl_Wait w, Call_Flush]) ps)) = ps"
    by (induction ps) (simp_all add: prog_writes_def)
  then show ?thesis by (simp add: build_drl_write_packets_def) (simp add: prog_writes_def)
qed

text \<open>The controller answered on the link that is up.\<close>

definition answered_link :: "gripper_node \<Rightarrow> bool" where
  "answered_link s \<longleftrightarrow> gn_pong s \<or> gn_hello s \<or> gn_state s"

lemma handshake_answered: "tcp_handshake cfg js e s = (True, s') \<Longrightarrow> answered_link s'"
  by (auto simp: tcp_handshake_def answered_link_def Let_def split: option.splits)

lemma start_attempts_answered:
  "start_attempts cfg js tries s = (ok, s') \<Longrightarrow> \<not> gn_active s \<Longrightarrow>
     (ok \<longrightarrow> answered_link s') \<and> (gn_active s' \<longrightarrow> ok)"
proof (induction tries arbitrary: s)
  case (Cons t tries)
  obtain c e where t: "t = (c, e)" by (cases t)
  obtain h s1 where h: "tcp_handshake cfg js e (fresh_socket s) = (h, s1)" by (metis surj_pair)
  consider (none) "\<not> c" | (silent) "c" "\<not> h" | (up) "c" "h" by blast
  then show ?case
  proof cases
    case none
    then show ?thesis using Cons.IH [of s] Cons.prems by (simp add: t)
  next
    case silent
    then have "start_attempts cfg js tries (s1\<lparr>gn_active := False\<rparr>) = (ok, s')"
      using Cons.prems(1) h by (simp add: t)
    then show ?thesis by (rule Cons.IH) simp
  next
    case up
    then show ?thesis using Cons.prems h handshake_answered by (auto simp: t)
  qed
qed simp

lemma reconnect_attempts_answered:
  "reconnect_attempts cfg js tries s = (ok, s') \<Longrightarrow> \<not> gn_active s \<Longrightarrow>
     (ok \<longrightarrow> answered_link s') \<and> (gn_active s' \<longrightarrow> ok)"
proof (induction tries arbitrary: s)
  case (Cons t tries)
  obtain c e now where t: "t = (c, e, now)" by (cases t)
  obtain h s1 where h: "tcp_handshake cfg js e (fresh_socket s) = (h, s1)" by (metis surj_pair)
  consider (none) "\<not> c" | (silent) "c" "\<not> h" | (up) "c" "h" by blast
  then show ?case
  proof cases
    case none
    then show ?thesis using Cons.IH [of s] Cons.prems by (simp add: t)
  next
    case silent
    then have "reconnect_attempts cfg js tries (s1\<lparr>gn_active := False\<rparr>) = (ok, s')"
      using Cons.prems(1) h by (simp add: t)
    then show ?thesis by (rule Cons.IH) simp
  next
    case up
    then have "answered_link s1" "s' = s1\<lparr>gn_last_pong := now\<rparr>" "ok"
      using Cons.prems h handshake_answered by (auto simp: t)
    then show ?thesis by (simp add: answered_link_def)
  qed
qed simp

text \<open>
  Whichever procedure brings the link up (start-up, both reconnections, a re-injection), it is up only
  if the procedure reports success, and success means that the controller has answered.
\<close>

theorem link_up_means_answered:
  assumes "\<not> gn_active s"
    and "(\<exists>prog attempt. init_drl_server cfg dy lp js e attempt s = (Start_Tcp prog ok, attempt', s'))
      \<or> reconnect_tcp_only cfg js tries s = (ok, s') \<or> reconnect_with_reinject cfg js tries s = (ok, s')
      \<or> (\<exists>prog stop_ok ready. reinject_tcp_server cfg dy lp js False stop_ok ready tries s = ((prog, ok), s'))"
  shows "(ok \<longrightarrow> answered_link s') \<and> (gn_active s' \<longrightarrow> ok)"
  using assms(2)
proof (elim disjE exE)
  fix prog attempt
  assume "init_drl_server cfg dy lp js e attempt s = (Start_Tcp prog ok, attempt', s')"
  then have "start_attempts cfg js (take 15 (se_tries e)) s = (ok, s')"
    by (auto simp: init_drl_server_def split: if_splits prod.splits sum.splits)
  then show ?thesis using assms(1) by (rule start_attempts_answered)
next
  assume "reconnect_tcp_only cfg js tries s = (ok, s')"
  then show ?thesis unfolding reconnect_tcp_only_def by (rule reconnect_attempts_answered) simp
next
  assume "reconnect_with_reinject cfg js tries s = (ok, s')"
  then show ?thesis unfolding reconnect_with_reinject_def using assms(1) by (rule reconnect_attempts_answered)
next
  fix prog stop_ok ready
  assume r: "reinject_tcp_server cfg dy lp js False stop_ok ready tries s = ((prog, ok), s')"
  let ?s = "s\<lparr>gn_active := False, gn_last_state := 0, gn_last_pong := 0\<rparr>"
  show ?thesis
  proof (cases ready)
    case True
    then have "reconnect_attempts cfg js (take 10 tries) ?s = (ok, s')"
      using r assms(1) by (auto simp: reinject_tcp_server_def Let_def split: prod.splits)
    then show ?thesis by (rule reconnect_attempts_answered) simp
  next
    case False
    then show ?thesis using r assms(1) by (auto simp: reinject_tcp_server_def Let_def)
  qed
qed

text \<open>A failing conversion stops the callback, but what was set before it stays set.\<close>

lemma set_params_prefix:
  "set_params cv ps s = (s', False) \<Longrightarrow>
     \<exists>qs n v rs. ps = qs @ (n, v) # rs \<and> set_params cv qs s = (s', True) \<and> set_param cv n v s' = None"
proof (induction ps arbitrary: s)
  case (Cons p ps)
  obtain n v where p: "p = (n, v)" by (cases p)
  show ?case
  proof (cases "set_param cv n v s")
    case None
    then have "p # ps = [] @ (n, v) # ps \<and> set_params cv [] s = (s', True) \<and> set_param cv n v s' = None"
      using Cons.prems by (simp add: p)
    then show ?thesis by blast
  next
    case (Some t)
    then obtain qs m w rs where "ps = qs @ (m, w) # rs" "set_params cv qs t = (s', True)" "set_param cv m w s' = None"
      using Cons.IH [of t] Cons.prems by (auto simp: p)
    then have "p # ps = (p # qs) @ (m, w) # rs \<and> set_params cv (p # qs) s = (s', True) \<and> set_param cv m w s' = None"
      using Some by (simp add: p)
    then show ?thesis by blast
  qed
qed simp

text \<open>The addresses are clamped at start-up only: a parameter change sends any value to the controller.\<close>

lemma start_addresses_in_range:
  "lp_plc_feedback lp \<Longrightarrow> lp_plc_pos (start_params lp) \<in> {0..23} \<and> lp_plc_cur (start_params lp) \<in> {0..23}
     \<and> lp_plc_code (start_params lp) \<in> {0..23}"
  by (simp add: start_params_def clamp_plc_out_int_addr_def)

lemma later_addresses_unchecked:
  "on_param_set cv ''tcp'' False [(''plc_addr_pos'', PV_int a)] lp =
     (lp\<lparr>lp_plc_pos := a\<rparr>, \<lparr>pr_successful = True, pr_reinject = True\<rparr>)
   \<and> dp_plc_pos (build_drl_server_code cfg dy (fst (on_param_set cv ''tcp'' False [(''plc_addr_pos'', PV_int a)] lp))) = a"
  by (simp add: on_param_set_def set_param_def set_int_def pv_int_def REINJECT_PARAMS_def build_drl_server_code_def)

text \<open>
  The polling program of drl mode reads the high word first, while its move command (and the other
  readers) put the low word first. A position that equals the target is therefore not recognised.
\<close>

definition position_reply :: "int \<Rightarrow> bytes" where
  "position_reply pos = [1, 3, 4] @ be16 (pos mod 65536) @ be16 (pos div 65536) @ [0, 0]"

lemma position_reply_read:
  assumes "0 \<le> pos" "pos < 65536"
  shows "poll_pos_reply (position_reply pos) = Some (pos * 65536)"
    and "two_regs (position_reply pos) = Some pos"
proof -
  obtain a b where ab: "be16 pos = [a, b]" by (simp add: be16_def)
  have low: "pos mod 65536 = pos" "pos div 65536 = 0" using assms by simp_all
  have val: "get16 a b = pos" using get16_be16 [OF assms] by (simp add: ab)
  have zero: "be16 0 = [0, 0]" "get16 0 0 = 0" by (simp_all add: be16_def get16_def)
  have small: "\<not> 2147483648 \<le> pos" using assms(2) by simp
  show "poll_pos_reply (position_reply pos) = Some (pos * 65536)"
    "two_regs (position_reply pos) = Some pos"
    by (simp_all add: poll_pos_reply_def two_regs_def position_reply_def low ab val zero small two_compl_def)
qed

lemma poll_never_arrives:
  assumes "0 < target" "target < 65536" "0 \<le> tol" "tol < target * 65535"
    and "poll_cur_reply c = Some v" "\<bar>v\<bar> \<le> threshold"
  shows "poll_loop n target threshold tol (concat (replicate n [c, position_reply target])) = (False, [])"
proof (induction n)
  case (Suc n)
  let ?rs = "concat (replicate n [c, position_reply target])"
  have cur: "poll_read_cur (c # position_reply target # ?rs) = (v, position_reply target # ?rs)"
    using assms(5) by (simp add: poll_read_cur_def or_no_value_def numeral_3_eq_3)
  have pos: "poll_read_pos (position_reply target # ?rs) = (target * 65536, ?rs)"
    using position_reply_read [of target] assms(1,2) by (simp add: poll_read_pos_def or_no_value_def numeral_3_eq_3)
  have "\<not> target * 65536 \<le> target + tol" using assms(4) by simp
  then show ?case using Suc cur pos assms(6) by simp
qed simp

text \<open>
  C38: In drl mode a move to any reachable target is never recognised as finished by
  its position: even if every reply reports exactly the commanded target (as the other readers would
  decode it), the program runs through all its rounds unless the current exceeds the threshold.
\<close>
theorem drl_move_never_arrives:
  assumes "0 < target" "target < 65536" "0 \<le> tol" "tol < target * 65535"
    and "poll_cur_reply c = Some v" "\<bar>v\<bar> \<le> threshold"
    and "drl_move_and_poll slave target cur threshold tol n (concat (replicate n [c, position_reply target])) = Inr (ws, arrived)"
  shows "\<not> arrived \<and> two_regs (position_reply target) = Some target \<and>
    (\<exists>w1 w2. ws = [w1, w2] \<and> fc06 slave 275 cur = Inr w1 \<and> fc16 slave 282 2 [target, 0] = Inr w2)"
proof -
  have "fst (poll_loop n target threshold tol (concat (replicate n [c, position_reply target]))) = False"
    using poll_never_arrives [OF assms(1-6), of n] by simp
  with assms(7) have "\<not> arrived"
    by (auto simp: drl_move_and_poll_def split: sum.splits)
  moreover have "two_regs (position_reply target) = Some target"
    using position_reply_read(2) [of target] assms(1,2) by simp
  ultimately show ?thesis
    using assms(7) by (auto simp: drl_move_and_poll_def split: sum.splits)
qed

theorem drl_move_never_arrives_witness:
  "\<exists>ws. drl_move_and_poll 1 700 300 50 20 50 (concat (replicate 50 [[1, 3, 2, 0, 10, 0, 0], position_reply 700])) = Inr (ws, False)"
proof -
  let ?rs = "concat (replicate 50 [[1, 3, 2, 0, 10, 0, 0], position_reply 700])"
  obtain ws arrived where run: "drl_move_and_poll 1 700 300 50 20 50 ?rs = Inr (ws, arrived)"
    by (simp add: drl_move_and_poll_def fc06_def fc16_def fc03_def with_crc_def cat_results.simps pack_H_def pack_B_def
      one_byte_def split: sum.split)
  have cur: "poll_cur_reply [1, 3, 2, 0, 10, 0, 0] = Some 10"
    by (simp add: poll_cur_reply_def get16_def two_compl_def)
  have "\<not> arrived"
    using drl_move_never_arrives [OF _ _ _ _ cur _ run] by simp
  with run show ?thesis by auto
qed

end
