(* ===== verification/GripperProgram.thy ===== *)
theory GripperProgram imports GripperWire VoiceNodes begin

text \<open>
  The main loop of the program that \<open>motion/gripper_node.py\<close> puts on the robot controller
  (\<open>DRL_SERVER_CODE\<close>), for both of its protocols: messages in JSON, the registers it mirrors for
  the PLC, the dump of registers and the stream of states. Its binary packets are those of
  \<open>GripperWire\<close>.

  Encoding and decoding JSON is an argument; a JSON value is the type the voice model uses. Bytes the
  program writes to the serial line to read a register are part of the reading.
\<close>

section \<open>Hexadecimal frames\<close>

definition hex_digit :: "int \<Rightarrow> int option" where
  "hex_digit c =
     (if 48 \<le> c \<and> c \<le> 57 then Some (c - 48)
      else if 97 \<le> c \<and> c \<le> 102 then Some (c - 87)
      else if 65 \<le> c \<and> c \<le> 70 then Some (c - 55) else None)"

definition ascii_space :: "int \<Rightarrow> bool" where
  "ascii_space c \<longleftrightarrow> (9 \<le> c \<and> c \<le> 13) \<or> c = 32"

text \<open>\<open>bytes.fromhex\<close>: blanks may stand between bytes; \<open>None\<close> is the ValueError.\<close>

fun from_hex :: "utext \<Rightarrow> bytes option" where
  "from_hex [] = Some []"
| "from_hex [c] = (if ascii_space c then Some [] else None)"
| "from_hex (c # d # cs) =
     (if ascii_space c then from_hex (d # cs)
      else (case (hex_digit c, hex_digit d) of
              (Some h, Some l) \<Rightarrow> map_option ((#) (word_of_int (16 * h + l))) (from_hex cs)
            | _ \<Rightarrow> None))"

text \<open>\<open>bytes.hex\<close>, which the node uses.\<close>

definition hex_char :: "int \<Rightarrow> int" where
  "hex_char n = (if n < 10 then n + 48 else n + 87)"

definition to_hex :: "bytes \<Rightarrow> utext" where
  "to_hex bs = concat (map (\<lambda>b. [hex_char (uint b div 16), hex_char (uint b mod 16)]) bs)"

section \<open>What the program does\<close>

datatype json_out =
    Hello int int
  | Pong
  | Ack json bool utext
  | Snap json "(int \<times> int) list"
  | State_Msg int int int int int

datatype drl_act =
    Sent_Json json_out
  | Sent_Bytes bytes
  | Written bytes
  | Plc_Int int int

record program =
  pr_slave_id :: int
  pr_tcp_port :: int
  pr_binary :: bool
  pr_regs :: drl_cfg
  pr_goal_cur_reg :: int
  pr_goal_pos_reg :: int
  pr_state_enabled :: bool
  pr_state_period :: real
  pr_snap :: bool
  pr_plc_feedback :: bool
  pr_plc_pos :: int
  pr_plc_cur :: int
  pr_plc_code :: int

text \<open>
  The controller: what \<open>flange_serial_write\<close> raises, if anything, for a frame, the texts of the errors for
  a frame that is no hexadecimal text and for frames that are no list, and how a message is decoded.
\<close>

record drl_controller =
  ct_write :: "bytes \<Rightarrow> utext option"
  ct_utf8 :: "utext \<Rightarrow> bytes"
  ct_hex_error :: "json \<Rightarrow> utext"
  ct_iter_error :: "json \<Rightarrow> utext"
  ct_loads :: "bytes \<Rightarrow> json option"

definition plc_write_int :: "program \<Rightarrow> int \<Rightarrow> int \<Rightarrow> drl_act list" where
  "plc_write_int P addr val = (if pr_plc_feedback P then [Plc_Int (max 0 (min 23 addr)) val] else [])"

text \<open>What \<open>for x in frames\<close> runs over.\<close>

fun json_iter :: "json \<Rightarrow> json list option" where
  "json_iter (JList xs) = Some xs"
| "json_iter (JStr s) = Some (map (\<lambda>c. JStr [c]) s)"
| "json_iter (JObj es) = Some (map (\<lambda>e. JStr (fst e)) es)"
| "json_iter _ = None"

text \<open>The success flag, the error text and the frames written.\<close>

fun json_frames :: "drl_controller \<Rightarrow> json list \<Rightarrow> bool \<times> utext \<times> bytes list" where
  "json_frames C [] = (True, [], [])"
| "json_frames C (x # xs) =
     (case x of
        JStr h \<Rightarrow>
          (case from_hex h of None \<Rightarrow> (False, ct_hex_error C x, [])
           | Some pkt \<Rightarrow>
               (case ct_write C pkt of Some e \<Rightarrow> (False, e, [])
                | None \<Rightarrow> (case json_frames C xs of (ok, err, fs) \<Rightarrow> (ok, err, pkt # fs))))
      | _ \<Rightarrow> (False, ct_hex_error C x, []))"

fun read_snap :: "int list \<Rightarrow> bytes list \<Rightarrow> (int \<times> int) list \<times> bytes list" where
  "read_snap [] rs = ([], rs)"
| "read_snap (a # as) rs =
     (case drl_read_reg16 rs of (v, rs1) \<Rightarrow> (case read_snap as rs1 of (vs, rs2) \<Rightarrow> ((a, v) # vs, rs2)))"

definition SNAP_REGS :: "int list" where "SNAP_REGS = [270 .. 290]"

text \<open>
  One message: what is done, and the replies of the serial line that are left. \<open>None\<close> is the
  AttributeError of a message that is not an object, which nothing catches.
\<close>

definition json_command :: "program \<Rightarrow> drl_controller \<Rightarrow> json \<Rightarrow> bytes list \<Rightarrow> (drl_act list \<times> bytes list) option" where
  "json_command P C m rs =
     (case m of
        JObj es \<Rightarrow>
          Some (if json_get (asc ''type'') es (JStr []) = JStr (asc ''ping'') then ([Sent_Json Pong], rs)
          else let cmd_id = json_get (asc ''id'') es (JInt 0);
                   frames = json_get (asc ''frames'') es (JList []);
                   (ok, err, fs) = (case json_iter frames of None \<Rightarrow> (False, ct_iter_error C frames, [])
                                    | Some xs \<Rightarrow> json_frames C xs);
                   acts = map Written fs @ [Sent_Json (Ack cmd_id ok err)]
                     @ plc_write_int P (pr_plc_code P) (if ok then 1 else - 1)
               in if pr_snap P
                  then (case read_snap SNAP_REGS rs of (snap, rs1) \<Rightarrow> (acts @ [Sent_Json (Snap cmd_id snap)], rs1))
                  else (acts, rs))
      | _ \<Rightarrow> None)"

text \<open>The messages of one round; the flag says whether the program goes on.\<close>

fun json_serve :: "program \<Rightarrow> drl_controller \<Rightarrow> json list \<Rightarrow> bytes list \<Rightarrow> drl_act list \<times> bytes list \<times> bool" where
  "json_serve P C [] rs = ([], rs, True)"
| "json_serve P C (m # ms) rs =
     (case json_command P C m rs of None \<Rightarrow> ([], rs, False)
      | Some (acts, rs1) \<Rightarrow> (case json_serve P C ms rs1 of (acts', rs2, go) \<Rightarrow> (acts @ acts', rs2, go)))"

datatype json_rx = Json_Closed | Json_Stop | Json_Messages "json list"

text \<open>\<open>_drain_rx_json\<close>: messages that do not decode are skipped.\<close>

fun drain_rx_json :: "drl_controller \<Rightarrow> bytes list \<Rightarrow> bytes \<Rightarrow> json_rx \<times> bytes" where
  "drain_rx_json C [] buf = (case json_split buf of (bs, r) \<Rightarrow> (Json_Messages (List.map_filter (ct_loads C) bs), r))"
| "drain_rx_json C (raw # raws) buf =
     (if raw = [] then (Json_Closed, buf)
      else if has_stop raw then (Json_Stop, buf)
      else drain_rx_json C raws (buf @ raw))"

text \<open>The binary packets of a round, with what the PLC sees.\<close>

fun bin_serve :: "program \<Rightarrow> drl_controller \<Rightarrow> packet list \<Rightarrow> drl_act list" where
  "bin_serve P C [] = []"
| "bin_serve P C ((mtype, sq, payload) # ps) =
     (if mtype = TCP_T_PING then Sent_Bytes (sent_or_nothing (send_bin TCP_T_PONG sq [])) # bin_serve P C ps
      else if mtype = TCP_T_STOP then []
      else if mtype \<noteq> TCP_T_CMD then bin_serve P C ps
      else (case drl_command (\<lambda>b. map_option (ct_utf8 C) (ct_write C b)) payload of (ok, err, fs) \<Rightarrow>
              map Written fs @ [Sent_Bytes (sent_or_nothing (send_bin TCP_T_ACK sq (ack_payload ok err)))]
              @ plc_write_int P (pr_plc_code P) (if ok then 1 else - 1) @ bin_serve P C ps))"

text \<open>A sample: current and position, and the goal registers read after them.\<close>

definition sample_values :: "drl_cfg \<Rightarrow> bytes list \<Rightarrow> (int \<times> int \<times> int \<times> int \<times> int) option \<times> bytes list" where
  "sample_values cfg rs =
     (case drl_read_cur_pos cfg rs of ((cur, pos), rs1) \<Rightarrow>
       if cur \<noteq> no_value \<and> pos \<noteq> no_value
       then (case drl_read_reg16 rs1 of (gcur, rs2) \<Rightarrow>
              (case drl_read_reg16 rs2 of (lo, rs3) \<Rightarrow>
                (case drl_read_reg16 rs3 of (hi, rs4) \<Rightarrow> (Some (cur, pos, gcur, lo, hi), rs4))))
       else (None, rs1))"

definition state_round :: "program \<Rightarrow> bytes list \<Rightarrow> drl_act list \<times> bytes list" where
  "state_round P rs =
     (case sample_values (pr_regs P) rs of
        (None, rs1) \<Rightarrow> ([], rs1)
      | (Some (cur, pos, gcur, lo, hi), rs1) \<Rightarrow>
          (plc_write_int P (pr_plc_cur P) cur @ plc_write_int P (pr_plc_pos P) pos @
           [if pr_binary P then Sent_Bytes (sent_or_nothing (send_bin TCP_T_STATE 0 (state_payload cur pos gcur lo hi)))
            else Sent_Json (State_Msg cur pos gcur lo hi)], rs1))"

record drl_run =
  dr_rx :: bytes
  dr_last_state :: real
  dr_alive :: bool

definition drl_hello :: "program \<Rightarrow> drl_act list" where
  "drl_hello P =
     (if pr_binary P then Sent_Bytes (sent_or_nothing (send_bin TCP_T_PONG 0 []))
      else Sent_Json (Hello (pr_slave_id P) (pr_tcp_port P))) # plc_write_int P (pr_plc_code P) 0"

text \<open>One round of \<open>while True\<close>: the chunks that have arrived, the time, and the serial replies.\<close>

definition drl_commands ::
  "program \<Rightarrow> drl_controller \<Rightarrow> bytes list \<Rightarrow> bytes list \<Rightarrow> drl_run \<Rightarrow> drl_act list \<times> bytes list \<times> drl_run" where
  "drl_commands P C raws rs s =
     (if pr_binary P
      then (case drl_recv raws (dr_rx s) of
              (Rx_Packets ps, r) \<Rightarrow> (bin_serve P C ps, rs, s\<lparr>dr_rx := r\<rparr>)
            | (_, r) \<Rightarrow> ([], rs, s\<lparr>dr_rx := r, dr_alive := False\<rparr>))
      else (case drain_rx_json C raws (dr_rx s) of
              (Json_Messages ms, r) \<Rightarrow>
                (case json_serve P C ms rs of (acts, rs1, go) \<Rightarrow> (acts, rs1, s\<lparr>dr_rx := r, dr_alive := go\<rparr>))
            | (_, r) \<Rightarrow> ([], rs, s\<lparr>dr_rx := r, dr_alive := False\<rparr>)))"

definition drl_round ::
  "program \<Rightarrow> drl_controller \<Rightarrow> bytes list \<Rightarrow> real \<Rightarrow> bytes list \<Rightarrow> drl_run \<Rightarrow> drl_act list \<times> drl_run" where
  "drl_round P C raws now rs s =
     (case drl_commands P C raws rs s of (acts, rs1, s1) \<Rightarrow>
        if \<not> dr_alive s1 then (acts, s1)
        else if pr_state_enabled P \<and> pr_state_period P \<le> now - dr_last_state s1
        then (acts @ fst (state_round P rs1), s1\<lparr>dr_last_state := now\<rparr>)
        else (acts, s1))"

section \<open>What reaches the gripper\<close>

lemma hex_digit_char: "0 \<le> n \<Longrightarrow> n < 16 \<Longrightarrow> hex_digit (hex_char n) = Some n \<and> \<not> ascii_space (hex_char n)"
  by (auto simp: hex_digit_def hex_char_def ascii_space_def)

text \<open>The controller reads back every frame the node has written in hexadecimal.\<close>

lemma from_to_hex: "from_hex (to_hex bs) = Some bs"
proof (induction bs)
  case (Cons b bs)
  have "0 \<le> uint b" "uint b < 256" using uint_range_size [of b] by (auto simp: word_size)
  then have "0 \<le> uint b div 16 \<and> uint b div 16 < 16" "0 \<le> uint b mod 16 \<and> uint b mod 16 < 16" by presburger+
  then have "hex_digit (hex_char (uint b div 16)) = Some (uint b div 16)" "\<not> ascii_space (hex_char (uint b div 16))"
    "hex_digit (hex_char (uint b mod 16)) = Some (uint b mod 16)"
    using hex_digit_char by blast+
  moreover have "16 * (uint b div 16) + uint b mod 16 = uint b" by simp
  ultimately show ?case using Cons by (simp add: to_hex_def)
qed (simp add: to_hex_def)

lemma json_frames_hex:
  assumes "\<forall>b \<in> set bs. ct_write C b = None"
  shows "json_frames C (map (\<lambda>b. JStr (to_hex b)) bs) = (True, [], bs)"
  using assms by (induction bs) (simp_all add: from_to_hex)

text \<open>A command of the node is written frame by frame, acknowledged under its number, and shown to the PLC.\<close>

lemma json_command_runs:
  assumes "\<forall>b \<in> set bs. ct_write C b = None" "\<not> pr_snap P"
  shows "json_command P C (JObj [(asc ''type'', JStr (asc ''cmd'')), (asc ''id'', JInt i),
      (asc ''frames'', JList (map (\<lambda>b. JStr (to_hex b)) bs))]) rs
    = Some (map Written bs @ [Sent_Json (Ack (JInt i) True [])] @ plc_write_int P (pr_plc_code P) 1, rs)"
  using assms json_frames_hex [OF assms(1)]
  by (simp add: json_command_def json_get_def asc_def)

text \<open>What a frame's failure leaves: the frames before it are written, none after it.\<close>

lemma json_frames_stop:
  "json_frames C xs = (ok, err, fs) \<Longrightarrow>
   (ok \<longleftrightarrow> (\<exists>bs. list_all2 (\<lambda>x b. \<exists>h. x = JStr h \<and> from_hex h = Some b \<and> ct_write C b = None) xs bs \<and> fs = bs)) \<and>
   (\<exists>k \<le> length xs. list_all2 (\<lambda>x b. \<exists>h. x = JStr h \<and> from_hex h = Some b \<and> ct_write C b = None) (take k xs) fs)"
proof (induction xs arbitrary: ok err fs)
  case (Cons x xs)
  show ?case
  proof (cases "\<exists>h pkt. x = JStr h \<and> from_hex h = Some pkt \<and> ct_write C pkt = None")
    case True
    then obtain h pkt where x: "x = JStr h" "from_hex h = Some pkt" "ct_write C pkt = None" by blast
    obtain ok1 err1 fs1 where rec: "json_frames C xs = (ok1, err1, fs1)" by (metis prod_cases3)
    have res: "ok = ok1" "fs = pkt # fs1" using Cons.prems x rec by auto
    obtain k where k: "k \<le> length xs"
      "list_all2 (\<lambda>x b. \<exists>h. x = JStr h \<and> from_hex h = Some b \<and> ct_write C b = None) (take k xs) fs1"
      using Cons.IH [OF rec] by blast
    have "Suc k \<le> length (x # xs)"
      "list_all2 (\<lambda>x b. \<exists>h. x = JStr h \<and> from_hex h = Some b \<and> ct_write C b = None) (take (Suc k) (x # xs)) fs"
      using k x res by auto
    then show ?thesis using Cons.IH [OF rec] x res by (fastforce simp: list_all2_Cons1)
  next
    case False
    then have "\<not> ok" "fs = []" using Cons.prems by (auto split: json.splits option.splits)
    then show ?thesis using False by (auto simp: list_all2_Cons1 intro!: exI [of _ 0])
  qed
qed auto

text \<open>Every command among well-formed messages is answered by exactly one acknowledgement.\<close>

definition is_ping :: "json \<Rightarrow> bool" where
  "is_ping m = (case m of JObj es \<Rightarrow> json_get (asc ''type'') es (JStr []) = JStr (asc ''ping'') | _ \<Rightarrow> False)"

definition is_obj :: "json \<Rightarrow> bool" where
  "is_obj m = (case m of JObj es \<Rightarrow> True | _ \<Rightarrow> False)"

definition ack_count :: "drl_act list \<Rightarrow> nat" where
  "ack_count acts = length (filter (\<lambda>a. case a of Sent_Json (Ack _ _ _) \<Rightarrow> True | _ \<Rightarrow> False) acts)"

lemma ack_count_parts [simp]:
  "ack_count [] = 0" "ack_count (a @ b) = ack_count a + ack_count b" "ack_count (map Written fs) = 0"
  "ack_count (plc_write_int P r v) = 0"
  "ack_count (Sent_Json Pong # a) = ack_count a" "ack_count (Sent_Json (Ack i ok e) # a) = Suc (ack_count a)"
  "ack_count (Sent_Json (Snap i sn) # a) = ack_count a"
  by (simp_all add: ack_count_def plc_write_int_def comp_def filter_map)

lemma json_command_acks:
  assumes "json_command P C m rs = Some (acts, rs')"
  shows "ack_count acts = (if is_ping m then 0 else 1)"
  using assms
  by (auto simp: json_command_def is_ping_def Let_def split: json.splits if_splits prod.splits)

lemma json_serve_acks:
  "json_serve P C ms rs = (acts, rs', go) \<Longrightarrow>
   (go \<longleftrightarrow> list_all is_obj ms) \<and> ack_count acts = length (filter (\<lambda>m. \<not> is_ping m) (takeWhile is_obj ms))"
proof (induction ms arbitrary: rs acts rs' go)
  case (Cons m ms)
  show ?case
  proof (cases "json_command P C m rs")
    case None
    then have "\<not> is_obj m" by (auto simp: json_command_def is_obj_def Let_def split: json.splits if_splits prod.splits)
    then show ?thesis using Cons.prems None by auto
  next
    case (Some r)
    obtain a1 rs1 where r: "json_command P C m rs = Some (a1, rs1)" using Some by (cases r) auto
    obtain a2 rs2 g where rec: "json_serve P C ms rs1 = (a2, rs2, g)" by (metis prod_cases3)
    have "is_obj m" using r by (auto simp: json_command_def is_obj_def split: json.splits)
    moreover have "acts = a1 @ a2" "go = g" using Cons.prems r rec by auto
    ultimately show ?thesis using Cons.IH [OF rec] json_command_acks [OF r] by auto
  qed
qed simp

text \<open>In the binary protocol the link sees what the packet model of \<open>GripperWire\<close> says.\<close>

definition act_bytes :: "drl_act list \<Rightarrow> bytes" where
  "act_bytes acts = concat (map (\<lambda>a. case a of Sent_Bytes b \<Rightarrow> b | _ \<Rightarrow> []) acts)"

definition act_frames :: "drl_act list \<Rightarrow> bytes list" where
  "act_frames acts = concat (map (\<lambda>a. case a of Written b \<Rightarrow> [b] | _ \<Rightarrow> []) acts)"

lemma act_parts [simp]:
  "act_bytes [] = []" "act_bytes (a @ b) = act_bytes a @ act_bytes b" "act_bytes (map Written fs) = []"
  "act_bytes (Sent_Bytes x # a) = x @ act_bytes a" "act_bytes (plc_write_int P r v) = []"
  "act_frames [] = []" "act_frames (a @ b) = act_frames a @ act_frames b" "act_frames (map Written fs) = fs"
  "act_frames (Sent_Bytes x # a) = act_frames a" "act_frames (plc_write_int P r v) = []"
  by (simp_all add: act_bytes_def act_frames_def plc_write_int_def comp_def concat_map_singleton)

lemma bin_serve_is_drl_serve:
  "(act_bytes (bin_serve P C ps), act_frames (bin_serve P C ps))
     = drl_serve (\<lambda>b. map_option (ct_utf8 C) (ct_write C b)) ps"
  by (induction P C ps rule: bin_serve.induct) (auto simp: packet_types split: prod.splits)

lemma sample_is_drl_sample:
  "drl_sample cfg rs = map_option (\<lambda>(c, p, g, l, h). state_payload c p g l h) (fst (sample_values cfg rs))"
  by (simp add: drl_sample_def sample_values_def split: prod.splits)

text \<open>Only registers 0 to 23 of the PLC are written, whatever is configured, and none when the mirror is off.\<close>

lemma plc_registers_in_range:
  "Plc_Int a v \<in> set (plc_write_int P r x) \<Longrightarrow> pr_plc_feedback P \<and> 0 \<le> a \<and> a \<le> 23 \<and> v = x"
  by (auto simp: plc_write_int_def split: if_splits)

end
