(* ===== verification/MarkerScan.thy ===== *)
theory MarkerScan imports PoseNode begin

text \<open>
  \<open>vision/marker_scan_node.py\<close>: the ArUco markers of the top view, in the robot's base frame.

  OpenCV is not part of the repository: the corners and ids of a frame are the detector's answer, and
  the rotation that \<open>solvePnP\<close> and \<open>Rodrigues\<close> give for four corners is the argument \<open>orient\<close>; scipy's
  matrix-to-quaternion is \<open>quat_of\<close>. The debug image is left out.
\<close>

type_synonym marker_quat = "real \<times> real \<times> real \<times> real"

text \<open>The four corners of a marker in pixels.\<close>

type_synonym corners = "(real \<times> real) list"

record aruco_yaml =
  ay_dictionary :: "string option"
  ay_marker_size :: "real option"
  ay_place_radius_mm :: "real option"
  ay_stale_timeout :: "real option"
  ay_publish_debug :: "bool option"

record marker_node =
  mk_K :: intrinsics
  mk_dict :: string
  mk_size :: real
  mk_radius_mm :: real
  mk_stale :: real
  mk_debug :: bool
  mk_T :: "transform option"
  mk_last_detected :: real

datatype marker_error = Marker_Load hand_eye_error | Unknown_Dictionary string

definition ARUCO_DICT_MAP :: "string list" where
  "ARUCO_DICT_MAP = [''DICT_4X4_50'', ''DICT_4X4_100'', ''DICT_4X4_1000'', ''DICT_5X5_50'', ''DICT_6X6_50'']"

definition default_to :: "'a \<Rightarrow> 'a option \<Rightarrow> 'a" where
  "default_to d v = (case v of None \<Rightarrow> d | Some x \<Rightarrow> x)"

text \<open>Unlike the pose node, a missing hand-eye file is not caught.\<close>

definition marker_load_hand_eye :: "(hand_eye_error, transform) result \<Rightarrow> (marker_error, transform option) result" where
  "marker_load_hand_eye r =
     (case r of Inr T \<Rightarrow> Inr (Some T)
      | Inl e \<Rightarrow> if e = HandEyeNotCalibrated then Inr None else Inl (Marker_Load e))"

definition marker_node_init ::
  "intrinsics \<Rightarrow> aruco_yaml \<Rightarrow> (hand_eye_error, transform) result \<Rightarrow> (marker_error, marker_node) result" where
  "marker_node_init K y hand_eye =
     (case marker_load_hand_eye hand_eye of Inl e \<Rightarrow> Inl e
      | Inr T \<Rightarrow>
          (let dict = default_to ''DICT_4X4_50'' (ay_dictionary y)
           in if dict \<notin> set ARUCO_DICT_MAP then Inl (Unknown_Dictionary dict)
              else Inr \<lparr>mk_K = K, mk_dict = dict, mk_size = default_to (1 / 10) (ay_marker_size y),
                        mk_radius_mm = default_to 150 (ay_place_radius_mm y),
                        mk_stale = default_to 2 (ay_stale_timeout y),
                        mk_debug = default_to True (ay_publish_debug y), mk_T = T, mk_last_detected = 0\<rparr>))"

definition DEPTH_PATCH_HALF :: int where
  "DEPTH_PATCH_HALF = 2"

definition sample_depth_patch :: "depth_img \<Rightarrow> real \<Rightarrow> real \<Rightarrow> real option" where
  "sample_depth_patch img cx cy =
     (let x0 = max 0 (trunc cx - DEPTH_PATCH_HALF);
          y0 = max 0 (trunc cy - DEPTH_PATCH_HALF);
          x1 = min (int (di_w img)) (trunc cx + DEPTH_PATCH_HALF + 1);
          y1 = min (int (di_h img)) (trunc cy + DEPTH_PATCH_HALF + 1);
          valid = filter (\<lambda>z. 0 < z) (map (\<lambda>p. real p * DEPTH_SCALE) (roi_px img y0 y1 x0 x1))
      in if valid = [] then None else Some (median valid))"

definition mean_px :: "real list \<Rightarrow> real" where
  "mean_px xs = sum_list xs / real (length xs)"

definition column :: "(vec3 \<Rightarrow> real) \<Rightarrow> mat3 \<Rightarrow> vec3" where
  "column f R = (case R of (a, b, c) \<Rightarrow> V3 (f a) (f b) (f c))"

definition mat_mul :: "mat3 \<Rightarrow> mat3 \<Rightarrow> mat3" where
  "mat_mul A B =
     (let row = (\<lambda>a. V3 (vdot a (column vx B)) (vdot a (column vy B)) (vdot a (column vz B)))
      in case A of (a, b, c) \<Rightarrow> (row a, row b, row c))"

text \<open>The marker's own corners, in metres, in the plane \<open>z = 0\<close>: what \<open>solvePnP\<close> is given beside the pixels.\<close>

definition obj_pts :: "real \<Rightarrow> vec3 list" where
  "obj_pts side =
     (let half = side / 2
      in [V3 (- half) half 0, V3 half half 0, V3 half (- half) 0, V3 (- half) (- half) 0])"

type_synonym pnp = "vec3 list \<Rightarrow> intrinsics \<Rightarrow> corners \<Rightarrow> mat3"

definition estimate_pose ::
  "pnp \<Rightarrow> (mat3 \<Rightarrow> marker_quat) \<Rightarrow> marker_node \<Rightarrow> corners \<Rightarrow> depth_img \<Rightarrow> (vec3 \<times> marker_quat) option" where
  "estimate_pose orient quat_of s corner img =
     (let cx = mean_px (map fst corner); cy = mean_px (map snd corner)
      in case sample_depth_patch img cx cy of None \<Rightarrow> None
         | Some z \<Rightarrow>
             (let pos_cam = V3 ((cx - k_cx (mk_K s)) * z / k_fx (mk_K s)) ((cy - k_cy (mk_K s)) * z / k_fy (mk_K s)) z;
                  R_cam = orient (obj_pts (mk_size s)) (mk_K s) corner
              in Some (case mk_T s of
                         Some T \<Rightarrow> (camera_to_base pos_cam T, quat_of (mat_mul (tf_rot T) R_cam))
                       | None \<Rightarrow> (pos_cam, quat_of R_cam))))"

record marker_map =
  mm_header :: msg_header
  mm_radius :: real
  mm_calibrated :: bool
  mm_ids :: "int list"
  mm_poses :: "(vec3 \<times> marker_quat) list"

text \<open>\<open>corners[i]\<close> beside \<open>ids[i]\<close>: the detector returns as many corners as ids.\<close>

definition build_marker_map ::
  "pnp \<Rightarrow> (mat3 \<Rightarrow> marker_quat) \<Rightarrow> marker_node \<Rightarrow> real \<Rightarrow> real \<Rightarrow> (int \<times> corners) list \<Rightarrow> depth_img
   \<Rightarrow> marker_node \<times> marker_map" where
  "build_marker_map orient quat_of s now stamp found img =
     (let hdr = \<lparr>hd_stamp = stamp,
                 hd_frame = (if mk_T s = None then ''camera_color_optical_frame'' else ''base_link'')\<rparr>;
          msg = \<lparr>mm_header = hdr, mm_radius = mk_radius_mm s * (1 / 1000), mm_calibrated = (mk_T s \<noteq> None),
                 mm_ids = [], mm_poses = []\<rparr>
      in if found = [] then (s, msg)
         else let located = List.map_filter (\<lambda>(i, c). map_option (Pair i) (estimate_pose orient quat_of s c img)) found
              in (s\<lparr>mk_last_detected := now\<rparr>,
                  msg\<lparr>mm_ids := map fst located, mm_poses := map snd located\<rparr>))"

section \<open>What a marker map says\<close>

lemma patch_bounds:
  assumes "sample_depth_patch img cx cy = Some z"
  shows "0 < z \<and> (\<exists>r c r' c'. r < di_h img \<and> c < di_w img \<and> r' < di_h img \<and> c' < di_w img \<and>
    real (di_px img r c) * DEPTH_SCALE \<le> z \<and> z \<le> real (di_px img r' c') * DEPTH_SCALE)"
proof -
  obtain y0 y1 x0 x1 where
    z: "filter (\<lambda>z. 0 < z) (map (\<lambda>p. real p * DEPTH_SCALE) (roi_px img y0 y1 x0 x1)) \<noteq> []"
    "z = median (filter (\<lambda>z. 0 < z) (map (\<lambda>p. real p * DEPTH_SCALE) (roi_px img y0 y1 x0 x1)))"
    using assms unfolding sample_depth_patch_def Let_def by (auto split: if_splits)
  let ?v = "filter (\<lambda>z. 0 < z) (map (\<lambda>p. real p * DEPTH_SCALE) (roi_px img y0 y1 x0 x1))"
  have ends: "Min (set ?v) \<in> set ?v" "Max (set ?v) \<in> set ?v"
    using z(1) by (metis List.finite_set Min_in set_empty, metis List.finite_set Max_in set_empty)
  have between: "Min (set ?v) \<le> z \<and> z \<le> Max (set ?v)"
    unfolding z(2) using z(1) by (intro median_bounds) (auto intro!: Min_le Max_ge)
  have pixel: "0 < x \<and> (\<exists>r c. r < di_h img \<and> c < di_w img \<and> x = real (di_px img r c) * DEPTH_SCALE)"
    if "x \<in> set ?v" for x
    using that by (auto dest!: roi_px_inside)
  show ?thesis using pixel [OF ends(1)] pixel [OF ends(2)] between by (metis less_le_trans)
qed

lemma map_filter_pair_ids:
  "set (map fst (List.map_filter (\<lambda>(i, c). map_option (Pair i) (f c)) xs)) \<subseteq> set (map fst xs)"
  by (induction xs) (auto simp: map_filter_simps split: option.splits)

lemma located_from:
  "\<forall>x \<in> set (map snd (List.map_filter (\<lambda>(i, c). map_option (Pair i) (f c)) found)).
     \<exists>y \<in> set found. f (snd y) = Some x"
  by (induction found) (auto simp: map_filter_simps split: option.splits)

lemma marker_map_aligned:
  assumes "build_marker_map orient quat_of s now stamp found img = (s', msg)"
  shows "length (mm_ids msg) = length (mm_poses msg) \<and> set (mm_ids msg) \<subseteq> set (map fst found) \<and>
    (mm_calibrated msg \<longleftrightarrow> hd_frame (mm_header msg) = ''base_link'') \<and>
    (\<forall>x \<in> set (mm_poses msg). \<exists>y \<in> set found. estimate_pose orient quat_of s (snd y) img = Some x)"
proof (cases "found = []")
  case True
  then show ?thesis using assms by (auto simp: build_marker_map_def Let_def split: if_splits)
next
  case False
  have ids: "mm_ids msg = map fst (List.map_filter (\<lambda>(i, c). map_option (Pair i) (estimate_pose orient quat_of s c img)) found)"
    and poses: "mm_poses msg = map snd (List.map_filter (\<lambda>(i, c). map_option (Pair i) (estimate_pose orient quat_of s c img)) found)"
    and frame: "mm_calibrated msg \<longleftrightarrow> hd_frame (mm_header msg) = ''base_link''"
    using assms False by (auto simp: build_marker_map_def Let_def split: if_splits)
  show ?thesis
    unfolding ids poses by (intro conjI map_filter_pair_ids located_from frame) simp
qed

text \<open>Every published position stands on a measured depth: without calibration its height over the camera is one.\<close>

lemma uncalibrated_position_measured:
  assumes "estimate_pose orient quat_of s c img = Some (p, q)" and "mk_T s = None"
  shows "0 < vz p \<and> sample_depth_patch img (mean_px (map fst c)) (mean_px (map snd c)) = Some (vz p)"
  using assms patch_bounds by (auto simp: estimate_pose_def Let_def split: option.splits)

text \<open>The node starts exactly with a known dictionary and a hand-eye file that is either there or says it is not calibrated.\<close>

lemma marker_node_starts_iff:
  "(\<exists>s. marker_node_init K y hand_eye = Inr s) \<longleftrightarrow>
   default_to ''DICT_4X4_50'' (ay_dictionary y) \<in> set ARUCO_DICT_MAP \<and>
   (hand_eye = Inl HandEyeNotCalibrated \<or> (\<exists>T. hand_eye = Inr T))"
  by (auto simp: marker_node_init_def marker_load_hand_eye_def Let_def split: sum.splits if_splits)

end
