(* ===== verification/GripperMarker.thy ===== *)
theory GripperMarker imports PoseNode begin

text \<open>
  \<open>vision/gripper_marker_scan_node.py\<close>: the pose of a tool under the gripper camera, from the plane of
  a drawer's ArUco marker and the direction of the tool's mask.

  OpenCV, numpy's \<open>eigh\<close> and the transform tree are arguments: the markers of an image, the pose that
  \<open>solvePnP\<close> and \<open>Rodrigues\<close> give for four corners, the edges of \<open>Canny\<close>, the eigenvectors of a
  symmetric matrix, and \<open>lookup_transform\<close>. A focal length of zero and a quaternion of norm zero,
  where numpy divides to infinities, are outside the model. Drawing is left out.
\<close>

section \<open>Configuration and state\<close>

definition quat_to_rot :: "real \<Rightarrow> real \<Rightarrow> real \<Rightarrow> real \<Rightarrow> mat3" where
  "quat_to_rot x0 y0 z0 w0 =
     (let n = sqrt (x0 * x0 + y0 * y0 + z0 * z0 + w0 * w0);
          x = x0 / n; y = y0 / n; z = z0 / n; w = w0 / n
      in (V3 (1 - 2 * (y * y + z * z)) (2 * (x * y - z * w)) (2 * (x * z + y * w)),
          V3 (2 * (x * y + z * w)) (1 - 2 * (x * x + z * z)) (2 * (y * z - x * w)),
          V3 (2 * (x * z - y * w)) (2 * (y * z + x * w)) (1 - 2 * (x * x + y * y))))"

definition MARKER_ID_TO_LAYER :: "(int \<times> string) list" where
  "MARKER_ID_TO_LAYER = [(0, ''layer_0''), (1, ''layer_1''), (3, ''floor'')]"

text \<open>An entry of \<open>tools\<close> in \<open>toolbox.yaml\<close>: its id, and the height and diameter of its dimensions.\<close>

record tool_dims =
  td_tool_id :: string
  td_height :: "real option"
  td_diameter :: "real option"

fun load_tool_heights :: "tool_dims list \<Rightarrow> (string \<rightharpoonup> real)" where
  "load_tool_heights ts =
     foldl (\<lambda>m t. m(td_tool_id t \<mapsto>
       (case td_height t of Some h \<Rightarrow> h
        | None \<Rightarrow> (case td_diameter t of Some d \<Rightarrow> d | None \<Rightarrow> 20 / 1000)))) Map.empty ts"

record frames_yaml =
  fy_base_frame :: "string option"
  fy_gripper_frame :: "string option"

text \<open>The \<open>calibration\<close> section of \<open>runtime.yaml\<close>, if it has one.\<close>

definition load_frames :: "frames_yaml option \<Rightarrow> string \<times> string" where
  "load_frames calib =
     (let get = (\<lambda>f d. case calib of None \<Rightarrow> d | Some c \<Rightarrow> (case f c of None \<Rightarrow> d | Some x \<Rightarrow> x))
      in (get fy_base_frame ''base_link'', get fy_gripper_frame ''link_6''))"

text \<open>The two accumulators of the angle are set together, so one option holds both.\<close>

record gm_node =
  gm_K :: intrinsics
  gm_hand_eye :: transform
  gm_heights :: "string \<rightharpoonup> real"
  gm_marker_size :: real
  gm_base_frame :: string
  gm_gripper_frame :: string
  gm_ema :: "(real \<times> real) option"
  gm_mask :: "depth_img option"
  gm_mask_stamp :: real

definition THETA_ALPHA :: real where "THETA_ALPHA = 1 / 4"
definition THETA_OUTLIER_DEG :: real where "THETA_OUTLIER_DEG = 30"
definition MASK_STALE_SEC :: real where "MASK_STALE_SEC = 1 / 2"

definition gm_init ::
  "intrinsics \<Rightarrow> (real \<times> real \<times> real \<times> real) \<times> vec3 \<Rightarrow> tool_dims list \<Rightarrow> real \<Rightarrow> frames_yaml option \<Rightarrow> gm_node" where
  "gm_init K he tools marker_size calib =
     (case he of ((x, y, z, w), t) \<Rightarrow>
       \<lparr>gm_K = K, gm_hand_eye = \<lparr>tf_rot = quat_to_rot x y z w, tf_trans = t\<rparr>,
        gm_heights = load_tool_heights tools, gm_marker_size = marker_size,
        gm_base_frame = fst (load_frames calib), gm_gripper_frame = snd (load_frames calib),
        gm_ema = None, gm_mask = None, gm_mask_stamp = 0\<rparr>)"

section \<open>The point under the pixel\<close>

type_synonym px_corners = "(real \<times> real) list"

definition select_drawer_marker :: "(px_corners \<times> int) list \<Rightarrow> (px_corners \<times> int) option" where
  "select_drawer_marker found =
     (case filter (\<lambda>(_, mid). mid \<in> fst ` set MARKER_ID_TO_LAYER) found of
        [x] \<Rightarrow> Some x | _ \<Rightarrow> None)"

text \<open>
  What \<open>_marker_pose\<close> hands to OpenCV, and what comes back: the rotation of \<open>rvec\<close> and \<open>tvec\<close>, or
  nothing when \<open>solvePnP\<close> reports failure.
\<close>

type_synonym gm_pnp = "vec3 list \<Rightarrow> px_corners \<Rightarrow> (mat3 \<times> vec3) option"

definition marker_pose :: "gm_pnp \<Rightarrow> gm_node \<Rightarrow> px_corners \<Rightarrow> (mat3 \<times> vec3) option" where
  "marker_pose pnp s corners =
     (let half = gm_marker_size s / 2
      in pnp [V3 (- half) half 0, V3 half half 0, V3 half (- half) 0, V3 (- half) (- half) 0] corners)"

definition marker_normal :: "mat3 \<Rightarrow> vec3" where
  "marker_normal R = (let n = mat_vec R (V3 0 0 1) in if 0 < vz n then vscale (- 1) n else n)"

definition pixel_ray :: "intrinsics \<Rightarrow> real \<Rightarrow> real \<Rightarrow> vec3" where
  "pixel_ray K u v = V3 ((u - k_cx K) / k_fx K) ((v - k_cy K) / k_fy K) 1"

definition ray_plane_cam :: "intrinsics \<Rightarrow> real \<Rightarrow> real \<Rightarrow> mat3 \<Rightarrow> vec3 \<Rightarrow> real \<Rightarrow> vec3 option" where
  "ray_plane_cam K u v R tvec tool_h =
     (let n_cam = marker_normal R;
          P_plane = vsub tvec (vscale (tool_h / 2) n_cam);
          d = pixel_ray K u v;
          denom = vdot n_cam d
      in if \<bar>denom\<bar> < 1 / 1000000 then None
         else let t = vdot n_cam P_plane / denom
              in if t < 0 then None else Some (vscale t d))"

section \<open>The direction of the tool\<close>

definition atan2 :: "real \<Rightarrow> real \<Rightarrow> real" where
  "atan2 y x =
     (if 0 < x then arctan (y / x)
      else if x < 0 then (if 0 \<le> y then arctan (y / x) + pi else arctan (y / x) - pi)
      else if 0 < y then pi / 2 else if y < 0 then - (pi / 2) else 0)"

definition radians :: "real \<Rightarrow> real" where "radians a = a * pi / 180"
definition degrees :: "real \<Rightarrow> real" where "degrees a = a * 180 / pi"

text \<open>\<open>np.argwhere(image > 0)\<close>: (row, column), row by row.\<close>

definition argwhere :: "depth_img \<Rightarrow> (real \<times> real) list" where
  "argwhere img =
     concat (map (\<lambda>r. map (\<lambda>c. (real r, real c)) (filter (\<lambda>c. 0 < di_px img r c) [0 ..< di_w img])) [0 ..< di_h img])"

definition mean_of :: "real list \<Rightarrow> real" where
  "mean_of xs = sum_list xs / real (length xs)"

text \<open>\<open>eigh\<close> gets the entries of the covariance and gives each eigenvalue with its vector.\<close>

type_synonym eigh = "real \<times> real \<times> real \<Rightarrow> (real \<times> real \<times> real) \<times> (real \<times> real \<times> real)"

definition pca_angle :: "eigh \<Rightarrow> (real \<times> real) list \<Rightarrow> real" where
  "pca_angle eigh pts =
     (if length pts < 5 then 0
      else let my = mean_of (map fst pts); mx = mean_of (map snd pts);
               centered = map (\<lambda>(r, c). (r - my, c - mx)) pts;
               n = real (length pts);
               xx = sum_list (map (\<lambda>(y, x). x * x) centered) / n;
               xy = sum_list (map (\<lambda>(y, x). x * y) centered) / n;
               yy = sum_list (map (\<lambda>(y, x). y * y) centered) / n;
               ((l0, a0, b0), (l1, a1, b1)) = eigh (xx, xy, yy);
               (a, b) = (if l0 < l1 then (a1, b1) else (a0, b0));
               proj = map (\<lambda>(y, x). x * a + y * b) centered;
               flip = \<bar>Max (set proj)\<bar> < \<bar>Min (set proj)\<bar>
           in degrees (if flip then atan2 (- b) (- a) else atan2 b a))"

definition compute_pca_rz_from_mask :: "eigh \<Rightarrow> depth_img \<Rightarrow> real" where
  "compute_pca_rz_from_mask eigh img = pca_angle eigh (argwhere img)"

text \<open>The sub-image \<open>img[y0:y1, x0:x1]\<close>.\<close>

definition sub_img :: "depth_img \<Rightarrow> int \<Rightarrow> int \<Rightarrow> int \<Rightarrow> int \<Rightarrow> depth_img" where
  "sub_img img y0 y1 x0 x1 =
     (let ys = slice (di_h img) y0 y1; xs = slice (di_w img) x0 x1
      in \<lparr>di_h = length ys, di_w = length xs, di_px = (\<lambda>r c. di_px img (ys ! r) (xs ! c))\<rparr>)"

definition compute_pca_rz :: "eigh \<Rightarrow> (depth_img \<Rightarrow> depth_img) \<Rightarrow> depth_img \<Rightarrow> real \<Rightarrow> real \<Rightarrow> int \<Rightarrow> real" where
  "compute_pca_rz eigh canny gray cx cy radius =
     (let y0 = max 0 (trunc cy - radius); y1 = min (int (di_h gray)) (trunc cy + radius);
          x0 = max 0 (trunc cx - radius); x1 = min (int (di_w gray)) (trunc cx + radius)
      in pca_angle eigh (argwhere (canny (sub_img gray y0 y1 x0 x1))))"

text \<open>Python's \<open>a % 360.0\<close>: the result has the sign of the divisor.\<close>

definition fmod360 :: "real \<Rightarrow> real" where
  "fmod360 a = a - 360 * of_int \<lfloor>a / 360\<rfloor>"

definition angle_diff :: "real \<Rightarrow> real \<Rightarrow> real" where
  "angle_diff a b = \<bar>fmod360 (a - b + 180) - 180\<bar>"

definition ema_deg :: "real \<times> real \<Rightarrow> real" where
  "ema_deg e = degrees (atan2 (fst e) (snd e))"

text \<open>The gate and the smoothing: the accumulators after a raw angle, and the angle published.\<close>

definition smooth_theta :: "(real \<times> real) option \<Rightarrow> real \<Rightarrow> (real \<times> real) option \<times> real" where
  "smooth_theta ema rz_raw =
     (let s = sin (radians rz_raw); c = cos (radians rz_raw)
      in case ema of None \<Rightarrow> (Some (s, c), rz_raw)
         | Some (es, ec) \<Rightarrow>
             let cur = ema_deg (es, ec)
             in if THETA_OUTLIER_DEG < angle_diff rz_raw cur then (Some (es, ec), cur)
                else let e = (THETA_ALPHA * s + (1 - THETA_ALPHA) * es, THETA_ALPHA * c + (1 - THETA_ALPHA) * ec)
                     in (Some e, ema_deg e))"

section \<open>Callbacks\<close>

definition on_mask :: "gm_node \<Rightarrow> depth_img \<Rightarrow> real \<Rightarrow> gm_node" where
  "on_mask s img stamp = s\<lparr>gm_mask := Some img, gm_mask_stamp := stamp\<rparr>"

record gm_pose =
  gp_stamp :: real
  gp_frame :: string
  gp_pos :: vec3
  gp_qz :: real
  gp_qw :: real

record gm_world =
  gw_pnp :: gm_pnp
  gw_eigh :: eigh
  gw_canny :: "depth_img \<Rightarrow> depth_img"
  gw_lookup :: "string \<Rightarrow> string \<Rightarrow> ((real \<times> real \<times> real \<times> real) \<times> vec3) option"

text \<open>A failing lookup is one of the three exceptions the code catches.\<close>

definition lookup_base_from_gripper :: "gm_world \<Rightarrow> gm_node \<Rightarrow> transform option" where
  "lookup_base_from_gripper W s =
     (case gw_lookup W (gm_base_frame s) (gm_gripper_frame s) of None \<Rightarrow> None
      | Some ((x, y, z, w), t) \<Rightarrow> Some \<lparr>tf_rot = quat_to_rot x y z w, tf_trans = t\<rparr>)"

definition raw_theta :: "gm_world \<Rightarrow> gm_node \<Rightarrow> real \<Rightarrow> depth_img \<Rightarrow> real \<Rightarrow> real \<Rightarrow> real" where
  "raw_theta W s now gray cx cy =
     (case gm_mask s of
        Some m \<Rightarrow> if \<bar>now - gm_mask_stamp s\<bar> < MASK_STALE_SEC then compute_pca_rz_from_mask (gw_eigh W) m
                     else compute_pca_rz (gw_eigh W) (gw_canny W) gray cx cy 60
      | None \<Rightarrow> compute_pca_rz (gw_eigh W) (gw_canny W) gray cx cy 60)"

text \<open>The part of the callback that finds the position.\<close>

definition locate_tool :: "gm_world \<Rightarrow> gm_node \<Rightarrow> (px_corners \<times> int) list \<Rightarrow> string \<Rightarrow> real \<Rightarrow> real \<Rightarrow> vec3 option" where
  "locate_tool W s found tool_id cx cy =
     (case select_drawer_marker found of None \<Rightarrow> None
      | Some (corners, _) \<Rightarrow>
          (case marker_pose (gw_pnp W) s corners of None \<Rightarrow> None
           | Some (R, tvec) \<Rightarrow>
               (let tool_h = (case gm_heights s tool_id of Some h \<Rightarrow> h | None \<Rightarrow> 20 / 1000)
                in case ray_plane_cam (gm_K s) cx cy R tvec tool_h of None \<Rightarrow> None
                   | Some P_cam \<Rightarrow>
                       (let P_tcp = camera_to_base P_cam (gm_hand_eye s)
                        in map_option (camera_to_base P_tcp) (lookup_base_from_gripper W s)))))"

text \<open>
  \<open>_on_sync\<close>: the outer \<open>None\<close> is the IndexError of a detection without results, raised once
  there are detections and markers; \<open>found\<close> is empty when the detector returns no ids.
\<close>

definition on_sync ::
  "gm_world \<Rightarrow> gm_node \<Rightarrow> real \<Rightarrow> depth_img \<Rightarrow> (px_corners \<times> int) list \<Rightarrow> det2d list \<Rightarrow> (gm_node \<times> gm_pose option) option" where
  "on_sync W s stamp gray found dets =
     (case dets of [] \<Rightarrow> Some (s, None)
      | d # ds \<Rightarrow>
          if found = [] then Some (s, None)
          else if \<exists>x \<in> set dets. d2_results x = [] then None
          else let best = max_by (\<lambda>x. snd (hd (d2_results x))) d ds
               in case locate_tool W s found (fst (hd (d2_results best))) (d2_cx best) (d2_cy best) of
                    None \<Rightarrow> Some (s, None)
                  | Some P_base \<Rightarrow>
                      (let (ema, rz_deg) = smooth_theta (gm_ema s)
                             (raw_theta W s stamp gray (d2_cx best) (d2_cy best));
                           half_yaw = radians rz_deg / 2
                       in Some (s\<lparr>gm_ema := ema\<rparr>,
                            Some \<lparr>gp_stamp = stamp, gp_frame = gm_base_frame s, gp_pos = P_base,
                                  gp_qz = sin half_yaw, gp_qw = cos half_yaw\<rparr>)))"

text \<open>The topics in the order the executor delivers them; a run ends at the first exception.\<close>

datatype gm_event =
    Mask_Image depth_img real
  | Synced real depth_img "(px_corners \<times> int) list" "det2d list"

fun gm_run :: "gm_world \<Rightarrow> gm_node \<Rightarrow> gm_event list \<Rightarrow> (gm_node \<times> gm_pose list) option" where
  "gm_run W s [] = Some (s, [])"
| "gm_run W s (Mask_Image img stamp # evs) = gm_run W (on_mask s img stamp) evs"
| "gm_run W s (Synced stamp gray found dets # evs) =
     (case on_sync W s stamp gray found dets of None \<Rightarrow> None
      | Some (s', out) \<Rightarrow>
          map_option (\<lambda>(s'', ps). (s'', (case out of None \<Rightarrow> ps | Some p \<Rightarrow> p # ps))) (gm_run W s' evs))"

section \<open>Where the published point lies\<close>

lemma vdot_scale: "vdot n (vscale t d) = t * vdot n d"
  by (simp add: vdot_def vscale_def algebra_simps)

lemma vdot_sub: "vdot n (vsub a b) = vdot n a - vdot n b"
  by (simp add: vdot_def vsub_def algebra_simps)

lemma marker_normal_faces_camera: "vz (marker_normal R) \<le> 0"
  by (simp add: marker_normal_def Let_def vscale_def)

lemma marker_normal_unit:
  assumes "vdot (mat_vec R (V3 0 0 1)) (mat_vec R (V3 0 0 1)) = 1"
  shows "vdot (marker_normal R) (marker_normal R) = 1"
  using assms by (auto simp: marker_normal_def Let_def vscale_def vdot_def)

lemma ray_plane_hits:
  assumes "ray_plane_cam K u v R tvec h = Some p"
  shows "\<exists>t. 0 \<le> t \<and> p = vscale t (pixel_ray K u v) \<and>
    vdot (marker_normal R) (vsub p tvec) = - (h / 2) * vdot (marker_normal R) (marker_normal R)"
proof -
  define n d where "n = marker_normal R" and "d = pixel_ray K u v"
  define t where "t = vdot n (vsub tvec (vscale (h / 2) n)) / vdot n d"
  have p: "p = vscale t d" and t: "0 \<le> t" and slope: "vdot n d \<noteq> 0"
    using assms unfolding ray_plane_cam_def Let_def n_def [symmetric] d_def [symmetric] t_def [symmetric]
    by (auto split: if_splits)
  have "vdot n p = vdot n tvec - h / 2 * vdot n n"
    unfolding p vdot_scale t_def using slope by (simp add: vdot_sub vdot_scale)
  then have "vdot n (vsub p tvec) = - (h / 2) * vdot n n" by (simp add: vdot_sub)
  with p t show ?thesis unfolding n_def d_def by blast
qed

lemma select_one_marker:
  assumes "select_drawer_marker found = Some x"
  shows "x \<in> set found \<and> snd x \<in> {0, 1, 3} \<and>
    (\<forall>y \<in> set found. snd y \<in> {0, 1, 3} \<longrightarrow> y = x)"
proof -
  have "filter (\<lambda>(_, mid). mid \<in> fst ` set MARKER_ID_TO_LAYER) found = [x]"
    using assms by (auto simp: select_drawer_marker_def split: list.splits)
  then have "set (filter (\<lambda>(_, mid). mid \<in> fst ` set MARKER_ID_TO_LAYER) found) = {x}" by simp
  then have "{y \<in> set found. snd y \<in> {0, 1, 3}} = {x}"
    by (simp add: MARKER_ID_TO_LAYER_def case_prod_beta)
  then show ?thesis by blast
qed

lemma locate_tool_on_plane:
  assumes "locate_tool W s found tool_id cx cy = Some P"
  shows "\<exists>corners mid R tvec t P_cam T h.
    (corners, mid) \<in> set found \<and> mid \<in> {0, 1, 3} \<and> (\<forall>y \<in> set found. snd y \<in> {0, 1, 3} \<longrightarrow> y = (corners, mid)) \<and>
    marker_pose (gw_pnp W) s corners = Some (R, tvec) \<and> lookup_base_from_gripper W s = Some T \<and>
    h = (case gm_heights s tool_id of Some h \<Rightarrow> h | None \<Rightarrow> 20 / 1000) \<and>
    0 \<le> t \<and> P_cam = vscale t (pixel_ray (gm_K s) cx cy) \<and>
    vdot (marker_normal R) (vsub P_cam tvec) = - (h / 2) * vdot (marker_normal R) (marker_normal R) \<and>
    P = camera_to_base (camera_to_base P_cam (gm_hand_eye s)) T"
proof -
  define h where "h = (case gm_heights s tool_id of Some h \<Rightarrow> h | None \<Rightarrow> 20 / 1000)"
  obtain corners mid R tvec P_cam T where
    sel: "select_drawer_marker found = Some (corners, mid)"
    and pnp: "marker_pose (gw_pnp W) s corners = Some (R, tvec)"
    and hit: "ray_plane_cam (gm_K s) cx cy R tvec h = Some P_cam"
    and T: "lookup_base_from_gripper W s = Some T"
    and P: "P = camera_to_base (camera_to_base P_cam (gm_hand_eye s)) T"
    using assms unfolding locate_tool_def Let_def h_def [symmetric]
    by (auto split: option.splits prod.splits)
  have one: "(corners, mid) \<in> set found" "mid \<in> {0, 1, 3}"
    "\<forall>y \<in> set found. snd y \<in> {0, 1, 3} \<longrightarrow> y = (corners, mid)"
    using select_one_marker [OF sel] by auto
  obtain t where "0 \<le> t" "P_cam = vscale t (pixel_ray (gm_K s) cx cy)"
    "vdot (marker_normal R) (vsub P_cam tvec) = - (h / 2) * vdot (marker_normal R) (marker_normal R)"
    using ray_plane_hits [OF hit] by blast
  then show ?thesis using one pnp T P h_def by blast
qed

text \<open>Over a marker that faces the camera squarely the point lies half a tool's height beyond the marker's plane.\<close>

lemma flat_marker_depth:
  assumes "ray_plane_cam K u v R tvec h = Some p" "marker_normal R = V3 0 0 (- 1)"
  shows "vz p = vz tvec + h / 2"
  using ray_plane_hits [OF assms(1)] unfolding assms(2) by (auto simp: vdot_def vsub_def)

lemma on_sync_published:
  assumes "on_sync W s stamp gray found dets = Some (s', Some pose)"
  shows "\<exists>best \<in> set dets. \<exists>c score rest. d2_results best = (c, score) # rest \<and>
    (\<forall>d \<in> set dets. \<forall>c' score' rest'. d2_results d = (c', score') # rest' \<longrightarrow> score' \<le> score) \<and>
    locate_tool W s found c (d2_cx best) (d2_cy best) = Some (gp_pos pose) \<and>
    s' = s\<lparr>gm_ema := fst (smooth_theta (gm_ema s) (raw_theta W s stamp gray (d2_cx best) (d2_cy best)))\<rparr> \<and>
    pose = \<lparr>gp_stamp = stamp, gp_frame = gm_base_frame s, gp_pos = gp_pos pose,
      gp_qz = sin (radians (snd (smooth_theta (gm_ema s) (raw_theta W s stamp gray (d2_cx best) (d2_cy best)))) / 2),
      gp_qw = cos (radians (snd (smooth_theta (gm_ema s) (raw_theta W s stamp gray (d2_cx best) (d2_cy best)))) / 2)\<rparr>"
proof (cases dets)
  case (Cons d ds)
  define key where "key = (\<lambda>x :: det2d. snd (hd (d2_results x)))"
  define best where "best = max_by key d ds"
  have filled: "\<forall>x \<in> set dets. d2_results x \<noteq> []"
    using assms Cons by (auto simp: on_sync_def split: if_splits)
  have in_dets: "best \<in> set dets" unfolding best_def Cons by (rule max_by_in)
  then obtain c score rest where r: "d2_results best = (c, score) # rest"
    using filled by (metis list.exhaust surj_pair)
  have top: "\<forall>x \<in> set dets. key x \<le> key best"
    unfolding best_def Cons by (auto intro!: max_by_ge)
  have "locate_tool W s found c (d2_cx best) (d2_cy best) = Some (gp_pos pose) \<and>
    s' = s\<lparr>gm_ema := fst (smooth_theta (gm_ema s) (raw_theta W s stamp gray (d2_cx best) (d2_cy best)))\<rparr> \<and>
    pose = \<lparr>gp_stamp = stamp, gp_frame = gm_base_frame s, gp_pos = gp_pos pose,
      gp_qz = sin (radians (snd (smooth_theta (gm_ema s) (raw_theta W s stamp gray (d2_cx best) (d2_cy best)))) / 2),
      gp_qw = cos (radians (snd (smooth_theta (gm_ema s) (raw_theta W s stamp gray (d2_cx best) (d2_cy best)))) / 2)\<rparr>"
    using assms r unfolding on_sync_def Cons list.case Let_def key_def [symmetric] best_def [symmetric]
    by (auto split: if_splits option.splits prod.splits)
  moreover have "\<forall>x \<in> set dets. \<forall>c' score' rest'. d2_results x = (c', score') # rest' \<longrightarrow> score' \<le> score"
    using top r by (auto simp: key_def)
  ultimately show ?thesis using in_dets r by blast
qed (use assms in \<open>simp add: on_sync_def\<close>)

text \<open>The raw angles a run computes: one for each frame with detections, of its best one.\<close>

fun raw_angles :: "gm_world \<Rightarrow> gm_node \<Rightarrow> gm_event list \<Rightarrow> real list" where
  "raw_angles W s [] = []"
| "raw_angles W s (Mask_Image img stamp # evs) = raw_angles W (on_mask s img stamp) evs"
| "raw_angles W s (Synced stamp gray found dets # evs) =
     (case dets of [] \<Rightarrow> raw_angles W s evs
      | d # ds \<Rightarrow>
          let best = max_by (\<lambda>x. snd (hd (d2_results x))) d ds
          in raw_theta W s stamp gray (d2_cx best) (d2_cy best) # raw_angles W s evs)"

lemma smooth_theta_gate:
  "THETA_OUTLIER_DEG < angle_diff r (ema_deg e) \<Longrightarrow> smooth_theta (Some e) r = (Some e, ema_deg e)"
  by (cases e) (simp add: smooth_theta_def Let_def)

lemma on_sync_gated:
  assumes "on_sync W s stamp gray found dets = Some (s', out)" "gm_ema s = Some e"
    and "\<And>r. r \<in> set (raw_angles W s [Synced stamp gray found dets]) \<Longrightarrow> THETA_OUTLIER_DEG < angle_diff r (ema_deg e)"
  shows "s' = s \<and> (\<forall>p. out = Some p \<longrightarrow>
    gp_qz p = sin (radians (ema_deg e) / 2) \<and> gp_qw p = cos (radians (ema_deg e) / 2))"
proof (cases dets)
  case (Cons d ds)
  define best where "best = max_by (\<lambda>x :: det2d. snd (hd (d2_results x))) d ds"
  have gate: "smooth_theta (gm_ema s) (raw_theta W s stamp gray (d2_cx best) (d2_cy best)) = (Some e, ema_deg e)"
    unfolding assms(2) by (intro smooth_theta_gate assms(3)) (simp add: Cons best_def Let_def)
  show ?thesis
    using assms(1,2) unfolding on_sync_def Cons list.case Let_def best_def [symmetric] gate
    by (auto split: if_splits option.splits)
qed (use assms(1) in \<open>simp add: on_sync_def\<close>)

text \<open>C29: Once an angle is held, frames whose raw angle is more than 30 degrees away never change it, however
  many of them there are and however well they agree with each other: every pose they publish keeps the old direction.\<close>
theorem held_angle_stays:
  assumes "gm_run W s evs = Some (s', poses)" "gm_ema s = Some e"
    and "\<forall>r \<in> set (raw_angles W s evs). THETA_OUTLIER_DEG < angle_diff r (ema_deg e)"
  shows "gm_ema s' = Some e \<and> (\<forall>p \<in> set poses.
    gp_qz p = sin (radians (ema_deg e) / 2) \<and> gp_qw p = cos (radians (ema_deg e) / 2))"
  using assms
proof (induction W s evs arbitrary: s' poses rule: gm_run.induct)
  case (3 W s stamp gray found dets evs)
  obtain s1 out s2 ps where one: "on_sync W s stamp gray found dets = Some (s1, out)"
    and rest: "gm_run W s1 evs = Some (s2, ps)"
    and res: "s' = s2" "poses = (case out of None \<Rightarrow> ps | Some p \<Rightarrow> p # ps)"
    using "3.prems"(1) by (auto split: option.splits)
  have far: "\<And>r. r \<in> set (raw_angles W s [Synced stamp gray found dets]) \<Longrightarrow> THETA_OUTLIER_DEG < angle_diff r (ema_deg e)"
    "\<forall>r \<in> set (raw_angles W s evs). THETA_OUTLIER_DEG < angle_diff r (ema_deg e)"
    using "3.prems"(3) by (auto simp: Let_def split: list.splits)
  have same: "s1 = s" and now: "\<forall>p. out = Some p \<longrightarrow>
      gp_qz p = sin (radians (ema_deg e) / 2) \<and> gp_qw p = cos (radians (ema_deg e) / 2)"
    using on_sync_gated [OF one "3.prems"(2) far(1)] by auto
  have "gm_ema s2 = Some e \<and> (\<forall>p \<in> set ps.
      gp_qz p = sin (radians (ema_deg e) / 2) \<and> gp_qw p = cos (radians (ema_deg e) / 2))"
    using "3.IH" [OF one refl] rest far(2) "3.prems"(2) unfolding same by blast
  then show ?case using now by (auto simp: res split: option.splits)
qed (auto simp: on_mask_def)

definition demo_gm_world :: gm_world where
  "demo_gm_world = \<lparr>gw_pnp = (\<lambda>_ _. Some ((V3 1 0 0, V3 0 1 0, V3 0 0 1), V3 0 0 (1 / 2))),
     gw_eigh = (\<lambda>_. ((0, 1, 0), (1, 0, 1))), gw_canny = (\<lambda>img. img),
     gw_lookup = (\<lambda>_ _. Some ((0, 0, 0, 1), V3 0 0 0))\<rparr>"

definition demo_gm_node :: gm_node where
  "demo_gm_node = (gm_init \<lparr>k_fx = 1, k_fy = 1, k_cx = 0, k_cy = 0\<rparr> ((0, 0, 0, 1), V3 0 0 0) [] (1 / 20) None)
     \<lparr>gm_ema := Some (0, 1)\<rparr>"

definition demo_gm_events :: "gm_event list" where
  "demo_gm_events = [Mask_Image \<lparr>di_h = 5, di_w = 1, di_px = (\<lambda>_ _. 255)\<rparr> 0,
     Synced 0 \<lparr>di_h = 5, di_w = 1, di_px = (\<lambda>_ _. 0)\<rparr> [([], 0)]
       [\<lparr>d2_results = [(''spanner_16mm'', 9 / 10)], d2_cx = 0, d2_cy = 0, d2_w = 1, d2_h = 1\<rparr>]]"

lemma demo_gm_angle:
  "compute_pca_rz_from_mask (gw_eigh demo_gm_world) \<lparr>di_h = 5, di_w = 1, di_px = (\<lambda>_ _. 255)\<rparr> = 90"
  by (simp add: compute_pca_rz_from_mask_def pca_angle_def argwhere_def demo_gm_world_def mean_of_def Let_def
      atan2_def degrees_def upt_rec)

lemma demo_gm_far: "\<forall>r \<in> set (raw_angles demo_gm_world demo_gm_node demo_gm_events). THETA_OUTLIER_DEG < angle_diff r (ema_deg (0, 1))"
  by (simp add: demo_gm_events_def demo_gm_node_def on_mask_def raw_theta_def demo_gm_angle MASK_STALE_SEC_def Let_def
      THETA_OUTLIER_DEG_def angle_diff_def fmod360_def ema_deg_def atan2_def degrees_def del: One_nat_def)

lemma demo_gm_publishes: "\<exists>s' p. gm_run demo_gm_world demo_gm_node demo_gm_events = Some (s', [p])"
  by (simp add: demo_gm_events_def demo_gm_node_def gm_init_def on_mask_def on_sync_def max_by_def locate_tool_def
      select_drawer_marker_def MARKER_ID_TO_LAYER_def marker_pose_def demo_gm_world_def Let_def ray_plane_cam_def
      marker_normal_def pixel_ray_def vec_defs lookup_base_from_gripper_def case_prod_beta)

theorem held_angle_stays_witness:
  "\<exists>s' p. gm_run demo_gm_world demo_gm_node demo_gm_events = Some (s', [p]) \<and> gp_qz p = 0 \<and> gp_qw p = 1"
proof -
  obtain s' p where run: "gm_run demo_gm_world demo_gm_node demo_gm_events = Some (s', [p])"
    using demo_gm_publishes by blast
  have "gm_ema demo_gm_node = Some (0, 1)" by (simp add: demo_gm_node_def)
  from held_angle_stays [OF run this demo_gm_far] run show ?thesis
    by (simp add: ema_deg_def atan2_def degrees_def radians_def)
qed

text \<open>C30: A published pose belongs to a best-scored detection and to the only drawer marker in sight: carried back to
  the camera, the point is on the pixel's ray, half the tool's height behind the marker's plane as the camera sees it;
  it is given in the base frame, and its orientation is a unit quaternion.\<close>
theorem tool_point_on_plane:
  assumes "on_sync W s stamp gray found dets = Some (s', Some pose)"
  shows "\<exists>best \<in> set dets. \<exists>c score rest corners mid R tvec t P_cam T h.
    d2_results best = (c, score) # rest \<and>
    (\<forall>d \<in> set dets. \<forall>c' score' rest'. d2_results d = (c', score') # rest' \<longrightarrow> score' \<le> score) \<and>
    (corners, mid) \<in> set found \<and> mid \<in> {0, 1, 3} \<and> (\<forall>y \<in> set found. snd y \<in> {0, 1, 3} \<longrightarrow> y = (corners, mid)) \<and>
    marker_pose (gw_pnp W) s corners = Some (R, tvec) \<and> lookup_base_from_gripper W s = Some T \<and>
    h = (case gm_heights s c of Some h \<Rightarrow> h | None \<Rightarrow> 20 / 1000) \<and>
    0 \<le> t \<and> P_cam = vscale t (pixel_ray (gm_K s) (d2_cx best) (d2_cy best)) \<and>
    vz (marker_normal R) \<le> 0 \<and>
    vdot (marker_normal R) (vsub P_cam tvec) = - (h / 2) * vdot (marker_normal R) (marker_normal R) \<and>
    gp_pos pose = camera_to_base (camera_to_base P_cam (gm_hand_eye s)) T \<and>
    gp_frame pose = gm_base_frame s \<and> gp_qz pose * gp_qz pose + gp_qw pose * gp_qw pose = 1"
proof -
  obtain best c score rest where best: "best \<in> set dets" "d2_results best = (c, score) # rest"
      "\<forall>d \<in> set dets. \<forall>c' score' rest'. d2_results d = (c', score') # rest' \<longrightarrow> score' \<le> score"
    and loc: "locate_tool W s found c (d2_cx best) (d2_cy best) = Some (gp_pos pose)"
    and pose: "pose = \<lparr>gp_stamp = stamp, gp_frame = gm_base_frame s, gp_pos = gp_pos pose,
      gp_qz = sin (radians (snd (smooth_theta (gm_ema s) (raw_theta W s stamp gray (d2_cx best) (d2_cy best)))) / 2),
      gp_qw = cos (radians (snd (smooth_theta (gm_ema s) (raw_theta W s stamp gray (d2_cx best) (d2_cy best)))) / 2)\<rparr>"
    using on_sync_published [OF assms] by blast
  have "gp_frame pose = gm_base_frame s" and "gp_qz pose * gp_qz pose + gp_qw pose * gp_qw pose = 1"
    by (subst pose, simp) (subst (1 2 3 4) pose, simp add: power2_eq_square [symmetric])
  then show ?thesis using best locate_tool_on_plane [OF loc] marker_normal_faces_camera by metis
qed

lemma demo_gm_sync: "\<exists>s' p. on_sync demo_gm_world demo_gm_node 0 \<lparr>di_h = 5, di_w = 1, di_px = (\<lambda>_ _. 0)\<rparr> [([], 0)]
    [\<lparr>d2_results = [(''spanner_16mm'', 9 / 10)], d2_cx = 0, d2_cy = 0, d2_w = 1, d2_h = 1\<rparr>] = Some (s', Some p)"
  by (simp add: demo_gm_node_def gm_init_def on_sync_def max_by_def locate_tool_def
      select_drawer_marker_def MARKER_ID_TO_LAYER_def marker_pose_def demo_gm_world_def Let_def ray_plane_cam_def
      marker_normal_def pixel_ray_def vec_defs lookup_base_from_gripper_def case_prod_beta)

theorem tool_point_on_plane_witness:
  "\<exists>s' p. on_sync demo_gm_world demo_gm_node 0 \<lparr>di_h = 5, di_w = 1, di_px = (\<lambda>_ _. 0)\<rparr> [([], 0)]
    [\<lparr>d2_results = [(''spanner_16mm'', 9 / 10)], d2_cx = 0, d2_cy = 0, d2_w = 1, d2_h = 1\<rparr>] = Some (s', Some p) \<and>
    gp_frame p = ''base_link''"
proof -
  obtain s' p where pub: "on_sync demo_gm_world demo_gm_node 0 \<lparr>di_h = 5, di_w = 1, di_px = (\<lambda>_ _. 0)\<rparr> [([], 0)]
    [\<lparr>d2_results = [(''spanner_16mm'', 9 / 10)], d2_cx = 0, d2_cy = 0, d2_w = 1, d2_h = 1\<rparr>] = Some (s', Some p)"
    using demo_gm_sync by blast
  have "gp_frame p = gm_base_frame demo_gm_node" using tool_point_on_plane [OF pub] by blast
  moreover have "gm_base_frame demo_gm_node = ''base_link''"
    by (simp add: demo_gm_node_def gm_init_def load_frames_def)
  ultimately show ?thesis using pub by simp
qed

end
