(* ===== verification/Dashboard.thy ===== *)
theory Dashboard imports VoiceNodes begin

text \<open>
  \<open>dashboard/dashboard_node.py\<close>: what the operator's page is told and what its buttons send.

  The sqlite file, the cameras, the services and the web clients are the environment: each event
  carries what the code reads from them. JSON texts are the records they are made from, and an HTTP
  route is a constructor of \<open>web_request\<close>. FastAPI, uvicorn, OpenCV's encoder and the page itself are not
  part of the model.
\<close>

section \<open>Camera workers\<close>

datatype health = Healthy | Faulty | Stale

record camera =
  cw_open :: bool
  cw_frame :: "nat list option"
  cw_health :: health

definition camera_init :: camera where
  "camera_init = \<lparr>cw_open = False, cw_frame = None, cw_health = Faulty\<rparr>"

datatype cam_event = No_OpenCV | Opens bool | Reads "nat list" | Read_Fails

text \<open>One turn of \<open>CameraWorker._run\<close>; a turn the loop cannot take at this point is \<open>None\<close>.\<close>

fun cam_step :: "cam_event \<Rightarrow> camera \<Rightarrow> camera option" where
  "cam_step No_OpenCV c = (if cw_open c then None else Some c)"
| "cam_step (Opens ok) c =
     (if cw_open c then None
      else Some (if ok then c\<lparr>cw_open := True, cw_health := Healthy\<rparr> else c\<lparr>cw_health := Faulty\<rparr>))"
| "cam_step (Reads jpg) c = (if cw_open c then Some (c\<lparr>cw_frame := Some jpg\<rparr>) else None)"
| "cam_step Read_Fails c = (if cw_open c then Some (c\<lparr>cw_open := False, cw_health := Faulty\<rparr>) else None)"

fun cam_run :: "cam_event list \<Rightarrow> camera \<Rightarrow> camera option" where
  "cam_run [] c = Some c"
| "cam_run (e # es) c = Option.bind (cam_step e c) (cam_run es)"

text \<open>\<open>self._frame or placeholder\<close>: an empty frame counts as none.\<close>

definition get_frame :: "nat list \<Rightarrow> camera \<Rightarrow> nat list" where
  "get_frame placeholder c = (case cw_frame c of None \<Rightarrow> placeholder | Some f \<Rightarrow> if f = [] then placeholder else f)"

section \<open>The node's state\<close>

record widget_health =
  wh_robot :: health
  wh_plc :: health
  wh_db :: health
  wh_gripper_cam :: health
  wh_top_cam :: health

record dash_state =
  da_is_moving :: bool
  da_plc_state :: string
  da_tool_status :: string
  da_tool_id :: string
  da_gripper_current :: real
  da_gripper_position :: real
  da_health :: widget_health

record dashboard =
  dn_state :: dash_state
  dn_history :: "real list"
  dn_clients :: "nat list"
  dn_web_loop :: bool
  dn_cam_gripper :: camera
  dn_cam_top :: camera
  dn_intents :: "voice_intent list"

definition GRIPPER_CURRENT_MAXLEN :: nat where
  "GRIPPER_CURRENT_MAXLEN = 200"

definition dashboard_init :: dashboard where
  "dashboard_init =
     \<lparr>dn_state = \<lparr>da_is_moving = False, da_plc_state = ''unknown'', da_tool_status = ''unknown'',
        da_tool_id = ''socket_19mm'', da_gripper_current = 0, da_gripper_position = 0,
        da_health = \<lparr>wh_robot = Stale, wh_plc = Stale, wh_db = Stale, wh_gripper_cam = Stale, wh_top_cam = Stale\<rparr>\<rparr>,
      dn_history = [], dn_clients = [], dn_web_loop = False,
      dn_cam_gripper = camera_init, dn_cam_top = camera_init, dn_intents = []\<rparr>"

definition upd :: "(dash_state \<Rightarrow> dash_state) \<Rightarrow> dashboard \<Rightarrow> dashboard" where
  "upd f d = d\<lparr>dn_state := f (dn_state d)\<rparr>"

definition upd_health :: "(widget_health \<Rightarrow> widget_health) \<Rightarrow> dashboard \<Rightarrow> dashboard" where
  "upd_health f = upd (\<lambda>s. s\<lparr>da_health := f (da_health s)\<rparr>)"

section \<open>Subscriptions and timers\<close>

definition dash_on_robot_status :: "bool \<Rightarrow> dashboard \<Rightarrow> dashboard" where
  "dash_on_robot_status moving d =
     upd_health (\<lambda>h. h\<lparr>wh_robot := Healthy\<rparr>) (upd (\<lambda>s. s\<lparr>da_is_moving := moving\<rparr>) d)"

definition dash_on_plc_state :: "string \<Rightarrow> dashboard \<Rightarrow> dashboard" where
  "dash_on_plc_state data d =
     upd_health (\<lambda>h. h\<lparr>wh_plc := Healthy\<rparr>) (upd (\<lambda>s. s\<lparr>da_plc_state := data\<rparr>) d)"

definition dash_on_gripper_state :: "real list \<Rightarrow> real list \<Rightarrow> dashboard \<Rightarrow> dashboard" where
  "dash_on_gripper_state effort position d =
     (let d1 = (case effort of [] \<Rightarrow> d
                | cur # _ \<Rightarrow> (upd (\<lambda>s. s\<lparr>da_gripper_current := cur\<rparr>) d)
                    \<lparr>dn_history := deque_append GRIPPER_CURRENT_MAXLEN (dn_history d) cur\<rparr>)
      in case position of [] \<Rightarrow> d1 | p # _ \<Rightarrow> upd (\<lambda>s. s\<lparr>da_gripper_position := p\<rparr>) d1)"

datatype db_read = Db_Absent | Db_Raises | Db_Row "string option"

definition poll_db :: "(string \<Rightarrow> db_read) \<Rightarrow> dashboard \<Rightarrow> dashboard" where
  "poll_db file d =
     (case file (da_tool_id (dn_state d)) of
        Db_Absent \<Rightarrow> d
      | Db_Raises \<Rightarrow> upd_health (\<lambda>h. h\<lparr>wh_db := Faulty\<rparr>) d
      | Db_Row row \<Rightarrow>
          upd_health (\<lambda>h. h\<lparr>wh_db := Healthy\<rparr>)
            (upd (\<lambda>s. s\<lparr>da_tool_status := (case row of None \<Rightarrow> ''unknown'' | Some st \<Rightarrow> st)\<rparr>) d))"

record snapshot =
  sn_state :: dash_state
  sn_history :: "real list"

text \<open>
  \<open>dict(self._state)\<close> is shallow: writing the cameras into the snapshot's health writes them into
  the state's.
\<close>

definition broadcast_state :: "dashboard \<Rightarrow> dashboard \<times> (nat \<times> snapshot) list" where
  "broadcast_state d =
     (let d1 = upd_health (\<lambda>h. h\<lparr>wh_gripper_cam := cw_health (dn_cam_gripper d), wh_top_cam := cw_health (dn_cam_top d)\<rparr>) d;
          payload = \<lparr>sn_state = dn_state d1, sn_history = dn_history d1\<rparr>
      in (d1, if dn_web_loop d then map (\<lambda>ws. (ws, payload)) (dn_clients d) else []))"

text \<open>\<open>list.remove\<close> with its ValueError caught: the done callback, and the end of a connection.\<close>

definition drop_client :: "nat \<Rightarrow> dashboard \<Rightarrow> dashboard" where
  "drop_client ws d = d\<lparr>dn_clients := remove1 ws (dn_clients d)\<rparr>"

section \<open>Buttons\<close>

definition pub_intent :: "string \<Rightarrow> string \<Rightarrow> dashboard \<Rightarrow> dashboard" where
  "pub_intent intent_type tool_id d =
     d\<lparr>dn_intents := dn_intents d @ [\<lparr>vi_intent_type = intent_type, vi_tool_id = tool_id, vi_confidence = 0,
        vi_utterance = asc ''dashboard''\<rparr>]\<rparr>"

text \<open>A call whose future raises never sets the event, so it ends as a time-out as well.\<close>

datatype trigger_answer = Not_Ready | No_Answer | Future_Raises | Answers bool string

datatype web_reply =
    Done
  | Trigger_Reply bool string
  | Service_Not_Ready
  | Timed_Out
  | Rows "(string \<times> string) list list"
  | No_Database
  | Db_Error
  | Page string
  | Page_Not_Found
  | Stream "nat list"
  | Accepted

definition call_trigger :: "trigger_answer \<Rightarrow> web_reply" where
  "call_trigger a =
     (case a of Not_Ready \<Rightarrow> Service_Not_Ready | No_Answer \<Rightarrow> Timed_Out | Future_Raises \<Rightarrow> Timed_Out
      | Answers ok msg \<Rightarrow> Trigger_Reply ok msg)"

datatype trigger_name = Home | Estop | Estop_Reset | Open_Toolbox | Close_Toolbox

datatype web_request =
    Index
  | Cam_Gripper
  | Cam_Top
  | Ws_Connect nat
  | Ws_Disconnect nat
  | Action_Fetch "string option"
  | Action_Return "string option"
  | Action_Trigger trigger_name
  | Api_Tools
  | Api_Events

datatype table_read = Table_Absent | Table_Raises | Table_Rows "(string \<times> string) list list"

record web_world =
  ww_page :: "string option"
  ww_placeholder :: "nat list"
  ww_services :: "trigger_name \<Rightarrow> trigger_answer"
  ww_tools :: table_read
  ww_events :: table_read

definition api_table :: "table_read \<Rightarrow> web_reply" where
  "api_table t = (case t of Table_Absent \<Rightarrow> No_Database | Table_Raises \<Rightarrow> Db_Error | Table_Rows rs \<Rightarrow> Rows rs)"

text \<open>The parts of the multipart stream around one frame are constant; the frame is kept.\<close>

fun serve_route :: "web_world \<Rightarrow> web_request \<Rightarrow> dashboard \<Rightarrow> dashboard \<times> web_reply" where
  "serve_route W Index d = (d, case ww_page W of None \<Rightarrow> Page_Not_Found | Some p \<Rightarrow> Page p)"
| "serve_route W Cam_Gripper d = (d, Stream (get_frame (ww_placeholder W) (dn_cam_gripper d)))"
| "serve_route W Cam_Top d = (d, Stream (get_frame (ww_placeholder W) (dn_cam_top d)))"
| "serve_route W (Ws_Connect ws) d = (d\<lparr>dn_clients := dn_clients d @ [ws]\<rparr>, Accepted)"
| "serve_route W (Ws_Disconnect ws) d = (drop_client ws d, Done)"
| "serve_route W (Action_Fetch t) d = (pub_intent ''fetch'' (case t of None \<Rightarrow> ''socket_19mm'' | Some x \<Rightarrow> x) d, Done)"
| "serve_route W (Action_Return t) d = (pub_intent ''return'' (case t of None \<Rightarrow> ''socket_19mm'' | Some x \<Rightarrow> x) d, Done)"
| "serve_route W (Action_Trigger n) d = (d, call_trigger (ww_services W n))"
| "serve_route W Api_Tools d = (d, api_table (ww_tools W))"
| "serve_route W Api_Events d = (d, api_table (ww_events W))"

section \<open>Runs\<close>

datatype dash_event =
    Robot_Status bool
  | Plc_State string
  | Gripper_State "real list" "real list"
  | Db_Timer "string \<Rightarrow> db_read"
  | Broadcast_Timer
  | Send_Fails nat
  | Web_Starts
  | Gripper_Cam cam_event
  | Top_Cam cam_event
  | Request web_world web_request

definition cam_or_same :: "cam_event \<Rightarrow> camera \<Rightarrow> camera" where
  "cam_or_same e c = (case cam_step e c of None \<Rightarrow> c | Some c' \<Rightarrow> c')"

fun dash_step :: "dash_event \<Rightarrow> dashboard \<Rightarrow> dashboard" where
  "dash_step (Robot_Status b) d = dash_on_robot_status b d"
| "dash_step (Plc_State s) d = dash_on_plc_state s d"
| "dash_step (Gripper_State e p) d = dash_on_gripper_state e p d"
| "dash_step (Db_Timer f) d = poll_db f d"
| "dash_step Broadcast_Timer d = fst (broadcast_state d)"
| "dash_step (Send_Fails ws) d = drop_client ws d"
| "dash_step Web_Starts d = d\<lparr>dn_web_loop := True\<rparr>"
| "dash_step (Gripper_Cam e) d = d\<lparr>dn_cam_gripper := cam_or_same e (dn_cam_gripper d)\<rparr>"
| "dash_step (Top_Cam e) d = d\<lparr>dn_cam_top := cam_or_same e (dn_cam_top d)\<rparr>"
| "dash_step (Request W r) d = fst (serve_route W r d)"

definition dash_run :: "dash_event list \<Rightarrow> dashboard" where
  "dash_run evs = fold dash_step evs dashboard_init"

section \<open>What the page can rely on\<close>

named_theorems dash_defs

lemmas [dash_defs] = upd_def upd_health_def dash_on_robot_status_def dash_on_plc_state_def
  dash_on_gripper_state_def poll_db_def broadcast_state_def drop_client_def pub_intent_def

lemma dash_run_snoc: "dash_run (evs @ [e]) = dash_step e (dash_run evs)"
  by (simp add: dash_run_def)

lemma serve_route_state [simp]: "dn_state (fst (serve_route W r d)) = dn_state d" "dn_history (fst (serve_route W r d)) = dn_history d"
  by (cases r; simp add: dash_defs)+

text \<open>The robot's widget turns healthy with its first message and never changes again.\<close>

lemma robot_health_iff:
  "wh_robot (da_health (dn_state (dash_run evs))) = (if \<exists>b. Robot_Status b \<in> set evs then Healthy else Stale)"
proof (induction evs rule: rev_induct)
  case (snoc e evs)
  then show ?case
    unfolding dash_run_snoc by (cases e) (auto simp: dash_defs Let_def split: list.splits db_read.splits)
qed (simp add: dash_run_def dashboard_init_def)

text \<open>The wave shown is the last 200 currents received, in order.\<close>

definition currents :: "dash_event list \<Rightarrow> real list" where
  "currents evs = List.map_filter (\<lambda>e. case e of Gripper_State (c # _) _ \<Rightarrow> Some c | _ \<Rightarrow> None) evs"

lemma deque_append_drop:
  "deque_append n (drop (length xs - n) xs) x = drop (Suc (length xs) - n) (xs @ [x])"
proof (cases "length xs < n")
  case False
  then have "Suc (length xs) - (length xs - n + n) = 1" "Suc (length xs) - n = Suc (length xs - n)" by auto
  moreover have "length (drop (length xs - n) xs) = n" using False by simp
  ultimately show ?thesis
    unfolding deque_append_def by (cases "n = 0") (use False in \<open>simp_all add: drop_drop\<close>)
qed (simp add: deque_append_def)

lemma history_is_last_currents:
  "dn_history (dash_run evs) = drop (length (currents evs) - GRIPPER_CURRENT_MAXLEN) (currents evs)"
proof (induction evs rule: rev_induct)
  case (snoc e evs)
  have more: "currents (evs @ [e]) = currents evs @ currents [e]"
    by (simp add: currents_def map_filter_def)
  show ?case
  proof (cases "\<exists>c cs p. e = Gripper_State (c # cs) p")
    case True
    then obtain c cs p where e: "e = Gripper_State (c # cs) p" by blast
    have "dn_history (dash_run (evs @ [e])) = deque_append GRIPPER_CURRENT_MAXLEN (dn_history (dash_run evs)) c"
      unfolding dash_run_snoc e by (cases p) (auto simp: dash_defs Let_def)
    moreover have "currents [e] = [c]" by (simp add: currents_def e map_filter_simps)
    ultimately show ?thesis by (simp add: more snoc deque_append_drop)
  next
    case False
    then have "currents [e] = []" "dn_history (dash_step e (dash_run evs)) = dn_history (dash_run evs)"
      by (cases e; auto simp: currents_def map_filter_simps dash_defs Let_def split: list.splits db_read.splits)+
    then show ?thesis by (simp add: more snoc dash_run_snoc)
  qed
qed (simp add: dash_run_def dashboard_init_def currents_def map_filter_simps)

text \<open>A camera that failed after its first picture keeps serving that picture, not the placeholder.\<close>

lemma dead_camera_shows_old_picture:
  assumes "cam_run es c = Some c'" "cw_frame c = Some f" "f \<noteq> []" "\<And>j. Reads j \<notin> set es"
  shows "get_frame ph c' = f"
proof -
  have "cw_frame c' = Some f"
    using assms(1,2,4)
  proof (induction es arbitrary: c)
    case (Cons e es)
    then obtain c1 where "cam_step e c = Some c1" "cam_run es c1 = Some c'" by (auto split: bind_splits)
    moreover have "cw_frame c1 = Some f" using calculation(1) Cons.prems by (cases e) (auto split: if_splits)
    ultimately show ?case using Cons.IH [of c1] Cons.prems(3) by auto
  qed simp
  then show ?thesis using assms(3) by (simp add: get_frame_def)
qed

text \<open>Every client connected when the timer fires gets the state with the cameras' health of that moment.\<close>

lemma broadcast_reaches_clients:
  assumes "dn_web_loop d"
  shows "map fst (snd (broadcast_state d)) = dn_clients d \<and>
    (\<forall>(ws, p) \<in> set (snd (broadcast_state d)).
       sn_state p = dn_state (fst (broadcast_state d)) \<and>
       wh_gripper_cam (da_health (sn_state p)) = cw_health (dn_cam_gripper d))"
  using assms by (auto simp: dash_defs Let_def comp_def)

text \<open>Only the two buttons publish intents, and always one of the two kinds the orchestrator acts on.\<close>

lemma buttons_publish: "i \<in> set (dn_intents (dash_run evs)) \<Longrightarrow> vi_intent_type i \<in> {''fetch'', ''return''}"
proof (induction evs rule: rev_induct)
  case (snoc e evs)
  have "dn_intents (dash_step e d) = dn_intents d \<or>
      (\<exists>j. dn_intents (dash_step e d) = dn_intents d @ [j] \<and> vi_intent_type j \<in> {''fetch'', ''return''})" for d
  proof (cases e)
    case (Request W r)
    then show ?thesis by (cases r) (auto simp: dash_defs)
  qed (auto simp: dash_defs Let_def split: list.splits db_read.splits)
  from this [of "dash_run evs"] snoc show ?case unfolding dash_run_snoc by auto
qed (simp add: dash_run_def dashboard_init_def)

end
