(* ===== verification/GemmaPrompt.thy ===== *)
theory GemmaPrompt imports VoiceNodes begin

text \<open>
  \<open>voice/gemma_intent.py\<close> around the parser: the tool catalogue of \<open>toolbox.yaml\<close>, the prompt, the code
  fence of an answer, the construction of the classifier and a whole classification.

  A YAML document is the tree of its scalars, lists and mappings, the same type as parsed JSON. Reading
  a file, \<open>json.loads\<close>, the language model and its loading are arguments.
\<close>

section \<open>Loading\<close>

datatype gemma_load_error =
    Catalog_Unreadable | Catalog_Unparsable | Not_A_Mapping | No_Tools | Entry_Not_A_Mapping
  | Entry_Incomplete | Bad_Tool_Id utext | Bad_Aliases
  | Template_Unreadable | Template_Incomplete | Backend_Failed | Warmup_Failed | Inference_Failed

datatype yaml_file = Unreadable | Unparsable | Parsed json

text \<open>\<open>^[a-z][a-z0-9_]*$\<close>, on a text without a line break at its end.\<close>

definition id_start :: "int \<Rightarrow> bool" where "id_start c \<longleftrightarrow> 97 \<le> c \<and> c \<le> 122"
definition id_char :: "int \<Rightarrow> bool" where "id_char c \<longleftrightarrow> id_start c \<or> (48 \<le> c \<and> c \<le> 57) \<or> c = 95"

definition tool_id_pattern :: "utext \<Rightarrow> bool" where
  "tool_id_pattern t = (case t of [] \<Rightarrow> False | c # cs \<Rightarrow> id_start c \<and> list_all id_char cs)"

definition alias_values :: "(json \<Rightarrow> utext) \<Rightarrow> json \<Rightarrow> (gemma_load_error, utext list) result" where
  "alias_values shown raw =
     (case raw of JNull \<Rightarrow> Inr []
      | JList xs \<Rightarrow> Inr (filter (\<lambda>t. t \<noteq> []) (map (\<lambda>x. u_strip (json_str shown x)) xs))
      | _ \<Rightarrow> Inl Bad_Aliases)"

definition load_entry :: "(json \<Rightarrow> utext) \<Rightarrow> json \<Rightarrow> (gemma_load_error, tool_spec) result" where
  "load_entry shown raw =
     (case raw of
        JObj spec \<Rightarrow>
          let tool_id = u_strip (json_str shown (json_get (asc ''tool_id'') spec (JStr [])));
              label = u_strip (json_str shown (json_get (asc ''display_name'') spec (JStr [])))
          in if tool_id = [] \<or> label = [] then Inl Entry_Incomplete
             else if \<not> tool_id_pattern tool_id then Inl (Bad_Tool_Id tool_id)
             else (case alias_values shown (json_get (asc ''aliases'') spec (JList [])) of
                     Inl e \<Rightarrow> Inl e
                   | Inr vs \<Rightarrow> Inr \<lparr>sp_tool_id = tool_id, sp_label = label,
                                    sp_aliases = dedupe_preserve_order [] (label # vs)\<rparr>)
      | _ \<Rightarrow> Inl Entry_Not_A_Mapping)"

fun load_entries :: "(json \<Rightarrow> utext) \<Rightarrow> json list \<Rightarrow> (gemma_load_error, tool_spec list) result" where
  "load_entries shown [] = Inr []"
| "load_entries shown (r # rs) =
     (case load_entry shown r of Inl e \<Rightarrow> Inl e
      | Inr s \<Rightarrow> (case load_entries shown rs of Inl e \<Rightarrow> Inl e | Inr ss \<Rightarrow> Inr (s # ss)))"

definition load_tool_catalog :: "(json \<Rightarrow> utext) \<Rightarrow> yaml_file \<Rightarrow> (gemma_load_error, tool_spec list) result" where
  "load_tool_catalog shown file =
     (case file of Unreadable \<Rightarrow> Inl Catalog_Unreadable
      | Unparsable \<Rightarrow> Inl Catalog_Unparsable
      | Parsed (JObj raw_catalog) \<Rightarrow>
          (case json_get (asc ''tools'') raw_catalog (JList []) of
             JList raw_tools \<Rightarrow> if raw_tools = [] then Inl No_Tools else load_entries shown raw_tools
           | _ \<Rightarrow> Inl No_Tools)
      | Parsed _ \<Rightarrow> Inl Not_A_Mapping)"

definition TOOL_CATALOG_MARK :: utext where "TOOL_CATALOG_MARK = asc ''__TOOL_CATALOG__''"
definition RAW_TEXT_MARK :: utext where "RAW_TEXT_MARK = asc ''__RAW_TEXT__''"

text \<open>\<open>None\<close> is a file that cannot be read.\<close>

definition load_prompt_template :: "utext option \<Rightarrow> (gemma_load_error, utext) result" where
  "load_prompt_template file =
     (case file of None \<Rightarrow> Inl Template_Unreadable
      | Some t \<Rightarrow> if \<not> contains TOOL_CATALOG_MARK t \<or> \<not> contains RAW_TEXT_MARK t then Inl Template_Incomplete
                  else Inr t)"

section \<open>The prompt\<close>

fun join_with :: "utext \<Rightarrow> utext list \<Rightarrow> utext" where
  "join_with sep [] = []"
| "join_with sep [t] = t"
| "join_with sep (t # ts) = t @ sep @ join_with sep ts"

definition tool_catalog_lines :: "tool_spec list \<Rightarrow> utext" where
  "tool_catalog_lines catalog =
     join_with [10] (map (\<lambda>s. asc ''- '' @ sp_tool_id s @ asc '' ('' @ sp_label s @ asc ''): '' @ join_with (asc '', '') (sp_aliases s))
       catalog)"

text \<open>\<open>str.replace\<close> for an old text that is not empty.\<close>

function u_replace :: "utext \<Rightarrow> utext \<Rightarrow> utext \<Rightarrow> utext" where
  "u_replace old new t =
     (case t of [] \<Rightarrow> []
      | c # cs \<Rightarrow>
          if old \<noteq> [] \<and> take (length old) t = old then new @ u_replace old new (drop (length old) t)
          else c # u_replace old new cs)"
  by pat_completeness auto
termination by (relation "measure (\<lambda>(old, new, t). length t)") auto

declare u_replace.simps [simp del]

text \<open>An empty template or catalogue is falsy, and the default is loaded instead.\<close>

definition build_prompt ::
  "(gemma_load_error, utext) result \<Rightarrow> (gemma_load_error, tool_spec list) result \<Rightarrow> utext \<Rightarrow> utext \<Rightarrow> tool_spec list \<Rightarrow> (gemma_load_error, utext) result" where
  "build_prompt default_template default_catalog raw_text prompt_template tool_catalog =
     (case (if prompt_template \<noteq> [] then Inr prompt_template else default_template) of Inl e \<Rightarrow> Inl e
      | Inr template \<Rightarrow>
         (case (if tool_catalog \<noteq> [] then Inr tool_catalog else default_catalog) of Inl e \<Rightarrow> Inl e
          | Inr catalog \<Rightarrow>
              Inr (u_replace RAW_TEXT_MARK (u_strip raw_text)
                     (u_replace TOOL_CATALOG_MARK (tool_catalog_lines catalog) template))))"

section \<open>The answer\<close>

definition FENCE :: utext where "FENCE = asc ''```''"

text \<open>
  \<open>CODE_FENCE_PATTERN\<close> on a stripped text: the greedy and lazy parts leave exactly the text between
  the opening fence, with its optional \<open>json\<close>, and the closing one.
\<close>

definition strip_code_fence :: "utext \<Rightarrow> utext" where
  "strip_code_fence t =
     (if take 3 t \<noteq> FENCE then t
      else let r = drop 3 t;
               body = (if take 4 r = asc ''json'' then drop 4 r else r)
           in if 3 \<le> length body \<and> drop (length body - 3) body = FENCE
              then u_strip (take (length body - 3) body) else t)"

section \<open>The classifier\<close>

record gemma_config =
  gc_toolbox :: yaml_file
  gc_template :: "utext option"
  gc_threshold :: real
  gc_warmup :: bool

record gemma_classifier =
  gl_catalog :: "tool_spec list"
  gl_template :: utext
  gl_threshold :: real

text \<open>The language model: whether it loads, and what it answers; \<open>None\<close> is any exception.\<close>

record gemma_model =
  gm_loads :: bool
  gm_generate :: "utext \<Rightarrow> utext option"

definition generate_for :: "gemma_model \<Rightarrow> gemma_classifier \<Rightarrow> gemma_load_error \<Rightarrow> utext \<Rightarrow> (gemma_load_error, utext) result" where
  "generate_for M g failed raw_text =
     (case build_prompt (Inl Template_Unreadable) (Inl No_Tools) raw_text (gl_template g) (gl_catalog g) of
        Inl e \<Rightarrow> Inl e
      | Inr prompt \<Rightarrow> (case gm_generate M prompt of None \<Rightarrow> Inl failed | Some out \<Rightarrow> Inr out))"

definition WARMUP_TEXT :: utext where "WARMUP_TEXT = [0xCDE8, 0xC18C]"

definition gemma_classifier_init ::
  "(json \<Rightarrow> utext) \<Rightarrow> gemma_model \<Rightarrow> gemma_config \<Rightarrow> (gemma_load_error, gemma_classifier) result" where
  "gemma_classifier_init shown M cfg =
     (case load_tool_catalog shown (gc_toolbox cfg) of Inl e \<Rightarrow> Inl e
      | Inr catalog \<Rightarrow>
         (case load_prompt_template (gc_template cfg) of Inl e \<Rightarrow> Inl e
          | Inr template \<Rightarrow>
              (if \<not> gm_loads M then Inl Backend_Failed
               else let g = \<lparr>gl_catalog = catalog, gl_template = template, gl_threshold = gc_threshold cfg\<rparr>
                    in if gc_warmup cfg
                       then (case generate_for M g Warmup_Failed WARMUP_TEXT of Inl e \<Rightarrow> Inl Warmup_Failed | Inr _ \<Rightarrow> Inr g)
                       else Inr g)))"

datatype classify_raise = Not_Loaded gemma_load_error | Raised gemma_raise

definition classify_text ::
  "(json \<Rightarrow> utext) \<Rightarrow> (utext \<Rightarrow> py_float option) \<Rightarrow> (utext \<Rightarrow> json option) \<Rightarrow> gemma_model \<Rightarrow> gemma_classifier \<Rightarrow> utext
   \<Rightarrow> (classify_raise, gemma_result) result" where
  "classify_text shown read loads M g raw_text =
     (case generate_for M g Inference_Failed raw_text of Inl e \<Rightarrow> Inl (Not_Loaded e)
      | Inr raw_output \<Rightarrow>
         (case classify shown read (gl_catalog g) (gl_threshold g) (loads (strip_code_fence (u_strip raw_output))) of
            Inl e \<Rightarrow> Inl (Raised e) | Inr res \<Rightarrow> Inr res))"

section \<open>What loading guarantees\<close>

lemma dedupe_distinct:
  "distinct (dedupe_preserve_order seen vs) \<and> set (dedupe_preserve_order seen vs) = set vs - set seen"
  by (induction seen vs rule: dedupe_preserve_order.induct) auto

definition spec_ok :: "tool_spec \<Rightarrow> bool" where
  "spec_ok s \<longleftrightarrow> tool_id_pattern (sp_tool_id s) \<and> sp_label s \<noteq> [] \<and> distinct (sp_aliases s) \<and>
     sp_aliases s \<noteq> [] \<and> hd (sp_aliases s) = sp_label s"

lemma load_entry_ok: "load_entry shown r = Inr s \<Longrightarrow> spec_ok s"
  using dedupe_distinct [of "[]"] dedupe_distinct [of "[sp_label s]"]
  by (auto simp: load_entry_def spec_ok_def Let_def split: json.splits sum.splits if_splits)

lemma load_entries_ok: "load_entries shown rs = Inr ss \<Longrightarrow> list_all spec_ok ss \<and> length ss = length rs"
  by (induction rs arbitrary: ss) (auto split: sum.splits dest: load_entry_ok)

lemma catalog_ok: "load_tool_catalog shown file = Inr catalog \<Longrightarrow> catalog \<noteq> [] \<and> list_all spec_ok catalog"
  by (auto simp: load_tool_catalog_def split: yaml_file.splits json.splits if_splits dest!: load_entries_ok)

text \<open>Every tool of a loaded catalogue can be named by its id.\<close>

lemma id_char_kept: "id_char c \<Longrightarrow> \<not> u_space c \<and> u_lower_char c = [c] \<and> c \<noteq> 45 \<and> c \<noteq> 32"
  by (auto simp: id_char_def id_start_def u_space_def u_lower_char_def)

lemma id_text_kept:
  assumes "list_all id_char t" shows "u_strip t = t \<and> u_lower t = t"
proof -
  have "\<forall>c \<in> set t. \<not> u_space c" using assms id_char_kept by (auto simp: list_all_iff)
  then have "dropWhile u_space t = t" "dropWhile u_space (rev t) = rev t"
    by (cases "t = []"; simp add: dropWhile_eq_self_iff hd_rev)+
  moreover have "u_lower t = t"
    using assms id_char_kept by (induction t) (auto simp: u_lower_def)
  ultimately show ?thesis by (simp add: u_strip_def u_lstrip_def)
qed

lemma catalog_ids_resolve:
  assumes "load_tool_catalog shown file = Inr catalog" "s \<in> set catalog"
  shows "normalize_tool_id aliases (map sp_tool_id catalog) (sp_tool_id s) = sp_tool_id s"
proof -
  have "tool_id_pattern (sp_tool_id s)"
    using catalog_ok [OF assms(1)] assms(2) by (auto simp: list_all_iff spec_ok_def)
  then have chars: "list_all id_char (sp_tool_id s)" and "sp_tool_id s \<noteq> []"
    by (auto simp: tool_id_pattern_def id_char_def split: list.splits)
  have "map (\<lambda>c. if c = 45 \<or> c = 32 then 95 else c) (sp_tool_id s) = sp_tool_id s"
    using chars id_char_kept by (intro map_idI) (auto simp: list_all_iff)
  then have "normalize_tool_key (sp_tool_id s) = sp_tool_id s"
    using id_text_kept [OF chars] by (simp add: normalize_tool_key_def)
  then show ?thesis using assms(2) \<open>sp_tool_id s \<noteq> []\<close> by (simp add: normalize_tool_id_def Let_def)
qed

text \<open>A fenced answer loses exactly its fence.\<close>

lemma fenced_answer:
  "strip_code_fence (FENCE @ asc ''json'' @ body @ FENCE) = u_strip body"
  by (simp add: strip_code_fence_def FENCE_def asc_def Let_def)

lemma plain_answer: "take 3 t \<noteq> FENCE \<Longrightarrow> strip_code_fence t = t"
  by (simp add: strip_code_fence_def)

text \<open>Replacing a mark that occurs puts the new text in its place.\<close>

lemma u_replace_inserts:
  assumes "old \<noteq> []" "sublist old t"
  shows "sublist new (u_replace old new t)"
  using assms
proof (induction old new t rule: u_replace.induct)
  case (1 old new t)
  obtain c cs where t: "t = c # cs" using "1.prems" by (cases t) auto
  show ?case
  proof (cases "take (length old) t = old")
    case True
    then show ?thesis
      using "1.prems"(1) by (subst u_replace.simps) (auto simp: t intro: sublist_appendI)
  next
    case False
    then have "\<not> prefix old t" by (metis append_eq_conv_conj prefix_def)
    then have "sublist old cs" using "1.prems"(2) by (auto simp: t sublist_Cons_right)
    then have "sublist new (u_replace old new cs)" using "1.IH"(2) [OF t] False "1.prems"(1) by (simp add: t)
    then show ?thesis using False by (subst u_replace.simps) (auto simp: t sublist_Cons_right)
  qed
qed

lemma prompt_has_utterance:
  assumes "build_prompt dt dc raw template catalog = Inr prompt" "template \<noteq> []" "catalog \<noteq> []"
    and "contains RAW_TEXT_MARK (u_replace TOOL_CATALOG_MARK (tool_catalog_lines catalog) template)"
  shows "contains (u_strip raw) prompt"
proof -
  have "RAW_TEXT_MARK \<noteq> []" by (simp add: RAW_TEXT_MARK_def asc_def)
  then show ?thesis
    using assms u_replace_inserts by (auto simp: build_prompt_def contains_iff)
qed

text \<open>The check of the template passes marks that share their underscores, and then the prompt lacks the utterance.\<close>

lemma overlapping_marks_lose_utterance:
  "load_prompt_template (Some (asc ''__TOOL_CATALOG__RAW_TEXT__'')) = Inr (asc ''__TOOL_CATALOG__RAW_TEXT__'') \<and>
   build_prompt dt dc raw (asc ''__TOOL_CATALOG__RAW_TEXT__'') [\<lparr>sp_tool_id = asc ''a'', sp_label = asc ''b'', sp_aliases = []\<rparr>]
     = Inr (asc ''- a (b): RAW_TEXT__'')"
proof
  show "load_prompt_template (Some (asc ''__TOOL_CATALOG__RAW_TEXT__'')) = Inr (asc ''__TOOL_CATALOG__RAW_TEXT__'')"
    by code_simp
  show "build_prompt dt dc raw (asc ''__TOOL_CATALOG__RAW_TEXT__'') [\<lparr>sp_tool_id = asc ''a'', sp_label = asc ''b'', sp_aliases = []\<rparr>]
     = Inr (asc ''- a (b): RAW_TEXT__'')"
    by (simp add: build_prompt_def TOOL_CATALOG_MARK_def RAW_TEXT_MARK_def tool_catalog_lines_def asc_def u_replace.simps)
qed

text \<open>When the classifier exists, and what it can raise afterwards.\<close>

lemma classifier_starts_iff:
  "(\<exists>g. gemma_classifier_init shown M cfg = Inr g) \<longleftrightarrow>
   (\<exists>catalog template. load_tool_catalog shown (gc_toolbox cfg) = Inr catalog \<and>
      load_prompt_template (gc_template cfg) = Inr template \<and> gm_loads M \<and>
      (gc_warmup cfg \<longrightarrow> (\<exists>prompt. build_prompt (Inl Template_Unreadable) (Inl No_Tools) WARMUP_TEXT template catalog = Inr prompt
         \<and> gm_generate M prompt \<noteq> None)))"
  by (auto simp: gemma_classifier_init_def generate_for_def Let_def split: sum.splits option.splits)

lemma classifier_ready:
  assumes "gemma_classifier_init shown M cfg = Inr g"
  shows "gl_catalog g \<noteq> [] \<and> gl_template g \<noteq> [] \<and> list_all spec_ok (gl_catalog g)"
proof -
  have "load_tool_catalog shown (gc_toolbox cfg) = Inr (gl_catalog g)"
    "load_prompt_template (gc_template cfg) = Inr (gl_template g)"
    using assms by (auto simp: gemma_classifier_init_def Let_def split: sum.splits if_splits)
  moreover have "gl_template g \<noteq> []"
    using calculation(2) by (auto simp: load_prompt_template_def RAW_TEXT_MARK_def asc_def split: option.splits if_splits)
  ultimately show ?thesis using catalog_ok by blast
qed

lemma classify_raises_only:
  assumes "gemma_classifier_init shown M cfg = Inr g" "classify_text shown read loads M g raw = Inl e"
  shows "e = Not_Loaded Inference_Failed \<or> e = Raised FloatOverflow"
  using assms(2) classifier_ready [OF assms(1)]
  by (auto simp: classify_text_def generate_for_def build_prompt_def classify_def
      split: sum.splits option.splits gemma_raise.splits if_splits)

end
